(* ===== verification/Prelude.thy ===== *)
theory Prelude
  imports Main
begin

text \<open>
  Shared vocabulary of the development: Python dictionaries as insertion-ordered
  association lists, results that carry either an exception or a value, stateful code that
  may raise, and the generic lemmas the component theories use.
\<close>

section \<open>Collections of rewrite rules\<close>

named_theorems dict_simps \<open>equations of the dictionary operations\<close>
named_theorems res_simps \<open>equations of the result and state-exception combinators\<close>

section \<open>Python dictionaries\<close>

text \<open>
  A dictionary keeps the order in which its keys were first inserted; iteration follows that
  order. Assigning to a key that is present keeps its position.
\<close>

type_synonym ('k, 'v) dict = "('k \<times> 'v) list"

abbreviation dict_get :: "('k, 'v) dict \<Rightarrow> 'k \<Rightarrow> 'v option" where
  "dict_get m k \<equiv> map_of m k"

abbreviation dict_keys :: "('k, 'v) dict \<Rightarrow> 'k list" where
  "dict_keys m \<equiv> map fst m"

abbreviation dict_values :: "('k, 'v) dict \<Rightarrow> 'v list" where
  "dict_values m \<equiv> map snd m"

abbreviation dict_wf :: "('k, 'v) dict \<Rightarrow> bool" where
  "dict_wf m \<equiv> distinct (dict_keys m)"

fun dict_set :: "'k \<Rightarrow> 'v \<Rightarrow> ('k, 'v) dict \<Rightarrow> ('k, 'v) dict" where
  "dict_set k v [] = [(k, v)]"
| "dict_set k v ((k', v') # m) = (if k' = k then (k, v) # m else (k', v') # dict_set k v m)"

definition dict_del :: "'k \<Rightarrow> ('k, 'v) dict \<Rightarrow> ('k, 'v) dict" where
  "dict_del k m = filter (\<lambda>(k', _). k' \<noteq> k) m"

definition dict_update :: "('k, 'v) dict \<Rightarrow> ('k, 'v) dict \<Rightarrow> ('k, 'v) dict" where
  \<comment> \<open>\<open>m.update(u)\<close>\<close>
  "dict_update m u = fold (\<lambda>(k, v). dict_set k v) u m"

lemma dict_get_set [simp, dict_simps]:
  "dict_get (dict_set k v m) k' = (if k' = k then Some v else dict_get m k')"
  by (induction k v m rule: dict_set.induct) auto

lemma dict_get_del [simp, dict_simps]:
  "dict_get (dict_del k m) k' = (if k' = k then None else dict_get m k')"
  by (induction m) (auto simp: dict_del_def)

lemma dict_keys_set [dict_simps]:
  "dict_keys (dict_set k v m) = (if k \<in> set (dict_keys m) then dict_keys m else dict_keys m @ [k])"
  by (induction k v m rule: dict_set.induct) auto

lemma dict_keys_del [dict_simps]:
  "dict_keys (dict_del k m) = filter (\<lambda>k'. k' \<noteq> k) (dict_keys m)"
  by (induction m) (auto simp: dict_del_def)

lemma dict_wf_set [intro, simp]: "dict_wf m \<Longrightarrow> dict_wf (dict_set k v m)"
  by (simp add: dict_keys_set)

lemma dict_wf_del [intro, simp]: "dict_wf m \<Longrightarrow> dict_wf (dict_del k m)"
  by (simp add: dict_keys_del)

lemma dict_set_fresh: "k \<notin> set (dict_keys m) \<Longrightarrow> dict_set k v m = m @ [(k, v)]"
  by (induction k v m rule: dict_set.induct) auto

lemma dict_del_absent: "k \<notin> set (dict_keys m) \<Longrightarrow> dict_del k m = m"
  by (induction m) (auto simp: dict_del_def)

lemma set_dict_del: "set (dict_del k m) = {kv \<in> set m. fst kv \<noteq> k}"
  by (auto simp: dict_del_def)

lemma set_dict_set:
  "dict_wf m \<Longrightarrow> set (dict_set k v m) = insert (k, v) {kv \<in> set m. fst kv \<noteq> k}"
  by (induction k v m rule: dict_set.induct) (auto simp: image_iff)

lemma dict_get_in: "dict_get m k = Some v \<Longrightarrow> k \<in> set (dict_keys m)"
  by (metis map_of_eq_None_iff option.simps(3) set_map)

lemma dict_get_None: "dict_get m k = None \<longleftrightarrow> k \<notin> set (dict_keys m)"
  by (simp add: map_of_eq_None_iff)

lemma length_dict_set:
  "length (dict_set k v m) = (if k \<in> set (dict_keys m) then length m else Suc (length m))"
  by (induction k v m rule: dict_set.induct) auto

text \<open>The contract clients of a dictionary rely on, proved for the model above.\<close>

locale dictionary =
  fixes lookup :: "'m \<Rightarrow> 'k \<Rightarrow> 'v option"
    and store :: "'k \<Rightarrow> 'v \<Rightarrow> 'm \<Rightarrow> 'm"
    and discard :: "'k \<Rightarrow> 'm \<Rightarrow> 'm"
    and keys :: "'m \<Rightarrow> 'k list"
    and ok :: "'m \<Rightarrow> bool"
  assumes lookup_store: "lookup (store k v m) k' = (if k' = k then Some v else lookup m k')"
    and lookup_discard: "lookup (discard k m) k' = (if k' = k then None else lookup m k')"
    and lookup_keys: "lookup m k = None \<longleftrightarrow> k \<notin> set (keys m)"
    and ok_store: "ok m \<Longrightarrow> ok (store k v m)"
    and ok_discard: "ok m \<Longrightarrow> ok (discard k m)"
begin

lemma keys_store: "set (keys (store k v m)) = insert k (set (keys m))"
proof (rule set_eqI)
  fix x
  show "x \<in> set (keys (store k v m)) \<longleftrightarrow> x \<in> insert k (set (keys m))"
    using lookup_keys [of "store k v m" x] lookup_keys [of m x] by (auto simp: lookup_store split: if_splits)
qed

lemma keys_discard: "set (keys (discard k m)) = set (keys m) - {k}"
proof (rule set_eqI)
  fix x
  show "x \<in> set (keys (discard k m)) \<longleftrightarrow> x \<in> set (keys m) - {k}"
    using lookup_keys [of "discard k m" x] lookup_keys [of m x] by (auto simp: lookup_discard split: if_splits)
qed

lemma store_all:
  "lookup (fold (\<lambda>(k, v). store k v) kvs m) k' =
     (case map_of (rev kvs) k' of Some v \<Rightarrow> Some v | None \<Rightarrow> lookup m k')"
proof (induction kvs arbitrary: m)
  case (Cons kv kvs)
  then show ?case
    by (cases kv; cases "map_of (rev kvs) k'") (simp_all add: lookup_store map_add_def)
qed simp

lemma ok_store_all: "ok m \<Longrightarrow> ok (fold (\<lambda>(k, v). store k v) kvs m)"
  by (induction kvs arbitrary: m) (auto intro: ok_store)

end

interpretation py_dict: dictionary "map_of" dict_set dict_del "map fst" "\<lambda>m. distinct (map fst m)"
  by unfold_locales (simp_all add: dict_get_None)

lemma dict_get_update [dict_simps]:
  "dict_get (dict_update m u) k =
     (case dict_get (rev u) k of Some v \<Rightarrow> Some v | None \<Rightarrow> dict_get m k)"
  unfolding dict_update_def by (rule py_dict.store_all)

lemma dict_wf_update [intro, simp]: "dict_wf m \<Longrightarrow> dict_wf (dict_update m u)"
  unfolding dict_update_def by (rule py_dict.ok_store_all)

section \<open>Lists\<close>

lemma find_SomeD: "List.find P xs = Some x \<Longrightarrow> x \<in> set xs \<and> P x"
  by (induction xs) (auto split: if_splits)

lemma find_NoneD: "List.find P xs = None \<Longrightarrow> x \<in> set xs \<Longrightarrow> \<not> P x"
  by (induction xs) (auto split: if_splits)

lemma find_append: "List.find P (xs @ ys) = (case List.find P xs of None \<Rightarrow> List.find P ys | Some x \<Rightarrow> Some x)"
  by (induction xs) auto

lemma distinct_concat_map_eq:
  assumes "distinct (concat (map f xs))" "x \<in> set xs" "y \<in> set xs" "z \<in> set (f x)" "z \<in> set (f y)"
  shows "x = y"
  using assms by (induction xs) auto

lemma distinct_concat_map: "distinct (concat (map f xs)) \<Longrightarrow> x \<in> set xs \<Longrightarrow> distinct (f x)"
  by (induction xs) auto

section \<open>Results and stateful code that raises\<close>

text \<open>
  \<open>Inl e\<close> is a raised exception, \<open>Inr x\<close> a returned value. Code that changes a state
  and may raise is a function from the state to a result and the state left behind: an
  exception does not undo the changes made before it.
\<close>

type_synonym ('e, 'a) res = "'e + 'a"
type_synonym ('s, 'e, 'a) st = "'s \<Rightarrow> ('e, 'a) res \<times> 's"

definition rbind :: "('e, 'a) res \<Rightarrow> ('a \<Rightarrow> ('e, 'b) res) \<Rightarrow> ('e, 'b) res" where
  "rbind r f = (case r of Inl e \<Rightarrow> Inl e | Inr x \<Rightarrow> f x)"

definition sreturn :: "'a \<Rightarrow> ('s, 'e, 'a) st" where
  "sreturn x s = (Inr x, s)"

definition sraise :: "'e \<Rightarrow> ('s, 'e, 'a) st" where
  "sraise e s = (Inl e, s)"

definition sbind :: "('s, 'e, 'a) st \<Rightarrow> ('a \<Rightarrow> ('s, 'e, 'b) st) \<Rightarrow> ('s, 'e, 'b) st" where
  "sbind m f s = (case m s of (Inl e, s') \<Rightarrow> (Inl e, s') | (Inr x, s') \<Rightarrow> f x s')"

definition sget :: "('s, 'e, 's) st" where
  "sget s = (Inr s, s)"

definition sput :: "'s \<Rightarrow> ('s, 'e, unit) st" where
  "sput s' s = (Inr (), s')"

definition smodify :: "('s \<Rightarrow> 's) \<Rightarrow> ('s, 'e, unit) st" where
  "smodify f s = (Inr (), f s)"

definition slift :: "('e, 'a) res \<Rightarrow> ('s, 'e, 'a) st" where
  "slift r s = (r, s)"

definition scatch :: "('s, 'e, 'a) st \<Rightarrow> ('e \<Rightarrow> ('s, 'e, 'a) st) \<Rightarrow> ('s, 'e, 'a) st" where
  "scatch m h s = (case m s of (Inl e, s') \<Rightarrow> h e s' | (Inr x, s') \<Rightarrow> (Inr x, s'))"

fun sforeach :: "'a list \<Rightarrow> ('a \<Rightarrow> ('s, 'e, unit) st) \<Rightarrow> ('s, 'e, unit) st" where
  "sforeach [] f = sreturn ()"
| "sforeach (x # xs) f = sbind (f x) (\<lambda>_. sforeach xs f)"

lemma rbind_simps [simp, res_simps]: "rbind (Inl e) f = Inl e" "rbind (Inr x) f = f x"
  by (simp_all add: rbind_def)

lemma rbind_Inr_iff: "rbind r f = Inr y \<longleftrightarrow> (\<exists>x. r = Inr x \<and> f x = Inr y)"
  by (cases r) auto

lemmas st_defs [res_simps] =
  sreturn_def sraise_def sbind_def sget_def sput_def smodify_def slift_def scatch_def

lemma sbind_Inr_iff:
  "sbind m f s = (Inr y, t) \<longleftrightarrow> (\<exists>x s'. m s = (Inr x, s') \<and> f x s' = (Inr y, t))"
  by (auto simp: sbind_def split: prod.splits sum.splits)

text \<open>
  A property of the state that the body keeps on every exit, raising or not, is kept by the
  whole loop.
\<close>

lemma sforeach_inv:
  assumes body: "\<And>x s r s'. x \<in> set xs \<Longrightarrow> P s \<Longrightarrow> f x s = (r, s') \<Longrightarrow> P s'"
    and init: "P s" and run: "sforeach xs f s = (r, s')"
  shows "P s'"
  using assms
proof (induction xs arbitrary: s)
  case Nil
  then show ?case by (simp add: sreturn_def)
next
  case (Cons x xs)
  obtain r1 s1 where fx: "f x s = (r1, s1)" by (cases "f x s") auto
  have P1: "P s1" using Cons.prems(1) [OF _ Cons.prems(2) fx] by simp
  show ?case
  proof (cases r1)
    case (Inl e)
    with Cons.prems(3) fx P1 show ?thesis by (simp add: sbind_def)
  next
    case (Inr u)
    with Cons.prems(3) fx have "sforeach xs f s1 = (r, s')" by (simp add: sbind_def)
    with Cons.IH P1 Cons.prems(1) show ?thesis by (metis list.set_intros(2))
  qed
qed

lemma sbind_Inl_iff:
  "sbind m f s = (Inl e, t) \<longleftrightarrow>
     m s = (Inl e, t) \<or> (\<exists>x s'. m s = (Inr x, s') \<and> f x s' = (Inl e, t))"
  by (auto simp: sbind_def split: prod.splits sum.splits)

section \<open>Fields of versioned objects\<close>

text \<open>
  A field of a versioned object may never have been set; reading it then raises
  \<open>NotImplementedError\<close>.
\<close>

datatype 'a attr = Unset | Val 'a

section \<open>Python truthiness of optional strings\<close>

text \<open>\<open>if x:\<close> for an \<open>x\<close> that is a string or None: None and the empty string are false.\<close>

definition truthy :: "string option \<Rightarrow> bool" where
  "truthy x \<longleftrightarrow> (case x of None \<Rightarrow> False | Some s \<Rightarrow> s \<noteq> [])"

lemma truthy_simps [simp]: "truthy None = False" "truthy (Some s) = (s \<noteq> [])"
  by (simp_all add: truthy_def)

end
