(* ===== verification/Provider_Tree.thy ===== *)
theory Provider_Tree
  imports Prelude "HOL-Library.Multiset"
begin

text \<open>
  The tree of resource providers kept by the scheduler report client
  (\<^verbatim>\<open>zun/compute/provider_tree.py\<close>). Every public method of the class takes the tree's
  lock for its whole body, so each method is one atomic function of the tree.

  A provider object is a node: its own attributes (the fields of the namedtuple
  \<open>ProviderData\<close>, which \<open>data\<close> copies) and the dictionary of its children.
  No provider object is shared between two places of the tree, so a reference to a provider
  is the path of dictionary keys that leads to it; a method that mutates the provider it
  found replaces the node at that path.
\<close>

section \<open>Data\<close>

record 'v provider_data =
  pd_uuid :: string
  pd_name :: string
  pd_generation :: "int option"
  pd_parent_uuid :: "string option"
  pd_inventory :: "(string, (string, 'v) dict) dict"
  pd_traits :: "string set"
  pd_aggregates :: "string set"

datatype 'v provider = Provider (pinfo: "'v provider_data") (children: "(string \<times> 'v provider) list")

record 'v provider_tree =
  roots :: "'v provider list"

record provider_dict =
  \<comment> \<open>a dict of provider attributes as the placement service returns it; None is a missing key\<close>
  pdict_name :: "string option"
  pdict_uuid :: "string option"
  pdict_generation :: "int option"
  pdict_parent_provider_uuid :: "string option"

datatype pt_reason =
    NoSuchProvider string
  | ProviderExists string
  | ParentsNotFound "string option list"
  | ParentsNotInTree "string list"
  | NotARoot

datatype pt_error = ValueError pt_reason | KeyError string

abbreviation uuid_of :: "'v provider \<Rightarrow> string" where
  "uuid_of p \<equiv> pd_uuid (pinfo p)"

abbreviation name_of :: "'v provider \<Rightarrow> string" where
  "name_of p \<equiv> pd_name (pinfo p)"

section \<open>The provider object\<close>

definition new_provider ::
    "string \<Rightarrow> string \<Rightarrow> string option \<Rightarrow> int option \<Rightarrow> string option \<Rightarrow> 'v provider" where
  \<comment> \<open>\<open>generated\<close> is what \<open>uuidutils.generate_uuid\<close> returns\<close>
  "new_provider generated name uuid generation parent_uuid =
     Provider \<lparr>pd_uuid = (case uuid of None \<Rightarrow> generated | Some u \<Rightarrow> u), pd_name = name,
       pd_generation = generation, pd_parent_uuid = parent_uuid,
       pd_inventory = [], pd_traits = {}, pd_aggregates = {}\<rparr> []"

definition from_dict :: "string \<Rightarrow> provider_dict \<Rightarrow> (pt_error, 'v provider) res" where
  "from_dict generated pdict =
     (case pdict_name pdict of
        None \<Rightarrow> Inl (KeyError ''name'')
      | Some n \<Rightarrow> Inr (new_provider generated n (pdict_uuid pdict) (pdict_generation pdict)
                    (pdict_parent_provider_uuid pdict)))"

fun p_get_provider_uuids :: "'v provider \<Rightarrow> string list" where
  "p_get_provider_uuids (Provider d cs) =
     pd_uuid d # concat (map (\<lambda>kc. p_get_provider_uuids (snd kc)) cs)"

fun p_find :: "string \<Rightarrow> 'v provider \<Rightarrow> string list option"
  and p_find_children :: "string \<Rightarrow> (string \<times> 'v provider) list \<Rightarrow> string list option" where
  "p_find search (Provider d cs) =
     (if pd_name d = search \<or> pd_uuid d = search then Some []
      else if search \<in> set (dict_keys cs) then Some [search]
      else p_find_children search cs)"
| "p_find_children search [] = None"
| "p_find_children search ((k, c) # cs) =
     (if name_of c = search then Some [k]
      else case p_find search c of
             Some path \<Rightarrow> Some (k # path)
           | None \<Rightarrow> p_find_children search cs)"

definition add_child :: "'v provider \<Rightarrow> 'v provider \<Rightarrow> 'v provider" where
  "add_child provider p =
     Provider (pinfo p) (dict_set (uuid_of provider) provider (children p))"

definition remove_child :: "'v provider \<Rightarrow> 'v provider \<Rightarrow> 'v provider" where
  "remove_child provider p =
     Provider (pinfo p)
       (if uuid_of provider \<in> set (dict_keys (children p))
        then dict_del (uuid_of provider) (children p) else children p)"

definition p_has_inventory :: "'v provider_data \<Rightarrow> bool" where
  "p_has_inventory d \<longleftrightarrow> pd_inventory d \<noteq> []"

definition record_changed :: "(string, 'v) dict \<Rightarrow> (string, 'v) dict \<Rightarrow> bool" where
  \<comment> \<open>the body of the loop of \<open>has_inventory_changed\<close> for one resource class\<close>
  "record_changed cur_rec new_rec \<longleftrightarrow>
     set (dict_keys new_rec) - set (dict_keys cur_rec) \<noteq> {} \<or>
     list_ex (\<lambda>(rec_key, cur_val).
        case dict_get new_rec rec_key of None \<Rightarrow> False | Some v \<Rightarrow> v \<noteq> cur_val) cur_rec"

definition p_has_inventory_changed ::
    "(string, (string, 'v) dict) dict \<Rightarrow> 'v provider_data \<Rightarrow> bool" where
  "p_has_inventory_changed new d \<longleftrightarrow>
     set (dict_keys (pd_inventory d)) \<noteq> set (dict_keys new) \<or>
     list_ex (\<lambda>(key, cur_rec).
        case dict_get new key of None \<Rightarrow> False | Some new_rec \<Rightarrow> record_changed cur_rec new_rec)
       (pd_inventory d)"

definition update_generation :: "int option \<Rightarrow> 'v provider_data \<Rightarrow> 'v provider_data" where
  "update_generation generation d =
     (if generation \<noteq> None \<and> generation \<noteq> pd_generation d
      then d\<lparr>pd_generation := generation\<rparr> else d)"

definition p_update_inventory ::
    "(string, (string, 'v) dict) dict \<Rightarrow> int option \<Rightarrow> 'v provider_data \<Rightarrow> bool \<times> 'v provider_data" where
  "p_update_inventory inventory generation d =
     (let d' = update_generation generation d
      in if p_has_inventory_changed inventory d'
         then (True, d'\<lparr>pd_inventory := inventory\<rparr>) else (False, d'))"

definition p_have_traits_changed :: "string list \<Rightarrow> 'v provider_data \<Rightarrow> bool" where
  "p_have_traits_changed new d \<longleftrightarrow> set new \<noteq> pd_traits d"

definition p_update_traits ::
    "string set \<Rightarrow> int option \<Rightarrow> 'v provider_data \<Rightarrow> bool \<times> 'v provider_data" where
  "p_update_traits new generation d =
     (let d' = update_generation generation d
      in if new \<noteq> pd_traits d' then (True, d'\<lparr>pd_traits := new\<rparr>) else (False, d'))"

definition p_has_traits :: "string list \<Rightarrow> 'v provider_data \<Rightarrow> bool" where
  "p_has_traits traits d \<longleftrightarrow> \<not> (set traits - pd_traits d \<noteq> {})"

definition p_have_aggregates_changed :: "string list \<Rightarrow> 'v provider_data \<Rightarrow> bool" where
  "p_have_aggregates_changed new d \<longleftrightarrow> set new \<noteq> pd_aggregates d"

definition p_update_aggregates ::
    "string set \<Rightarrow> int option \<Rightarrow> 'v provider_data \<Rightarrow> bool \<times> 'v provider_data" where
  "p_update_aggregates new generation d =
     (let d' = update_generation generation d
      in if new \<noteq> pd_aggregates d' then (True, d'\<lparr>pd_aggregates := new\<rparr>) else (False, d'))"

definition p_in_aggregates :: "string list \<Rightarrow> 'v provider_data \<Rightarrow> bool" where
  "p_in_aggregates aggregates d \<longleftrightarrow> \<not> (set aggregates - pd_aggregates d \<noteq> {})"

section \<open>References into the tree\<close>

primrec node_at :: "string list \<Rightarrow> 'v provider \<Rightarrow> 'v provider option" where
  "node_at [] p = Some p"
| "node_at (k # ks) p = (case dict_get (children p) k of None \<Rightarrow> None | Some c \<Rightarrow> node_at ks c)"

primrec update_at :: "string list \<Rightarrow> ('v provider \<Rightarrow> 'v provider) \<Rightarrow> 'v provider \<Rightarrow> 'v provider" where
  "update_at [] f p = f p"
| "update_at (k # ks) f p =
     Provider (pinfo p) (map (\<lambda>(k', c). (k', if k' = k then update_at ks f c else c)) (children p))"

type_synonym pref = "nat \<times> string list"

definition deref :: "pref \<Rightarrow> 'v provider_tree \<Rightarrow> 'v provider option" where
  "deref r t = (if fst r < length (roots t) then node_at (snd r) (roots t ! fst r) else None)"

definition update_ref :: "pref \<Rightarrow> ('v provider \<Rightarrow> 'v provider) \<Rightarrow> 'v provider_tree \<Rightarrow> 'v provider_tree" where
  "update_ref r f t =
     t\<lparr>roots := (if fst r < length (roots t)
        then (roots t)[fst r := update_at (snd r) f (roots t ! fst r)] else roots t)\<rparr>"

section \<open>The tree\<close>

fun find_roots :: "nat \<Rightarrow> string \<Rightarrow> 'v provider list \<Rightarrow> pref option" where
  "find_roots i search [] = None"
| "find_roots i search (root # rest) =
     (case p_find search root of
        Some path \<Rightarrow> Some (i, path)
      | None \<Rightarrow> find_roots (Suc i) search rest)"

definition find_with_lock :: "string \<Rightarrow> bool \<Rightarrow> 'v provider_tree \<Rightarrow> (pt_error, pref) res" where
  "find_with_lock name_or_uuid return_root t =
     (case find_roots 0 name_or_uuid (roots t) of
        Some r \<Rightarrow> Inr (if return_root then (fst r, []) else r)
      | None \<Rightarrow> Inl (ValueError (NoSuchProvider name_or_uuid)))"

definition get_provider :: "string \<Rightarrow> bool \<Rightarrow> 'v provider_tree \<Rightarrow> (pt_error, 'v provider) res" where
  \<comment> \<open>the object \<open>_find_with_lock\<close> returns\<close>
  "get_provider name_or_uuid return_root t =
     rbind (find_with_lock name_or_uuid return_root t) (\<lambda>r.
       case deref r t of Some p \<Rightarrow> Inr p
                       | None \<Rightarrow> Inl (ValueError (NoSuchProvider name_or_uuid)))"

definition get_provider_uuids :: "string option \<Rightarrow> 'v provider_tree \<Rightarrow> (pt_error, string list) res" where
  "get_provider_uuids name_or_uuid t =
     (case name_or_uuid of
        Some s \<Rightarrow> rbind (get_provider s False t) (\<lambda>p. Inr (p_get_provider_uuids p))
      | None \<Rightarrow> Inr (concat (map p_get_provider_uuids (roots t))))"

definition get_provider_uuids_in_tree :: "string \<Rightarrow> 'v provider_tree \<Rightarrow> (pt_error, string list) res" where
  "get_provider_uuids_in_tree name_or_uuid t =
     rbind (get_provider name_or_uuid True t) (\<lambda>p. Inr (p_get_provider_uuids p))"

definition remove_with_lock :: "string \<Rightarrow> ('v provider_tree, pt_error, unit) st" where
  "remove_with_lock name_or_uuid t =
     (case find_with_lock name_or_uuid False t of
        Inl e \<Rightarrow> (Inl e, t)
      | Inr r \<Rightarrow>
         (case deref r t of
            None \<Rightarrow> (Inl (ValueError (NoSuchProvider name_or_uuid)), t)
          | Some found \<Rightarrow>
             (if truthy (pd_parent_uuid (pinfo found)) then
                (case find_with_lock (the (pd_parent_uuid (pinfo found))) False t of
                   Inl e \<Rightarrow> (Inl e, t)
                 | Inr pr \<Rightarrow> (Inr (), update_ref pr (remove_child found) t))
              else if snd r = [] then
                (Inr (), t\<lparr>roots := take (fst r) (roots t) @ drop (Suc (fst r)) (roots t)\<rparr>)
              else (Inl (ValueError NotARoot), t))))"

definition remove :: "string \<Rightarrow> ('v provider_tree, pt_error, unit) st" where
  "remove name_or_uuid = remove_with_lock name_or_uuid"

definition new_root :: "string \<Rightarrow> string \<Rightarrow> int option \<Rightarrow> ('v provider_tree, pt_error, string) st" where
  "new_root name uuid generation t =
     (case find_with_lock uuid False t of
        Inr _ \<Rightarrow> (Inl (ValueError (ProviderExists uuid)), t)
      | Inl _ \<Rightarrow>
         (let p = new_provider uuid name (Some uuid) generation None
          in (Inr (uuid_of p), t\<lparr>roots := roots t @ [p]\<rparr>)))"

definition data :: "string \<Rightarrow> 'v provider_tree \<Rightarrow> (pt_error, 'v provider_data) res" where
  "data name_or_uuid t = rbind (get_provider name_or_uuid False t) (\<lambda>p. Inr (pinfo p))"

definition exists :: "string \<Rightarrow> 'v provider_tree \<Rightarrow> bool" where
  "exists name_or_uuid t =
     (case find_with_lock name_or_uuid False t of Inl _ \<Rightarrow> False | Inr _ \<Rightarrow> True)"

definition new_child ::
    "string \<Rightarrow> string \<Rightarrow> string \<Rightarrow> string option \<Rightarrow> int option \<Rightarrow> ('v provider_tree, pt_error, string) st" where
  "new_child generated name parent uuid generation t =
     (let uuid_or_name = (if truthy uuid then the uuid else name)
      in case find_with_lock uuid_or_name False t of
           Inr _ \<Rightarrow> (Inl (ValueError (ProviderExists uuid_or_name)), t)
         | Inl _ \<Rightarrow>
            (case find_with_lock parent False t of
               Inl e \<Rightarrow> (Inl e, t)
             | Inr pr \<Rightarrow>
                (case deref pr t of
                   None \<Rightarrow> (Inl (ValueError (NoSuchProvider parent)), t)
                 | Some parent_node \<Rightarrow>
                    (let p = new_provider generated name uuid generation (Some (uuid_of parent_node))
                     in (Inr (uuid_of p), update_ref pr (add_child p) t)))))"

definition map_info :: "('v provider_data \<Rightarrow> 'v provider_data) \<Rightarrow> 'v provider \<Rightarrow> 'v provider" where
  "map_info f p = Provider (f (pinfo p)) (children p)"

definition update_found ::
    "string \<Rightarrow> ('v provider_data \<Rightarrow> bool \<times> 'v provider_data) \<Rightarrow> ('v provider_tree, pt_error, bool) st" where
  \<comment> \<open>find the provider and call a mutating method of it that returns a bool\<close>
  "update_found name_or_uuid f t =
     (case find_with_lock name_or_uuid False t of
        Inl e \<Rightarrow> (Inl e, t)
      | Inr r \<Rightarrow>
         (case deref r t of
            None \<Rightarrow> (Inl (ValueError (NoSuchProvider name_or_uuid)), t)
          | Some p \<Rightarrow> (Inr (fst (f (pinfo p))), update_ref r (map_info (\<lambda>d. snd (f d))) t)))"

definition has_inventory :: "string \<Rightarrow> 'v provider_tree \<Rightarrow> (pt_error, bool) res" where
  "has_inventory name_or_uuid t = rbind (data name_or_uuid t) (\<lambda>d. Inr (p_has_inventory d))"

definition has_inventory_changed ::
    "string \<Rightarrow> (string, (string, 'v) dict) dict \<Rightarrow> 'v provider_tree \<Rightarrow> (pt_error, bool) res" where
  "has_inventory_changed name_or_uuid inventory t =
     rbind (data name_or_uuid t) (\<lambda>d. Inr (p_has_inventory_changed inventory d))"

definition update_inventory ::
    "string \<Rightarrow> (string, (string, 'v) dict) dict \<Rightarrow> int option \<Rightarrow> ('v provider_tree, pt_error, bool) st" where
  "update_inventory name_or_uuid inventory generation =
     update_found name_or_uuid (p_update_inventory inventory generation)"

fun sharing_scan ::
    "string \<Rightarrow> string \<Rightarrow> string list \<Rightarrow> 'v provider_tree \<Rightarrow> (pt_error, bool) res" where
  "sharing_scan shares resource_class [] t = Inr False"
| "sharing_scan shares resource_class (u # us) t =
     rbind (data u t) (\<lambda>pdata.
       if resource_class \<in> set (dict_keys (pd_inventory pdata)) \<and> shares \<in> pd_traits pdata
       then Inr True else sharing_scan shares resource_class us t)"

definition has_sharing_provider :: "string \<Rightarrow> string \<Rightarrow> 'v provider_tree \<Rightarrow> (pt_error, bool) res" where
  \<comment> \<open>\<open>shares\<close> is the value of \<open>os_traits.MISC_SHARES_VIA_AGGREGATE\<close>\<close>
  "has_sharing_provider shares resource_class t =
     rbind (get_provider_uuids None t) (\<lambda>us. sharing_scan shares resource_class us t)"

definition has_traits :: "string \<Rightarrow> string list \<Rightarrow> 'v provider_tree \<Rightarrow> (pt_error, bool) res" where
  "has_traits name_or_uuid traits t = rbind (data name_or_uuid t) (\<lambda>d. Inr (p_has_traits traits d))"

definition have_traits_changed :: "string \<Rightarrow> string list \<Rightarrow> 'v provider_tree \<Rightarrow> (pt_error, bool) res" where
  "have_traits_changed name_or_uuid traits t =
     rbind (data name_or_uuid t) (\<lambda>d. Inr (p_have_traits_changed traits d))"

definition update_traits ::
    "string \<Rightarrow> string list \<Rightarrow> int option \<Rightarrow> ('v provider_tree, pt_error, bool) st" where
  "update_traits name_or_uuid traits generation =
     update_found name_or_uuid (p_update_traits (set traits) generation)"

definition add_traits :: "string \<Rightarrow> string list \<Rightarrow> ('v provider_tree, pt_error, unit) st" where
  "add_traits name_or_uuid traits =
     (if traits = [] then sreturn ()
      else sbind (update_found name_or_uuid (\<lambda>d. p_update_traits (pd_traits d \<union> set traits) None d))
             (\<lambda>_. sreturn ()))"

definition remove_traits :: "string \<Rightarrow> string list \<Rightarrow> ('v provider_tree, pt_error, unit) st" where
  "remove_traits name_or_uuid traits =
     (if traits = [] then sreturn ()
      else sbind (update_found name_or_uuid (\<lambda>d. p_update_traits (pd_traits d - set traits) None d))
             (\<lambda>_. sreturn ()))"

definition in_aggregates :: "string \<Rightarrow> string list \<Rightarrow> 'v provider_tree \<Rightarrow> (pt_error, bool) res" where
  "in_aggregates name_or_uuid aggregates t =
     rbind (data name_or_uuid t) (\<lambda>d. Inr (p_in_aggregates aggregates d))"

definition have_aggregates_changed :: "string \<Rightarrow> string list \<Rightarrow> 'v provider_tree \<Rightarrow> (pt_error, bool) res" where
  "have_aggregates_changed name_or_uuid aggregates t =
     rbind (data name_or_uuid t) (\<lambda>d. Inr (p_have_aggregates_changed aggregates d))"

definition update_aggregates ::
    "string \<Rightarrow> string list \<Rightarrow> int option \<Rightarrow> ('v provider_tree, pt_error, bool) st" where
  "update_aggregates name_or_uuid aggregates generation =
     update_found name_or_uuid (p_update_aggregates (set aggregates) generation)"

definition add_aggregates :: "string \<Rightarrow> string list \<Rightarrow> ('v provider_tree, pt_error, unit) st" where
  "add_aggregates name_or_uuid aggregates =
     sbind (update_found name_or_uuid (\<lambda>d. p_update_aggregates (pd_aggregates d \<union> set aggregates) None d))
       (\<lambda>_. sreturn ())"

definition remove_aggregates :: "string \<Rightarrow> string list \<Rightarrow> ('v provider_tree, pt_error, unit) st" where
  "remove_aggregates name_or_uuid aggregates =
     sbind (update_found name_or_uuid (\<lambda>d. p_update_aggregates (pd_aggregates d - set aggregates) None d))
       (\<lambda>_. sreturn ())"

section \<open>Populating the tree from an iterable\<close>

fun to_add_by_uuid ::
    "(string, provider_dict) dict \<Rightarrow> provider_dict list \<Rightarrow> (pt_error, (string, provider_dict) dict) res" where
  "to_add_by_uuid acc [] = Inr acc"
| "to_add_by_uuid acc (pd # pds) =
     (case pdict_uuid pd of
        None \<Rightarrow> Inl (KeyError ''uuid'')
      | Some u \<Rightarrow> to_add_by_uuid (dict_set u pd acc) pds)"

definition missing_parents :: "(string, provider_dict) dict \<Rightarrow> 'v provider_tree \<Rightarrow> string option list" where
  "missing_parents to_add t =
     filter (\<lambda>parent_uuid. parent_uuid \<notin>
         {None} \<union> Some ` set (dict_keys to_add)
         \<union> Some ` set (concat (map p_get_provider_uuids (roots t))))
       (map pdict_parent_provider_uuid (dict_values to_add))"

definition find_suitable :: "(string, provider_dict) dict \<Rightarrow> (string \<times> provider_dict) option" where
  "find_suitable to_add =
     List.find (\<lambda>(uuid, pd). pdict_parent_provider_uuid pd \<notin> Some ` set (dict_keys to_add)) to_add"

definition attach_provider :: "string option \<Rightarrow> 'v provider \<Rightarrow> ('v provider_tree, pt_error, unit) st" where
  "attach_provider parent_uuid provider t =
     (case parent_uuid of
        None \<Rightarrow> (Inr (), t\<lparr>roots := roots t @ [provider]\<rparr>)
      | Some pu \<Rightarrow>
         (case find_with_lock pu False t of
            Inl e \<Rightarrow> (Inl e, t)
          | Inr pr \<Rightarrow> (Inr (), update_ref pr (add_child provider) t)))"

definition inject_provider :: "string \<Rightarrow> provider_dict \<Rightarrow> ('v provider_tree, pt_error, unit) st" where
  "inject_provider uuid pd =
     sbind (scatch (remove_with_lock uuid)
              (\<lambda>e. case e of ValueError _ \<Rightarrow> sreturn () | KeyError _ \<Rightarrow> sraise e)) (\<lambda>_.
     sbind (slift (from_dict uuid pd)) (\<lambda>provider.
       attach_provider (pdict_parent_provider_uuid pd) provider))"

lemma find_suitable_in: "find_suitable to_add = Some (u, pd) \<Longrightarrow> u \<in> set (dict_keys to_add)"
  unfolding find_suitable_def by (drule find_SomeD) force

lemma dict_del_shorter: "k \<in> set (dict_keys m) \<Longrightarrow> length (dict_del k m) < length m"
  by (induction m) (auto simp: dict_del_def le_imp_less_Suc)

function populate_loop :: "(string, provider_dict) dict \<Rightarrow> ('v provider_tree, pt_error, unit) st" where
  "populate_loop to_add t =
     (if to_add = [] then (Inr (), t)
      else case find_suitable to_add of
        None \<Rightarrow> (Inl (ValueError (ParentsNotInTree (dict_keys to_add))), t)
      | Some (uuid, pd) \<Rightarrow>
         (case inject_provider uuid pd t of
            (Inl e, t') \<Rightarrow> (Inl e, t')
          | (Inr _, t') \<Rightarrow> populate_loop (dict_del uuid to_add) t'))"
  by pat_completeness auto
termination
  by (relation "measure (\<lambda>(to_add, t). length to_add)")
    (auto dest: find_suitable_in intro!: dict_del_shorter)

declare populate_loop.simps [simp del]

definition populate_from_iterable :: "provider_dict list \<Rightarrow> ('v provider_tree, pt_error, unit) st" where
  "populate_from_iterable provider_dicts t =
     (if provider_dicts = [] then (Inr (), t)
      else case to_add_by_uuid [] provider_dicts of
        Inl e \<Rightarrow> (Inl e, t)
      | Inr to_add \<Rightarrow>
         (if missing_parents to_add t \<noteq> []
          then (Inl (ValueError (ParentsNotFound (missing_parents to_add t))), t)
          else populate_loop to_add t))"

section \<open>Well-formed trees\<close>

text \<open>
  Children are stored under their own uuid and point back to their parent, roots have no
  parent, and no two providers of the tree share a uuid.
\<close>

fun wf_provider :: "'v provider \<Rightarrow> bool" where
  "wf_provider (Provider d cs) \<longleftrightarrow>
     dict_wf cs \<and> (\<forall>kc \<in> set cs. fst kc = uuid_of (snd kc) \<and>
        pd_parent_uuid (pinfo (snd kc)) = Some (pd_uuid d) \<and> wf_provider (snd kc))"

fun entries :: "'v provider \<Rightarrow> (string \<times> 'v provider_data) list" where
  "entries (Provider d cs) = (pd_uuid d, d) # concat (map (\<lambda>kc. entries (snd kc)) cs)"

definition tree_entries :: "'v provider_tree \<Rightarrow> (string \<times> 'v provider_data) list" where
  "tree_entries t = concat (map entries (roots t))"

definition wf_tree :: "'v provider_tree \<Rightarrow> bool" where
  "wf_tree t \<longleftrightarrow>
     (\<forall>r \<in> set (roots t). pd_parent_uuid (pinfo r) = None \<and> wf_provider r) \<and>
     distinct (map fst (tree_entries t)) \<and> [] \<notin> set (map fst (tree_entries t))"

text \<open>The abstract state of the tree: a table of provider data keyed by uuid.\<close>

definition flat :: "'v provider_tree \<Rightarrow> string \<Rightarrow> 'v provider_data option" where
  "flat t = map_of (tree_entries t)"

text \<open>No provider carries the uuid of another provider as its name.\<close>

definition names_clear :: "'v provider_tree \<Rightarrow> bool" where
  "names_clear t \<longleftrightarrow>
     (\<forall>(u, d) \<in> set (tree_entries t). pd_name d = u \<or> pd_name d \<notin> set (map fst (tree_entries t)))"

lemma uuids_entries: "p_get_provider_uuids p = map fst (entries p)"
  by (induction p rule: p_get_provider_uuids.induct)
    (auto simp: map_concat intro!: arg_cong [of _ _ concat])

lemma entries_self [simp]: "(uuid_of p, pinfo p) \<in> set (entries p)"
  by (cases p) simp

lemma entries_child: "(k, c) \<in> set (children p) \<Longrightarrow> set (entries c) \<subseteq> set (entries p)"
  by (cases p) force

lemma node_at_entries: "node_at path p = Some q \<Longrightarrow> set (entries q) \<subseteq> set (entries p)"
proof (induction path arbitrary: p)
  case (Cons k ks)
  then obtain c where "dict_get (children p) k = Some c" "node_at ks c = Some q"
    by (auto split: option.splits)
  with Cons.IH entries_child show ?case by (metis map_of_SomeD subset_trans)
qed simp

lemma node_at_uuid: "node_at path p = Some q \<Longrightarrow> uuid_of q \<in> set (map fst (entries p))"
  using node_at_entries [of path p q] entries_self [of q]
  by (metis fst_conv image_eqI set_map subsetD)

lemma wf_providerD:
  assumes "wf_provider p" "(k, c) \<in> set (children p)"
  shows "k = uuid_of c" "pd_parent_uuid (pinfo c) = Some (uuid_of p)" "wf_provider c"
  using assms by (cases p; force)+

lemma wf_provider_keys: "wf_provider p \<Longrightarrow> dict_wf (children p)"
  by (cases p) simp

lemma wf_node_at: "wf_provider p \<Longrightarrow> node_at path p = Some q \<Longrightarrow> wf_provider q"
  by (induction path arbitrary: p)
    (auto split: option.splits dest: wf_providerD(3) map_of_SomeD)

subsection \<open>Searching\<close>

lemma p_find_sound:
  fixes p :: "'v provider" and cs :: "(string \<times> 'v provider) list"
  shows "wf_provider p \<Longrightarrow> p_find s p = Some path \<Longrightarrow>
      \<exists>q. node_at path p = Some q \<and> (name_of q = s \<or> uuid_of q = s)"
    and "dict_wf cs \<Longrightarrow> (\<forall>kc \<in> set cs. wf_provider (snd kc)) \<Longrightarrow> p_find_children s cs = Some path \<Longrightarrow>
      \<exists>k ks c q. path = k # ks \<and> (k, c) \<in> set cs \<and> node_at ks c = Some q \<and>
        (name_of q = s \<or> uuid_of q = s)"
proof (induction s p and s cs arbitrary: path and path rule: p_find_p_find_children.induct)
  case (1 s d cs)
  show ?case
  proof (cases "pd_name d = s \<or> pd_uuid d = s")
    case True
    with 1 show ?thesis by auto
  next
    case False
    show ?thesis
    proof (cases "s \<in> set (dict_keys cs)")
      case True
      then obtain c where c: "dict_get cs s = Some c" by (metis dict_get_None option.exhaust)
      with 1(2) have "uuid_of c = s" by (force dest: map_of_SomeD)
      with 1(3) False True c show ?thesis by auto
    next
      case nokey: False
      from False nokey 1(3) have "p_find_children s cs = Some path" by (auto simp: image_iff)
      from 1(1) [OF False nokey _ _ this] 1(2) obtain k ks c q where
        "path = k # ks" "(k, c) \<in> set cs" "node_at ks c = Some q" "name_of q = s \<or> uuid_of q = s"
        by auto
      with 1(2) show ?thesis by (auto simp: map_of_eq_Some_iff)
    qed
  qed
next
  case (3 s k c cs)
  show ?case
  proof (cases "name_of c = s")
    case True
    with 3 show ?thesis by (intro exI [of _ k] exI [of _ "[]"] exI [of _ c]) auto
  next
    case name: False
    show ?thesis
    proof (cases "p_find s c")
      case None
      with 3 name show ?thesis by (auto; blast)
    next
      case (Some pc)
      with 3 name have "path = k # pc" by simp
      moreover have "\<exists>q. node_at pc c = Some q \<and> (name_of q = s \<or> uuid_of q = s)"
        using 3 name Some by auto
      ultimately show ?thesis by auto
    qed
  qed
qed simp

lemma p_find_complete:
  fixes p :: "'v provider" and cs :: "(string \<times> 'v provider) list"
  shows "p_find s p = None \<Longrightarrow> (u, d) \<in> set (entries p) \<Longrightarrow> pd_name d \<noteq> s \<and> u \<noteq> s"
    and "p_find_children s cs = None \<Longrightarrow> (u, d) \<in> set (concat (map (\<lambda>kc. entries (snd kc)) cs)) \<Longrightarrow>
      pd_name d \<noteq> s \<and> u \<noteq> s"
proof (induction s p and s cs arbitrary: u d and u d rule: p_find_p_find_children.induct)
  case (1 s d' cs)
  from 1(2) have nf: "pd_name d' \<noteq> s" "pd_uuid d' \<noteq> s" "s \<notin> set (dict_keys cs)"
      "p_find_children s cs = None"
    by (simp_all split: if_splits)
  show ?case
  proof (cases "(u, d) = (pd_uuid d', d')")
    case True
    with nf show ?thesis by simp
  next
    case False
    with 1(3) have "(u, d) \<in> set (concat (map (\<lambda>kc. entries (snd kc)) cs))" by auto
    with 1(1) nf show ?thesis by blast
  qed
next
  case (3 s k c cs)
  from 3(3) have "p_find s c = None" "p_find_children s cs = None" "name_of c \<noteq> s"
    by (simp_all split: if_splits option.splits)
  moreover from 3(4) consider "(u, d) \<in> set (entries c)"
    | "(u, d) \<in> set (concat (map (\<lambda>kc. entries (snd kc)) cs))" by auto
  ultimately show ?case using 3(1,2) by cases blast+
qed simp

lemma find_roots_Some:
  "find_roots i s rs = Some r \<Longrightarrow>
     i \<le> fst r \<and> fst r - i < length rs \<and> p_find s (rs ! (fst r - i)) = Some (snd r)"
proof (induction i s rs rule: find_roots.induct)
  case (2 i s root rest)
  show ?case
  proof (cases "p_find s root")
    case None
    with 2 show ?thesis by (auto simp: nth_Cons' Suc_diff_le)
  next
    case (Some path)
    with 2 show ?thesis by auto
  qed
qed simp

lemma find_roots_None: "find_roots i s rs = None \<Longrightarrow> p \<in> set rs \<Longrightarrow> p_find s p = None"
  by (induction i s rs rule: find_roots.induct) (auto split: option.splits)

lemma wf_treeD:
  assumes "wf_tree t" "r \<in> set (roots t)"
  shows "wf_provider r" "pd_parent_uuid (pinfo r) = None"
  using assms by (auto simp: wf_tree_def)

lemma find_Inr:
  assumes "wf_tree t" "find_with_lock s False t = Inr r"
  obtains q where "fst r < length (roots t)" "node_at (snd r) (roots t ! fst r) = Some q"
    "deref r t = Some q" "wf_provider q" "name_of q = s \<or> uuid_of q = s"
proof -
  from assms(2) have "find_roots 0 s (roots t) = Some r"
    by (auto simp: find_with_lock_def split: option.splits)
  then have i: "fst r < length (roots t)" and f: "p_find s (roots t ! fst r) = Some (snd r)"
    using find_roots_Some by fastforce+
  have wf: "wf_provider (roots t ! fst r)" using wf_treeD(1) [OF assms(1)] i by simp
  obtain q where "node_at (snd r) (roots t ! fst r) = Some q" "name_of q = s \<or> uuid_of q = s"
    using p_find_sound(1) [OF wf f] by blast
  with i wf_node_at [OF wf] show thesis by (intro that [of q]) (auto simp: deref_def)
qed

lemma find_Inl:
  "find_with_lock s False t = Inl e \<Longrightarrow>
     e = ValueError (NoSuchProvider s) \<and> (\<forall>(u, d) \<in> set (tree_entries t). pd_name d \<noteq> s \<and> u \<noteq> s)"
proof -
  assume "find_with_lock s False t = Inl e"
  then have e: "e = ValueError (NoSuchProvider s)" and none: "find_roots 0 s (roots t) = None"
    by (simp_all add: find_with_lock_def split: option.splits)
  have "pd_name d \<noteq> s \<and> u \<noteq> s" if ud: "(u, d) \<in> set (tree_entries t)" for u d
  proof -
    from ud obtain root where "root \<in> set (roots t)" "(u, d) \<in> set (entries root)"
      by (auto simp: tree_entries_def)
    with none show ?thesis by (blast dest: find_roots_None p_find_complete(1))
  qed
  with e show ?thesis by blast
qed

lemma find_error: "find_with_lock s False t = Inl e \<Longrightarrow> e = ValueError (NoSuchProvider s)"
  by (auto simp: find_with_lock_def split: option.splits)

lemma deref_entries: "deref r t = Some q \<Longrightarrow> set (entries q) \<subseteq> set (tree_entries t)"
  using node_at_entries by (fastforce simp: deref_def tree_entries_def split: if_splits)

lemma flat_iff: "wf_tree t \<Longrightarrow> flat t u = Some d \<longleftrightarrow> (u, d) \<in> set (tree_entries t)"
  by (simp add: flat_def wf_tree_def map_of_eq_Some_iff)

lemma wf_deref: "wf_tree t \<Longrightarrow> deref r t = Some q \<Longrightarrow> wf_provider q"
  unfolding deref_def by (auto split: if_splits intro: wf_node_at [OF wf_treeD(1) [OF _ nth_mem]])

lemma deref_flat: "wf_tree t \<Longrightarrow> deref r t = Some q \<Longrightarrow> flat t (uuid_of q) = Some (pinfo q)"
  by (meson deref_entries entries_self flat_iff subsetD)

subsection \<open>Replacing one node\<close>

text \<open>
  Replacing the node at a path exchanges its entries for the entries of the new node and
  leaves every other entry alone.
\<close>

lemma mset_entries: "mset (entries p) = {#(uuid_of p, pinfo p)#} + (\<Sum>kc \<leftarrow> children p. mset (entries (snd kc)))"
  by (cases p) (simp add: mset_concat comp_def)

lemma sum_list_map_update:
  assumes "dict_wf m" "dict_get m k = Some c"
  shows "(\<Sum>kc \<leftarrow> map (\<lambda>(k', c). (k', if k' = k then g c else c)) m. h (snd kc)) + h c =
         (\<Sum>kc \<leftarrow> m. h (snd kc)) + (h (g c) :: 'b multiset)"
  using assms
proof (induction m)
  case (Cons kc m)
  obtain k' c' where kc: "kc = (k', c')" by (cases kc)
  show ?case
  proof (cases "k' = k")
    case True
    with Cons.prems kc have same: "map (\<lambda>(k', c). (k', if k' = k then g c else c)) m = m" and "c' = c"
      by (auto intro!: map_idI simp: image_iff)
    with True kc show ?thesis by (simp add: ac_simps)
  next
    case False
    with Cons kc show ?thesis by (simp add: ac_simps)
  qed
qed simp

lemma entries_update_at:
  assumes "wf_provider p" "node_at path p = Some q"
  shows "mset (entries (update_at path f p)) + mset (entries q) = mset (entries p) + mset (entries (f q))"
  using assms
proof (induction path arbitrary: p)
  case (Cons k ks)
  then obtain c where c: "dict_get (children p) k = Some c" "node_at ks c = Some q"
    by (auto split: option.splits)
  let ?upd = "\<Sum>kc \<leftarrow> map (\<lambda>(k', c). (k', if k' = k then update_at ks f c else c)) (children p).
      mset (entries (snd kc))"
  let ?old = "\<Sum>kc \<leftarrow> children p. mset (entries (snd kc))"
  have "wf_provider c" using c(1) Cons.prems(1) by (blast dest: map_of_SomeD wf_providerD(3))
  from Cons.IH [OF this c(2)]
  have IH: "mset (entries (update_at ks f c)) + mset (entries q) = mset (entries c) + mset (entries (f q))" .
  have S: "?upd + mset (entries c) = ?old + mset (entries (update_at ks f c))"
    using sum_list_map_update [OF wf_provider_keys [OF Cons.prems(1)] c(1),
        where g = "update_at ks f" and h = "\<lambda>x. mset (entries x)"] .
  have "?upd + mset (entries q) + mset (entries c) = ?old + mset (entries (f q)) + mset (entries c)"
  proof -
    have "?upd + mset (entries q) + mset (entries c) = (?upd + mset (entries c)) + mset (entries q)"
      by (simp only: ac_simps)
    also have "\<dots> = ?old + (mset (entries (update_at ks f c)) + mset (entries q))"
      by (simp only: S add.assoc)
    also have "\<dots> = ?old + mset (entries (f q)) + mset (entries c)"
      unfolding IH by (simp only: ac_simps)
    finally show ?thesis .
  qed
  then have "?upd + mset (entries q) = ?old + mset (entries (f q))" by simp
  moreover have "mset (entries (update_at (k # ks) f p)) = {#(uuid_of p, pinfo p)#} + ?upd"
    by (subst mset_entries) (simp add: comp_def)
  ultimately show ?case by (simp add: mset_entries [of p])
qed simp

lemma update_at_info:
  assumes "uuid_of (f q) = uuid_of q" "pd_parent_uuid (pinfo (f q)) = pd_parent_uuid (pinfo q)"
    and "node_at path p = Some q"
  shows "uuid_of (update_at path f p) = uuid_of p \<and>
         pd_parent_uuid (pinfo (update_at path f p)) = pd_parent_uuid (pinfo p)"
  using assms by (cases path) auto

lemma wf_update_at:
  assumes "uuid_of (f q) = uuid_of q" "pd_parent_uuid (pinfo (f q)) = pd_parent_uuid (pinfo q)"
    and "wf_provider (f q)" "wf_provider p" "node_at path p = Some q"
  shows "wf_provider (update_at path f p)"
  using assms(4,5)
proof (induction path arbitrary: p)
  case (Cons k ks)
  then obtain c where c: "dict_get (children p) k = Some c" "node_at ks c = Some q"
    by (auto split: option.splits)
  have cin: "(k, c) \<in> set (children p)" using c(1) by (rule map_of_SomeD)
  have wc: "wf_provider (update_at ks f c)" using Cons.IH wf_providerD(3) [OF Cons.prems(1) cin] c(2) by blast
  have info: "uuid_of (update_at ks f c) = uuid_of c"
    "pd_parent_uuid (pinfo (update_at ks f c)) = pd_parent_uuid (pinfo c)"
    using update_at_info [of f q ks c] assms(1,2) c(2) by auto
  have uniq: "c' = c" if "(k, c') \<in> set (children p)" for c'
    using map_of_is_SomeI [OF wf_provider_keys [OF Cons.prems(1)] that] c(1) by simp
  have keys: "map fst (map (\<lambda>(k', c). (k', if k' = k then update_at ks f c else c)) (children p))
      = dict_keys (children p)" by auto
  show ?case
    using wc info uniq wf_providerD [OF Cons.prems(1)] wf_provider_keys [OF Cons.prems(1)]
    by (auto simp: keys comp_def case_prod_beta)
qed (simp add: assms)

lemma tree_entries_update_ref:
  assumes "wf_tree t" "deref r t = Some q"
  shows "mset (tree_entries (update_ref r f t)) + mset (entries q) = mset (tree_entries t) + mset (entries (f q))"
proof -
  let ?i = "fst r" and ?rs = "roots t"
  from assms(2) have i: "?i < length ?rs" and q: "node_at (snd r) (?rs ! ?i) = Some q"
    by (auto simp: deref_def split: if_splits)
  let ?rest = "mset (concat (map entries (take ?i ?rs))) + mset (concat (map entries (drop (Suc ?i) ?rs)))"
  have old: "mset (tree_entries t) = ?rest + mset (entries (?rs ! ?i))"
    unfolding tree_entries_def by (subst id_take_nth_drop [OF i]) simp
  have new: "mset (tree_entries (update_ref r f t)) = ?rest + mset (entries (update_at (snd r) f (?rs ! ?i)))"
    unfolding tree_entries_def using i by (simp add: update_ref_def upd_conv_take_nth_drop)
  have "wf_provider (?rs ! ?i)" using wf_treeD(1) [OF assms(1)] i by simp
  from entries_update_at [OF this q, of f] show ?thesis
    unfolding old new by (simp add: add.assoc)
qed

lemma node_at_update_at: "node_at path p = Some q \<Longrightarrow> node_at path (update_at path f p) = Some (f q)"
proof (induction path arbitrary: p)
  case (Cons k ks)
  have "map_of (map (\<lambda>(k', c). (k', if k' = k then update_at ks f c else c)) m) k =
        map_option (update_at ks f) (map_of m k)" for m
    by (induction m) auto
  with Cons show ?case by (auto split: option.splits)
qed simp

lemma deref_update_ref: "wf_tree t \<Longrightarrow> deref r t = Some q \<Longrightarrow> deref r (update_ref r f t) = Some (f q)"
  by (auto simp: deref_def update_ref_def node_at_update_at split: if_splits)

text \<open>Replacing a node so that it keeps its uuid and its parent.\<close>

locale node_update =
  fixes f :: "'v provider \<Rightarrow> 'v provider" and ok :: "'v provider \<Rightarrow> bool"
  assumes uuid_kept: "ok q \<Longrightarrow> uuid_of (f q) = uuid_of q"
    and parent_kept: "ok q \<Longrightarrow> pd_parent_uuid (pinfo (f q)) = pd_parent_uuid (pinfo q)"
    and wf_kept: "ok q \<Longrightarrow> wf_provider q \<Longrightarrow> wf_provider (f q)"
begin

lemma wf_roots_kept:
  assumes "wf_tree t" "deref r t = Some q" "ok q" "root \<in> set (roots (update_ref r f t))"
  shows "pd_parent_uuid (pinfo root) = None \<and> wf_provider root"
proof -
  let ?i = "fst r"
  from assms(2) have i: "?i < length (roots t)" and q: "node_at (snd r) (roots t ! ?i) = Some q"
    by (auto simp: deref_def split: if_splits)
  have old: "wf_provider (roots t ! ?i)" "pd_parent_uuid (pinfo (roots t ! ?i)) = None"
    using wf_treeD [OF assms(1)] i by simp_all
  have "wf_provider (f q)" using wf_node_at [OF old(1) q] wf_kept assms(3) by blast
  then have new: "wf_provider (update_at (snd r) f (roots t ! ?i))"
    "pd_parent_uuid (pinfo (update_at (snd r) f (roots t ! ?i))) = None"
    using wf_update_at [of f q _ "snd r"] update_at_info [of f q "snd r" "roots t ! ?i"]
      uuid_kept [OF assms(3)] parent_kept [OF assms(3)] old q by auto
  from assms(4) i have "root \<in> set (roots t) \<or> root = update_at (snd r) f (roots t ! ?i)"
    by (auto simp: update_ref_def dest!: set_update_subset_insert [THEN subsetD])
  with new wf_treeD [OF assms(1)] show ?thesis by blast
qed

lemma wf_update_ref:
  assumes "wf_tree t" "deref r t = Some q" "ok q"
    and "distinct (map fst (tree_entries (update_ref r f t)))"
    and "[] \<notin> set (map fst (tree_entries (update_ref r f t)))"
  shows "wf_tree (update_ref r f t)"
  using assms wf_roots_kept [OF assms(1-3)] by (simp add: wf_tree_def)

end

text \<open>
  Changing the attributes of one provider but not its identity: uuid, name and parent stay.
\<close>

locale info_update =
  fixes g :: "'v provider_data \<Rightarrow> 'v provider_data"
  assumes keeps: "pd_uuid (g d) = pd_uuid d" "pd_name (g d) = pd_name d"
    "pd_parent_uuid (g d) = pd_parent_uuid d"
begin

lemma wf_map_info: "wf_provider q \<Longrightarrow> wf_provider (map_info g q)"
  by (cases q) (simp add: map_info_def keeps)

end

sublocale info_update \<subseteq> nu: node_update "map_info g" "\<lambda>_. True"
proof
  show "wf_provider q \<Longrightarrow> wf_provider (map_info g q)" for q by (rule wf_map_info)
qed (simp_all add: map_info_def keeps)

lemma entries_map_info:
  "mset (entries (map_info g q)) + {#(uuid_of q, pinfo q)#} =
   mset (entries q) + {#(pd_uuid (g (pinfo q)), g (pinfo q))#}"
  by (cases q) (simp add: map_info_def)

context info_update
begin

lemma tree_entries_info:
  assumes "wf_tree t" "deref r t = Some q"
  shows "mset (tree_entries (update_ref r (map_info g) t)) + {#(uuid_of q, pinfo q)#} =
         mset (tree_entries t) + {#(uuid_of q, g (pinfo q))#}"
proof -
  let ?new = "mset (tree_entries (update_ref r (map_info g) t))" and ?q = "{#(uuid_of q, pinfo q)#}"
  have "?new + ?q + mset (entries q) = (?new + mset (entries q)) + ?q" by (simp only: ac_simps)
  also have "\<dots> = mset (tree_entries t) + (mset (entries (map_info g q)) + ?q)"
    by (simp only: tree_entries_update_ref [OF assms] add.assoc)
  also have "\<dots> = mset (tree_entries t) + {#(uuid_of q, g (pinfo q))#} + mset (entries q)"
    unfolding entries_map_info by (simp add: keeps)
  finally show ?thesis by simp
qed

lemma tree_uuids_info:
  assumes "wf_tree t" "deref r t = Some q"
  shows "mset (map fst (tree_entries (update_ref r (map_info g) t))) = mset (map fst (tree_entries t))"
  using arg_cong [where f = "image_mset fst", OF tree_entries_info [OF assms]] by simp

lemma wf_info:
  assumes "wf_tree t" "deref r t = Some q"
  shows "wf_tree (update_ref r (map_info g) t)"
  using assms(1) nu.wf_update_ref [OF assms] tree_uuids_info [OF assms]
  by (metis mset_eq_imp_distinct_iff mset_eq_setD wf_tree_def)

lemma flat_info:
  assumes "wf_tree t" "deref r t = Some q"
  shows "flat (update_ref r (map_info g) t) = (flat t)(uuid_of q \<mapsto> g (pinfo q))"
proof
  fix u
  let ?t' = "update_ref r (map_info g) t"
  have mem: "(u, d) \<in># mset (tree_entries ?t') + {#(uuid_of q, pinfo q)#} \<longleftrightarrow>
             (u, d) \<in># mset (tree_entries t) + {#(uuid_of q, g (pinfo q))#}" for d
    by (simp only: tree_entries_info [OF assms])
  have fq: "flat t (uuid_of q) = Some (pinfo q)" by (rule deref_flat [OF assms])
  show "flat ?t' u = ((flat t)(uuid_of q \<mapsto> g (pinfo q))) u"
  proof (cases "u = uuid_of q")
    case True
    have "deref r ?t' = Some (map_info g q)" using deref_update_ref [OF assms] .
    then have "flat ?t' (uuid_of (map_info g q)) = Some (pinfo (map_info g q))"
      by (rule deref_flat [OF wf_info [OF assms]])
    with True show ?thesis by (simp add: map_info_def keeps)
  next
    case False
    then have "flat ?t' u = Some d \<longleftrightarrow> flat t u = Some d" for d
      using mem [of d] by (simp add: flat_iff wf_info [OF assms] assms(1))
    with False show ?thesis by (metis fun_upd_other not_None_eq)
  qed
qed

end

lemmas p_update_defs = p_update_inventory_def p_update_traits_def p_update_aggregates_def
  update_generation_def Let_def

interpretation upd_inventory: info_update "\<lambda>d. snd (p_update_inventory inventory generation d)"
  for inventory generation
  by unfold_locales (simp_all add: p_update_defs)

interpretation upd_traits: info_update "\<lambda>d. snd (p_update_traits (new d) generation d)"
  for new generation
  by unfold_locales (simp_all add: p_update_defs)

interpretation upd_aggregates: info_update "\<lambda>d. snd (p_update_aggregates (new d) generation d)"
  for new generation
  by unfold_locales (simp_all add: p_update_defs)

lemma update_found_Inr:
  assumes upd: "info_update (\<lambda>d. snd (f d))" and wf: "wf_tree t"
    and run: "update_found s f t = (Inr b, t')"
  shows "wf_tree t' \<and> (\<exists>u d. flat t u = Some d \<and> (pd_name d = s \<or> u = s) \<and> b = fst (f d) \<and>
           flat t' = (flat t)(u \<mapsto> snd (f d)))"
proof -
  obtain r where r: "find_with_lock s False t = Inr r"
    using run by (auto simp: update_found_def split: sum.splits)
  obtain q where q: "deref r t = Some q" "name_of q = s \<or> uuid_of q = s"
    using find_Inr [OF wf r] by metis
  have t': "t' = update_ref r (map_info (\<lambda>d. snd (f d))) t" "b = fst (f (pinfo q))"
    using run by (simp_all add: update_found_def r q(1))
  show ?thesis
    unfolding t' using info_update.wf_info [OF upd wf q(1)] info_update.flat_info [OF upd wf q(1)]
      deref_flat [OF wf q(1)] q(2) by blast
qed

subsection \<open>References are unique\<close>

lemma node_at_append:
  "node_at (path @ ks) p = (case node_at path p of None \<Rightarrow> None | Some q \<Rightarrow> node_at ks q)"
  by (induction path arbitrary: p) (auto split: option.splits)

lemma entries_node:
  "wf_provider p \<Longrightarrow> (u, d) \<in> set (entries p) \<Longrightarrow> \<exists>path q. node_at path p = Some q \<and> uuid_of q = u \<and> pinfo q = d"
proof (induction p rule: entries.induct)
  case (1 d' cs)
  show ?case
  proof (cases "(u, d) = (pd_uuid d', d')")
    case True
    then show ?thesis by (intro exI [of _ "[]"]) auto
  next
    case False
    with "1.prems"(2) obtain kc where kc: "kc \<in> set cs" "(u, d) \<in> set (entries (snd kc))" by auto
    then obtain path q where "node_at path (snd kc) = Some q" "uuid_of q = u" "pinfo q = d"
      using "1.IH" [OF kc(1) _ kc(2)] "1.prems"(1) by auto
    moreover have "dict_get cs (fst kc) = Some (snd kc)"
    proof (rule map_of_is_SomeI)
      show "distinct (map fst cs)" using "1.prems"(1) by simp
      show "(fst kc, snd kc) \<in> set cs" using kc(1) unfolding prod.collapse .
    qed
    ultimately show ?thesis by (intro exI [of _ "fst kc # path"]) simp
  qed
qed

lemma map_fst_entries:
  "map fst (entries (Provider d cs)) = pd_uuid d # concat (map (\<lambda>kc. map fst (entries (snd kc))) cs)"
  by (simp add: map_concat comp_def)

lemma node_below_distinct:
  assumes "distinct (map fst (entries p))" "node_at (k # ks) p = Some n"
  shows "uuid_of n \<noteq> uuid_of p"
proof -
  obtain d cs where p: "p = Provider d cs" by (cases p)
  with assms obtain c where "(k, c) \<in> set cs" "node_at ks c = Some n"
    by (auto split: option.splits dest: map_of_SomeD)
  then have "uuid_of n \<in> set (concat (map (\<lambda>kc. map fst (entries (snd kc))) cs))"
    using node_at_uuid [of ks c n] by (auto intro!: bexI [of _ "(k, c)"])
  moreover have "pd_uuid d \<notin> set (concat (map (\<lambda>kc. map fst (entries (snd kc))) cs))"
    using assms(1) unfolding p map_fst_entries by (simp del: set_concat)
  ultimately show ?thesis unfolding p by (auto simp del: set_concat)
qed

lemma node_at_unique:
  assumes "distinct (map fst (entries p))"
    and "node_at ks p = Some q" "node_at ks' p = Some q'" "uuid_of q = uuid_of q'"
  shows "ks = ks'"
  using assms
proof (induction ks arbitrary: p ks')
  case Nil
  then show ?case using node_below_distinct [of p] by (cases ks') (auto simp del: node_at.simps(2))
next
  case (Cons k ks)
  show ?case
  proof (cases ks')
    case Nil
    with Cons.prems node_below_distinct [of p k ks q] show ?thesis by (simp del: node_at.simps(2))
  next
    case (Cons k' ls)
    obtain d cs where p: "p = Provider d cs" by (cases p)
    obtain c where c: "dict_get cs k = Some c" "node_at ks c = Some q"
      using Cons.prems(2) p by (auto split: option.splits)
    obtain c' where c': "dict_get cs k' = Some c'" "node_at ls c' = Some q'"
      using Cons.prems(3) p Cons by (auto split: option.splits)
    have dist: "distinct (concat (map (\<lambda>kc. map fst (entries (snd kc))) cs))"
      using Cons.prems(1) p by (simp add: map_fst_entries del: entries.simps)
    have "uuid_of q \<in> set (map fst (entries c))" "uuid_of q \<in> set (map fst (entries c'))"
      using node_at_uuid [OF c(2)] node_at_uuid [OF c'(2)] Cons.prems(4) by simp_all
    then have "(k, c) = (k', c')"
      using distinct_concat_map_eq [OF dist, of "(k, c)" "(k', c')" "uuid_of q"]
        map_of_SomeD [OF c(1)] map_of_SomeD [OF c'(1)] by simp
    moreover have "distinct (map fst (entries c))"
      using distinct_concat_map [OF dist map_of_SomeD [OF c(1)]] by simp
    ultimately show ?thesis using Cons.IH c c' Cons.prems(4) Cons by auto
  qed
qed

lemma deref_unique:
  assumes "wf_tree t" "deref r t = Some q" "deref r' t = Some q'" "uuid_of q = uuid_of q'"
  shows "r = r'"
proof -
  have dist: "distinct (concat (map (\<lambda>i. map fst (entries (roots t ! i))) [0..<length (roots t)]))"
  proof -
    have "map (\<lambda>i. map fst (entries (roots t ! i))) [0..<length (roots t)] = map (\<lambda>p. map fst (entries p)) (roots t)"
      by (rule nth_equalityI) simp_all
    with assms(1) show ?thesis by (simp add: wf_tree_def tree_entries_def map_concat comp_def)
  qed
  from assms(2,3) have i: "fst r < length (roots t)" "fst r' < length (roots t)"
    and n: "node_at (snd r) (roots t ! fst r) = Some q" "node_at (snd r') (roots t ! fst r') = Some q'"
    by (auto simp: deref_def split: if_splits)
  have u: "uuid_of q \<in> set (map fst (entries (roots t ! fst r)))"
    "uuid_of q \<in> set (map fst (entries (roots t ! fst r')))"
    using node_at_uuid [OF n(1)] node_at_uuid [OF n(2)] assms(4) by simp_all
  have same: "fst r = fst r'" using distinct_concat_map_eq [OF dist _ _ u] i by simp
  moreover have "distinct (map fst (entries (roots t ! fst r)))"
    using distinct_concat_map [OF dist, of "fst r"] i by simp
  ultimately show ?thesis using node_at_unique n assms(4) by (metis prod.expand)
qed

lemma tree_entry_ref:
  assumes "wf_tree t" "(u, d) \<in> set (tree_entries t)"
  obtains r q where "deref r t = Some q" "uuid_of q = u" "pinfo q = d"
proof -
  from assms(2) obtain p where "p \<in> set (roots t)" and e: "(u, d) \<in> set (entries p)"
    by (auto simp: tree_entries_def)
  then obtain i where i: "i < length (roots t)" "p = roots t ! i" by (metis in_set_conv_nth)
  obtain path q where "node_at path p = Some q" "uuid_of q = u" "pinfo q = d"
    using entries_node [OF wf_treeD(1) [OF assms(1) \<open>p \<in> _\<close>] e] by blast
  with i show thesis by (intro that [of "(i, path)" q]) (simp_all add: deref_def)
qed

text \<open>Looking a provider up by its uuid, when no other provider is named like it.\<close>

definition uuid_clear :: "string \<Rightarrow> 'v provider_tree \<Rightarrow> bool" where
  "uuid_clear u t \<longleftrightarrow> (\<forall>(u', d) \<in> set (tree_entries t). pd_name d = u \<longrightarrow> u' = u)"

lemma names_clearD: "names_clear t \<Longrightarrow> u \<in> set (map fst (tree_entries t)) \<Longrightarrow> uuid_clear u t"
  unfolding names_clear_def uuid_clear_def by fastforce

lemma find_by_uuid:
  assumes wf: "wf_tree t" and clear: "uuid_clear u t" and u: "flat t u = Some d"
  obtains r q where "find_with_lock u False t = Inr r" "deref r t = Some q" "uuid_of q = u" "pinfo q = d"
    "wf_provider q"
proof -
  have mem: "(u, d) \<in> set (tree_entries t)" using u wf by (simp add: flat_iff)
  obtain r where r: "find_with_lock u False t = Inr r"
  proof (cases "find_with_lock u False t")
    case (Inl e)
    with find_Inl [OF this] mem show ?thesis by blast
  qed blast
  obtain q where q: "deref r t = Some q" "wf_provider q" "name_of q = u \<or> uuid_of q = u"
    using find_Inr [OF wf r] by metis
  have "uuid_of q = u"
    using q(3) clear subsetD [OF deref_entries [OF q(1)] entries_self [of q]]
    by (auto simp: uuid_clear_def)
  moreover have "pinfo q = d" using deref_flat [OF wf q(1)] u \<open>uuid_of q = u\<close> by simp
  ultimately show thesis using that r q by blast
qed

subsection \<open>Parents and descendants\<close>

definition parent_rel :: "(string \<Rightarrow> 'v provider_data option) \<Rightarrow> (string \<times> string) set" where
  "parent_rel m = {(v, w). \<exists>d. m v = Some d \<and> pd_parent_uuid d = Some w}"

definition descendants :: "(string \<Rightarrow> 'v provider_data option) \<Rightarrow> string \<Rightarrow> string set" where
  "descendants m u = {v \<in> dom m. (v, u) \<in> (parent_rel m)\<^sup>*}"

lemma node_at_parent:
  assumes "wf_provider p" "node_at (ks @ [k]) p = Some q"
  obtains w where "node_at ks p = Some w" "dict_get (children w) k = Some q"
    "k = uuid_of q" "pd_parent_uuid (pinfo q) = Some (uuid_of w)"
proof -
  from assms(2) obtain w where w: "node_at ks p = Some w" "dict_get (children w) k = Some q"
    by (auto simp: node_at_append split: option.splits)
  with wf_providerD [OF wf_node_at [OF assms(1) w(1)] map_of_SomeD [OF w(2)]] that show thesis
    by blast
qed

lemma deref_parent:
  assumes "wf_tree t" "deref r t = Some q"
  shows "(snd r = [] \<and> pd_parent_uuid (pinfo q) = None) \<or>
    (\<exists>ks w. snd r = ks @ [uuid_of q] \<and> deref (fst r, ks) t = Some w \<and>
       dict_get (children w) (uuid_of q) = Some q \<and> pd_parent_uuid (pinfo q) = Some (uuid_of w))"
proof -
  from assms(2) have i: "fst r < length (roots t)" and n: "node_at (snd r) (roots t ! fst r) = Some q"
    by (auto simp: deref_def split: if_splits)
  note root = wf_treeD [OF assms(1) nth_mem [OF i]]
  show ?thesis
  proof (cases "snd r" rule: rev_cases)
    case Nil
    with n root show ?thesis by auto
  next
    case (snoc ks k)
    from node_at_parent [OF root(1) n [unfolded snoc]] i snoc show ?thesis
      by (auto simp: deref_def)
  qed
qed

lemma entries_descend:
  assumes "wf_tree t" "wf_provider q" "set (entries q) \<subseteq> set (tree_entries t)" "(v, d) \<in> set (entries q)"
  shows "(v, uuid_of q) \<in> (parent_rel (flat t))\<^sup>*"
  using assms(2-4)
proof (induction q arbitrary: v d rule: entries.induct)
  case (1 d' cs)
  show ?case
  proof (cases "(v, d) = (pd_uuid d', d')")
    case True
    then show ?thesis by simp
  next
    case False
    with "1.prems"(3) obtain kc where kc: "kc \<in> set cs" "(v, d) \<in> set (entries (snd kc))" by auto
    have sub: "set (entries (snd kc)) \<subseteq> set (tree_entries t)" using "1.prems"(2) kc(1) by auto
    have "(v, uuid_of (snd kc)) \<in> (parent_rel (flat t))\<^sup>*"
      using "1.IH" [OF kc(1) _ sub kc(2)] "1.prems"(1) kc(1) by simp
    moreover have "(uuid_of (snd kc), pd_uuid d') \<in> parent_rel (flat t)"
      using "1.prems"(1) kc(1) subsetD [OF sub entries_self] assms(1)
      by (auto simp: parent_rel_def flat_iff)
    ultimately show ?thesis by simp
  qed
qed

lemma descendants_entries:
  assumes wf: "wf_tree t" and q: "deref r t = Some q"
  shows "descendants (flat t) (uuid_of q) = set (map fst (entries q))"
proof (intro set_eqI iffI)
  fix v assume "v \<in> set (map fst (entries q))"
  then obtain d where d: "(v, d) \<in> set (entries q)" by auto
  from entries_descend [OF wf wf_deref [OF wf q] deref_entries [OF q] d] subsetD [OF deref_entries [OF q] d] wf
  show "v \<in> descendants (flat t) (uuid_of q)" by (auto simp: descendants_def flat_iff)
next
  fix v assume "v \<in> descendants (flat t) (uuid_of q)"
  then have "(v, uuid_of q) \<in> (parent_rel (flat t))\<^sup>*" by (simp add: descendants_def)
  then have "\<exists>ks n. node_at ks q = Some n \<and> uuid_of n = v"
  proof (induction rule: converse_rtrancl_induct)
    case base
    then show ?case by (intro exI [of _ "[]"]) simp
  next
    case (step v w)
    then obtain d ks n where d: "flat t v = Some d" "pd_parent_uuid d = Some w"
      and n: "node_at ks q = Some n" "uuid_of n = w" by (auto simp: parent_rel_def)
    obtain rv qv where v: "deref rv t = Some qv" "uuid_of qv = v" "pinfo qv = d"
      using tree_entry_ref [OF wf, of v d] d(1) wf by (auto simp: flat_iff)
    obtain ls m where m: "snd rv = ls @ [v]" "deref (fst rv, ls) t = Some m" "uuid_of m = w"
        "dict_get (children m) v = Some qv"
      using deref_parent [OF wf v(1)] v d(2) by auto
    have "deref (fst r, snd r @ ks) t = Some n"
      using q n by (auto simp: deref_def node_at_append split: if_splits)
    with m have "(fst r, snd r @ ks) = (fst rv, ls)" "n = m"
      using deref_unique [OF wf] n(2) by (metis, metis option.inject)
    with n m v show ?case by (intro exI [of _ "ks @ [v]"] exI [of _ qv]) (simp add: node_at_append)
  qed
  then show "v \<in> set (map fst (entries q))" using node_at_uuid by blast
qed

lemma flat_diff:
  assumes "wf_tree t" "wf_tree t'" "mset (tree_entries t) = mset (tree_entries t') + mset (entries q)"
  shows "flat t' = flat t |` (- set (map fst (entries q)))"
proof
  fix u
  have set: "set (tree_entries t) = set (tree_entries t') \<union> set (entries q)"
    using arg_cong [where f = set_mset, OF assms(3)] by simp
  have "mset (map fst (tree_entries t)) = mset (map fst (tree_entries t') @ map fst (entries q))"
    using arg_cong [where f = "image_mset fst", OF assms(3)] by simp
  then have "distinct (map fst (tree_entries t') @ map fst (entries q))"
    using assms(1) mset_eq_imp_distinct_iff unfolding wf_tree_def by blast
  then have disj: "fst ` set (tree_entries t') \<inter> fst ` set (entries q) = {}" by simp
  have "flat t' u = Some d \<longleftrightarrow> (flat t |` (- set (map fst (entries q)))) u = Some d" for d
  proof (cases "u \<in> fst ` set (entries q)")
    case True
    with disj have "(u, d) \<notin> set (tree_entries t')" by force
    with True show ?thesis by (simp add: flat_iff [OF assms(2)])
  next
    case False
    then have "(u, d) \<notin> set (entries q)" by force
    with False show ?thesis by (simp add: flat_iff [OF assms(1)] flat_iff [OF assms(2)] set)
  qed
  then show "flat t' u = (flat t |` (- set (map fst (entries q)))) u"
    by (metis not_None_eq)
qed

subsection \<open>Removing and adding nodes\<close>

lemma sum_list_dict_del:
  assumes "dict_wf m" "dict_get m k = Some c"
  shows "(\<Sum>kc \<leftarrow> dict_del k m. h (snd kc)) + h c = (\<Sum>kc \<leftarrow> m. (h (snd kc) :: 'b multiset))"
  using assms
proof (induction m)
  case (Cons kc m)
  show ?case
  proof (cases "fst kc = k")
    case True
    with Cons.prems have "dict_del k m = m" and "snd kc = c"
      by (auto intro: dict_del_absent split: if_splits prod.splits)
    with True show ?thesis by (simp add: dict_del_def case_prod_beta add.commute)
  next
    case False
    with Cons show ?thesis by (cases kc) (auto simp: dict_del_def ac_simps)
  qed
qed simp

lemma entries_remove_child:
  assumes "wf_provider w" "dict_get (children w) (uuid_of q) = Some q"
  shows "mset (entries (remove_child q w)) + mset (entries q) = mset (entries w)"
  using sum_list_dict_del [OF wf_provider_keys [OF assms(1)] assms(2), of "\<lambda>x. mset (entries x)"]
    dict_get_in [OF assms(2)]
  unfolding mset_entries [of "remove_child q w"] mset_entries [of w]
  by (simp add: remove_child_def add.assoc)

interpretation removing: node_update "remove_child q" "\<lambda>_. True" for q
proof
  show "wf_provider (remove_child q p)" if "wf_provider p" for p
    using that by (cases p) (auto simp: remove_child_def set_dict_del dict_keys_del)
qed (simp_all add: remove_child_def)

interpretation adding: node_update "add_child new"
  "\<lambda>q. wf_provider new \<and> pd_parent_uuid (pinfo new) = Some (uuid_of q)" for new
proof
  show "wf_provider (add_child new p)"
    if "wf_provider new \<and> pd_parent_uuid (pinfo new) = Some (uuid_of p)" "wf_provider p" for p
    using that by (cases p) (auto simp: add_child_def set_dict_set dict_keys_set)
qed (simp_all add: add_child_def)

lemma entries_add_child:
  "uuid_of new \<notin> set (dict_keys (children q)) \<Longrightarrow>
     mset (entries (add_child new q)) = mset (entries q) + mset (entries new)"
  by (cases q) (simp add: add_child_def dict_set_fresh)

lemma wf_tree_smaller:
  assumes "wf_tree t" "mset (tree_entries t) = mset (tree_entries t') + X"
    and "\<And>r. r \<in> set (roots t') \<Longrightarrow> pd_parent_uuid (pinfo r) = None \<and> wf_provider r"
  shows "wf_tree t'"
proof -
  have m: "mset (map fst (tree_entries t)) = mset (map fst (tree_entries t')) + image_mset fst X"
    using arg_cong [where f = "image_mset fst", OF assms(2)] by simp
  obtain ys where "mset ys = image_mset fst X" using ex_mset by blast
  with m have "mset (map fst (tree_entries t)) = mset (map fst (tree_entries t') @ ys)" by simp
  with assms(1) have "distinct (map fst (tree_entries t'))"
    using mset_eq_imp_distinct_iff distinct_append unfolding wf_tree_def by metis
  moreover have "[] \<notin> set (map fst (tree_entries t'))"
    using assms(1) arg_cong [where f = set_mset, OF m] by (auto simp: wf_tree_def)
  ultimately show ?thesis using assms(3) by (simp add: wf_tree_def)
qed

lemma remove_by_uuid:
  assumes wf: "wf_tree t" and clear: "names_clear t" and u: "flat t u = Some d"
  obtains r q t' where "remove_with_lock u t = (Inr (), t')" "deref r t = Some q" "uuid_of q = u"
    "mset (tree_entries t) = mset (tree_entries t') + mset (entries q)" "wf_tree t'"
proof -
  have uin: "u \<in> set (map fst (tree_entries t))" using u wf by (force simp: flat_iff)
  obtain r q where r: "find_with_lock u False t = Inr r" "deref r t = Some q" "uuid_of q = u"
    using find_by_uuid [OF wf names_clearD [OF clear uin] u] by metis
  from deref_parent [OF wf r(2)] show thesis
  proof (elim disjE exE conjE)
    assume root: "snd r = []" "pd_parent_uuid (pinfo q) = None"
    let ?t' = "t\<lparr>roots := take (fst r) (roots t) @ drop (Suc (fst r)) (roots t)\<rparr>"
    from r(2) root have i: "fst r < length (roots t)" and q: "roots t ! fst r = q"
      by (auto simp: deref_def split: if_splits)
    have run: "remove_with_lock u t = (Inr (), ?t')" using r root by (simp add: remove_with_lock_def)
    have m: "mset (tree_entries t) = mset (tree_entries ?t') + mset (entries q)"
      unfolding tree_entries_def by (subst id_take_nth_drop [OF i]) (simp add: q)
    have "wf_tree ?t'"
      using wf_tree_smaller [OF wf m] wf_treeD [OF wf] by (auto dest: in_set_takeD in_set_dropD)
    with that [OF run r(2,3) m] show thesis by blast
  next
    fix ks w
    assume w: "snd r = ks @ [uuid_of q]" "deref (fst r, ks) t = Some w"
      "dict_get (children w) (uuid_of q) = Some q" "pd_parent_uuid (pinfo q) = Some (uuid_of w)"
    have win: "uuid_of w \<in> set (map fst (tree_entries t))"
      using subsetD [OF deref_entries [OF w(2)] entries_self] by force
    obtain pr w' where pr: "find_with_lock (uuid_of w) False t = Inr pr" "deref pr t = Some w'"
        "uuid_of w' = uuid_of w"
      using find_by_uuid [OF wf names_clearD [OF clear win] deref_flat [OF wf w(2)]] by metis
    have "pr = (fst r, ks)" using deref_unique [OF wf pr(2) w(2) pr(3)] .
    with pr w have pw: "deref pr t = Some w" by simp
    let ?t' = "update_ref pr (remove_child q) t"
    have "uuid_of w \<noteq> []" using win wf unfolding wf_tree_def by metis
    then have run: "remove_with_lock u t = (Inr (), ?t')"
      using r w(4) pr(1) by (simp add: remove_with_lock_def)
    have "mset (tree_entries ?t') + (mset (entries (remove_child q w)) + mset (entries q))
        = mset (tree_entries t) + mset (entries (remove_child q w))"
      using tree_entries_update_ref [OF wf pw, of "remove_child q"]
        entries_remove_child [OF wf_deref [OF wf w(2)] w(3)] by simp
    then have m: "mset (tree_entries t) = mset (tree_entries ?t') + mset (entries q)"
      by (simp add: ac_simps)
    have "wf_tree ?t'" using wf_tree_smaller [OF wf m] removing.wf_roots_kept [OF wf pw] by blast
    with that [OF run r(2,3) m] show thesis by blast
  qed
qed

lemma entries_new_provider [simp]:
  "entries (new_provider g n u gen p) = [(uuid_of (new_provider g n u gen p), pinfo (new_provider g n u gen p))]"
  "wf_provider (new_provider g n u gen p)"
  "pd_parent_uuid (pinfo (new_provider g n u gen p)) = p"
  "name_of (new_provider g n u gen p) = n"
  "children (new_provider g n u gen p) = []"
  by (simp_all add: new_provider_def)

lemma uuid_new_provider [simp]:
  "uuid_of (new_provider g n (Some u) gen p) = u"
  "uuid_of (new_provider g n None gen p) = g"
  by (simp_all add: new_provider_def)

lemma wf_tree_bigger:
  assumes "wf_tree t" "mset (tree_entries t') = mset (tree_entries t) + {#(u, d)#}"
    and "u \<notin> set (map fst (tree_entries t))" "u \<noteq> []"
    and "\<And>r. r \<in> set (roots t') \<Longrightarrow> pd_parent_uuid (pinfo r) = None \<and> wf_provider r"
  shows "wf_tree t' \<and> flat t' = (flat t)(u \<mapsto> d)"
proof -
  have m: "mset (map fst (tree_entries t')) = mset (u # map fst (tree_entries t))"
    using arg_cong [where f = "image_mset fst", OF assms(2)] by simp
  have "distinct (map fst (tree_entries t'))"
    using assms(1,3) mset_eq_imp_distinct_iff [OF m] by (simp add: wf_tree_def)
  moreover have "[] \<notin> set (map fst (tree_entries t'))"
    using assms(1,4) mset_eq_setD [OF m] by (auto simp: wf_tree_def)
  ultimately have wf': "wf_tree t'" using assms(5) by (simp add: wf_tree_def)
  have set: "set (tree_entries t') = insert (u, d) (set (tree_entries t))"
    using arg_cong [where f = set_mset, OF assms(2)] by simp
  have "flat t' v = ((flat t)(u \<mapsto> d)) v" for v
  proof (cases "v = u")
    case True
    then show ?thesis using flat_iff [OF wf'] set by simp
  next
    case False
    then have "flat t' v = Some e \<longleftrightarrow> flat t v = Some e" for e
      using flat_iff [OF wf'] flat_iff [OF assms(1)] set by auto
    with False show ?thesis by (metis fun_upd_other not_None_eq)
  qed
  with wf' show ?thesis by blast
qed

lemma add_root_wf:
  assumes "wf_tree t" "u \<notin> set (map fst (tree_entries t))" "u \<noteq> []"
    and "new = new_provider g n (Some u) gen None"
  shows "wf_tree (t\<lparr>roots := roots t @ [new]\<rparr>) \<and>
         flat (t\<lparr>roots := roots t @ [new]\<rparr>) = (flat t)(u \<mapsto> pinfo new)"
  using assms wf_treeD [OF assms(1)]
  by (intro wf_tree_bigger [OF assms(1)]) (auto simp: tree_entries_def new_provider_def)

lemma add_child_wf:
  assumes "wf_tree t" "deref r t = Some q" "uuid_of new \<notin> set (map fst (tree_entries t))" "uuid_of new \<noteq> []"
    and "new = new_provider g n u gen (Some (uuid_of q))"
  shows "wf_tree (update_ref r (add_child new) t) \<and>
         flat (update_ref r (add_child new) t) = (flat t)(uuid_of new \<mapsto> pinfo new)"
proof (rule wf_tree_bigger [OF assms(1) _ assms(3,4)])
  have "uuid_of new \<notin> set (dict_keys (children q))"
  proof
    assume "uuid_of new \<in> set (dict_keys (children q))"
    then obtain c where c: "(uuid_of new, c) \<in> set (children q)" by auto
    have "uuid_of c \<in> set (map fst (tree_entries t))"
      using subsetD [OF deref_entries [OF assms(2)] subsetD [OF entries_child [OF c] entries_self]]
      by force
    with assms(3) wf_providerD(1) [OF wf_deref [OF assms(1,2)] c] show False by simp
  qed
  from entries_add_child [OF this] tree_entries_update_ref [OF assms(1,2), of "add_child new"]
  show "mset (tree_entries (update_ref r (add_child new) t)) = mset (tree_entries t) + {#(uuid_of new, pinfo new)#}"
    using assms(5) by (simp add: add.assoc)
  show "pd_parent_uuid (pinfo root) = None \<and> wf_provider root"
    if "root \<in> set (roots (update_ref r (add_child new) t))" for root
    using adding.wf_roots_kept [OF assms(1,2) _ that] assms(5) by simp
qed

lemma dom_flat: "dom (flat t) = set (map fst (tree_entries t))"
  by (simp add: flat_def dom_map_of_conv_image_fst)

lemma names_clear_flat:
  "wf_tree t \<Longrightarrow> names_clear t \<longleftrightarrow>
     (\<forall>u d. flat t u = Some d \<longrightarrow> pd_name d = u \<or> pd_name d \<notin> dom (flat t))"
  unfolding names_clear_def dom_flat by (auto simp: flat_iff)

lemma attach_spec:
  assumes "wf_tree t" "names_clear t" "u \<notin> dom (flat t)" "u \<noteq> []"
    and "case parent of None \<Rightarrow> True | Some pu \<Rightarrow> pu \<in> dom (flat t)"
    and "new = new_provider g n (Some u) gen parent"
  obtains t' where "attach_provider parent new t = (Inr (), t')" "wf_tree t'"
    "flat t' = (flat t)(u \<mapsto> pinfo new)"
proof (cases parent)
  case None
  with add_root_wf [OF assms(1) _ assms(4), of new g n gen] assms(3,6) that show thesis
    by (simp add: attach_provider_def dom_flat)
next
  case (Some pu)
  with assms(5) obtain d where d: "flat t pu = Some d" by auto
  then have "uuid_clear pu t" using names_clearD [OF assms(2)] dom_flat [of t] by blast
  then obtain r q where r: "find_with_lock pu False t = Inr r" "deref r t = Some q" "uuid_of q = pu"
    using find_by_uuid [OF assms(1) _ d] by metis
  with Some that add_child_wf [OF assms(1) r(2), of new g n "Some u" gen] assms(3,4,6) show thesis
    by (simp add: attach_provider_def dom_flat)
qed

subsection \<open>Populating\<close>

definition fresh_data :: "string \<Rightarrow> provider_dict \<Rightarrow> 'v provider_data" where
  "fresh_data u pd = \<lparr>pd_uuid = u, pd_name = the (pdict_name pd), pd_generation = pdict_generation pd,
     pd_parent_uuid = pdict_parent_provider_uuid pd, pd_inventory = [], pd_traits = {}, pd_aggregates = {}\<rparr>"

definition dict_ok :: "(string, provider_dict) dict \<Rightarrow> bool" where
  "dict_ok D \<longleftrightarrow> dict_wf D \<and> (\<forall>(u, pd) \<in> set D. pdict_uuid pd = Some u \<and> u \<noteq> [] \<and> pdict_name pd \<noteq> None)"

text \<open>
  What \<open>populate_from_iterable\<close> asks of its argument: every parent is known, with a provider
  come all its descendants in the tree, and no name of a provider is the uuid of another one.
\<close>

definition pop_pre :: "(string \<Rightarrow> 'v provider_data option) \<Rightarrow> (string, provider_dict) dict \<Rightarrow> bool" where
  "pop_pre m D \<longleftrightarrow> dict_ok D \<and>
     (\<forall>u pd pu. dict_get D u = Some pd \<longrightarrow> pdict_parent_provider_uuid pd = Some pu \<longrightarrow>
        pu \<in> set (dict_keys D) \<union> dom m) \<and>
     (\<forall>u \<in> set (dict_keys D). descendants m u \<subseteq> set (dict_keys D)) \<and>
     (\<forall>u d. m u = Some d \<longrightarrow> pd_name d = u \<or> pd_name d \<notin> set (dict_keys D) \<union> dom m) \<and>
     (\<forall>u pd. dict_get D u = Some pd \<longrightarrow>
        the (pdict_name pd) = u \<or> the (pdict_name pd) \<notin> set (dict_keys D) \<union> dom m)"

definition pop_inv :: "(string \<Rightarrow> 'v provider_data option) \<Rightarrow> (string, provider_dict) dict \<Rightarrow>
    (string, provider_dict) dict \<Rightarrow> 'v provider_tree \<Rightarrow> bool" where
  "pop_inv m D R t \<longleftrightarrow> wf_tree t \<and> dict_wf R \<and>
     (\<forall>u pd. dict_get R u = Some pd \<longrightarrow> dict_get D u = Some pd) \<and>
     (\<forall>u. if u \<in> set (dict_keys R) then flat t u = None \<or> flat t u = m u
          else case dict_get D u of Some pd \<Rightarrow> flat t u = Some (fresh_data u pd) \<and>
                   pdict_parent_provider_uuid pd \<notin> Some ` set (dict_keys R)
                 | None \<Rightarrow> flat t u = m u)"

lemma pop_inv_at:
  "pop_inv m D R t \<Longrightarrow>
     (if u \<in> set (dict_keys R) then flat t u = None \<or> flat t u = m u
          else case dict_get D u of Some pd \<Rightarrow> flat t u = Some (fresh_data u pd) \<and>
                   pdict_parent_provider_uuid pd \<notin> Some ` set (dict_keys R)
                 | None \<Rightarrow> flat t u = m u)"
  unfolding pop_inv_def by blast

lemma pop_invD:
  assumes "pop_inv m D R t" "flat t u = Some d"
  shows "u \<in> set (dict_keys R) \<and> m u = Some d \<or>
    u \<notin> set (dict_keys R) \<and> dict_get D u = None \<and> m u = Some d \<or>
    (\<exists>pd. u \<notin> set (dict_keys R) \<and> dict_get D u = Some pd \<and> d = fresh_data u pd \<and>
       pdict_parent_provider_uuid pd \<notin> Some ` set (dict_keys R))"
  using pop_inv_at [OF assms(1), of u] assms(2) by (auto split: if_splits option.splits)

lemma pop_inv_name:
  assumes "pop_pre m D" "pop_inv m D R t" "flat t u = Some d"
  shows "pd_name d = u \<or> pd_name d \<notin> set (dict_keys D) \<union> dom m"
  using pop_invD [OF assms(2,3)] assms(1)
  by (elim disjE exE conjE) (simp_all add: pop_pre_def fresh_data_def)

lemma pop_inv_clear:
  assumes "pop_pre m D" "pop_inv m D R t"
  shows "names_clear t"
proof -
  have wf: "wf_tree t" using assms(2) by (simp add: pop_inv_def)
  have R: "u \<in> set (dict_keys D)" if "u \<in> set (dict_keys R)" for u
    using that assms(2) dict_get_in [of D u] dict_get_None [of R u] unfolding pop_inv_def by fastforce
  have dom: "dom (flat t) \<subseteq> set (dict_keys D) \<union> dom m"
    using pop_invD [OF assms(2)] dict_get_in [of D] by blast
  with pop_inv_name [OF assms] wf show ?thesis by (subst names_clear_flat) blast+
qed

lemma pop_inv_descendants:
  assumes pre: "pop_pre m D" and inv: "pop_inv m D R t" and u: "u \<in> set (dict_keys R)"
  shows "descendants (flat t) u \<subseteq> set (dict_keys R)"
proof
  fix v assume "v \<in> descendants (flat t) u"
  then have "(v, u) \<in> (parent_rel (flat t))\<^sup>*" by (simp add: descendants_def)
  then show "v \<in> set (dict_keys R)"
  proof (induction rule: converse_rtrancl_induct)
    case base
    show ?case by (rule u)
  next
    case (step v w)
    then obtain d where d: "flat t v = Some d" "pd_parent_uuid d = Some w" by (auto simp: parent_rel_def)
    have wD: "w \<in> set (dict_keys D)"
      using step.IH inv dict_get_in [of D w] dict_get_None [of R w] unfolding pop_inv_def by fastforce
    from pop_invD [OF inv d(1)] show ?case
    proof (elim disjE exE conjE)
      assume "dict_get D v = None" "m v = Some d"
      then have "v \<in> descendants m w" using d(2) by (auto simp: descendants_def parent_rel_def)
      with pre wD have "v \<in> set (dict_keys D)" by (auto simp: pop_pre_def)
      with \<open>dict_get D v = None\<close> show ?case by (simp add: dict_get_None)
    next
      fix pd assume "d = fresh_data v pd" "pdict_parent_provider_uuid pd \<notin> Some ` set (dict_keys R)"
      with d(2) step.IH show ?case by (simp add: fresh_data_def)
    qed
  qed
qed

lemma pop_inv_remove:
  assumes pre: "pop_pre m D" and inv: "pop_inv m D R t" and u: "u \<in> set (dict_keys R)"
  obtains t1 X where "scatch (remove_with_lock u)
        (\<lambda>e. case e of ValueError _ \<Rightarrow> sreturn () | KeyError _ \<Rightarrow> sraise e) t = (Inr (), t1)"
    "wf_tree t1" "flat t1 = flat t |` (- X)" "X \<subseteq> set (dict_keys R)" "flat t1 u = None"
proof (cases "flat t u")
  case None
  have wf: "wf_tree t" using inv by (simp add: pop_inv_def)
  have uD: "u \<in> set (dict_keys D)"
    using u inv dict_get_in [of D u] dict_get_None [of R u] unfolding pop_inv_def by fastforce
  have clear: "pd_name d \<noteq> u" if "flat t v = Some d" for v d
  proof
    assume "pd_name d = u"
    with None that pop_inv_name [OF pre inv that] uD show False by auto
  qed
  have "\<exists>e. find_with_lock u False t = Inl e"
  proof (cases "find_with_lock u False t")
    case (Inr r)
    then obtain q where "deref r t = Some q" "name_of q = u \<or> uuid_of q = u"
      using find_Inr [OF wf] by metis
    with deref_flat [OF wf] clear None show ?thesis by fastforce
  qed blast
  then have "find_with_lock u False t = Inl (ValueError (NoSuchProvider u))"
    using find_error by blast
  then have "scatch (remove_with_lock u)
        (\<lambda>e. case e of ValueError _ \<Rightarrow> sreturn () | KeyError _ \<Rightarrow> sraise e) t = (Inr (), t)"
    by (simp add: scatch_def remove_with_lock_def sreturn_def)
  from that [OF this wf, of "{}"] None show thesis by (simp add: restrict_map_def)
next
  case (Some d)
  have wf: "wf_tree t" using inv by (simp add: pop_inv_def)
  obtain r q t1 where rem: "remove_with_lock u t = (Inr (), t1)" "deref r t = Some q" "uuid_of q = u"
    "mset (tree_entries t) = mset (tree_entries t1) + mset (entries q)" "wf_tree t1"
    using remove_by_uuid [OF wf pop_inv_clear [OF pre inv] Some] by metis
  have X: "descendants (flat t) u = set (map fst (entries q))"
    using descendants_entries [OF wf rem(2)] rem(3) by simp
  have uX: "u \<in> descendants (flat t) u" using Some by (auto simp: descendants_def)
  have "flat t1 = flat t |` (- descendants (flat t) u)"
    using flat_diff [OF wf rem(5,4)] X by simp
  with that [of t1 "descendants (flat t) u"] rem(1,5) pop_inv_descendants [OF pre inv u] uX
  show thesis by (simp add: scatch_def)
qed

lemma pop_inv_inject:
  assumes pre: "pop_pre m D" and inv: "pop_inv m D R t" and pick: "find_suitable R = Some (u, pd)"
  obtains t' where "inject_provider u pd t = (Inr (), t')" "pop_inv m D (dict_del u R) t'"
proof -
  let ?parent = "pdict_parent_provider_uuid pd"
  from pick have mem: "(u, pd) \<in> set R" and par: "?parent \<notin> Some ` set (dict_keys R)"
    unfolding find_suitable_def by (auto dest: find_SomeD)
  have Ru: "dict_get R u = Some pd" using mem inv by (simp add: pop_inv_def map_of_eq_Some_iff)
  then have uR: "u \<in> set (dict_keys R)" by (rule dict_get_in)
  have Du: "dict_get D u = Some pd" using Ru inv by (simp add: pop_inv_def)
  then obtain n where n: "pdict_name pd = Some n" "pdict_uuid pd = Some u" "u \<noteq> []"
  proof -
    have "dict_ok D" using pre by (simp add: pop_pre_def)
    with map_of_SomeD [OF Du] show thesis by (auto simp: dict_ok_def intro: that)
  qed
  obtain t1 X where t1: "scatch (remove_with_lock u)
        (\<lambda>e. case e of ValueError _ \<Rightarrow> sreturn () | KeyError _ \<Rightarrow> sraise e) t = (Inr (), t1)"
    "wf_tree t1" "flat t1 = flat t |` (- X)" "X \<subseteq> set (dict_keys R)" "flat t1 u = None"
    using pop_inv_remove [OF pre inv uR] by blast
  have clear1: "names_clear t1"
  proof -
    have "wf_tree t" using inv by (simp add: pop_inv_def)
    then have "pd_name d = v \<or> pd_name d \<notin> dom (flat t)" if "flat t v = Some d" for v d
      using pop_inv_clear [OF pre inv] that names_clear_flat by blast
    then show ?thesis
      unfolding names_clear_flat [OF t1(2)] t1(3) by (simp add: restrict_map_def domIff)
  qed
  have parent: "case ?parent of None \<Rightarrow> True | Some pu \<Rightarrow> pu \<in> dom (flat t1)"
  proof (cases ?parent)
    case (Some pu)
    have pu: "pu \<in> set (dict_keys D) \<union> dom m" using pre Du Some by (auto simp: pop_pre_def)
    have "pu \<notin> set (dict_keys R)" using par Some by auto
    then have "if dict_get D pu = None then flat t pu = m pu else flat t pu \<noteq> None"
      using pop_inv_at [OF inv, of pu] by (auto split: option.splits)
    with pu \<open>pu \<notin> _\<close> t1(3,4) Some show ?thesis
      by (auto simp: restrict_map_def dict_get_None split: if_splits)
  qed simp
  define new :: "'a provider" where "new = new_provider u n (Some u) (pdict_generation pd) ?parent"
  obtain t' where t': "attach_provider ?parent new t1 = (Inr (), t')" "wf_tree t'"
    "flat t' = (flat t1)(u \<mapsto> pinfo new)"
    using attach_spec [OF t1(2) clear1 _ n(3) parent, of new u n] t1(5) new_def by (auto simp: domIff)
  have data: "pinfo new = fresh_data u pd" using n by (simp add: new_def new_provider_def fresh_data_def)
  have "inject_provider u pd t = (Inr (), t')"
    unfolding inject_provider_def
    using t1(1) t'(1) n by (simp add: sbind_def slift_def from_dict_def new_def)
  moreover have "pop_inv m D (dict_del u R) t'"
  proof -
    have keys: "set (dict_keys (dict_del u R)) = set (dict_keys R) - {u}" by (auto simp: set_dict_del)
    have "if v \<in> set (dict_keys (dict_del u R)) then flat t' v = None \<or> flat t' v = m v
          else case dict_get D v of Some pd \<Rightarrow> flat t' v = Some (fresh_data v pd) \<and>
                   pdict_parent_provider_uuid pd \<notin> Some ` set (dict_keys (dict_del u R))
                 | None \<Rightarrow> flat t' v = m v" for v
    proof (cases "v = u")
      case True
      then show ?thesis using Du par data t'(3) unfolding keys by auto
    next
      case False
      have "flat t' v = (if v \<in> X then None else flat t v)"
        using False t'(3) t1(3) by (simp add: restrict_map_def)
      with pop_inv_at [OF inv, of v] False t1(4) show ?thesis unfolding keys by (auto split: option.splits if_splits)
    qed
    with t'(2) inv show ?thesis unfolding pop_inv_def by auto
  qed
  ultimately show thesis using that by blast
qed

text \<open>A set of dicts that are each other's parents.\<close>

definition parent_cycle :: "(string, provider_dict) dict \<Rightarrow> bool" where
  "parent_cycle R \<longleftrightarrow> (\<exists>S \<subseteq> set (dict_keys R). S \<noteq> {} \<and>
     (\<forall>u pd. (u, pd) \<in> set R \<longrightarrow> u \<in> S \<longrightarrow> pdict_parent_provider_uuid pd \<in> Some ` S))"

lemma find_suitable_None:
  assumes "find_suitable R = None" "R \<noteq> []"
  shows "parent_cycle R"
  unfolding parent_cycle_def using assms
  by (intro exI [of _ "set (dict_keys R)"]) (auto simp: find_suitable_def dest: find_NoneD)

lemma parent_cycle_del: "parent_cycle (dict_del u R) \<Longrightarrow> parent_cycle R"
proof -
  assume "parent_cycle (dict_del u R)"
  then obtain S where S: "S \<subseteq> set (dict_keys (dict_del u R))" "S \<noteq> {}"
    "\<forall>v pd. (v, pd) \<in> set (dict_del u R) \<longrightarrow> v \<in> S \<longrightarrow> pdict_parent_provider_uuid pd \<in> Some ` S"
    by (auto simp: parent_cycle_def)
  then have "S \<subseteq> set (dict_keys R)" "u \<notin> S" by (auto simp: set_dict_del)
  moreover have "(v, pd) \<in> set (dict_del u R)" if "(v, pd) \<in> set R" "v \<in> S" for v pd
    using that \<open>u \<notin> S\<close> by (auto simp: set_dict_del)
  ultimately show ?thesis using S(2,3) unfolding parent_cycle_def
    by (intro exI [of _ S] conjI allI impI) blast+
qed

lemma populate_loop_Nil [simp]: "populate_loop [] t = (Inr (), t)"
  by (simp add: populate_loop.simps)

lemma populate_loop_ok:
  assumes "pop_pre m D" "pop_inv m D R t" "\<not> parent_cycle R"
  shows "\<exists>t'. populate_loop R t = (Inr (), t') \<and> pop_inv m D [] t'"
  using assms(2,3)
proof (induction "length R" arbitrary: R t rule: less_induct)
  case less
  show ?case
  proof (cases "R = []")
    case True
    with less.prems show ?thesis by simp
  next
    case False
    with less.prems(2) obtain u pd where pick: "find_suitable R = Some (u, pd)"
      using find_suitable_None by (cases "find_suitable R") auto
    obtain t1 where t1: "inject_provider u pd t = (Inr (), t1)" "pop_inv m D (dict_del u R) t1"
      using pop_inv_inject [OF assms(1) less.prems(1) pick] .
    have "length (dict_del u R) < length R" using find_suitable_in [OF pick] by (rule dict_del_shorter)
    from less.hyps [OF this t1(2)] less.prems(2) parent_cycle_del
    obtain t' where "populate_loop (dict_del u R) t1 = (Inr (), t')" "pop_inv m D [] t'" by blast
    with False pick t1 show ?thesis by (simp add: populate_loop.simps [of R t])
  qed
qed

lemma to_add_keys:
  "to_add_by_uuid acc pds = Inr D \<Longrightarrow> dict_wf acc \<Longrightarrow> dict_wf D \<and> set (dict_keys acc) \<subseteq> set (dict_keys D)"
proof (induction acc pds arbitrary: D rule: to_add_by_uuid.induct)
  case (2 acc pd pds)
  then obtain u where u: "pdict_uuid pd = Some u" by (auto split: option.splits)
  with 2 have "dict_wf D \<and> set (dict_keys (dict_set u pd acc)) \<subseteq> set (dict_keys D)" by simp
  then show ?case by (auto simp: dict_keys_set split: if_splits)
qed simp

lemma missing_parents_pre:
  assumes "pop_pre (flat t) D" shows "missing_parents D t = []"
proof -
  have "pdict_parent_provider_uuid pd \<in> {None} \<union> Some ` set (dict_keys D)
      \<union> Some ` set (concat (map p_get_provider_uuids (roots t)))" if "pd \<in> set (dict_values D)" for pd
  proof (cases "pdict_parent_provider_uuid pd")
    case (Some pu)
    from that obtain u where "(u, pd) \<in> set D" by auto
    then have "dict_get D u = Some pd" using assms by (simp add: pop_pre_def dict_ok_def map_of_eq_Some_iff)
    with assms Some have "pu \<in> set (dict_keys D) \<union> dom (flat t)" by (auto simp: pop_pre_def)
    moreover have "dom (flat t) = set (concat (map p_get_provider_uuids (roots t)))"
      by (simp add: dom_flat tree_entries_def uuids_entries image_UN)
    ultimately show ?thesis using Some by auto
  qed simp
  then show ?thesis by (simp add: missing_parents_def filter_empty_conv)
qed

lemma pop_inv_start: "wf_tree t \<Longrightarrow> pop_pre (flat t) D \<Longrightarrow> pop_inv (flat t) D D t"
proof -
  assume wf: "wf_tree t" and pre: "pop_pre (flat t) D"
  have "dict_get D u = None" if "u \<notin> set (dict_keys D)" for u
    using that by (simp only: dict_get_None not_False_eq_True)
  moreover have "dict_wf D" using pre by (simp add: pop_pre_def dict_ok_def)
  ultimately show ?thesis using wf unfolding pop_inv_def by simp
qed

lemma populate_loop_cycle:
  "parent_cycle R \<Longrightarrow> \<exists>e t'. populate_loop R t = (Inl e, t')"
proof (induction R t rule: populate_loop.induct)
  case (1 R t)
  from "1.prems" obtain S where S: "S \<subseteq> set (dict_keys R)" "S \<noteq> {}"
    and par: "\<And>u pd. (u, pd) \<in> set R \<Longrightarrow> u \<in> S \<Longrightarrow> pdict_parent_provider_uuid pd \<in> Some ` S"
    unfolding parent_cycle_def by blast
  then have ne: "R \<noteq> []" by auto
  show ?case
  proof (cases "find_suitable R")
    case None
    with ne show ?thesis by (simp add: populate_loop.simps [of R t])
  next
    case (Some upd)
    obtain u pd where up: "upd = (u, pd)" by (cases upd)
    from Some up have "(u, pd) \<in> set R" "pdict_parent_provider_uuid pd \<notin> Some ` set (dict_keys R)"
      unfolding find_suitable_def by (auto dest: find_SomeD)
    with par S(1) have "u \<notin> S" by blast
    then have cyc: "parent_cycle (dict_del u R)"
      unfolding parent_cycle_def using S par
      by (intro exI [of _ S] conjI allI impI) (auto simp: set_dict_del dict_keys_del)
    show ?thesis
    proof (cases "inject_provider u pd t")
      case (Pair r t1)
      with "1.IH" [OF ne Some [unfolded up] refl Pair [symmetric]] cyc ne Some up show ?thesis
        by (cases r) (auto simp: populate_loop.simps [of R t])
    qed
  qed
qed

section \<open>Properties of the provider tree\<close>

text \<open>
  C5. \<open>populate_from_iterable\<close> on a well-formed tree, for dicts whose parents are known,
  that come with all their descendants and do not form a cycle of parents, succeeds. The
  well-formed tree it leaves holds every given provider with exactly the attributes of its
  dict (no inventory, traits or aggregates) and every other provider unchanged.
\<close>

theorem populate_spec:
  assumes "wf_tree t" "to_add_by_uuid [] dicts = Inr D" "pop_pre (flat t) D" "\<not> parent_cycle D"
  shows "\<exists>t'. populate_from_iterable dicts t = (Inr (), t') \<and> wf_tree t' \<and>
    (\<forall>u. flat t' u = (case dict_get D u of Some pd \<Rightarrow> Some (fresh_data u pd) | None \<Rightarrow> flat t u))"
proof -
  obtain t' where t': "populate_loop D t = (Inr (), t')" "pop_inv (flat t) D [] t'"
    using populate_loop_ok [OF assms(3) pop_inv_start [OF assms(1,3)] assms(4)] by blast
  have "populate_from_iterable dicts t = (Inr (), t')"
    using assms(2) t'(1) missing_parents_pre [OF assms(3)]
    by (cases dicts) (auto simp: populate_from_iterable_def)
  moreover have "flat t' u = (case dict_get D u of Some pd \<Rightarrow> Some (fresh_data u pd) | None \<Rightarrow> flat t u)" for u
    using pop_inv_at [OF t'(2), of u] by (auto split: option.splits)
  ultimately show ?thesis using t'(2) by (auto simp: pop_inv_def)
qed

definition ex_root_tree :: "int provider_tree" where
  "ex_root_tree = \<lparr>roots = [new_provider [] ''node'' (Some ''r'') (Some 1) None]\<rparr>"

definition ex_child_dict :: provider_dict where
  "ex_child_dict = \<lparr>pdict_name = Some ''pf'', pdict_uuid = Some ''c'', pdict_generation = Some 7,
     pdict_parent_provider_uuid = Some ''r''\<rparr>"

lemma ex_root_tree_wf: "wf_tree ex_root_tree" "names_clear ex_root_tree"
  "flat ex_root_tree = [''r'' \<mapsto> pinfo (new_provider [] ''node'' (Some ''r'') (Some 1) None)]"
  by (simp_all add: ex_root_tree_def wf_tree_def names_clear_def flat_def tree_entries_def new_provider_def)

lemma ex_pop_pre: "pop_pre (flat ex_root_tree) [(''c'', ex_child_dict)]"
  "\<not> parent_cycle [(''c'', ex_child_dict)]"
proof -
  have "parent_rel (flat ex_root_tree) = {}"
    by (auto simp: parent_rel_def ex_root_tree_wf new_provider_def)
  then show "pop_pre (flat ex_root_tree) [(''c'', ex_child_dict)]"
    by (simp add: pop_pre_def dict_ok_def ex_child_dict_def descendants_def ex_root_tree_wf) auto
qed (auto simp: parent_cycle_def ex_child_dict_def)

theorem populate_spec_witness:
  "\<exists>t'. populate_from_iterable [ex_child_dict] ex_root_tree = (Inr (), t') \<and>
     flat t' ''c'' = Some (fresh_data ''c'' ex_child_dict) \<and> flat t' ''r'' \<noteq> None"
proof -
  have "to_add_by_uuid [] [ex_child_dict] = Inr [(''c'', ex_child_dict)]"
    by (simp add: ex_child_dict_def)
  from populate_spec [OF ex_root_tree_wf(1) this ex_pop_pre] show ?thesis
    by (elim ex_forward conjE) (simp add: ex_root_tree_wf(3))
qed

text \<open>
  A set of dicts that are each other's parents makes \<open>populate_from_iterable\<close> raise,
  whatever the tree: the branch its comment calls impossible is reached.
\<close>

theorem populate_cycle:
  assumes "to_add_by_uuid [] dicts = Inr D" "parent_cycle D"
  shows "\<exists>e t'. populate_from_iterable dicts t = (Inl e, t')"
proof (cases "missing_parents D t = []")
  case True
  have "dicts \<noteq> []" using assms by (auto simp: parent_cycle_def)
  with True assms(1) populate_loop_cycle [OF assms(2), of t] show ?thesis
    by (simp add: populate_from_iterable_def)
next
  case False
  have "dicts \<noteq> []" using assms by (auto simp: parent_cycle_def)
  with False assms(1) show ?thesis by (simp add: populate_from_iterable_def)
qed

definition ex_cycle :: "provider_dict list" where
  "ex_cycle = [\<lparr>pdict_name = Some ''A'', pdict_uuid = Some ''a'', pdict_generation = None,
      pdict_parent_provider_uuid = Some ''b''\<rparr>,
    \<lparr>pdict_name = Some ''B'', pdict_uuid = Some ''b'', pdict_generation = None,
      pdict_parent_provider_uuid = Some ''a''\<rparr>]"

theorem populate_cycle_witness:
  "to_add_by_uuid [] ex_cycle = Inr [(''a'', ex_cycle ! 0), (''b'', ex_cycle ! 1)] \<and>
   (\<exists>e t'. populate_from_iterable ex_cycle \<lparr>roots = ([] :: int provider list)\<rparr> = (Inl e, t'))"
proof -
  have D: "to_add_by_uuid [] ex_cycle = Inr [(''a'', ex_cycle ! 0), (''b'', ex_cycle ! 1)]"
    by (simp add: ex_cycle_def)
  have "parent_cycle [(''a'', ex_cycle ! 0), (''b'', ex_cycle ! 1)]"
    unfolding parent_cycle_def by (intro exI [of _ "{''a'', ''b''}"]) (auto simp: ex_cycle_def)
  from D populate_cycle [OF D this] show ?thesis by blast
qed

lemma remove_flat:
  assumes "wf_tree t" "names_clear t" "flat t u \<noteq> None"
  shows "\<exists>t'. remove u t = (Inr (), t') \<and> wf_tree t' \<and>
    flat t' = flat t |` (- descendants (flat t) u)"
proof -
  from assms(3) obtain d where "flat t u = Some d" by blast
  then obtain r q t' where "remove_with_lock u t = (Inr (), t')" "deref r t = Some q" "uuid_of q = u"
    "mset (tree_entries t) = mset (tree_entries t') + mset (entries q)" "wf_tree t'"
    using remove_by_uuid [OF assms(1,2)] by metis
  with flat_diff [OF assms(1), of t' q] descendants_entries [OF assms(1), of r q] show ?thesis
    by (simp add: remove_def)
qed

text \<open>
  C33. Removing a provider by its uuid succeeds and leaves a well-formed tree without the
  provider and without its descendants (the providers whose chain of parents leads to it);
  all other providers are unchanged.
\<close>

theorem remove_spec:
  assumes "wf_tree t" "names_clear t" "flat t u \<noteq> None"
  shows "\<exists>t'. remove u t = (Inr (), t') \<and> wf_tree t' \<and>
    flat t' = flat t |` (- descendants (flat t) u)"
  using assms by (rule remove_flat)

theorem remove_spec_witness:
  "\<exists>t'. remove ''r'' ex_root_tree = (Inr (), t') \<and> flat t' ''r'' = None"
proof -
  have "flat ex_root_tree ''r'' \<noteq> None" by (simp add: ex_root_tree_wf)
  from remove_spec [OF ex_root_tree_wf(1,2) this] this show ?thesis
    by (auto simp: descendants_def restrict_map_def)
qed

text \<open>
  \<open>new_child\<close> with an explicit uuid: it raises and leaves the tree alone when the
  uuid is in use (as a uuid or as a name) or the parent is missing; otherwise it returns the
  uuid and adds exactly one provider, whose parent is a provider with the given uuid or name.
\<close>

theorem new_child_spec:
  assumes "wf_tree t" "u \<noteq> []"
  shows "case new_child generated name parent (Some u) generation t of
      (Inl e, t') \<Rightarrow> t' = t \<and> (exists u t \<and> e = ValueError (ProviderExists u) \<or>
         \<not> exists parent t \<and> e = ValueError (NoSuchProvider parent))
    | (Inr v, t') \<Rightarrow> v = u \<and> flat t u = None \<and> wf_tree t' \<and>
        (\<exists>p pd. flat t p = Some pd \<and> (p = parent \<or> pd_name pd = parent) \<and>
           flat t' = (flat t)(u \<mapsto> \<lparr>pd_uuid = u, pd_name = name, pd_generation = generation,
              pd_parent_uuid = Some p, pd_inventory = [], pd_traits = {}, pd_aggregates = {}\<rparr>))"
proof (cases "find_with_lock u False t")
  case (Inr r)
  then show ?thesis using assms(2) by (simp add: new_child_def exists_def)
next
  case (Inl e)
  with find_Inl [OF this] have fresh: "u \<notin> set (map fst (tree_entries t))" by auto
  show ?thesis
  proof (cases "find_with_lock parent False t")
    case (Inl e')
    with \<open>find_with_lock u False t = Inl e\<close> find_error [OF Inl] show ?thesis
      using assms(2) by (simp add: new_child_def exists_def)
  next
    case (Inr pr)
    obtain q where q: "deref pr t = Some q" "name_of q = parent \<or> uuid_of q = parent"
      using find_Inr [OF assms(1) Inr] by metis
    define new :: "'a provider" where "new = new_provider generated name (Some u) generation (Some (uuid_of q))"
    have "wf_tree (update_ref pr (add_child new) t) \<and>
        flat (update_ref pr (add_child new) t) = (flat t)(u \<mapsto> pinfo new)"
      using add_child_wf [OF assms(1) q(1), of new] fresh assms(2) new_def by simp
    moreover have "flat t u = None" using fresh unfolding dom_flat [symmetric] by auto
    moreover have "new_child generated name parent (Some u) generation t = (Inr u, update_ref pr (add_child new) t)"
      using Inl Inr q(1) assms(2) by (simp add: new_child_def new_def)
    ultimately show ?thesis
      using q(2) deref_flat [OF assms(1) q(1)] by (auto simp: new_def new_provider_def)
  qed
qed

theorem new_child_spec_witness:
  "\<exists>t'. new_child [] ''pf'' ''node'' (Some ''c'') None ex_root_tree = (Inr ''c'', t') \<and>
     wf_tree t' \<and> flat t' ''c'' \<noteq> None"
proof -
  have run: "\<exists>t'. new_child [] ''pf'' ''node'' (Some ''c'') None ex_root_tree = (Inr ''c'', t')"
    by (simp add: new_child_def ex_root_tree_def find_with_lock_def new_provider_def deref_def
        Let_def)
  have "''c'' \<noteq> []" by simp
  from new_child_spec [OF ex_root_tree_wf(1) this, where generated = "[]" and name = "''pf''"
      and parent = "''node''" and generation = None] run show ?thesis
    by auto
qed

text \<open>
  \<open>update_inventory\<close> changes exactly one provider, the one found: its generation
  becomes the given one (if any), its inventory the given one whenever the call reports a
  change, and a second call with the same inventory reports no change. Inventories are
  dictionaries, so their keys are distinct.
\<close>

lemma record_changed_self: "dict_wf r \<Longrightarrow> \<not> record_changed r r"
  by (auto simp: record_changed_def list_ex_iff)

lemma p_has_inventory_changed_self:
  "dict_wf new \<Longrightarrow> (\<forall>(k, r) \<in> set new. dict_wf r) \<Longrightarrow> pd_inventory d = new \<Longrightarrow>
     \<not> p_has_inventory_changed new d"
  using record_changed_self by (fastforce simp: p_has_inventory_changed_def list_ex_iff)

theorem update_inventory_spec:
  assumes "wf_tree t" "dict_wf new" "\<forall>(k, r) \<in> set new. dict_wf r"
    and "update_inventory s new gen t = (Inr b, t')"
  shows "wf_tree t' \<and> (\<exists>u d d'. flat t u = Some d \<and> (pd_name d = s \<or> u = s) \<and>
      flat t' = (flat t)(u \<mapsto> d') \<and>
      d' = d\<lparr>pd_generation := (if gen = None then pd_generation d else gen),
             pd_inventory := (if b then new else pd_inventory d)\<rparr> \<and>
      (b \<longleftrightarrow> p_has_inventory_changed new d) \<and> \<not> p_has_inventory_changed new d')"
proof -
  let ?f = "p_update_inventory new gen"
  have "info_update (\<lambda>d. snd (?f d))" by (rule upd_inventory.info_update_axioms)
  from update_found_Inr [OF this assms(1)] assms(4) obtain u d where
    ud: "wf_tree t'" "flat t u = Some d" "pd_name d = s \<or> u = s" "b = fst (?f d)"
      "flat t' = (flat t)(u \<mapsto> snd (?f d))"
    unfolding update_inventory_def by blast
  have gen: "p_has_inventory_changed new (update_generation gen d) = p_has_inventory_changed new d"
    by (simp add: p_has_inventory_changed_def update_generation_def)
  then have b: "b = p_has_inventory_changed new d" using ud(4) by (simp add: p_update_inventory_def Let_def)
  have d': "snd (?f d) = d\<lparr>pd_generation := (if gen = None then pd_generation d else gen),
             pd_inventory := (if b then new else pd_inventory d)\<rparr>"
    unfolding b by (simp add: p_update_inventory_def gen Let_def) (simp add: update_generation_def)
  have "\<not> p_has_inventory_changed new (snd (?f d))"
  proof (cases b)
    case True
    then show ?thesis using p_has_inventory_changed_self [OF assms(2,3)] d' by simp
  next
    case False
    with b d' show ?thesis by (simp add: p_has_inventory_changed_def)
  qed
  with ud b d' show ?thesis by blast
qed

theorem update_inventory_spec_witness:
  "\<exists>t' d'. update_inventory ''node'' [(''VCPU'', [(''total'', 4)])] (Some 2) ex_root_tree = (Inr True, t') \<and>
     flat t' ''r'' = Some d' \<and> pd_generation d' = Some 2 \<and> pd_inventory d' = [(''VCPU'', [(''total'', 4)])]"
proof -
  let ?new = "[(''VCPU'', [(''total'', 4 :: int)])]"
  have run: "\<exists>t'. update_inventory ''node'' ?new (Some 2) ex_root_tree = (Inr True, t')"
    by (simp add: update_inventory_def update_found_def ex_root_tree_def find_with_lock_def
        new_provider_def deref_def p_update_inventory_def update_generation_def
        p_has_inventory_changed_def)
  have wf: "dict_wf ?new" "\<forall>(k, r) \<in> set ?new. dict_wf r" by simp_all
  from run obtain t' where t': "update_inventory ''node'' ?new (Some 2) ex_root_tree = (Inr True, t')" by blast
  from update_inventory_spec [OF ex_root_tree_wf(1) wf t'] t' show ?thesis
    by (auto simp: ex_root_tree_wf(3) split: if_splits)
qed

text \<open>
  \<open>has_sharing_provider\<close> never raises on a well-formed tree whose names are clear of
  uuids, and says whether some provider of the tree has inventory of the resource class and the
  sharing trait.
\<close>

lemma data_by_uuid:
  assumes "wf_tree t" "names_clear t" "flat t u = Some d"
  shows "data u t = Inr d"
proof -
  have "u \<in> set (map fst (tree_entries t))" using assms(3) dom_flat [of t] by blast
  from find_by_uuid [OF assms(1) names_clearD [OF assms(2) this] assms(3)]
  obtain r q where "find_with_lock u False t = Inr r" "deref r t = Some q" "pinfo q = d" by blast
  then show ?thesis by (simp add: data_def get_provider_def)
qed

lemma sharing_scan_eq:
  assumes "wf_tree t" "names_clear t" "set us \<subseteq> dom (flat t)"
  shows "sharing_scan shares rc us t = Inr (\<exists>u \<in> set us. \<exists>d. flat t u = Some d \<and>
           rc \<in> set (dict_keys (pd_inventory d)) \<and> shares \<in> pd_traits d)"
  using assms(3)
proof (induction us)
  case (Cons u us)
  then obtain d where d: "flat t u = Some d" by auto
  show ?case
  proof (cases "rc \<in> set (dict_keys (pd_inventory d)) \<and> shares \<in> pd_traits d")
    case True
    then show ?thesis by (simp add: data_by_uuid [OF assms(1,2) d] d)
  next
    case False
    then have "sharing_scan shares rc (u # us) t = sharing_scan shares rc us t"
      by (simp only: sharing_scan.simps data_by_uuid [OF assms(1,2) d] rbind_simps if_False)
    moreover have "set us \<subseteq> dom (flat t)" using Cons.prems by simp
    ultimately show ?thesis using Cons.IH False d by simp blast
  qed
qed simp

theorem has_sharing_provider_spec:
  assumes "wf_tree t" "names_clear t"
  shows "has_sharing_provider shares rc t = Inr (\<exists>u d. flat t u = Some d \<and>
           rc \<in> set (dict_keys (pd_inventory d)) \<and> shares \<in> pd_traits d)"
proof -
  have us: "set (concat (map p_get_provider_uuids (roots t))) = dom (flat t)"
    by (simp add: dom_flat tree_entries_def uuids_entries image_UN)
  show ?thesis
    unfolding has_sharing_provider_def get_provider_uuids_def
    using sharing_scan_eq [OF assms equalityD1 [OF us], of shares rc] unfolding us
    by (auto simp: domIff)
qed

theorem has_sharing_provider_spec_witness:
  "has_sharing_provider ''MISC_SHARES_VIA_AGGREGATE'' ''DISK_GB'' ex_root_tree = Inr False"
  using has_sharing_provider_spec [OF ex_root_tree_wf(1,2), of "''MISC_SHARES_VIA_AGGREGATE''" "''DISK_GB''"]
  by (simp add: ex_root_tree_wf(3) new_provider_def)

end
