(* ===== verification/Pci_Device.thy ===== *)
theory Pci_Device
  imports Prelude
begin

text \<open>
  The PCI device object and its life cycle (\<^verbatim>\<open>zun/objects/pci_device.py\<close>,
  \<^verbatim>\<open>zun/objects/fields.py\<close>). Devices are shared between the tracker's list, the pools
  and each other (a virtual function knows its physical function and the other way round),
  so they live in a store and are named by references.

  The claim, allocate, free and remove operations are a state machine on the statuses of a
  device, its parent and its children. The invariant \<open>exclusive\<close> says what that machine is
  for: a physical function and one of its virtual functions are never both in use.
\<close>

section \<open>Data\<close>

datatype dev_type = STANDARD | SRIOV_PF | SRIOV_VF

datatype dev_status =
  AVAILABLE | CLAIMED | ALLOCATED | REMOVED | DELETED | UNCLAIMABLE | UNAVAILABLE

type_synonym dref = nat

record pci_fields =
  d_id :: "int attr"
  d_uuid :: "string attr"
  compute_node_uuid :: "string option attr"
  address :: string
  vendor_id :: string
  product_id :: string
  dev_type :: dev_type
  status :: dev_status
  dev_id :: "string option"
  label :: "string option"
  container_uuid :: "string option attr"
  request_id :: "string option attr"
  extra_info :: "(string, string) dict"
  numa_node :: "int option"
  parent_addr :: "string option"

record pci_device = pci_fields +
  parent_device :: "dref option"
  child_devices :: "dref list"

text \<open>What the host reports about a device; None for \<open>hv_compute_node_uuid\<close> is a missing key.
  \<open>hv_extra\<close> holds the keys that are not fields of the object, already encoded as strings.\<close>

record hv_device =
  hv_address :: string
  hv_vendor_id :: string
  hv_product_id :: string
  hv_dev_type :: dev_type
  hv_dev_id :: "string option"
  hv_label :: "string option"
  hv_numa_node :: "int option"
  hv_parent_addr :: "string option"
  hv_compute_node_uuid :: "string option option"
  hv_extra :: "(string, string) dict"

datatype pci_error =
    PciDeviceInvalidStatus string dev_status
  | PciDeviceVFInvalidStatus string
  | PciDevicePFInvalidStatus "string option"
  | PciDeviceInvalidOwner string
  | PciDevicePoolEmpty string
  | PciDeviceRequestFailed
  | NotImplementedError string
  | TypeError
  | ValueNotInList
  | PopFromEmptyList
  | PciDeviceWrongAddressFormat string
  | PciConfigInvalidWhitelist string
  | PciDeviceInvalidDeviceName

text \<open>\<open>attached u\<close> is the list \<open>pci_devices\<close> of the container with uuid \<open>u\<close>.\<close>

record pci_store =
  heap :: "dref \<Rightarrow> pci_device"
  attached :: "string \<Rightarrow> pci_device list"

definition with_dev :: "dref \<Rightarrow> (pci_device \<Rightarrow> pci_device) \<Rightarrow> pci_store \<Rightarrow> pci_store" where
  "with_dev d f s = s\<lparr>heap := (heap s)(d := f (heap s d))\<rparr>"

abbreviation status_at :: "pci_store \<Rightarrow> dref \<Rightarrow> dev_status" where
  "status_at s d \<equiv> status (heap s d)"

section \<open>Operations\<close>

definition compare_pci_device_attributes :: "pci_device \<Rightarrow> pci_device \<Rightarrow> bool" where
  \<comment> \<open>every field but the timestamps; the links to other devices are not fields\<close>
  "compare_pci_device_attributes a b \<longleftrightarrow> pci_fields.truncate a = pci_fields.truncate b"

definition update_device :: "hv_device \<Rightarrow> pci_device \<Rightarrow> pci_device" where
  "update_device dev_dict d =
     d\<lparr>address := hv_address dev_dict, vendor_id := hv_vendor_id dev_dict,
       product_id := hv_product_id dev_dict, dev_type := hv_dev_type dev_dict,
       dev_id := hv_dev_id dev_dict, label := hv_label dev_dict,
       numa_node := hv_numa_node dev_dict, parent_addr := hv_parent_addr dev_dict,
       compute_node_uuid := (case hv_compute_node_uuid dev_dict of
          None \<Rightarrow> compute_node_uuid d | Some u \<Rightarrow> Val u),
       extra_info := dict_update (extra_info d) (hv_extra dev_dict)\<rparr>"

definition create :: "string \<Rightarrow> hv_device \<Rightarrow> pci_device" where
  \<comment> \<open>the fields that \<open>update_device\<close> overwrites are given the dictionary's values at once\<close>
  "create generated dev_dict =
     (update_device dev_dict
       \<lparr>d_id = Unset, d_uuid = Unset, compute_node_uuid = Unset, address = hv_address dev_dict,
        vendor_id = hv_vendor_id dev_dict, product_id = hv_product_id dev_dict,
        dev_type = hv_dev_type dev_dict, status = AVAILABLE, dev_id = None, label = None,
        container_uuid = Unset, request_id = Unset, extra_info = [], numa_node = None,
        parent_addr = None, parent_device = None, child_devices = []\<rparr>)
       \<lparr>status := AVAILABLE, d_uuid := Val generated\<rparr>"

definition bulk_update_status :: "dref list \<Rightarrow> dev_status \<Rightarrow> pci_store \<Rightarrow> pci_store" where
  "bulk_update_status dev_list st = fold (\<lambda>d. with_dev d (\<lambda>x. x\<lparr>status := st\<rparr>)) dev_list"

definition is_available :: "pci_device \<Rightarrow> bool" where
  "is_available d \<longleftrightarrow> status d = AVAILABLE"

definition parent_ok_statuses :: "dev_status list" where
  "parent_ok_statuses = [AVAILABLE, UNCLAIMABLE, UNAVAILABLE]"

definition claim :: "dref \<Rightarrow> string \<Rightarrow> (pci_store, pci_error, unit) st" where
  "claim d container s =
     (let self = heap s d;
          own = with_dev d (\<lambda>x. x\<lparr>status := CLAIMED, container_uuid := Val (Some container)\<rparr>)
      in if status self \<noteq> AVAILABLE then (Inl (PciDeviceInvalidStatus (address self) (status self)), s)
         else case dev_type self of
           SRIOV_PF \<Rightarrow>
             if \<not> (\<forall>vf \<in> set (child_devices self). is_available (heap s vf))
             then (Inl (PciDeviceVFInvalidStatus (address self)), s)
             else (Inr (), own (bulk_update_status (child_devices self) UNCLAIMABLE s))
         | SRIOV_VF \<Rightarrow>
             (case parent_device self of
                None \<Rightarrow> (Inr (), own s)
              | Some p \<Rightarrow>
                  if status_at s p \<notin> set parent_ok_statuses
                  then (Inl (PciDevicePFInvalidStatus (parent_addr self)), s)
                  else (Inr (), own (if status_at s p = AVAILABLE
                                     then with_dev p (\<lambda>x. x\<lparr>status := UNCLAIMABLE\<rparr>) s else s)))
         | STANDARD \<Rightarrow> (Inr (), own s))"

definition allocate :: "dref \<Rightarrow> string \<Rightarrow> (pci_store, pci_error, unit) st" where
  "allocate d container s =
     (let self = heap s d;
          own = with_dev d (\<lambda>x. x\<lparr>status := ALLOCATED, container_uuid := Val (Some container)\<rparr>);
          attach = (\<lambda>t. t\<lparr>attached := (attached t)(container := attached t container @ [heap t d])\<rparr>)
      in if status self \<notin> {AVAILABLE, CLAIMED}
         then (Inl (PciDeviceInvalidStatus (address self) (status self)), s)
         else if status self = CLAIMED \<and> container_uuid self = Unset
         then (Inl (NotImplementedError ''container_uuid''), s)
         else if status self = CLAIMED \<and> container_uuid self \<noteq> Val (Some container)
         then (Inl (PciDeviceInvalidOwner (address self)), s)
         else case dev_type self of
           SRIOV_PF \<Rightarrow>
             if \<not> (\<forall>vf \<in> set (child_devices self). status_at s vf \<in> {AVAILABLE, UNCLAIMABLE})
             then (Inl (PciDeviceVFInvalidStatus (address self)), s)
             else (Inr (), attach (own (bulk_update_status (child_devices self) UNAVAILABLE s)))
         | SRIOV_VF \<Rightarrow>
             (case parent_device self of
                None \<Rightarrow> (Inr (), attach (own s))
              | Some p \<Rightarrow>
                  if status_at s p \<notin> set parent_ok_statuses
                  then (Inl (PciDevicePFInvalidStatus (parent_addr self)), s)
                  else (Inr (), attach (own (with_dev p (\<lambda>x. x\<lparr>status := UNAVAILABLE\<rparr>) s))))
         | STANDARD \<Rightarrow> (Inr (), attach (own s)))"

definition remove_dev :: "dref \<Rightarrow> (pci_store, pci_error, unit) st" where
  "remove_dev d s =
     (let self = heap s d
      in if status self \<noteq> AVAILABLE then (Inl (PciDeviceInvalidStatus (address self) (status self)), s)
         else (Inr (), with_dev d (\<lambda>x. x\<lparr>status := REMOVED, container_uuid := Val None,
                                          request_id := Val None\<rparr>) s))"

fun others_available :: "(dref \<Rightarrow> pci_device) \<Rightarrow> pci_device \<Rightarrow> dref list \<Rightarrow> (pci_error, bool) res" where
  \<comment> \<open>\<open>all([vf.is_available() for vf in vfs_list if vf.id != self.id])\<close>: every id is read\<close>
  "others_available h self [] = Inr True"
| "others_available h self (vf # vfs) =
     (if d_id (h vf) = Unset \<or> d_id self = Unset then Inl (NotImplementedError ''id'')
      else rbind (others_available h self vfs)
             (\<lambda>rest. Inr ((d_id (h vf) \<noteq> d_id self \<longrightarrow> is_available (h vf)) \<and> rest)))"

definition free :: "string option \<Rightarrow> dref \<Rightarrow> (pci_store, pci_error, dref list) st" where
  \<comment> \<open>a container argument is subscripted, which a versioned object does not allow\<close>
  "free container d s =
     (let self = heap s d;
          own = with_dev d (\<lambda>x. x\<lparr>status := AVAILABLE, container_uuid := Val None,
                                  request_id := Val None\<rparr>)
      in if status self \<notin> {ALLOCATED, CLAIMED}
         then (Inl (PciDeviceInvalidStatus (address self) (status self)), s)
         else if container \<noteq> None then (Inl TypeError, s)
         else case dev_type self of
           SRIOV_PF \<Rightarrow> (Inr (child_devices self @ [d]),
                        own (bulk_update_status (child_devices self) AVAILABLE s))
         | SRIOV_VF \<Rightarrow>
             (case parent_device self of
                None \<Rightarrow> (Inr [d], own s)
              | Some p \<Rightarrow>
                  (case others_available (heap s) self (child_devices (heap s p)) of
                     Inl e \<Rightarrow> (Inl e, s)
                   | Inr True \<Rightarrow> (Inr [p, d], own (with_dev p (\<lambda>x. x\<lparr>status := AVAILABLE\<rparr>) s))
                   | Inr False \<Rightarrow> (Inr [d], own s)))
         | STANDARD \<Rightarrow> (Inr [d], own s))"

datatype db_call = DestroyPciDevice "string option attr" string | UpdatePciDevice "string option attr" string

definition save_dev :: "pci_device \<Rightarrow> pci_device \<times> db_call list" where
  \<comment> \<open>the updates always hold \<open>extra_info\<close>, so they are never empty\<close>
  "save_dev d =
     (if status d = REMOVED
      then (d\<lparr>status := DELETED\<rparr>, [DestroyPciDevice (compute_node_uuid d) (address d)])
      else if status d \<noteq> DELETED then (d, [UpdatePciDevice (compute_node_uuid d) (address d)])
      else (d, []))"

section \<open>The links between devices\<close>

definition in_use :: "dev_status \<Rightarrow> bool" where
  "in_use st \<longleftrightarrow> st = CLAIMED \<or> st = ALLOCATED"

definition blocked :: "dev_status \<Rightarrow> bool" where
  "blocked st \<longleftrightarrow> st = UNCLAIMABLE \<or> st = UNAVAILABLE"

definition shut :: "dev_status \<Rightarrow> bool" where
  "shut st \<longleftrightarrow> st \<noteq> AVAILABLE \<and> \<not> in_use st"

text \<open>
  The links agree: the children of a device are virtual functions that name it as their
  parent, a parent is a physical function and lists its child. Ids are those of database
  rows, so two devices never have the same one.
\<close>

definition links_ok :: "(dref \<Rightarrow> pci_device) \<Rightarrow> bool" where
  "links_ok h \<longleftrightarrow>
     (\<forall>p c. c \<in> set (child_devices (h p)) \<longrightarrow> dev_type (h c) = SRIOV_VF \<and> parent_device (h c) = Some p) \<and>
     (\<forall>c p. parent_device (h c) = Some p \<longrightarrow> dev_type (h p) = SRIOV_PF \<and> c \<in> set (child_devices (h p))) \<and>
     (\<forall>p. distinct (child_devices (h p))) \<and>
     (\<forall>a b i. d_id (h a) = Val i \<longrightarrow> d_id (h b) = Val i \<longrightarrow> a = b)"

definition exclusive :: "(dref \<Rightarrow> pci_device) \<Rightarrow> bool" where
  "exclusive h \<longleftrightarrow>
     (\<forall>c p. parent_device (h c) = Some p \<longrightarrow>
        (in_use (status (h p)) \<longrightarrow> shut (status (h c))) \<and>
        (in_use (status (h c)) \<longrightarrow> shut (status (h p))))"

section \<open>What each operation does to the store\<close>

text \<open>What the status operations leave alone: identity, properties and links of a device.\<close>

definition dev_shape :: "pci_device \<Rightarrow> int attr \<times> string \<times> dev_type \<times> dref option \<times> dref list \<times>
    string \<times> string \<times> int option \<times> string option" where
  "dev_shape d = (d_id d, address d, dev_type d, parent_device d, child_devices d,
     vendor_id d, product_id d, numa_node d, parent_addr d)"

lemma heap_with_dev [simp]: "heap (with_dev d f s) = (heap s)(d := f (heap s d))"
  by (simp add: with_dev_def)

lemma attached_with_dev [simp]: "attached (with_dev d f s) = attached s"
  by (simp add: with_dev_def)

lemma bulk_heap:
  "heap (bulk_update_status ds st s) x = (if x \<in> set ds then (heap s x)\<lparr>status := st\<rparr> else heap s x)"
  by (induction ds arbitrary: s) (auto simp: bulk_update_status_def)

lemma bulk_attached [simp]: "attached (bulk_update_status ds st s) = attached s"
  by (induction ds arbitrary: s) (auto simp: bulk_update_status_def)

lemma dev_shape_updates [simp]:
  "dev_shape (d\<lparr>status := st\<rparr>) = dev_shape d"
  "dev_shape (d\<lparr>container_uuid := u\<rparr>) = dev_shape d"
  "dev_shape (d\<lparr>request_id := r\<rparr>) = dev_shape d"
  by (simp_all add: dev_shape_def)

lemma dev_shapeD:
  assumes "\<And>x. dev_shape (h' x) = dev_shape (h x)"
  shows "d_id (h' x) = d_id (h x)" "address (h' x) = address (h x)" "dev_type (h' x) = dev_type (h x)"
    "parent_device (h' x) = parent_device (h x)" "child_devices (h' x) = child_devices (h x)"
  using assms [of x] by (auto simp: dev_shape_def)

lemma links_ok_shape:
  assumes "\<And>x. dev_shape (h' x) = dev_shape (h x)"
  shows "links_ok h' = links_ok h"
  by (simp add: links_ok_def dev_shapeD [of h' h, OF assms])

lemma links_okD:
  assumes "links_ok h"
  shows "c \<in> set (child_devices (h p)) \<Longrightarrow> dev_type (h c) = SRIOV_VF \<and> parent_device (h c) = Some p"
    and "parent_device (h c) = Some p \<Longrightarrow> dev_type (h p) = SRIOV_PF \<and> c \<in> set (child_devices (h p))"
    and "d_id (h a) = Val i \<Longrightarrow> d_id (h b) = Val i \<Longrightarrow> a = b"
    and "distinct (child_devices (h p))"
  using assms unfolding links_ok_def by blast+

lemma links_ok_parent:
  assumes ok: "links_ok h" and ty: "dev_type (h d) \<noteq> SRIOV_VF"
  shows "parent_device (h d) = None"
proof (cases "parent_device (h d)")
  case (Some p)
  with links_okD(2) [OF ok] links_okD(1) [OF ok] ty show ?thesis by blast
qed

lemma links_ok_children:
  assumes ok: "links_ok h" and ty: "dev_type (h d) \<noteq> SRIOV_PF"
  shows "child_devices (h d) = []"
proof (cases "child_devices (h d)")
  case (Cons c cs)
  then have "c \<in> set (child_devices (h d))" by simp
  with links_okD(1) [OF ok] links_okD(2) [OF ok] ty show ?thesis by blast
qed

lemma links_ok_iff:
  assumes "links_ok h"
  shows "c \<in> set (child_devices (h p)) \<longleftrightarrow> parent_device (h c) = Some p"
  using links_okD(1,2) [OF assms] by blast

lemma links_ok_irrefl: "links_ok h \<Longrightarrow> parent_device (h d) \<noteq> Some d"
  using links_okD(1) [of h d d] links_okD(2) [of h d d] by auto

lemma links_ok_two:
  assumes "links_ok h" "parent_device (h c) = Some p"
  shows "parent_device (h p) = None" "child_devices (h c) = []" "c \<noteq> p"
    "dev_type (h p) = SRIOV_PF" "dev_type (h c) = SRIOV_VF"
proof -
  show p: "dev_type (h p) = SRIOV_PF" and c: "dev_type (h c) = SRIOV_VF"
    using links_okD(1,2) [OF assms(1)] assms(2) by blast+
  show "parent_device (h p) = None" using links_ok_parent [OF assms(1)] p by simp
  show "child_devices (h c) = []" using links_ok_children [OF assms(1)] c by simp
  show "c \<noteq> p" using p c by auto
qed

lemma claim_effect:
  assumes "links_ok (heap s)" "claim d u s = (Inr r, s')"
  shows "status_at s d = AVAILABLE"
    and "dev_shape (heap s' x) = dev_shape (heap s x)"
    and "status_at s' x =
       (if x = d then CLAIMED
        else if parent_device (heap s x) = Some d then UNCLAIMABLE
        else if parent_device (heap s d) = Some x \<and> status_at s x = AVAILABLE then UNCLAIMABLE
        else status_at s x)"
    and "parent_device (heap s x) = Some d \<Longrightarrow> status_at s x = AVAILABLE"
    and "parent_device (heap s d) = Some x \<Longrightarrow> status_at s x = AVAILABLE \<or> blocked (status_at s x)"
    and "container_uuid (heap s' x) = (if x = d then Val (Some u) else container_uuid (heap s x))"
  using assms links_ok_parent [of "heap s" d] links_ok_children [of "heap s" d]
    links_ok_irrefl [of "heap s" d] links_ok_iff [of "heap s" x d]
  by (auto simp: claim_def Let_def bulk_heap is_available_def parent_ok_statuses_def blocked_def
      split: if_splits dev_type.splits option.splits)

lemma claim_error: "claim d u s = (Inl e, s') \<Longrightarrow> s' = s"
  by (auto simp: claim_def Let_def split: if_splits dev_type.splits option.splits)

lemma allocate_effect:
  assumes "links_ok (heap s)" "allocate d u s = (Inr r, s')"
  shows "status_at s d = AVAILABLE \<or> status_at s d = CLAIMED \<and> container_uuid (heap s d) = Val (Some u)"
    and "dev_shape (heap s' x) = dev_shape (heap s x)"
    and "status_at s' x =
       (if x = d then ALLOCATED
        else if parent_device (heap s x) = Some d \<or> parent_device (heap s d) = Some x then UNAVAILABLE
        else status_at s x)"
    and "parent_device (heap s x) = Some d \<Longrightarrow> status_at s x \<in> {AVAILABLE, UNCLAIMABLE}"
    and "parent_device (heap s d) = Some x \<Longrightarrow> status_at s x = AVAILABLE \<or> blocked (status_at s x)"
    and "attached s' = (attached s)(u := attached s u @ [heap s' d])"
  using assms links_ok_parent [of "heap s" d] links_ok_children [of "heap s" d]
    links_ok_irrefl [of "heap s" d] links_ok_iff [of "heap s" x d]
  by (auto simp: allocate_def Let_def bulk_heap parent_ok_statuses_def blocked_def
      split: if_splits dev_type.splits option.splits)

lemma allocate_error: "allocate d u s = (Inl e, s') \<Longrightarrow> s' = s"
  by (auto simp: allocate_def Let_def split: if_splits dev_type.splits option.splits)

lemma remove_effect:
  assumes "remove_dev d s = (Inr r, s')"
  shows "status_at s d = AVAILABLE" and "dev_shape (heap s' x) = dev_shape (heap s x)"
    and "status_at s' x = (if x = d then REMOVED else status_at s x)"
  using assms by (auto simp: remove_dev_def Let_def split: if_splits)

lemma remove_error: "remove_dev d s = (Inl e, s') \<Longrightarrow> s' = s"
  by (auto simp: remove_dev_def Let_def split: if_splits)

lemma others_available_Inr:
  assumes "links_ok h" "others_available h (h d) vfs = Inr b"
  shows "b \<longleftrightarrow> (\<forall>vf \<in> set vfs. vf \<noteq> d \<longrightarrow> status (h vf) = AVAILABLE)"
  using assms(2)
proof (induction vfs arbitrary: b)
  case (Cons vf vfs)
  then obtain rest where rest: "others_available h (h d) vfs = Inr rest"
    and b: "b = ((d_id (h vf) \<noteq> d_id (h d) \<longrightarrow> is_available (h vf)) \<and> rest)"
    and set_ids: "d_id (h vf) \<noteq> Unset"
    by (auto simp: rbind_Inr_iff split: if_splits)
  have "d_id (h vf) \<noteq> d_id (h d) \<longleftrightarrow> vf \<noteq> d"
    using links_okD(3) [OF assms(1)] set_ids by (cases "d_id (h vf)") (auto, metis)
  with Cons.IH [OF rest] b show ?case by (simp add: is_available_def)
qed simp

text \<open>The devices whose status \<open>free\<close> sets: the device, its children, and its parent when no
  other child of that parent is kept from being available.\<close>

definition freed :: "(dref \<Rightarrow> pci_device) \<Rightarrow> dref \<Rightarrow> dref \<Rightarrow> bool" where
  "freed h d x \<longleftrightarrow> x = d \<or> parent_device (h x) = Some d \<or>
     parent_device (h d) = Some x \<and>
       (\<forall>vf. parent_device (h vf) = Some x \<longrightarrow> vf \<noteq> d \<longrightarrow> status (h vf) = AVAILABLE)"

lemma free_effect:
  assumes ok: "links_ok (heap s)" and run: "free cont d s = (Inr fs, s')"
  shows "in_use (status_at s d)"
    and "dev_shape (heap s' x) = dev_shape (heap s x)"
    and "status_at s' x = (if freed (heap s) d x then AVAILABLE else status_at s x)"
    and "set fs = {x. freed (heap s) d x}"
    and "distinct fs"
    and "container_uuid (heap s' x) = (if x = d then Val None else container_uuid (heap s x))"
proof -
  show "in_use (status_at s d)"
    using run by (auto simp: free_def Let_def in_use_def split: if_splits)
  note parts = links_ok_parent [OF ok, of d] links_ok_children [OF ok, of d] links_ok_irrefl [OF ok, of d]
    links_ok_iff [OF ok, of _ d] links_okD(4) [OF ok, of d]
  consider (pf) "dev_type (heap s d) = SRIOV_PF" "fs = child_devices (heap s d) @ [d]"
      "s' = with_dev d (\<lambda>x. x\<lparr>status := AVAILABLE, container_uuid := Val None, request_id := Val None\<rparr>)
              (bulk_update_status (child_devices (heap s d)) AVAILABLE s)"
    | (alone) "dev_type (heap s d) \<noteq> SRIOV_PF" "parent_device (heap s d) = None" "fs = [d]"
      "s' = with_dev d (\<lambda>x. x\<lparr>status := AVAILABLE, container_uuid := Val None, request_id := Val None\<rparr>) s"
    | (vf) p b where "dev_type (heap s d) = SRIOV_VF" "parent_device (heap s d) = Some p"
      "others_available (heap s) (heap s d) (child_devices (heap s p)) = Inr b"
      "fs = (if b then [p, d] else [d])"
      "s' = with_dev d (\<lambda>x. x\<lparr>status := AVAILABLE, container_uuid := Val None, request_id := Val None\<rparr>)
              (if b then with_dev p (\<lambda>x. x\<lparr>status := AVAILABLE\<rparr>) s else s)"
    using run parts(1)
    by (auto simp: free_def Let_def split: if_splits dev_type.splits option.splits sum.splits bool.splits)
  then have "dev_shape (heap s' x) = dev_shape (heap s x) \<and>
      status_at s' x = (if freed (heap s) d x then AVAILABLE else status_at s x) \<and>
      set fs = {x. freed (heap s) d x} \<and> distinct fs \<and>
      container_uuid (heap s' x) = (if x = d then Val None else container_uuid (heap s x))"
  proof cases
    case pf
    then show ?thesis using parts by (auto simp: freed_def bulk_heap)
  next
    case alone
    then show ?thesis using parts by (auto simp: freed_def)
  next
    case (vf p b)
    have "b \<longleftrightarrow> (\<forall>vf. parent_device (heap s vf) = Some p \<longrightarrow> vf \<noteq> d \<longrightarrow> status_at s vf = AVAILABLE)"
      using others_available_Inr [OF ok vf(3)] links_ok_iff [OF ok, of _ p] by blast
    with vf show ?thesis using parts by (auto simp: freed_def)
  qed
  then show "dev_shape (heap s' x) = dev_shape (heap s x)"
    "status_at s' x = (if freed (heap s) d x then AVAILABLE else status_at s x)"
    "set fs = {x. freed (heap s) d x}" "distinct fs"
    "container_uuid (heap s' x) = (if x = d then Val None else container_uuid (heap s x))"
    by auto
qed

lemma free_error: "free cont d s = (Inl e, s') \<Longrightarrow> s' = s"
  by (auto simp: free_def Let_def split: if_splits dev_type.splits option.splits sum.splits bool.splits)

section \<open>Invariants of the status machine\<close>

definition dev_inv :: "(dref \<Rightarrow> pci_device) \<Rightarrow> bool" where
  "dev_inv h \<longleftrightarrow> links_ok h \<and> exclusive h"

text \<open>
  \<open>balanced\<close> is stronger: a virtual function is blocked exactly while its physical function
  is in use, and a physical function exactly while one of its virtual functions is.
\<close>

definition live :: "dev_status \<Rightarrow> bool" where
  "live st \<longleftrightarrow> st \<noteq> REMOVED \<and> st \<noteq> DELETED"

definition balanced :: "(dref \<Rightarrow> pci_device) \<Rightarrow> bool" where
  "balanced h \<longleftrightarrow>
     (\<forall>c p. parent_device (h c) = Some p \<longrightarrow>
        live (status (h c)) \<and> live (status (h p)) \<and> (blocked (status (h c)) \<longleftrightarrow> in_use (status (h p))) \<and>
        (in_use (status (h c)) \<longrightarrow> blocked (status (h p)))) \<and>
     (\<forall>p. dev_type (h p) = SRIOV_PF \<longrightarrow> blocked (status (h p)) \<longrightarrow>
        (\<exists>c. parent_device (h c) = Some p \<and> in_use (status (h c))))"

lemma status_classes [simp]:
  "in_use CLAIMED" "in_use ALLOCATED" "\<not> in_use AVAILABLE" "\<not> in_use REMOVED" "\<not> in_use DELETED"
  "\<not> in_use UNCLAIMABLE" "\<not> in_use UNAVAILABLE"
  "blocked UNCLAIMABLE" "blocked UNAVAILABLE" "\<not> blocked AVAILABLE" "\<not> blocked CLAIMED"
  "\<not> blocked ALLOCATED" "\<not> blocked REMOVED" "\<not> blocked DELETED"
  "shut REMOVED" "shut DELETED" "shut UNCLAIMABLE" "shut UNAVAILABLE" "\<not> shut AVAILABLE"
  "\<not> shut CLAIMED" "\<not> shut ALLOCATED"
  by (simp_all add: in_use_def blocked_def shut_def)

lemma shut_not_in_use: "shut st \<Longrightarrow> \<not> in_use st"
  by (simp add: shut_def)

lemma blocked_shut: "blocked st \<Longrightarrow> shut st"
  by (auto simp: blocked_def)

lemma blocked_not_in_use: "blocked st \<Longrightarrow> \<not> in_use st"
  by (auto simp: in_use_def blocked_def)

lemma live_cases: "live st \<longleftrightarrow> st = AVAILABLE \<or> in_use st \<or> blocked st"
  by (cases st) (auto simp: live_def in_use_def blocked_def)

lemma exclusiveD:
  assumes "exclusive h" "parent_device (h c) = Some p"
  shows "in_use (status (h p)) \<Longrightarrow> shut (status (h c))" "in_use (status (h c)) \<Longrightarrow> shut (status (h p))"
  using assms unfolding exclusive_def by blast+

lemma balanced_exclusive: "balanced h \<Longrightarrow> exclusive h"
  by (simp add: balanced_def exclusive_def blocked_shut)

lemma exclusive_step:
  assumes ok: "links_ok h" and shape: "\<And>x. dev_shape (h' x) = dev_shape (h x)"
    and pair: "\<And>c p. parent_device (h c) = Some p \<Longrightarrow> c \<noteq> p \<Longrightarrow>
      (\<And>x. parent_device (h p) \<noteq> Some x) \<Longrightarrow> (\<And>x. parent_device (h x) \<noteq> Some c) \<Longrightarrow>
      (in_use (status (h' p)) \<longrightarrow> shut (status (h' c))) \<and> (in_use (status (h' c)) \<longrightarrow> shut (status (h' p)))"
  shows "exclusive h'"
  unfolding exclusive_def
proof (intro allI impI)
  fix c p assume "parent_device (h' c) = Some p"
  then have cp: "parent_device (h c) = Some p" using dev_shapeD(4) [of h' h, OF shape] by simp
  have "parent_device (h p) \<noteq> Some x" "parent_device (h x) \<noteq> Some c" for x
    using links_ok_two [OF ok cp] links_ok_two [OF ok, of x c] cp by auto
  with pair [OF cp links_ok_two(3) [OF ok cp]]
  show "(in_use (status (h' p)) \<longrightarrow> shut (status (h' c))) \<and> (in_use (status (h' c)) \<longrightarrow> shut (status (h' p)))"
    by blast
qed

lemma claim_exclusive:
  assumes ok: "links_ok (heap s)" and ex: "exclusive (heap s)" and run: "claim d u s = (Inr r, s')"
  shows "exclusive (heap s')"
proof -
  note eff = claim_effect [OF ok run]
  show ?thesis
  proof (rule exclusive_step [OF ok eff(2)])
    fix c p assume cp: "parent_device (heap s c) = Some p" "c \<noteq> p"
      "\<And>x. parent_device (heap s p) \<noteq> Some x" "\<And>x. parent_device (heap s x) \<noteq> Some c"
    show "(in_use (status_at s' p) \<longrightarrow> shut (status_at s' c)) \<and> (in_use (status_at s' c) \<longrightarrow> shut (status_at s' p))"
      using eff(3) [of c] eff(3) [of p] eff(4,5) [of p] eff(4,5) [of c] eff(1) exclusiveD [OF ex cp(1)] cp blocked_shut
      by (auto split: if_splits)
  qed
qed

lemma allocate_exclusive:
  assumes ok: "links_ok (heap s)" and ex: "exclusive (heap s)" and run: "allocate d u s = (Inr r, s')"
  shows "exclusive (heap s')"
proof -
  note eff = allocate_effect [OF ok run]
  show ?thesis
  proof (rule exclusive_step [OF ok eff(2)])
    fix c p assume cp: "parent_device (heap s c) = Some p" "c \<noteq> p"
      "\<And>x. parent_device (heap s p) \<noteq> Some x" "\<And>x. parent_device (heap s x) \<noteq> Some c"
    show "(in_use (status_at s' p) \<longrightarrow> shut (status_at s' c)) \<and> (in_use (status_at s' c) \<longrightarrow> shut (status_at s' p))"
      using eff(3) [of c] eff(3) [of p] exclusiveD [OF ex cp(1)] cp by (auto split: if_splits)
  qed
qed

lemma remove_exclusive:
  assumes ok: "links_ok (heap s)" and ex: "exclusive (heap s)" and run: "remove_dev d s = (Inr r, s')"
  shows "exclusive (heap s')"
proof -
  note eff = remove_effect [OF run]
  show ?thesis
  proof (rule exclusive_step [OF ok eff(2)])
    fix c p assume cp: "parent_device (heap s c) = Some p"
    show "(in_use (status_at s' p) \<longrightarrow> shut (status_at s' c)) \<and> (in_use (status_at s' c) \<longrightarrow> shut (status_at s' p))"
      using eff(1) eff(3) [of c] eff(3) [of p] exclusiveD [OF ex cp] by (auto split: if_splits)
  qed
qed

lemma free_exclusive:
  assumes ok: "links_ok (heap s)" and ex: "exclusive (heap s)" and run: "free cont d s = (Inr fs, s')"
  shows "exclusive (heap s')"
proof -
  note eff = free_effect [OF ok run]
  show ?thesis
  proof (rule exclusive_step [OF ok eff(2)])
    fix c p assume cp: "parent_device (heap s c) = Some p" "c \<noteq> p"
      "\<And>x. parent_device (heap s p) \<noteq> Some x" "\<And>x. parent_device (heap s x) \<noteq> Some c"
    show "(in_use (status_at s' p) \<longrightarrow> shut (status_at s' c)) \<and> (in_use (status_at s' c) \<longrightarrow> shut (status_at s' p))"
      using eff(1) eff(3) [of c] eff(3) [of p] exclusiveD [OF ex cp(1)] cp shut_not_in_use
      by (auto simp: freed_def split: if_splits)
  qed
qed

text \<open>
  The contract a caller relies on: an operation on a device that raises leaves the store
  alone, and one that returns keeps identities, links and exclusion. Loops over several
  devices inherit it.
\<close>

locale device_operation =
  fixes oper :: "dref \<Rightarrow> (pci_store, pci_error, 'a) st"
  assumes raise_unchanged: "oper d s = (Inl e, s') \<Longrightarrow> s' = s"
    and shape_kept: "links_ok (heap s) \<Longrightarrow> oper d s = (Inr a, s') \<Longrightarrow> dev_shape (heap s' x) = dev_shape (heap s x)"
    and exclusive_kept: "links_ok (heap s) \<Longrightarrow> exclusive (heap s) \<Longrightarrow> oper d s = (Inr a, s') \<Longrightarrow> exclusive (heap s')"
begin

lemma inv_kept:
  assumes "dev_inv (heap s)" "oper d s = (r, s')"
  shows "dev_inv (heap s')"
proof (cases r)
  case Inl
  with assms raise_unchanged show ?thesis by blast
next
  case (Inr a)
  with assms have ok: "links_ok (heap s)" and ex: "exclusive (heap s)" and run: "oper d s = (Inr a, s')"
    by (auto simp: dev_inv_def)
  show ?thesis
    using links_ok_shape [of "heap s'" "heap s", OF shape_kept [OF ok run]] ok exclusive_kept [OF ok ex run]
    by (simp add: dev_inv_def)
qed

lemma inv_foreach:
  assumes "dev_inv (heap s)" "sforeach ds (\<lambda>d. sbind (oper d) (\<lambda>_. sreturn ())) s = (r, s')"
  shows "dev_inv (heap s')"
proof (rule sforeach_inv [where P = "\<lambda>t. dev_inv (heap t)", OF _ assms])
  fix d t q t' assume "dev_inv (heap t)" "sbind (oper d) (\<lambda>_. sreturn ()) t = (q, t')"
  then show "dev_inv (heap t')"
    using inv_kept [of t d] by (auto simp: st_defs split: prod.splits sum.splits)
qed

end

interpretation claiming: device_operation "\<lambda>d. claim d u" for u
  using claim_error claim_effect(2) claim_exclusive by unfold_locales auto

interpretation allocating: device_operation "\<lambda>d. allocate d u" for u
  using allocate_error allocate_effect(2) allocate_exclusive by unfold_locales auto

interpretation dropping: device_operation remove_dev
  using remove_error remove_effect(2) remove_exclusive by unfold_locales auto

interpretation freeing: device_operation "free cont" for cont
  using free_error free_effect(2) free_exclusive by unfold_locales auto

text \<open>The tracker also forces the status of a device that cannot be removed.\<close>

definition force_removed :: "dref \<Rightarrow> pci_store \<Rightarrow> pci_store" where
  "force_removed d = with_dev d (\<lambda>x. x\<lparr>status := REMOVED\<rparr>)"

lemma force_removed_inv:
  assumes "dev_inv (heap s)"
  shows "dev_inv (heap (force_removed d s))"
proof -
  have shape: "dev_shape (heap (force_removed d s) x) = dev_shape (heap s x)" for x
    by (simp add: force_removed_def)
  have ok: "links_ok (heap s)" and ex: "exclusive (heap s)" using assms by (auto simp: dev_inv_def)
  have "exclusive (heap (force_removed d s))"
    by (rule exclusive_step [OF ok shape]) (use exclusiveD [OF ex] in \<open>auto simp: force_removed_def\<close>)
  then show ?thesis using links_ok_shape [of "heap (force_removed d s)", OF shape] ok by (simp add: dev_inv_def)
qed

section \<open>Runs of the status machine\<close>

inductive dev_step :: "pci_store \<Rightarrow> pci_store \<Rightarrow> bool" where
  step_claim: "claim d u s = (r, s') \<Longrightarrow> dev_step s s'"
| step_allocate: "allocate d u s = (r, s') \<Longrightarrow> dev_step s s'"
| step_free: "free cont d s = (r', s') \<Longrightarrow> dev_step s s'"
| step_remove: "remove_dev d s = (r, s') \<Longrightarrow> dev_step s s'"
| step_force: "s' = force_removed d s \<Longrightarrow> dev_step s s'"

lemma dev_step_inv: "dev_step s s' \<Longrightarrow> dev_inv (heap s) \<Longrightarrow> dev_inv (heap s')"
  by (induction rule: dev_step.induct)
    (auto intro: claiming.inv_kept allocating.inv_kept freeing.inv_kept dropping.inv_kept force_removed_inv)

lemma dev_steps_inv: "dev_step\<^sup>*\<^sup>* s s' \<Longrightarrow> dev_inv (heap s) \<Longrightarrow> dev_inv (heap s')"
  by (induction rule: rtranclp_induct) (auto intro: dev_step_inv)

lemma balancedD:
  assumes "balanced h"
  shows "parent_device (h c) = Some p \<Longrightarrow> live (status (h c))"
    and "parent_device (h c) = Some p \<Longrightarrow> blocked (status (h c)) \<longleftrightarrow> in_use (status (h p))"
    and "parent_device (h c) = Some p \<Longrightarrow> in_use (status (h c)) \<Longrightarrow> blocked (status (h p))"
    and "dev_type (h p) = SRIOV_PF \<Longrightarrow> blocked (status (h p)) \<Longrightarrow>
       \<exists>c. parent_device (h c) = Some p \<and> in_use (status (h c))"
    and "parent_device (h c) = Some p \<Longrightarrow> live (status (h p))"
  using assms unfolding balanced_def by blast+

lemma others_available_set:
  assumes "d_id self \<noteq> Unset" "\<forall>vf \<in> set vfs. d_id (h vf) \<noteq> Unset"
  shows "\<exists>b. others_available h self vfs = Inr b"
  using assms by (induction vfs) auto

lemma free_succeeds:
  assumes ok: "links_ok (heap s)" and used: "in_use (status_at s d)"
    and ids: "\<forall>x. d_id (heap s x) \<noteq> Unset \<or> parent_device (heap s x) = None"
  shows "\<exists>fs s'. free None d s = (Inr fs, s')"
proof (cases "parent_device (heap s d)")
  case (Some p)
  have "\<exists>b. others_available (heap s) (heap s d) (child_devices (heap s p)) = Inr b"
    using others_available_set [of "heap s d" "child_devices (heap s p)" "heap s"] ids Some links_okD(1) [OF ok]
    by force
  with Some used links_ok_two(5) [OF ok Some] show ?thesis
    by (auto simp: free_def Let_def in_use_def split: bool.splits)
qed (use used in \<open>auto simp: free_def Let_def in_use_def split: dev_type.splits\<close>)

lemma claim_free_statuses:
  assumes ok: "links_ok (heap s)" and bal: "balanced (heap s)"
    and claimed: "claim d u s = (Inr r, s1)" and released: "free None d s1 = (Inr fs, s2)"
  shows "status_at s2 x = status_at s x"
proof -
  note c = claim_effect [OF ok claimed]
  have ok1: "links_ok (heap s1)" using links_ok_shape [of "heap s1" "heap s", OF c(2)] ok by simp
  note f = free_effect [OF ok1 released]
  note same = dev_shapeD(4) [of "heap s1" "heap s", OF c(2)]
  consider (self) "x = d" | (child) "parent_device (heap s x) = Some d" "x \<noteq> d"
    | (parent) "parent_device (heap s d) = Some x" "x \<noteq> d"
    | (other) "x \<noteq> d" "parent_device (heap s x) \<noteq> Some d" "parent_device (heap s d) \<noteq> Some x" by blast
  then show ?thesis
  proof cases
    case self
    then show ?thesis using c(1) f(3) [of x] by (simp add: freed_def)
  next
    case child
    then show ?thesis using c(4) [of x] f(3) [of x] same by (simp add: freed_def)
  next
    case other
    then show ?thesis using c(3) [of x] f(3) [of x] same by (simp add: freed_def)
  next
    case parent
    let ?others = "\<forall>vf. parent_device (heap s vf) = Some x \<longrightarrow> vf \<noteq> d \<longrightarrow> status_at s vf = AVAILABLE"
    have sib: "status_at s1 vf = status_at s vf" if "parent_device (heap s vf) = Some x" "vf \<noteq> d" for vf
      using c(3) [of vf] that parent links_ok_two [OF ok that(1)] links_ok_two [OF ok parent(1)] by auto
    have freed: "freed (heap s1) d x \<longleftrightarrow> ?others"
      using parent same sib links_ok_two(1) [OF ok parent(1)] by (auto simp: freed_def)
    have "?others \<longleftrightarrow> status_at s x = AVAILABLE"
    proof
      assume all: ?others
      have "\<not> blocked (status_at s x)"
        using balancedD(4) [OF bal, of x] links_ok_two(4) [OF ok parent(1)] all c(1)
        by (metis status_classes(3))
      then show "status_at s x = AVAILABLE" using c(5) [OF parent(1)] by simp
    next
      assume av: "status_at s x = AVAILABLE"
      show ?others
        using balancedD(1-3) [OF bal, of _ x] av live_cases by (metis status_classes(3,10))
    qed
    then show ?thesis
      using freed f(3) [of x] c(3) [of x] parent links_ok_two(1) [OF ok parent(1)] by (auto split: if_splits)
  qed
qed

text \<open>The stronger invariant is kept as well.\<close>

lemma balanced_step:
  assumes ok: "links_ok h" and shape: "\<And>x. dev_shape (h' x) = dev_shape (h x)"
    and pair: "\<And>c p. parent_device (h c) = Some p \<Longrightarrow> c \<noteq> p \<Longrightarrow> dev_type (h p) = SRIOV_PF \<Longrightarrow>
      (\<And>x. parent_device (h p) \<noteq> Some x) \<Longrightarrow> (\<And>x. parent_device (h x) \<noteq> Some c) \<Longrightarrow>
      live (status (h' c)) \<and> live (status (h' p)) \<and> (blocked (status (h' c)) \<longleftrightarrow> in_use (status (h' p))) \<and>
      (in_use (status (h' c)) \<longrightarrow> blocked (status (h' p)))"
    and cause: "\<And>p. dev_type (h p) = SRIOV_PF \<Longrightarrow> blocked (status (h' p)) \<Longrightarrow>
      \<exists>c. parent_device (h c) = Some p \<and> in_use (status (h' c))"
  shows "balanced h'"
proof -
  have par: "parent_device (h' x) = parent_device (h x)" "dev_type (h' x) = dev_type (h x)" for x
    using dev_shapeD(3,4) [of h' h, OF shape] by auto
  have "live (status (h' c)) \<and> live (status (h' p)) \<and> (blocked (status (h' c)) \<longleftrightarrow> in_use (status (h' p))) \<and>
      (in_use (status (h' c)) \<longrightarrow> blocked (status (h' p)))" if cp: "parent_device (h c) = Some p" for c p
  proof (rule pair [OF cp links_ok_two(3,4) [OF ok cp]])
    show "parent_device (h p) \<noteq> Some x" "parent_device (h x) \<noteq> Some c" for x
      using links_ok_two [OF ok cp] links_ok_two [OF ok, of x c] by auto
  qed
  with cause show ?thesis unfolding balanced_def par by blast
qed

lemma claim_balanced:
  assumes ok: "links_ok (heap s)" and bal: "balanced (heap s)" and run: "claim d u s = (Inr r, s')"
  shows "balanced (heap s')"
proof -
  note eff = claim_effect [OF ok run]
  show ?thesis
  proof (rule balanced_step [OF ok eff(2)])
    fix c p assume cp: "parent_device (heap s c) = Some p" "c \<noteq> p"
      "\<And>x. parent_device (heap s p) \<noteq> Some x" "\<And>x. parent_device (heap s x) \<noteq> Some c"
    show "live (status_at s' c) \<and> live (status_at s' p) \<and> (blocked (status_at s' c) \<longleftrightarrow> in_use (status_at s' p)) \<and>
        (in_use (status_at s' c) \<longrightarrow> blocked (status_at s' p))"
      using eff(3) [of c] eff(3) [of p] eff(4,5) [of p] eff(4,5) [of c] eff(1) balancedD(1,2,3,5) [OF bal cp(1)] cp
      by (auto simp: live_cases)
  next
    fix p assume p: "dev_type (heap s p) = SRIOV_PF" "blocked (status_at s' p)"
    then have "parent_device (heap s p) = None" using links_ok_parent [OF ok] by simp
    then consider "parent_device (heap s d) = Some p" | "blocked (status_at s p)" "parent_device (heap s d) \<noteq> Some p" "p \<noteq> d"
      using eff(3) [of p] p(2) by (auto split: if_splits)
    then show "\<exists>c. parent_device (heap s c) = Some p \<and> in_use (status_at s' c)"
    proof cases
      case 1
      then show ?thesis using eff(3) [of d] by (intro exI [of _ d]) simp
    next
      case 2
      then obtain c where c: "parent_device (heap s c) = Some p" "in_use (status_at s c)"
        using balancedD(4) [OF bal p(1)] by blast
      then have "in_use (status_at s' c)"
        using eff(3) [of c] 2 links_ok_two(4) [OF ok, of d c] links_ok_two(5) [OF ok c(1)] by auto
      then show ?thesis using c(1) by blast
    qed
  qed
qed

lemma free_balanced:
  assumes ok: "links_ok (heap s)" and bal: "balanced (heap s)" and run: "free cont d s = (Inr fs, s')"
  shows "balanced (heap s')"
proof -
  note eff = free_effect [OF ok run]
  show ?thesis
  proof (rule balanced_step [OF ok eff(2)])
    fix c p assume cp: "parent_device (heap s c) = Some p" "c \<noteq> p"
      "\<And>x. parent_device (heap s p) \<noteq> Some x" "\<And>x. parent_device (heap s x) \<noteq> Some c"
    show "live (status_at s' c) \<and> live (status_at s' p) \<and> (blocked (status_at s' c) \<longleftrightarrow> in_use (status_at s' p)) \<and>
        (in_use (status_at s' c) \<longrightarrow> blocked (status_at s' p))"
      using eff(1) eff(3) [of c] eff(3) [of p] balancedD(1,2,3,5) [OF bal cp(1)] cp blocked_not_in_use
      by (auto simp: freed_def live_cases)
  next
    fix p assume p: "dev_type (heap s p) = SRIOV_PF" "blocked (status_at s' p)"
    then have nf: "\<not> freed (heap s) d p" and b: "blocked (status_at s p)" using eff(3) [of p] by (auto split: if_splits)
    obtain c where c: "parent_device (heap s c) = Some p" "in_use (status_at s c)"
      using balancedD(4) [OF bal p(1) b] by blast
    show "\<exists>c. parent_device (heap s c) = Some p \<and> in_use (status_at s' c)"
    proof (cases "parent_device (heap s d) = Some p")
      case True
      then obtain v where v: "parent_device (heap s v) = Some p" "v \<noteq> d" "status_at s v \<noteq> AVAILABLE"
        using nf by (auto simp: freed_def)
      have "\<not> blocked (status_at s v)" using balancedD(2) [OF bal v(1)] b blocked_not_in_use by blast
      then have "in_use (status_at s v)" using balancedD(1) [OF bal v(1)] v(3) live_cases by blast
      moreover have "\<not> freed (heap s) d v"
        using v True links_ok_two [OF ok v(1)] links_ok_two [OF ok True] by (auto simp: freed_def)
      ultimately show ?thesis using eff(3) [of v] v(1) by auto
    next
      case False
      then have "c \<noteq> d" using c(1) by auto
      moreover have "parent_device (heap s c) \<noteq> Some d" "parent_device (heap s d) \<noteq> Some c"
        using nf c(1) links_ok_two(4,5) [OF ok c(1)] links_ok_two(4) [OF ok, of d c] by (auto simp: freed_def)
      ultimately show ?thesis using eff(3) [of c] c by (auto simp: freed_def)
    qed
  qed
qed

lemma freed_was:
  assumes "exclusive h" "in_use (status (h d))" "freed h d x"
  shows "status (h x) \<noteq> AVAILABLE"
  using assms(2,3) exclusiveD [OF assms(1)] by (auto simp: freed_def shut_def)

lemma claim_succeeds:
  assumes ok: "links_ok (heap s)" and bal: "balanced (heap s)" and av: "status_at s d = AVAILABLE"
  shows "\<exists>s'. claim d u s = (Inr (), s')"
proof -
  have kids: "status_at s c = AVAILABLE" if "parent_device (heap s c) = Some d" for c
    using balancedD(1,2,3) [OF bal that] av live_cases by force
  have par: "status_at s p \<in> set parent_ok_statuses" if "parent_device (heap s d) = Some p" for p
    using balancedD(2,5) [OF bal that] av live_cases [of "status_at s p"]
    by (auto simp: parent_ok_statuses_def blocked_def)
  have "\<forall>vf \<in> set (child_devices (heap s d)). is_available (heap s vf)"
    using kids links_ok_iff [OF ok, of _ d] by (auto simp: is_available_def)
  then show ?thesis using av par by (auto simp: claim_def Let_def split: dev_type.splits option.splits)
qed

text \<open>Devices that are not linked to each other can all be claimed.\<close>

definition claim_result :: "dref list \<Rightarrow> string \<Rightarrow> pci_store \<Rightarrow> pci_store \<Rightarrow> bool" where
  "claim_result ds u s s' \<longleftrightarrow>
     (\<forall>x. dev_shape (heap s' x) = dev_shape (heap s x)) \<and>
     (\<forall>x. status_at s' x =
        (if x \<in> set ds then CLAIMED
         else if status_at s x = AVAILABLE \<and>
           (\<exists>d \<in> set ds. parent_device (heap s x) = Some d \<or> parent_device (heap s d) = Some x) then UNCLAIMABLE
         else status_at s x)) \<and>
     (\<forall>x. container_uuid (heap s' x) = (if x \<in> set ds then Val (Some u) else container_uuid (heap s x)))"

lemma claim_all:
  assumes "links_ok (heap s)" "balanced (heap s)" "distinct ds" "\<forall>d \<in> set ds. status_at s d = AVAILABLE"
    and "\<forall>d \<in> set ds. \<forall>e \<in> set ds. parent_device (heap s d) \<noteq> Some e"
  shows "\<exists>s'. sforeach ds (\<lambda>d. claim d u) s = (Inr (), s') \<and> balanced (heap s') \<and> claim_result ds u s s'"
  using assms
proof (induction ds arbitrary: s)
  case Nil
  then show ?case by (simp add: sreturn_def claim_result_def)
next
  case (Cons d ds)
  have av0: "status_at s d = AVAILABLE" using Cons.prems(4) by simp
  obtain s1 where run: "claim d u s = (Inr (), s1)" using claim_succeeds [OF Cons.prems(1,2) av0] by blast
  note eff = claim_effect [OF Cons.prems(1) run]
  have ok1: "links_ok (heap s1)" using links_ok_shape [of "heap s1" "heap s", OF eff(2)] Cons.prems(1) by simp
  have bal1: "balanced (heap s1)" using claim_balanced [OF Cons.prems(1,2) run] .
  have par: "parent_device (heap s1 x) = parent_device (heap s x)" for x
    using dev_shapeD(4) [of "heap s1" "heap s", OF eff(2)] .
  have st: "status_at s1 x = (if x = d then CLAIMED
      else if status_at s x = AVAILABLE \<and> (parent_device (heap s x) = Some d \<or> parent_device (heap s d) = Some x)
      then UNCLAIMABLE else status_at s x)" for x
    using eff(3,4) [of x] by auto
  have "\<exists>s'. sforeach ds (\<lambda>d. claim d u) s1 = (Inr (), s') \<and> balanced (heap s') \<and> claim_result ds u s1 s'"
  proof (rule Cons.IH [OF ok1 bal1])
    show "distinct ds" using Cons.prems(3) by simp
    show "\<forall>x \<in> set ds. status_at s1 x = AVAILABLE"
    proof
      fix x assume x: "x \<in> set ds"
      then have "x \<noteq> d" "parent_device (heap s x) \<noteq> Some d" "parent_device (heap s d) \<noteq> Some x"
        using Cons.prems(3,5) by auto
      then show "status_at s1 x = AVAILABLE" using st [of x] Cons.prems(4) x by simp
    qed
    show "\<forall>x \<in> set ds. \<forall>e \<in> set ds. parent_device (heap s1 x) \<noteq> Some e" using Cons.prems(5) by (simp add: par)
  qed
  then obtain s' where s': "sforeach ds (\<lambda>d. claim d u) s1 = (Inr (), s')" "balanced (heap s')" "claim_result ds u s1 s'"
    by blast
  have "claim_result (d # ds) u s s'"
    unfolding claim_result_def
  proof (intro conjI allI)
    fix x
    note r = s'(3) [unfolded claim_result_def par, THEN conjunct1, rule_format, of x]
      s'(3) [unfolded claim_result_def par, THEN conjunct2, THEN conjunct1, rule_format, of x]
      s'(3) [unfolded claim_result_def par, THEN conjunct2, THEN conjunct2, rule_format, of x]
    show "dev_shape (heap s' x) = dev_shape (heap s x)" using r(1) eff(2) [of x] by simp
    show "container_uuid (heap s' x) = (if x \<in> set (d # ds) then Val (Some u) else container_uuid (heap s x))"
      using r(3) eff(6) [of x] by auto
    show "status_at s' x = (if x \<in> set (d # ds) then CLAIMED
         else if status_at s x = AVAILABLE \<and>
           (\<exists>e \<in> set (d # ds). parent_device (heap s x) = Some e \<or> parent_device (heap s e) = Some x) then UNCLAIMABLE
         else status_at s x)"
    proof -
      define L1 where "L1 \<longleftrightarrow> parent_device (heap s x) = Some d \<or> parent_device (heap s d) = Some x"
      define L2 where "L2 \<longleftrightarrow> (\<exists>e \<in> set ds. parent_device (heap s x) = Some e \<or> parent_device (heap s e) = Some x)"
      have "(\<exists>e \<in> set (d # ds). parent_device (heap s x) = Some e \<or> parent_device (heap s e) = Some x) \<longleftrightarrow> L1 \<or> L2"
        by (simp add: L1_def L2_def)
      then show ?thesis using r(2) [folded L2_def] st [of x, folded L1_def] by (cases L1; cases L2) auto
    qed
  qed
  with s' run show ?case by (simp add: sbind_def)
qed

section \<open>Properties\<close>

definition ex_dev :: "int \<Rightarrow> string \<Rightarrow> dev_type \<Rightarrow> dref option \<Rightarrow> dref list \<Rightarrow> pci_device" where
  "ex_dev i a ty par cs =
     \<lparr>d_id = Val i, d_uuid = Unset, compute_node_uuid = Val None, address = a, vendor_id = ''8086'',
      product_id = ''1520'', dev_type = ty, status = AVAILABLE, dev_id = None, label = None,
      container_uuid = Val None, request_id = Val None, extra_info = [], numa_node = None,
      parent_addr = None, parent_device = par, child_devices = cs\<rparr>"

definition ex_heap :: "dref \<Rightarrow> pci_device" where
  \<comment> \<open>a physical function with two virtual functions, and unrelated devices\<close>
  "ex_heap d =
     (if d = 0 then ex_dev 0 ''0000:05:00.0'' SRIOV_PF None [1, 2]
      else if d \<le> 2 then ex_dev (int d) ''0000:05:10.0'' SRIOV_VF (Some 0) []
      else ex_dev (int d) ''0000:06:00.0'' STANDARD None [])"

definition ex_store :: pci_store where
  "ex_store = \<lparr>heap = ex_heap, attached = (\<lambda>_. [])\<rparr>"

lemma ex_store_sel [simp]: "heap ex_store = ex_heap" "attached ex_store = (\<lambda>_. [])"
  by (simp_all add: ex_store_def)

lemma ex_heap_sel [simp]:
  "status (ex_heap d) = AVAILABLE" "d_id (ex_heap d) = Val (int d)"
  "parent_device (ex_heap d) = (if d = 1 \<or> d = 2 then Some 0 else None)"
  "child_devices (ex_heap d) = (if d = 0 then [1, 2] else [])"
  "dev_type (ex_heap d) = (if d = 0 then SRIOV_PF else if d \<le> 2 then SRIOV_VF else STANDARD)"
  by (auto simp: ex_heap_def ex_dev_def)

lemma ex_links: "links_ok ex_heap"
  by (auto simp: links_ok_def split: if_splits)

lemma ex_balanced: "balanced ex_heap"
  by (auto simp: balanced_def live_def)

lemma ex_inv: "dev_inv ex_heap"
  using ex_links ex_balanced balanced_exclusive by (simp add: dev_inv_def)

text \<open>
  C27. From a store whose links agree and where no physical function and virtual function of
  it are both in use, no sequence of claims, allocations, releases, removals and forced
  removals, successful or raising, leads to a store where they are.
\<close>

theorem pci_exclusive:
  assumes "dev_inv (heap s\<^sub>0)" "dev_step\<^sup>*\<^sup>* s\<^sub>0 s" "parent_device (heap s c) = Some p"
  shows "\<not> (in_use (status_at s p) \<and> in_use (status_at s c))"
proof -
  have "exclusive (heap s)" using dev_steps_inv [OF assms(2,1)] by (simp add: dev_inv_def)
  from exclusiveD [OF this assms(3)] show ?thesis using shut_not_in_use by blast
qed

theorem pci_exclusive_witness:
  "\<not> (in_use (status_at (snd (claim 1 ''c'' ex_store)) 0) \<and> in_use (status_at (snd (claim 1 ''c'' ex_store)) 1))
   \<and> in_use (status_at (snd (claim 1 ''c'' ex_store)) 1)"
proof -
  let ?s = "snd (claim 1 ''c'' ex_store)"
  have step: "dev_step\<^sup>*\<^sup>* ex_store ?s" using step_claim [of 1 "''c''" ex_store] by (metis prod.collapse r_into_rtranclp)
  have parent: "parent_device (heap ?s 1) = Some 0"
    by (simp add: claim_def parent_ok_statuses_def)
  have "in_use (status_at ?s 1)" by (simp add: claim_def parent_ok_statuses_def)
  with pci_exclusive [OF _ step parent] ex_inv show ?thesis by simp
qed

text \<open>
  A successful \<open>free\<close> returns exactly the devices that become available by it: each
  appears once, none was available before, and the status of no other device changes. So
  adding the returned devices to the pools neither loses nor duplicates a device.
\<close>

theorem free_returns_released:
  assumes "dev_inv (heap s)" "free cont d s = (Inr fs, s')"
  shows "distinct fs \<and>
    set fs = {x. status_at s x \<noteq> AVAILABLE \<and> status_at s' x = AVAILABLE} \<and>
    (\<forall>x. status_at s' x \<noteq> status_at s x \<longrightarrow> x \<in> set fs)"
proof -
  have ok: "links_ok (heap s)" and ex: "exclusive (heap s)" using assms(1) by (auto simp: dev_inv_def)
  note f = free_effect [OF ok assms(2)]
  show ?thesis using f(3-5) freed_was [OF ex f(1)] by auto
qed

theorem free_returns_released_witness:
  "fst (free None 1 (snd (claim 1 ''c'' ex_store))) = Inr [0, 1] \<and>
   {0, 1} = {x. status_at (snd (claim 1 ''c'' ex_store)) x \<noteq> AVAILABLE \<and>
     status_at (snd (free None 1 (snd (claim 1 ''c'' ex_store)))) x = AVAILABLE}"
proof -
  let ?s = "snd (claim 1 ''c'' ex_store)"
  have i: "dev_inv (heap ?s)" using claiming.inv_kept [of ex_store 1 "''c''"] ex_inv by (metis ex_store_sel(1) prod.collapse)
  have run: "fst (free None 1 ?s) = Inr [0, 1]"
    by (simp add: claim_def free_def parent_ok_statuses_def is_available_def)
  then have "free None 1 ?s = (Inr [0, 1], snd (free None 1 ?s))" by (metis prod.collapse)
  from conjunct1 [OF conjunct2 [OF free_returns_released [OF i this]]] run show ?thesis by simp
qed

text \<open>
  Claiming a device and freeing it again succeeds, when the ids of the virtual functions
  are set, and gives every device of the node the status it had before.
\<close>

theorem claim_free_roundtrip:
  assumes "links_ok (heap s)" "balanced (heap s)"
    and "\<forall>x. d_id (heap s x) \<noteq> Unset \<or> parent_device (heap s x) = None"
    and "claim d u s = (Inr (), s1)"
  shows "\<exists>fs s2. free None d s1 = (Inr fs, s2) \<and> (\<forall>x. status_at s2 x = status_at s x)"
proof -
  note c = claim_effect [OF assms(1,4)]
  have ok1: "links_ok (heap s1)" using links_ok_shape [of "heap s1" "heap s", OF c(2)] assms(1) by simp
  have "\<exists>fs s2. free None d s1 = (Inr fs, s2)"
    using free_succeeds [OF ok1, of d] c(3) [of d] assms(3) dev_shapeD(1,4) [of "heap s1" "heap s", OF c(2)] by simp
  then show ?thesis using claim_free_statuses [OF assms(1,2,4)] by blast
qed

theorem claim_free_roundtrip_witness:
  "\<exists>fs s2. free None 0 (snd (claim 0 ''c'' ex_store)) = (Inr fs, s2) \<and> (\<forall>x. status_at s2 x = AVAILABLE)"
proof -
  have "claim 0 ''c'' ex_store = (Inr (), snd (claim 0 ''c'' ex_store))"
    by (simp add: claim_def is_available_def)
  from claim_free_roundtrip [OF _ _ _ this] ex_links ex_balanced show ?thesis by simp
qed

text \<open>
  A virtual function whose object came from \<open>create\<close> has no id, and \<open>save\<close> never gives it
  one: freeing it while it is linked to its physical function raises, and leaves it in use.
\<close>

theorem free_created_vf_raises:
  assumes "links_ok (heap s)" "parent_device (heap s d) = Some p" "in_use (status_at s d)"
    and "d_id (heap s d) = d_id (fst (save_dev (create g hv)))"
  shows "free None d s = (Inl (NotImplementedError ''id''), s)"
proof -
  have unset: "d_id (heap s d) = Unset"
    using assms(4) by (simp add: create_def save_dev_def update_device_def)
  have raises: "others_available h (h d) vfs = Inl (NotImplementedError ''id'')"
    if "d_id (h d) = Unset" "vfs \<noteq> []" for h vfs
    using that by (cases vfs) auto
  have "child_devices (heap s p) \<noteq> []" using links_ok_iff [OF assms(1), of d p] assms(2) by auto
  then show ?thesis
    using assms(2,3) links_ok_two(5) [OF assms(1,2)] raises [of "heap s" "child_devices (heap s p)", OF unset]
    by (auto simp: free_def Let_def in_use_def)
qed

definition ex_created :: pci_store where
  "ex_created = ex_store\<lparr>heap := (\<lambda>d. (ex_heap d)\<lparr>d_id := Unset, status := (if d = 1 then CLAIMED else AVAILABLE)\<rparr>)\<rparr>"

theorem free_created_vf_raises_witness:
  "free None 1 ex_created = (Inl (NotImplementedError ''id''), ex_created)"
proof -
  have "links_ok (heap ex_created)"
    by (auto simp: ex_created_def links_ok_def split: if_splits)
  then show ?thesis
    by (rule free_created_vf_raises [where p = 0 and g = "''u''" and hv =
          "\<lparr>hv_address = [], hv_vendor_id = [], hv_product_id = [], hv_dev_type = SRIOV_VF, hv_dev_id = None,
            hv_label = None, hv_numa_node = None, hv_parent_addr = None, hv_compute_node_uuid = None, hv_extra = []\<rparr>"])
      (simp_all add: ex_created_def create_def save_dev_def update_device_def)
qed

end
