(* ===== verification/Pci_Stats.thy ===== *)
theory Pci_Stats
  imports Pci_Device "HOL-Library.Multiset"
begin

text \<open>
  The pools of free PCI devices (\<^verbatim>\<open>zun/pci/stats.py\<close>, \<open>pci_device_prop_match\<close> of
  \<^verbatim>\<open>zun/pci/utils.py\<close>, \<^verbatim>\<open>zun/objects/pci_device_pool.py\<close>).

  A pool is a dictionary object: the properties its devices share (with the tags of their
  whitelist entry), a count and the list of devices. Pools are referred to from the list of
  pools and from the lists that the filters return, so they live in a store of their own; a
  pool that is dropped from the list can still be referred to. The properties of a device do
  not include the keys \<open>count\<close> and \<open>devices\<close>, and request counts are not negative.
\<close>

section \<open>Data\<close>

text \<open>Values of pool properties and of request specs.\<close>

datatype pyval = VNone | VInt int | VStr string | VList "pyval list"

type_synonym props = "(string, pyval) dict"

definition py_get :: "props \<Rightarrow> string \<Rightarrow> pyval" where
  \<comment> \<open>\<open>d.get(k)\<close>\<close>
  "py_get m k = (case dict_get m k of None \<Rightarrow> VNone | Some v \<Rightarrow> v)"

record pci_pool =
  pool_props :: props
  pool_count :: nat
  pool_devices :: "dref list"

type_synonym pref = nat

text \<open>
  \<open>dev_filter\<close> stands for \<open>get_devspec\<close> of the whitelist followed by \<open>get_tags\<close>: no entry, the
  tags of the first matching entry, or an exception on an address it cannot parse.
\<close>

record pci_stats =
  pool_at :: "pref \<Rightarrow> pci_pool"
  pools :: "pref list"
  next_pool :: pref
  dev_filter :: "pci_device \<Rightarrow> (pci_error, props option) res"

record pci_sys =
  store :: pci_store
  stats :: pci_stats

record pci_request =
  req_count :: nat
  req_spec :: "props list"
  req_request_id :: "string option"

section \<open>Matching\<close>

definition matching_devices :: "props \<Rightarrow> props \<Rightarrow> bool" where
  "matching_devices pci_dev spec \<longleftrightarrow>
     (\<forall>(k, v) \<in> set spec.
        case (v, py_get pci_dev k) of
          (VList xs, VList ys) \<Rightarrow> set xs \<subseteq> set ys
        | (v, w) \<Rightarrow> w = v)"

definition pci_device_prop_match :: "props \<Rightarrow> props list \<Rightarrow> bool" where
  "pci_device_prop_match pci_dev specs \<longleftrightarrow> (\<exists>spec \<in> set specs. matching_devices pci_dev spec)"

definition pool_dict :: "pci_pool \<Rightarrow> props" where
  \<comment> \<open>the pool as the matching functions see it\<close>
  "pool_dict p = pool_props p @ [(''count'', VInt (int (pool_count p)))]"

definition dev_type_str :: "dev_type \<Rightarrow> string" where
  "dev_type_str t = (case t of STANDARD \<Rightarrow> ''PCI'' | SRIOV_PF \<Rightarrow> ''PF'' | SRIOV_VF \<Rightarrow> ''VF'')"

definition pool_keys :: "string list" where
  "pool_keys = [''product_id'', ''vendor_id'', ''numa_node'', ''dev_type'']"

definition dev_props :: "pci_device \<Rightarrow> props" where
  "dev_props d =
     [(''product_id'', VStr (product_id d)), (''vendor_id'', VStr (vendor_id d)),
      (''numa_node'', case numa_node d of None \<Rightarrow> VNone | Some n \<Rightarrow> VInt n),
      (''dev_type'', VStr (dev_type_str (dev_type d)))]"

definition equal_properties :: "props \<Rightarrow> props \<Rightarrow> string list \<Rightarrow> bool" where
  "equal_properties dev entry matching_keys \<longleftrightarrow> (\<forall>k \<in> set matching_keys. py_get dev k = py_get entry k)"

definition pool_matches :: "props \<Rightarrow> pci_pool \<Rightarrow> bool" where
  "pool_matches dev_pool pool \<longleftrightarrow>
     length (pool_props pool) = length dev_pool \<and>
     equal_properties dev_pool (pool_props pool) (dict_keys dev_pool)"

definition find_pool :: "props \<Rightarrow> pci_stats \<Rightarrow> pref option" where
  "find_pool dev_pool st = List.find (\<lambda>r. pool_matches dev_pool (pool_at st r)) (pools st)"

definition create_pool_keys_from_dev ::
    "(pci_device \<Rightarrow> (pci_error, props option) res) \<Rightarrow> pci_device \<Rightarrow> (pci_error, props option) res" where
  "create_pool_keys_from_dev flt dev =
     rbind (flt dev) (\<lambda>tags. Inr (map_option (dict_update (dev_props dev)) tags))"

section \<open>Adding and removing devices\<close>

definition with_pool :: "pref \<Rightarrow> (pci_pool \<Rightarrow> pci_pool) \<Rightarrow> pci_stats \<Rightarrow> pci_stats" where
  "with_pool r f st = st\<lparr>pool_at := (pool_at st)(r := f (pool_at st r))\<rparr>"

definition new_pool :: "props \<Rightarrow> pci_stats \<Rightarrow> pref \<times> pci_stats" where
  \<comment> \<open>append an empty pool, then sort by the number of keys (two of which every pool has)\<close>
  "new_pool dev_pool st =
     (let r = next_pool st;
          at = (pool_at st)(r := \<lparr>pool_props = dev_pool, pool_count = 0, pool_devices = []\<rparr>)
      in (r, st\<lparr>pool_at := at, next_pool := Suc r,
               pools := sort_key (\<lambda>q. length (pool_props (at q)) + 2) (pools st @ [r])\<rparr>))"

definition put_device :: "dref \<Rightarrow> pci_pool \<Rightarrow> pci_pool" where
  "put_device dev p = p\<lparr>pool_count := pool_count p + 1, pool_devices := pool_devices p @ [dev]\<rparr>"

definition add_device :: "dref \<Rightarrow> (pci_sys, pci_error, unit) st" where
  "add_device dev s =
     (case create_pool_keys_from_dev (dev_filter (stats s)) (heap (store s) dev) of
        Inl e \<Rightarrow> (Inl e, s)
      | Inr None \<Rightarrow> (Inr (), s)
      | Inr (Some dev_pool) \<Rightarrow>
          (let (r, st) = (case find_pool dev_pool (stats s) of
                            Some r \<Rightarrow> (r, stats s) | None \<Rightarrow> new_pool dev_pool (stats s))
           in (Inr (), s\<lparr>stats := with_pool r (put_device dev) st\<rparr>)))"

definition decrease_pool_count :: "pref \<Rightarrow> nat \<Rightarrow> pci_stats \<Rightarrow> nat \<times> pci_stats" where
  \<comment> \<open>no two pools of the list are equal, so removing the pool removes this very object\<close>
  "decrease_pool_count r cnt st =
     (if pool_count (pool_at st r) > cnt
      then (0, with_pool r (\<lambda>p. p\<lparr>pool_count := pool_count p - cnt\<rparr>) st)
      else (cnt - pool_count (pool_at st r), st\<lparr>pools := remove1 r (pools st)\<rparr>))"

fun py_remove :: "(dref \<Rightarrow> pci_device) \<Rightarrow> dref \<Rightarrow> dref list \<Rightarrow> dref list option" where
  \<comment> \<open>\<open>list.remove\<close> with the equality of devices; None is its \<open>ValueError\<close>\<close>
  "py_remove h d [] = None"
| "py_remove h d (x # xs) =
     (if x = d \<or> compare_pci_device_attributes (h x) (h d) then Some xs
      else map_option (Cons x) (py_remove h d xs))"

definition remove_device :: "dref \<Rightarrow> (pci_sys, pci_error, unit) st" where
  "remove_device dev s =
     (case create_pool_keys_from_dev (dev_filter (stats s)) (heap (store s) dev) of
        Inl e \<Rightarrow> (Inl e, s)
      | Inr None \<Rightarrow> (Inr (), s)
      | Inr (Some dev_pool) \<Rightarrow>
          (case find_pool dev_pool (stats s) of
             None \<Rightarrow> (Inl (PciDevicePoolEmpty (address (heap (store s) dev))), s)
           | Some r \<Rightarrow>
               (case py_remove (heap (store s)) dev (pool_devices (pool_at (stats s) r)) of
                  None \<Rightarrow> (Inl ValueNotInList, s)
                | Some ds \<Rightarrow>
                    (Inr (), s\<lparr>stats := snd (decrease_pool_count r 1
                        (with_pool r (\<lambda>p. p\<lparr>pool_devices := ds\<rparr>) (stats s)))\<rparr>))))"

definition get_free_devs :: "pci_stats \<Rightarrow> dref list" where
  "get_free_devs st = concat (map (\<lambda>r. pool_devices (pool_at st r)) (pools st))"

definition py_mem :: "(dref \<Rightarrow> pci_device) \<Rightarrow> dref \<Rightarrow> dref list \<Rightarrow> bool" where
  "py_mem h d xs \<longleftrightarrow> (\<exists>x \<in> set xs. x = d \<or> compare_pci_device_attributes (h x) (h d))"

definition handle_device_dependents :: "dref \<Rightarrow> (pci_sys, pci_error, unit) st" where
  "handle_device_dependents d s =
     (let dev = heap (store s) d
      in case dev_type dev of
           SRIOV_PF \<Rightarrow> sforeach (child_devices dev) remove_device s
         | SRIOV_VF \<Rightarrow>
             (case parent_device dev of
                None \<Rightarrow> (Inr (), s)
              | Some p \<Rightarrow> if py_mem (heap (store s)) p (get_free_devs (stats s))
                          then remove_device p s else (Inr (), s))
         | STANDARD \<Rightarrow> (Inr (), s))"

section \<open>Filtering pools\<close>

definition filter_pools_for_spec :: "(pref \<Rightarrow> pci_pool) \<Rightarrow> props list \<Rightarrow> pref list \<Rightarrow> pref list" where
  "filter_pools_for_spec at specs ps = filter (\<lambda>r. pci_device_prop_match (pool_dict (at r)) specs) ps"

definition filter_pools_for_numa_cells :: "(pref \<Rightarrow> pci_pool) \<Rightarrow> int list \<Rightarrow> pref list \<Rightarrow> pref list" where
  "filter_pools_for_numa_cells at numa_cells ps =
     (let cells = VNone # map VInt numa_cells
      in filter (\<lambda>r. \<exists>cell \<in> set cells. pci_device_prop_match (pool_dict (at r)) [[(''numa_node'', cell)]]) ps)"

definition filter_pools_for_pfs :: "(pref \<Rightarrow> pci_pool) \<Rightarrow> pref list \<Rightarrow> pref list" where
  "filter_pools_for_pfs at ps = filter (\<lambda>r. py_get (pool_props (at r)) ''dev_type'' \<noteq> VStr (dev_type_str SRIOV_PF)) ps"

definition filter_non_requested_pfs :: "(pref \<Rightarrow> pci_pool) \<Rightarrow> pci_request \<Rightarrow> pref list \<Rightarrow> pref list" where
  "filter_non_requested_pfs at req ps =
     (if \<forall>spec \<in> set (req_spec req). py_get spec ''dev_type'' \<noteq> VStr (dev_type_str SRIOV_PF)
      then filter_pools_for_pfs at ps else ps)"

definition matching_pools :: "(pref \<Rightarrow> pci_pool) \<Rightarrow> pci_request \<Rightarrow> int list \<Rightarrow> pref list \<Rightarrow> pref list" where
  \<comment> \<open>no cells and an empty list of cells are the same to the code\<close>
  "matching_pools at req numa_cells ps =
     (let ps1 = filter_pools_for_spec at (req_spec req) ps;
          ps2 = (if numa_cells \<noteq> [] then filter_pools_for_numa_cells at numa_cells ps1 else ps1)
      in filter_non_requested_pfs at req ps2)"

definition pool_sum :: "(pref \<Rightarrow> pci_pool) \<Rightarrow> pref list \<Rightarrow> nat" where
  "pool_sum at ps = sum_list (map (\<lambda>r. pool_count (at r)) ps)"

section \<open>Consuming requests\<close>

fun take_devices :: "string option \<Rightarrow> nat \<Rightarrow> pref \<Rightarrow> (pci_sys, pci_error, dref list) st" where
  "take_devices rid 0 r s = (Inr [], s)"
| "take_devices rid (Suc n) r s =
     (case rev (pool_devices (pool_at (stats s) r)) of
        [] \<Rightarrow> (Inl PopFromEmptyList, s)
      | d # ds \<Rightarrow>
          sbind (handle_device_dependents d)
            (\<lambda>_. sbind (smodify (\<lambda>t. t\<lparr>store := with_dev d (\<lambda>x. x\<lparr>request_id := Val rid\<rparr>) (store t)\<rparr>))
              (\<lambda>_. sbind (take_devices rid n r) (\<lambda>rest. sreturn (d # rest))))
            (s\<lparr>stats := with_pool r (\<lambda>p. p\<lparr>pool_devices := rev ds\<rparr>) (stats s)\<rparr>))"

fun consume_pools :: "string option \<Rightarrow> nat \<Rightarrow> pref list \<Rightarrow> (pci_sys, pci_error, dref list) st" where
  "consume_pools rid cnt [] s = (Inr [], s)"
| "consume_pools rid cnt (r # rs) s =
     (let num_alloc = (if pool_count (pool_at (stats s) r) \<ge> cnt then cnt
                       else pool_count (pool_at (stats s) r));
          rest = cnt - num_alloc
      in sbind (take_devices rid num_alloc r)
           (\<lambda>ds. if rest = 0 then sreturn ds
                 else sbind (consume_pools rid rest rs) (\<lambda>more. sreturn (ds @ more)))
           (s\<lparr>stats := with_pool r (\<lambda>p. p\<lparr>pool_count := pool_count p - num_alloc\<rparr>) (stats s)\<rparr>))"

fun consume_from :: "int list \<Rightarrow> dref list \<Rightarrow> pci_request list \<Rightarrow> (pci_sys, pci_error, dref list option) st" where
  \<comment> \<open>the loop of \<open>consume_requests\<close>, with the devices allocated so far\<close>
  "consume_from numa_cells alloc_devices [] s = (Inr (Some alloc_devices), s)"
| "consume_from numa_cells alloc_devices (req # reqs) s =
     (let st = stats s; ps = matching_pools (pool_at st) req numa_cells (pools st)
      in if pool_sum (pool_at st) ps < req_count req
         then sbind (sforeach (rev alloc_devices) add_device) (\<lambda>_. sreturn None) s
         else sbind (consume_pools (req_request_id req) (req_count req) ps)
                (\<lambda>ds. consume_from numa_cells (alloc_devices @ ds) reqs) s)"

definition consume_requests :: "pci_request list \<Rightarrow> int list \<Rightarrow> (pci_sys, pci_error, dref list option) st" where
  "consume_requests pci_requests numa_cells = consume_from numa_cells [] pci_requests"

section \<open>The scheduler's view: counts only\<close>

fun decrease_pools :: "nat \<Rightarrow> pref list \<Rightarrow> pci_stats \<Rightarrow> pci_stats" where
  "decrease_pools cnt [] st = st"
| "decrease_pools cnt (r # rs) st =
     (let (left, st') = decrease_pool_count r cnt st
      in if left = 0 then st' else decrease_pools left rs st')"

definition apply_request :: "int list \<Rightarrow> pci_request \<Rightarrow> pci_stats \<Rightarrow> bool \<times> pci_stats" where
  "apply_request numa_cells req st =
     (let ps = matching_pools (pool_at st) req numa_cells (pools st)
      in if pool_sum (pool_at st) ps < req_count req then (False, st)
         else (True, decrease_pools (req_count req) ps st))"

fun apply_all :: "int list \<Rightarrow> pci_request list \<Rightarrow> pci_stats \<Rightarrow> bool list \<times> pci_stats" where
  \<comment> \<open>the list comprehension runs every request before \<open>all\<close> looks at the answers\<close>
  "apply_all numa_cells [] st = ([], st)"
| "apply_all numa_cells (r # rs) st =
     (let (b, st1) = apply_request numa_cells r st; (bs, st2) = apply_all numa_cells rs st1 in (b # bs, st2))"

definition support_requests :: "pci_request list \<Rightarrow> int list \<Rightarrow> pci_stats \<Rightarrow> bool" where
  \<comment> \<open>works on a copy of the pools\<close>
  "support_requests requests numa_cells st = list_all id (fst (apply_all numa_cells requests st))"

definition apply_requests :: "pci_request list \<Rightarrow> int list \<Rightarrow> (pci_stats, pci_error, unit) st" where
  "apply_requests requests numa_cells st =
     (let (bs, st') = apply_all numa_cells requests st
      in if list_all id bs then (Inr (), st') else (Inl PciDeviceRequestFailed, st'))"

definition clear_stats :: "pci_stats \<Rightarrow> pci_stats" where
  "clear_stats st = st\<lparr>pools := []\<rparr>"

definition iter_stats :: "pci_stats \<Rightarrow> (props \<times> nat) list" where
  \<comment> \<open>each pool without its devices\<close>
  "iter_stats st = map (\<lambda>r. (pool_props (pool_at st r), pool_count (pool_at st r))) (pools st)"

section \<open>Lists of pools\<close>

lemma mset_concat_change:
  assumes "distinct xs" "r \<in> set xs" "\<And>q. q \<noteq> r \<Longrightarrow> g' q = g q"
  shows "mset (concat (map g' xs)) + mset (g r) = mset (concat (map g xs)) + mset (g' r)"
  using assms(1,2)
proof (induction xs)
  case (Cons x xs)
  show ?case
  proof (cases "x = r")
    case True
    have "g' y = g y" if "y \<in> set xs" for y using that Cons.prems True assms(3) [of y] by auto
    then have "concat (map g' xs) = concat (map g xs)" by (simp cong: map_cong)
    then show ?thesis using True by (simp add: add_ac)
  next
    case False
    then show ?thesis using Cons assms(3) [OF False] by (simp add: add_ac)
  qed
qed simp

lemma mset_concat_perm:
  assumes "mset xs = mset ys"
  shows "mset (concat (map g xs)) = mset (concat (map g ys))"
proof -
  have "mset (concat (map g zs)) = sum_mset (image_mset (\<lambda>x. mset (g x)) (mset zs))" for zs
    by (induction zs) auto
  then show ?thesis using assms by simp
qed

lemma mset_shift:
  fixes a r d f :: "'a multiset"
  shows "a + (r + d) = f + r \<longleftrightarrow> a + d = f"
  by (simp add: add_ac)

lemma find_filter:
  assumes "\<And>x. x \<in> set xs \<Longrightarrow> P x \<Longrightarrow> Q x"
  shows "List.find P (filter Q xs) = List.find P xs"
  using assms by (induction xs) auto

lemma find_sort_key:
  assumes "\<And>x. x \<in> set xs \<Longrightarrow> P x \<Longrightarrow> f x = n"
  shows "List.find P (sort_key f xs) = List.find P xs"
proof -
  have "List.find P (sort_key f xs) = List.find P (filter (\<lambda>x. f x = n) (sort_key f xs))"
    by (rule find_filter [symmetric]) (simp add: assms)
  also have "\<dots> = List.find P (filter (\<lambda>x. f x = n) xs)" by (simp add: sort_key_stable)
  also have "\<dots> = List.find P xs" by (rule find_filter) (simp add: assms)
  finally show ?thesis .
qed

section \<open>Well-formed pools\<close>

definition dev_key :: "pci_sys \<Rightarrow> dref \<Rightarrow> (pci_error, props option) res" where
  "dev_key s d = create_pool_keys_from_dev (dev_filter (stats s)) (heap (store s) d)"

abbreviation pool_of :: "pci_sys \<Rightarrow> pref \<Rightarrow> pci_pool" where
  "pool_of s r \<equiv> pool_at (stats s) r"

abbreviation free_devs :: "pci_sys \<Rightarrow> dref list" where
  "free_devs s \<equiv> get_free_devs (stats s)"

text \<open>
  The list of pools has no duplicates, every device is in one pool only,
  the pool that \<open>find_pool\<close> leads to, and the count of a pool is the number of its devices.
  While a request takes devices out of a pool, the count is ahead of the list by the number
  still to be taken: \<open>pend\<close> is that number.
\<close>

definition pools_inv :: "(pref \<Rightarrow> nat) \<Rightarrow> pci_sys \<Rightarrow> bool" where
  "pools_inv pend s \<longleftrightarrow>
     distinct (pools (stats s)) \<and>
     (\<forall>r \<in> set (pools (stats s)). r < next_pool (stats s)) \<and>
     (\<forall>r \<in> set (pools (stats s)). pool_count (pool_of s r) + pend r = length (pool_devices (pool_of s r))) \<and>
     distinct (free_devs s) \<and>
     (\<forall>r \<in> set (pools (stats s)). \<forall>d \<in> set (pool_devices (pool_of s r)).
        \<exists>k. dev_key s d = Inr (Some k) \<and> find_pool k (stats s) = Some r)"

definition addr_inj :: "pci_sys \<Rightarrow> dref set \<Rightarrow> bool" where
  "addr_inj s D \<longleftrightarrow> inj_on (\<lambda>d. address (heap (store s) d)) D"

lemma pools_invD:
  assumes "pools_inv pend s"
  shows "distinct (pools (stats s))"
    and "r \<in> set (pools (stats s)) \<Longrightarrow> r < next_pool (stats s)"
    and "r \<in> set (pools (stats s)) \<Longrightarrow> pool_count (pool_of s r) + pend r = length (pool_devices (pool_of s r))"
    and "distinct (free_devs s)"
    and "r \<in> set (pools (stats s)) \<Longrightarrow> d \<in> set (pool_devices (pool_of s r)) \<Longrightarrow>
       \<exists>k. dev_key s d = Inr (Some k) \<and> find_pool k (stats s) = Some r"
  using assms unfolding pools_inv_def by blast+

lemma pools_invI:
  assumes "distinct (pools (stats s))"
    and "\<And>r. r \<in> set (pools (stats s)) \<Longrightarrow> r < next_pool (stats s)"
    and "\<And>r. r \<in> set (pools (stats s)) \<Longrightarrow> pool_count (pool_of s r) + pend r = length (pool_devices (pool_of s r))"
    and "distinct (free_devs s)"
    and "\<And>r d. r \<in> set (pools (stats s)) \<Longrightarrow> d \<in> set (pool_devices (pool_of s r)) \<Longrightarrow>
       \<exists>k. dev_key s d = Inr (Some k) \<and> find_pool k (stats s) = Some r"
  shows "pools_inv pend s"
  using assms unfolding pools_inv_def by blast

lemma find_poolD: "find_pool k st = Some r \<Longrightarrow> r \<in> set (pools st) \<and> pool_matches k (pool_at st r)"
  unfolding find_pool_def using find_SomeD by fastforce

lemma free_devs_iff: "d \<in> set (free_devs s) \<longleftrightarrow> (\<exists>r \<in> set (pools (stats s)). d \<in> set (pool_devices (pool_of s r)))"
  by (auto simp: get_free_devs_def)

lemma free_dev_pool:
  assumes "pools_inv pend s" "d \<in> set (free_devs s)"
  obtains k r where "dev_key s d = Inr (Some k)" "find_pool k (stats s) = Some r"
    "r \<in> set (pools (stats s))" "d \<in> set (pool_devices (pool_of s r))"
  using assms pools_invD(5) by (metis free_devs_iff)

lemma pool_unique:
  assumes "pools_inv pend s" "r \<in> set (pools (stats s))" "q \<in> set (pools (stats s))"
    "d \<in> set (pool_devices (pool_of s r))" "d \<in> set (pool_devices (pool_of s q))"
  shows "r = q"
  using distinct_concat_map_eq [of "\<lambda>r. pool_devices (pool_of s r)" "pools (stats s)"] pools_invD(4) [OF assms(1)] assms(2-)
  by (auto simp: get_free_devs_def)

lemma find_pool_pool_at:
  assumes "\<And>r. r \<in> set (pools st) \<Longrightarrow> pool_props (pool_at st' r) = pool_props (pool_at st r)" "pools st' = pools st"
  shows "find_pool k st' = find_pool k st"
  unfolding find_pool_def assms(2) by (rule find_cong) (simp_all add: pool_matches_def assms(1))

lemma with_pool_sel [simp]:
  "pool_at (with_pool r f st) = (pool_at st)(r := f (pool_at st r))" "pools (with_pool r f st) = pools st"
  "next_pool (with_pool r f st) = next_pool st" "dev_filter (with_pool r f st) = dev_filter st"
  by (simp_all add: with_pool_def)

lemma free_devs_with_pool:
  assumes "distinct (pools st)" "r \<in> set (pools st)"
  shows "mset (get_free_devs (with_pool r f st)) + mset (pool_devices (pool_at st r)) =
    mset (get_free_devs st) + mset (pool_devices (f (pool_at st r)))"
  using mset_concat_change [OF assms, of "\<lambda>q. pool_devices (pool_at (with_pool r f st) q)"
      "\<lambda>q. pool_devices (pool_at st q)"]
  by (simp add: get_free_devs_def)

lemma find_remove1:
  assumes "distinct xs" "List.find P xs = Some x" "x \<noteq> y"
  shows "List.find P (remove1 y xs) = Some x"
  using assms by (induction xs) (auto split: if_splits)

lemma compare_address:
  assumes "compare_pci_device_attributes a b"
  shows "address a = address b"
proof -
  have "address (pci_fields.truncate a) = address (pci_fields.truncate b)"
    using assms by (simp add: compare_pci_device_attributes_def)
  then show ?thesis by (simp add: pci_fields.truncate_def)
qed

lemma py_remove_remove1:
  assumes "inj_on (\<lambda>d. address (h d)) (insert d (set xs))" "d \<in> set xs"
  shows "py_remove h d xs = Some (remove1 d xs)"
  using assms
proof (induction xs)
  case (Cons x xs)
  have same: "x = d" if "compare_pci_device_attributes (h x) (h d)"
  proof -
    have "address (h x) = address (h d)" using that compare_address by blast
    from inj_onD [OF Cons.prems(1) this] show ?thesis by simp
  qed
  have inj: "inj_on (\<lambda>d. address (h d)) (insert d (set xs))"
    by (rule inj_on_subset [OF Cons.prems(1)]) auto
  show ?case
  proof (cases "x = d")
    case False
    then have "\<not> compare_pci_device_attributes (h x) (h d)" "d \<in> set xs"
      using same Cons.prems(2) by auto
    then show ?thesis using Cons.IH [OF inj] False by simp
  qed simp
qed simp

lemma py_mem_iff:
  assumes "inj_on (\<lambda>d. address (h d)) (insert d (set xs))"
  shows "py_mem h d xs \<longleftrightarrow> d \<in> set xs"
proof -
  have "x = d" if "x \<in> set xs" "compare_pci_device_attributes (h x) (h d)" for x
  proof -
    have "address (h x) = address (h d)" using that compare_address by blast
    from inj_onD [OF assms this] that(1) show ?thesis by simp
  qed
  then show ?thesis by (auto simp: py_mem_def)
qed

lemma dev_key_with_stats:
  "dev_filter (stats s') = dev_filter (stats s) \<Longrightarrow> heap (store s') d = heap (store s) d \<Longrightarrow> dev_key s' d = dev_key s d"
  by (simp add: dev_key_def)

lemma decrease_one:
  assumes "pool_count (pool_at st r) > 0"
  shows "snd (decrease_pool_count r (Suc 0) st) =
    (if pool_count (pool_at st r) > 1 then with_pool r (\<lambda>p. p\<lparr>pool_count := pool_count p - 1\<rparr>) st
     else st\<lparr>pools := remove1 r (pools st)\<rparr>)"
  by (simp add: decrease_pool_count_def)

lemma free_devs_drop_pool:
  assumes "distinct (pools st)" "r \<in> set (pools st)" "pool_devices (pool_at st r) = []"
  shows "get_free_devs (st\<lparr>pools := remove1 r (pools st)\<rparr>) = get_free_devs st"
proof -
  have "concat (map g (remove1 r xs)) = concat (map g xs)" if "g r = []" for g :: "pref \<Rightarrow> dref list" and xs
    using that by (induction xs) auto
  then show ?thesis using assms(3) by (simp add: get_free_devs_def)
qed

lemma remove_device_spec:
  assumes inv: "pools_inv pend s" and inj: "addr_inj s (insert d (set (free_devs s)))"
    and key: "dev_key s d = Inr (Some k)" and pool: "find_pool k (stats s) = Some r" and pend: "pend r = 0"
    and mem: "d \<in> set (pool_devices (pool_of s r))"
  shows "\<exists>s'. remove_device d s = (Inr (), s') \<and> pools_inv pend s' \<and>
    mset (free_devs s') = mset (free_devs s) - {#d#} \<and> store s' = store s \<and>
    dev_filter (stats s') = dev_filter (stats s) \<and>
    (\<forall>q. q \<noteq> r \<longrightarrow> pool_of s' q = pool_of s q \<and> (q \<in> set (pools (stats s')) \<longleftrightarrow> q \<in> set (pools (stats s))))"
proof -
  let ?ds = "pool_devices (pool_of s r)"
  let ?st = "with_pool r (\<lambda>p. p\<lparr>pool_devices := remove1 d ?ds\<rparr>) (stats s)"
  let ?st' = "snd (decrease_pool_count r (Suc 0) ?st)"
  let ?s' = "s\<lparr>stats := ?st'\<rparr>"
  have r: "r \<in> set (pools (stats s))" using find_poolD [OF pool] by simp
  have cnt: "pool_count (pool_of s r) = length ?ds" using pools_invD(3) [OF inv r] pend by simp
  have pos: "length ?ds > 0" using mem by (cases ?ds) auto
  have "set ?ds \<subseteq> set (free_devs s)" using r by (auto simp: free_devs_iff)
  then have "inj_on (\<lambda>d. address (heap (store s) d)) (insert d (set ?ds))"
    using inj unfolding addr_inj_def by (blast intro: inj_on_subset)
  from py_remove_remove1 [OF this mem] have run: "remove_device d s = (Inr (), ?s')"
    using key pool by (simp add: remove_device_def dev_key_def)
  have st': "?st' = (if length ?ds > 1 then with_pool r (\<lambda>p. p\<lparr>pool_count := pool_count p - 1\<rparr>) ?st
      else ?st\<lparr>pools := remove1 r (pools (stats s))\<rparr>)"
    using decrease_one [of ?st r] cnt pos by simp
  have dist: "distinct (pools (stats s))" using pools_invD(1) [OF inv] .
  have "mset (get_free_devs ?st) + mset ?ds = mset (free_devs s) + mset (remove1 d ?ds)"
    using free_devs_with_pool [OF dist r, of "\<lambda>p. p\<lparr>pool_devices := remove1 d ?ds\<rparr>"] by simp
  moreover have "mset ?ds = mset (remove1 d ?ds) + {#d#}" using mem by simp
  ultimately have "mset (get_free_devs ?st) + {#d#} = mset (free_devs s)"
    by (simp only: mset_shift)
  then have free_st: "mset (get_free_devs ?st) = mset (free_devs s) - {#d#}" by (metis add_diff_cancel_right')
  have free': "mset (free_devs ?s') = mset (free_devs s) - {#d#}"
  proof (cases "length ?ds > 1")
    case True
    then show ?thesis using free_st st' free_devs_with_pool [of ?st r "\<lambda>p. p\<lparr>pool_count := pool_count p - 1\<rparr>"] dist r
      by simp
  next
    case False
    then have "remove1 d ?ds = []" using mem pos by (cases ?ds) auto
    then show ?thesis using False st' free_st free_devs_drop_pool [of ?st r] dist r by simp
  qed
  have props: "pool_props (pool_of ?s' q) = pool_props (pool_of s q)" for q by (simp add: st')
  have other: "pool_of ?s' q = pool_of s q" "q \<in> set (pools ?st') \<longleftrightarrow> q \<in> set (pools (stats s))" if "q \<noteq> r" for q
    using that by (simp_all add: st')
  have sub: "set (pools ?st') \<subseteq> set (pools (stats s))" using set_remove1_subset [of r "pools (stats s)"] by (auto simp: st')
  have pools': "pools ?st' = pools (stats s) \<or> r \<notin> set (pools ?st') \<and> pools ?st' = remove1 r (pools (stats s))"
    using dist by (simp add: st')
  have filt: "dev_filter ?st' = dev_filter (stats s)" and nxt: "next_pool ?st' = next_pool (stats s)" by (simp_all add: st')
  have found: "find_pool k' ?st' = Some q" if "find_pool k' (stats s) = Some q" "q \<in> set (pools ?st')" for k' q
    using pools'
  proof
    assume "pools ?st' = pools (stats s)"
    then show ?thesis using that(1) find_pool_pool_at [of "stats s" ?st' k'] props by simp
  next
    assume drop: "r \<notin> set (pools ?st') \<and> pools ?st' = remove1 r (pools (stats s))"
    then have "q \<noteq> r" using that(2) by auto
    then show ?thesis
      using drop that(1) find_remove1 [OF dist, of _ q r] props by (simp add: find_pool_def pool_matches_def)
  qed
  have "pools_inv pend ?s'"
  proof (rule pools_invI)
    show "distinct (pools (stats ?s'))" using dist by (auto simp: st')
    show "distinct (free_devs ?s')"
      using mset_eq_imp_distinct_iff [of "free_devs ?s'" "remove1 d (free_devs s)"] free' pools_invD(4) [OF inv] by simp
    fix q assume q: "q \<in> set (pools (stats ?s'))"
    then have q0: "q \<in> set (pools (stats s))" using sub by auto
    show "q < next_pool (stats ?s')" using pools_invD(2) [OF inv q0] nxt by simp
    show "pool_count (pool_of ?s' q) + pend q = length (pool_devices (pool_of ?s' q))"
    proof (cases "q = r")
      case True
      then have "length ?ds > 1" using q dist by (auto simp: st' split: if_splits)
      then show ?thesis using True cnt mem pend by (simp add: st' length_remove1)
    qed (use other pools_invD(3) [OF inv q0] in simp)
    fix x assume "x \<in> set (pool_devices (pool_of ?s' q))"
    then have "x \<in> set (pool_devices (pool_of s q))"
      using other [of q] set_remove1_subset [of d ?ds] by (cases "q = r") (auto simp: st' split: if_splits)
    from pools_invD(5) [OF inv q0 this] found [OF _ q [simplified]]
    show "\<exists>k. dev_key ?s' x = Inr (Some k) \<and> find_pool k (stats ?s') = Some q"
      using dev_key_with_stats [of ?s' s x] filt by auto
  qed
  with run free' filt other show ?thesis by auto
qed

lemma new_pool_sel:
  assumes "new_pool k st = (r, st')"
  shows "r = next_pool st" "set (pools st') = insert r (set (pools st))" "next_pool st' = Suc r"
    "dev_filter st' = dev_filter st"
    "pool_at st' = (pool_at st)(r := \<lparr>pool_props = k, pool_count = 0, pool_devices = []\<rparr>)"
    "distinct (pools st) \<Longrightarrow> r \<notin> set (pools st) \<Longrightarrow> distinct (pools st')"
  using assms by (auto simp: new_pool_def Let_def)

lemma find_new_pool:
  assumes new: "new_pool k st = (r, st')" and fresh: "r \<notin> set (pools st)"
  shows "find_pool k' st' = (case find_pool k' st of Some q \<Rightarrow> Some q
      | None \<Rightarrow> if pool_matches k' \<lparr>pool_props = k, pool_count = 0, pool_devices = []\<rparr> then Some r else None)"
proof -
  let ?P = "\<lambda>q. pool_matches k' (pool_at st' q)"
  have "find_pool k' st' = List.find ?P (sort_key (\<lambda>q. length (pool_props (pool_at st' q)) + 2) (pools st @ [r]))"
    using new by (auto simp: find_pool_def new_pool_def Let_def)
  also have "\<dots> = List.find ?P (pools st @ [r])"
    by (rule find_sort_key [where n = "length k' + 2"]) (simp add: pool_matches_def)
  also have "List.find ?P (pools st) = find_pool k' st"
    unfolding find_pool_def using fresh new_pool_sel(5) [OF new] by (intro find_cong) auto
  then have "List.find ?P (pools st @ [r]) = (case find_pool k' st of Some q \<Rightarrow> Some q
      | None \<Rightarrow> if pool_matches k' \<lparr>pool_props = k, pool_count = 0, pool_devices = []\<rparr> then Some r else None)"
    using new_pool_sel(5) [OF new] by (simp add: find_append split: option.split)
  finally show ?thesis .
qed

lemma pool_matches_self: "pool_matches k \<lparr>pool_props = k, pool_count = n, pool_devices = ds\<rparr>"
  by (simp add: pool_matches_def equal_properties_def)

lemma put_in_pool:
  assumes inv: "pools_inv pend s" and key: "dev_key s d = Inr (Some k)" and pool: "find_pool k (stats s) = Some r"
    and new: "d \<notin> set (free_devs s)"
  shows "pools_inv pend (s\<lparr>stats := with_pool r (put_device d) (stats s)\<rparr>)"
    and "mset (get_free_devs (with_pool r (put_device d) (stats s))) = add_mset d (mset (free_devs s))"
proof -
  let ?st = "with_pool r (put_device d) (stats s)"
  let ?s = "s\<lparr>stats := ?st\<rparr>"
  have r: "r \<in> set (pools (stats s))" using find_poolD [OF pool] by simp
  show free: "mset (get_free_devs ?st) = add_mset d (mset (free_devs s))"
    using free_devs_with_pool [OF pools_invD(1) [OF inv] r, of "put_device d"] by (simp add: put_device_def)
  have find_same: "find_pool k' ?st = find_pool k' (stats s)" for k'
    by (rule find_pool_pool_at) (simp_all add: put_device_def)
  show "pools_inv pend ?s"
  proof (rule pools_invI)
    show "distinct (free_devs ?s)"
      using mset_eq_imp_distinct_iff [of "free_devs ?s" "d # free_devs s"] free pools_invD(4) [OF inv] new by simp
    fix q assume q: "q \<in> set (pools (stats ?s))"
    then have q0: "q \<in> set (pools (stats s))" by simp
    show "q < next_pool (stats ?s)" using pools_invD(2) [OF inv q0] by simp
    show "pool_count (pool_of ?s q) + pend q = length (pool_devices (pool_of ?s q))"
      using pools_invD(3) [OF inv q0] by (auto simp: put_device_def)
    fix x assume "x \<in> set (pool_devices (pool_of ?s q))"
    then consider "x \<in> set (pool_devices (pool_of s q))" | "q = r" "x = d"
      by (auto simp: put_device_def split: if_splits)
    then show "\<exists>k. dev_key ?s x = Inr (Some k) \<and> find_pool k (stats ?s) = Some q"
      using pools_invD(5) [OF inv q0] key pool find_same dev_key_with_stats [of ?s s x] by cases auto
  qed (use pools_invD(1) [OF inv] in simp)
qed

lemma new_pool_inv:
  assumes inv: "pools_inv pend s" and new: "new_pool k (stats s) = (r, st')" and pend: "pend r = 0"
  shows "pools_inv pend (s\<lparr>stats := st'\<rparr>)" and "mset (get_free_devs st') = mset (free_devs s)"
proof -
  let ?s = "s\<lparr>stats := st'\<rparr>"
  note sel = new_pool_sel [OF new]
  have fresh: "r \<notin> set (pools (stats s))" using sel(1) pools_invD(2) [OF inv] by blast
  have "mset (pools st') = mset (pools (stats s) @ [r])" using new by (auto simp: new_pool_def Let_def)
  then have "mset (get_free_devs st') =
      mset (concat (map (\<lambda>q. pool_devices (pool_at st' q)) (pools (stats s) @ [r])))"
    unfolding get_free_devs_def by (rule mset_concat_perm)
  also have "\<dots> = mset (free_devs s)"
    using sel(5) fresh by (auto simp: get_free_devs_def intro!: arg_cong [where f = "\<lambda>xs. mset (concat xs)"])
  finally show free: "mset (get_free_devs st') = mset (free_devs s)" .
  show "pools_inv pend ?s"
  proof (rule pools_invI)
    show "distinct (pools (stats ?s))" using sel(6) fresh pools_invD(1) [OF inv] by simp
    show "distinct (free_devs ?s)"
      using mset_eq_imp_distinct_iff [of "free_devs ?s" "free_devs s"] free pools_invD(4) [OF inv] by simp
    fix q assume q: "q \<in> set (pools (stats ?s))"
    then have q0: "q = r \<or> q \<in> set (pools (stats s)) \<and> q \<noteq> r" using sel(2) fresh by auto
    show "q < next_pool (stats ?s)" using q0 pools_invD(2) [OF inv, of q] sel(1,3) by auto
    show "pool_count (pool_of ?s q) + pend q = length (pool_devices (pool_of ?s q))"
      using q0 pools_invD(3) [OF inv, of q] sel(5) pend by auto
    fix x assume x: "x \<in> set (pool_devices (pool_of ?s q))"
    then have "q \<in> set (pools (stats s))" "x \<in> set (pool_devices (pool_of s q))" using q0 sel(5) by auto
    from pools_invD(5) [OF inv this] show "\<exists>k. dev_key ?s x = Inr (Some k) \<and> find_pool k (stats ?s) = Some q"
      using find_new_pool [OF new fresh] dev_key_with_stats [of ?s s x] sel(4) by auto
  qed
qed

lemma add_device_spec:
  assumes inv: "pools_inv (\<lambda>_. 0) s" and key: "dev_key s d = Inr (Some k)" and new: "d \<notin> set (free_devs s)"
  shows "\<exists>s'. add_device d s = (Inr (), s') \<and> pools_inv (\<lambda>_. 0) s' \<and>
    mset (free_devs s') = add_mset d (mset (free_devs s)) \<and> store s' = store s \<and>
    dev_filter (stats s') = dev_filter (stats s)"
proof (cases "find_pool k (stats s)")
  case (Some r)
  then show ?thesis
    using put_in_pool [OF inv key Some new] key by (simp add: add_device_def dev_key_def)
next
  case None
  obtain r st' where np: "new_pool k (stats s) = (r, st')" by fastforce
  let ?s = "s\<lparr>stats := st'\<rparr>"
  note sel = new_pool_sel [OF np]
  note inv' = new_pool_inv [OF inv np refl]
  have fresh: "r \<notin> set (pools (stats s))" using sel(1) pools_invD(2) [OF inv] by blast
  have found: "find_pool k (stats ?s) = Some r" using find_new_pool [OF np fresh] None pool_matches_self by simp
  have "d \<notin> set (free_devs ?s)" using inv'(2) new mset_eq_setD by auto
  moreover have "dev_key ?s d = Inr (Some k)" using dev_key_with_stats [of ?s s d] sel(4) key by simp
  ultimately show ?thesis
    using put_in_pool [OF inv'(1) _ found, of d] inv'(2) key None np sel(4)
    by (simp add: add_device_def dev_key_def)
qed

section \<open>Taking devices for requests\<close>

text \<open>
  What the pools need of the whitelist: it looks at a device's vendor, product, address and
  parent address only, and its tags do not redefine the device type.
\<close>

definition filter_ok :: "(pci_device \<Rightarrow> (pci_error, props option) res) \<Rightarrow> bool" where
  "filter_ok flt \<longleftrightarrow>
     (\<forall>d d'. vendor_id d = vendor_id d' \<longrightarrow> product_id d = product_id d' \<longrightarrow> address d = address d' \<longrightarrow>
        parent_addr d = parent_addr d' \<longrightarrow> flt d = flt d') \<and>
     (\<forall>d tags. flt d = Inr (Some tags) \<longrightarrow> ''dev_type'' \<notin> set (dict_keys tags))"

lemma filter_okD:
  assumes "filter_ok flt"
  shows "vendor_id d = vendor_id d' \<Longrightarrow> product_id d = product_id d' \<Longrightarrow> address d = address d' \<Longrightarrow>
      parent_addr d = parent_addr d' \<Longrightarrow> flt d = flt d'"
    and "flt e = Inr (Some tags) \<Longrightarrow> ''dev_type'' \<notin> set (dict_keys tags)"
  using assms unfolding filter_ok_def by blast+

text \<open>
  The devices \<open>D\<close> of the node: pooled devices are among them, they have different addresses
  and they are closed under the links between functions.
\<close>

definition sys_ok :: "dref set \<Rightarrow> (pref \<Rightarrow> nat) \<Rightarrow> pci_sys \<Rightarrow> bool" where
  "sys_ok D pend s \<longleftrightarrow>
     pools_inv pend s \<and> links_ok (heap (store s)) \<and> addr_inj s D \<and> set (free_devs s) \<subseteq> D \<and>
     (\<forall>c p. parent_device (heap (store s) c) = Some p \<longrightarrow> (c \<in> D \<longleftrightarrow> p \<in> D)) \<and>
     filter_ok (dev_filter (stats s)) \<and> (\<forall>d \<in> D. \<exists>k. dev_key s d = Inr k)"

definition linked :: "pci_sys \<Rightarrow> dref \<Rightarrow> dref \<Rightarrow> bool" where
  "linked s a b \<longleftrightarrow> parent_device (heap (store s) a) = Some b \<or> parent_device (heap (store s) b) = Some a"

lemma linked_sym: "linked s a b \<longleftrightarrow> linked s b a"
  by (auto simp: linked_def)

text \<open>A pooled physical function has all its virtual functions in the pools, those that the
  whitelist lets in.\<close>

definition whole :: "pci_sys \<Rightarrow> bool" where
  "whole s \<longleftrightarrow> (\<forall>c p. parent_device (heap (store s) c) = Some p \<longrightarrow> p \<in> set (free_devs s) \<longrightarrow>
     dev_key s c = Inr None \<or> c \<in> set (free_devs s))"

abbreviation type_val :: "dev_type \<Rightarrow> pyval" where
  "type_val t \<equiv> VStr (dev_type_str t)"

abbreviation pool_type :: "pci_sys \<Rightarrow> pref \<Rightarrow> pyval" where
  "pool_type s r \<equiv> py_get (pool_props (pool_of s r)) ''dev_type''"

lemma type_val_inj [simp]: "type_val a = type_val b \<longleftrightarrow> a = b"
  by (cases a; cases b) (simp_all add: dev_type_str_def)

lemma sys_okD:
  assumes "sys_ok D pend s"
  shows "pools_inv pend s" "links_ok (heap (store s))" "addr_inj s D" "set (free_devs s) \<subseteq> D"
    "parent_device (heap (store s) c) = Some p \<Longrightarrow> c \<in> D \<longleftrightarrow> p \<in> D"
    "filter_ok (dev_filter (stats s))" "d \<in> D \<Longrightarrow> \<exists>k. dev_key s d = Inr k"
  using assms unfolding sys_ok_def by blast+

lemma sys_ok_pools:
  assumes ok: "sys_ok D pend s" and s': "pools_inv pend' s'" "store s' = store s"
    "dev_filter (stats s') = dev_filter (stats s)" and sub: "set (free_devs s') \<subseteq> set (free_devs s)"
  shows "sys_ok D pend' s'"
proof -
  have key: "dev_key s' x = dev_key s x" for x using dev_key_with_stats [of s' s] s'(2,3) by simp
  have "set (free_devs s') \<subseteq> D" using sub sys_okD(4) [OF ok] by simp
  with s'(1) show ?thesis
    unfolding sys_ok_def addr_inj_def s'(2,3) key
    using sys_okD(2,3,5-) [OF ok] unfolding addr_inj_def by simp
qed

lemma key_type:
  assumes "filter_ok (dev_filter (stats s))" "dev_key s d = Inr (Some k)"
  shows "dict_get k ''dev_type'' = Some (type_val (dev_type (heap (store s) d)))"
proof -
  obtain tags where tags: "dev_filter (stats s) (heap (store s) d) = Inr (Some tags)"
    and k: "k = dict_update (dev_props (heap (store s) d)) tags"
    using assms(2) by (auto simp: dev_key_def create_pool_keys_from_dev_def rbind_Inr_iff)
  have "''dev_type'' \<notin> set (dict_keys tags)"
    using assms(1) tags unfolding filter_ok_def by blast
  then have "dict_get (rev tags) ''dev_type'' = None" by (simp add: map_of_eq_None_iff)
  then show ?thesis unfolding k by (simp add: dict_get_update dev_props_def)
qed

lemma pooled_type:
  assumes "filter_ok (dev_filter (stats s))" "dev_key s d = Inr (Some k)" "find_pool k (stats s) = Some r"
  shows "pool_type s r = type_val (dev_type (heap (store s) d))"
proof -
  have "''dev_type'' \<in> set (dict_keys k)" using dict_get_in [OF key_type [OF assms(1,2)]] .
  then show ?thesis
    using find_poolD [OF assms(3)] key_type [OF assms(1,2)]
    by (force simp: pool_matches_def equal_properties_def py_get_def simp del: set_map)
qed

text \<open>Only pools whose devices are of type \<open>t\<close> differ.\<close>

definition same_but :: "pyval option \<Rightarrow> pci_sys \<Rightarrow> pci_sys \<Rightarrow> bool" where
  "same_but t s s' \<longleftrightarrow>
     store s' = store s \<and> dev_filter (stats s') = dev_filter (stats s) \<and>
     (\<forall>q. Some (pool_type s q) \<noteq> t \<longrightarrow>
        pool_of s' q = pool_of s q \<and> (q \<in> set (pools (stats s')) \<longleftrightarrow> q \<in> set (pools (stats s))))"

lemma same_but_refl [simp]: "same_but t s s"
  by (simp add: same_but_def)

lemma same_but_trans: "same_but t s s' \<Longrightarrow> same_but t s' s'' \<Longrightarrow> same_but t s s''"
  by (simp add: same_but_def)

lemma same_but_key: "same_but t s s' \<Longrightarrow> dev_key s' d = dev_key s d"
  by (simp add: same_but_def dev_key_def)

lemma remove_device_ok:
  assumes ok: "sys_ok D pend s" and mem: "d \<in> set (free_devs s)"
    and pend: "\<And>q. pool_type s q = type_val (dev_type (heap (store s) d)) \<Longrightarrow> pend q = 0"
  shows "\<exists>s'. remove_device d s = (Inr (), s') \<and> sys_ok D pend s' \<and> set (free_devs s') = set (free_devs s) - {d} \<and>
    same_but (Some (type_val (dev_type (heap (store s) d)))) s s'"
proof -
  note inv = sys_okD(1) [OF ok]
  obtain k r where kr: "dev_key s d = Inr (Some k)" "find_pool k (stats s) = Some r"
    "r \<in> set (pools (stats s))" "d \<in> set (pool_devices (pool_of s r))" using free_dev_pool [OF inv mem] .
  have ty: "pool_type s r = type_val (dev_type (heap (store s) d))" using pooled_type [OF sys_okD(6) [OF ok] kr(1,2)] .
  have "addr_inj s (insert d (set (free_devs s)))"
    unfolding addr_inj_def
    by (rule inj_on_subset [OF sys_okD(3) [OF ok, unfolded addr_inj_def]]) (use mem sys_okD(4) [OF ok] in auto)
  from remove_device_spec [OF inv this kr(1,2) pend [OF ty] kr(4)] obtain s' where
    s': "remove_device d s = (Inr (), s')" "pools_inv pend s'" "mset (free_devs s') = mset (free_devs s) - {#d#}"
      "store s' = store s" "dev_filter (stats s') = dev_filter (stats s)"
    and other: "\<And>q. q \<noteq> r \<Longrightarrow> pool_of s' q = pool_of s q \<and> (q \<in> set (pools (stats s')) \<longleftrightarrow> q \<in> set (pools (stats s)))"
    by blast
  have "set (free_devs s') = set (remove1 d (free_devs s))" using s'(3) by (metis mset_remove1 set_mset_mset)
  then have free: "set (free_devs s') = set (free_devs s) - {d}" using pools_invD(4) [OF inv] by simp
  have key: "dev_key s' x = dev_key s x" for x using dev_key_with_stats [of s' s] s'(4,5) by simp
  have "sys_ok D pend s'"
    by (rule sys_ok_pools [OF ok s'(2,4,5)]) (use free in auto)
  moreover have "pool_of s' q = pool_of s q \<and> (q \<in> set (pools (stats s')) \<longleftrightarrow> q \<in> set (pools (stats s)))"
    if "pool_type s q \<noteq> type_val (dev_type (heap (store s) d))" for q
    using other [of q] ty that by (cases "q = r") simp_all
  ultimately show ?thesis using s'(1,4,5) free unfolding same_but_def by (intro exI [of _ s']) simp
qed

lemma remove_devices_ok:
  assumes "sys_ok D pend s" "distinct cs"
    and "\<And>c. c \<in> set cs \<Longrightarrow> dev_type (heap (store s) c) = t \<and> (dev_key s c = Inr None \<or> c \<in> set (free_devs s))"
    and "\<And>q. pool_type s q = type_val t \<Longrightarrow> pend q = 0"
  shows "\<exists>s'. sforeach cs remove_device s = (Inr (), s') \<and> sys_ok D pend s' \<and>
    set (free_devs s') = set (free_devs s) - set cs \<and> same_but (Some (type_val t)) s s'"
  using assms
proof (induction cs arbitrary: s)
  case Nil
  then show ?case by (simp add: sreturn_def)
next
  case (Cons c cs)
  have "\<exists>s1. remove_device c s = (Inr (), s1) \<and> sys_ok D pend s1 \<and> set (free_devs s1) = set (free_devs s) - {c} \<and>
      same_but (Some (type_val t)) s s1"
  proof (cases "c \<in> set (free_devs s)")
    case True
    then show ?thesis using remove_device_ok [OF Cons.prems(1) True] Cons.prems(3) [of c] Cons.prems(4) by simp
  next
    case False
    then have "remove_device c s = (Inr (), s)" using Cons.prems(3) [of c] by (simp add: remove_device_def dev_key_def)
    with False Cons.prems(1) show ?thesis by simp
  qed
  then obtain s1 where s1: "remove_device c s = (Inr (), s1)" "sys_ok D pend s1"
    "set (free_devs s1) = set (free_devs s) - {c}" "same_but (Some (type_val t)) s s1" by blast
  have st: "store s1 = store s" using s1(4) by (simp add: same_but_def)
  have "\<exists>s'. sforeach cs remove_device s1 = (Inr (), s') \<and> sys_ok D pend s' \<and>
    set (free_devs s') = set (free_devs s1) - set cs \<and> same_but (Some (type_val t)) s1 s'"
  proof (rule Cons.IH [OF s1(2)])
    show "distinct cs" using Cons.prems(2) by simp
    show "dev_type (heap (store s1) x) = t \<and> (dev_key s1 x = Inr None \<or> x \<in> set (free_devs s1))" if "x \<in> set cs" for x
      using Cons.prems(2) Cons.prems(3) [of x] that s1(3) st same_but_key [OF s1(4)] by auto
    show "pend q = 0" if "pool_type s1 q = type_val t" for q
      using Cons.prems(4) [of q] that s1(4) by (cases "pool_type s q = type_val t") (auto simp: same_but_def)
  qed
  with s1 show ?case
    using same_but_trans [OF s1(4)] by (auto simp: sbind_def)
qed

text \<open>The type of the functions linked to a function of the given type.\<close>

definition other_type :: "dev_type \<Rightarrow> pyval option" where
  "other_type t = (case t of SRIOV_PF \<Rightarrow> Some (type_val SRIOV_VF) | SRIOV_VF \<Rightarrow> Some (type_val SRIOV_PF)
     | STANDARD \<Rightarrow> None)"

lemma handle_dependents_ok:
  assumes ok: "sys_ok D pend s" and d: "d \<in> D"
    and children: "\<And>c. parent_device (heap (store s) c) = Some d \<Longrightarrow> dev_key s c = Inr None \<or> c \<in> set (free_devs s)"
    and pend: "\<And>q. Some (pool_type s q) = other_type (dev_type (heap (store s) d)) \<Longrightarrow> pend q = 0"
  shows "\<exists>s'. handle_device_dependents d s = (Inr (), s') \<and> sys_ok D pend s' \<and>
    set (free_devs s') = set (free_devs s) - {x. linked s d x} \<and>
    same_but (other_type (dev_type (heap (store s) d))) s s'"
proof (cases "dev_type (heap (store s) d)")
  case STANDARD
  then have "\<not> linked s d x" for x
    using links_ok_two [OF sys_okD(2) [OF ok]] by (auto simp: linked_def)
  with STANDARD ok show ?thesis by (simp add: handle_device_dependents_def)
next
  case SRIOV_PF
  let ?cs = "child_devices (heap (store s) d)"
  have cs: "c \<in> set ?cs \<longleftrightarrow> linked s d c" for c
    using links_ok_iff [OF sys_okD(2) [OF ok]] links_ok_parent [OF sys_okD(2) [OF ok], of d] SRIOV_PF
    by (auto simp: linked_def)
  have "\<exists>s'. sforeach ?cs remove_device s = (Inr (), s') \<and> sys_ok D pend s' \<and>
    set (free_devs s') = set (free_devs s) - set ?cs \<and> same_but (Some (type_val SRIOV_VF)) s s'"
    using children pend links_okD(1,4) [OF sys_okD(2) [OF ok]] SRIOV_PF
    by (intro remove_devices_ok [OF ok]) (auto simp: other_type_def)
  with SRIOV_PF cs show ?thesis by (auto simp: handle_device_dependents_def other_type_def)
next
  case SRIOV_VF
  have no_children: "parent_device (heap (store s) x) \<noteq> Some d" for x
    using links_ok_two(4) [OF sys_okD(2) [OF ok], of x d] SRIOV_VF by auto
  show ?thesis
  proof (cases "parent_device (heap (store s) d)")
    case None
    with SRIOV_VF ok no_children show ?thesis by (simp add: handle_device_dependents_def linked_def)
  next
    case (Some p)
    have p: "dev_type (heap (store s) p) = SRIOV_PF" using links_ok_two(4) [OF sys_okD(2) [OF ok] Some] .
    have "inj_on (\<lambda>d. address (heap (store s) d)) (insert p (set (free_devs s)))"
      by (rule inj_on_subset [OF sys_okD(3) [OF ok, unfolded addr_inj_def]])
        (use sys_okD(4,5) [OF ok] Some d in auto)
    from py_mem_iff [OF this] have mem: "py_mem (heap (store s)) p (free_devs s) \<longleftrightarrow> p \<in> set (free_devs s)" .
    have linked: "linked s d x \<longleftrightarrow> x = p" for x using Some no_children by (auto simp: linked_def)
    show ?thesis
    proof (cases "p \<in> set (free_devs s)")
      case True
      then show ?thesis
        using remove_device_ok [OF ok True] pend mem SRIOV_VF Some p linked
        by (simp add: handle_device_dependents_def other_type_def)
    next
      case False
      then show ?thesis using mem SRIOV_VF Some linked ok by (simp add: handle_device_dependents_def)
    qed
  qed
qed

text \<open>Taking devices changes nothing of them but the request they are for.\<close>

definition same_devs :: "pci_sys \<Rightarrow> pci_sys \<Rightarrow> bool" where
  "same_devs s s' \<longleftrightarrow>
     dev_filter (stats s') = dev_filter (stats s) \<and> attached (store s') = attached (store s) \<and>
     (\<forall>x. \<exists>rq. heap (store s') x = (heap (store s) x)\<lparr>request_id := rq\<rparr>)"

lemma same_request: "\<exists>rq. d = d\<lparr>request_id := rq\<rparr>"
  for d :: pci_device
  by (rule exI [of _ "request_id d"]) simp

lemma same_devs_refl [simp]: "same_devs s s"
  by (simp add: same_devs_def same_request)

lemma same_devs_trans:
  assumes "same_devs s s'" "same_devs s' s''"
  shows "same_devs s s''"
proof -
  have "\<exists>rq. heap (store s'') x = (heap (store s) x)\<lparr>request_id := rq\<rparr>" for x
  proof -
    obtain a b where "heap (store s') x = (heap (store s) x)\<lparr>request_id := a\<rparr>"
      "heap (store s'') x = (heap (store s') x)\<lparr>request_id := b\<rparr>"
      using assms unfolding same_devs_def by meson
    then have "heap (store s'') x = (heap (store s) x)\<lparr>request_id := b\<rparr>" by simp
    then show ?thesis by blast
  qed
  then show ?thesis using assms by (simp add: same_devs_def)
qed

lemma same_devs_sel:
  assumes "same_devs s s'"
  shows "dev_shape (heap (store s') x) = dev_shape (heap (store s) x)"
    "status (heap (store s') x) = status (heap (store s) x)"
    "parent_device (heap (store s') x) = parent_device (heap (store s) x)"
    "address (heap (store s') x) = address (heap (store s) x)"
    "dev_type (heap (store s') x) = dev_type (heap (store s) x)"
    "linked s' x y = linked s x y"
proof -
  have all: "\<exists>rq. heap (store s') x = (heap (store s) x)\<lparr>request_id := rq\<rparr>" for x
    using assms by (simp add: same_devs_def)
  show "dev_shape (heap (store s') x) = dev_shape (heap (store s) x)"
    "status (heap (store s') x) = status (heap (store s) x)"
    "address (heap (store s') x) = address (heap (store s) x)"
    "dev_type (heap (store s') x) = dev_type (heap (store s) x)"
    using all [of x] by (auto simp: dev_shape_def)
  have par: "parent_device (heap (store s') x) = parent_device (heap (store s) x)" for x using all [of x] by auto
  then show "parent_device (heap (store s') x) = parent_device (heap (store s) x)" .
  show "linked s' x y = linked s x y" using par by (simp add: linked_def)
qed

lemma same_devs_key:
  assumes "same_devs s s'" "filter_ok (dev_filter (stats s))"
  shows "dev_key s' x = dev_key s x"
proof -
  obtain rq where rq: "heap (store s') x = (heap (store s) x)\<lparr>request_id := rq\<rparr>"
    using assms(1) unfolding same_devs_def by blast
  have "dev_filter (stats s) ((heap (store s) x)\<lparr>request_id := rq\<rparr>) = dev_filter (stats s) (heap (store s) x)"
    by (rule filter_okD [OF assms(2)]) simp_all
  then show ?thesis
    using assms(1) rq by (simp add: dev_key_def create_pool_keys_from_dev_def same_devs_def dev_props_def)
qed

lemma same_but_devs: "same_but t s s' \<Longrightarrow> same_devs s s'"
  by (simp add: same_but_def same_devs_def same_request)

lemma sys_ok_same_devs:
  assumes ok: "sys_ok D pend s" and same: "same_devs s s'" and st: "stats s' = stats s"
  shows "sys_ok D pend s'"
proof -
  note key = same_devs_key [OF same sys_okD(6) [OF ok]]
  have "links_ok (heap (store s'))"
    using links_ok_shape [of "heap (store s')" "heap (store s)", OF same_devs_sel(1) [OF same]] sys_okD(2) [OF ok] by simp
  moreover have "pools_inv pend s'" using sys_okD(1) [OF ok] unfolding pools_inv_def key st .
  ultimately show ?thesis
    unfolding sys_ok_def addr_inj_def st key same_devs_sel(3,4) [OF same]
    using sys_okD(3,4,5,6,7) [OF ok] unfolding addr_inj_def by simp
qed

lemma pop_inv:
  assumes inv: "pools_inv pend s" and r: "r \<in> set (pools (stats s))" and pend: "pend r = Suc n"
    and ds: "pool_devices (pool_of s r) = xs @ [d]"
  defines "s' \<equiv> s\<lparr>stats := with_pool r (\<lambda>p. p\<lparr>pool_devices := xs\<rparr>) (stats s)\<rparr>"
  shows "pools_inv (pend(r := n)) s'" "set (free_devs s') = set (free_devs s) - {d}"
proof -
  have "mset (free_devs s') + mset (xs @ [d]) = mset (free_devs s) + mset xs"
    using free_devs_with_pool [OF pools_invD(1) [OF inv] r, of "\<lambda>p. p\<lparr>pool_devices := xs\<rparr>"] ds
    by (simp add: s'_def)
  then have "mset (free_devs s') + {#d#} = mset (free_devs s)"
    by (simp add: mset_shift)
  then have free: "mset (free_devs s) = mset (d # free_devs s')" by simp
  then have dist: "distinct (d # free_devs s')" using mset_eq_imp_distinct_iff pools_invD(4) [OF inv] by metis
  show "set (free_devs s') = set (free_devs s) - {d}" using mset_eq_setD [OF free] dist by auto
  have find_same: "find_pool k (stats s') = find_pool k (stats s)" for k
    by (rule find_pool_pool_at) (simp_all add: s'_def)
  show "pools_inv (pend(r := n)) s'"
  proof (rule pools_invI)
    show "distinct (pools (stats s'))" using pools_invD(1) [OF inv] by (simp add: s'_def)
    show "distinct (free_devs s')" using dist by simp
    fix q assume q: "q \<in> set (pools (stats s'))"
    then have q0: "q \<in> set (pools (stats s))" by (simp add: s'_def)
    show "q < next_pool (stats s')" using pools_invD(2) [OF inv q0] by (simp add: s'_def)
    show "pool_count (pool_of s' q) + (pend(r := n)) q = length (pool_devices (pool_of s' q))"
      using pools_invD(3) [OF inv q0] pend ds by (auto simp: s'_def)
    fix x assume "x \<in> set (pool_devices (pool_of s' q))"
    then have "x \<in> set (pool_devices (pool_of s q))" using ds by (auto simp: s'_def split: if_splits)
    then show "\<exists>k. dev_key s' x = Inr (Some k) \<and> find_pool k (stats s') = Some q"
      using pools_invD(5) [OF inv q0] find_same dev_key_with_stats [of s' s x] by (simp add: s'_def)
  qed
qed

lemma whole_take:
  assumes wh: "whole s" and ok: "sys_ok D pend s" and same: "same_devs s s'"
    and free: "set (free_devs s') = set (free_devs s) - {d} - {x. linked s d x}"
  shows "whole s'"
  unfolding whole_def
proof (intro allI impI)
  fix c p assume "parent_device (heap (store s') c) = Some p" and p: "p \<in> set (free_devs s')"
  then have cp: "parent_device (heap (store s) c) = Some p" using same_devs_sel(3) [OF same] by simp
  then have "dev_key s c = Inr None \<or> c \<in> set (free_devs s)" using wh p free unfolding whole_def by blast
  moreover have "c \<noteq> d" "\<not> linked s d c"
    using cp p free links_ok_two(1) [OF sys_okD(2) [OF ok] cp] links_ok_two [OF sys_okD(2) [OF ok], of d c]
    by (auto simp: linked_def)
  ultimately show "dev_key s' c = Inr None \<or> c \<in> set (free_devs s')"
    using free same_devs_key [OF same sys_okD(6) [OF ok]] by auto
qed

definition pool_shrunk :: "pci_pool \<Rightarrow> pci_pool \<Rightarrow> bool" where
  "pool_shrunk p p' \<longleftrightarrow> pool_props p' = pool_props p \<and> set (pool_devices p') \<subseteq> set (pool_devices p)"

lemma pool_shrunk_refl [simp]: "pool_shrunk p p"
  by (simp add: pool_shrunk_def)

lemma pool_shrunk_trans: "pool_shrunk p p' \<Longrightarrow> pool_shrunk p' p'' \<Longrightarrow> pool_shrunk p p''"
  by (auto simp: pool_shrunk_def)

lemma pool_shrunk_props: "pool_shrunk p p' \<Longrightarrow> pool_props p' = pool_props p"
  by (simp add: pool_shrunk_def)

text \<open>The outcome of taking \<open>ds\<close> out of the pools: nothing else leaves them but the
  functions linked to a taken one.\<close>

definition taken :: "pci_sys \<Rightarrow> dref list \<Rightarrow> pci_sys \<Rightarrow> bool" where
  "taken s ds s' \<longleftrightarrow>
     same_devs s s' \<and> distinct ds \<and> set ds \<subseteq> set (free_devs s) \<and> whole s' \<and>
     set (free_devs s') = set (free_devs s) - set ds - {x. \<exists>d \<in> set ds. linked s d x} \<and>
     (\<forall>r. pool_shrunk (pool_of s r) (pool_of s' r)) \<and>
     (\<forall>d \<in> set ds. \<forall>e \<in> set ds. \<not> linked s d e)"

lemma takenD:
  assumes "taken s ds s'"
  shows "same_devs s s'" "distinct ds" "set ds \<subseteq> set (free_devs s)" "whole s'"
    "set (free_devs s') = set (free_devs s) - set ds - {x. \<exists>d \<in> set ds. linked s d x}"
    "pool_shrunk (pool_of s r) (pool_of s' r)"
    "d \<in> set ds \<Longrightarrow> e \<in> set ds \<Longrightarrow> \<not> linked s d e"
  using assms unfolding taken_def by blast+

lemma taken_Nil: "whole s \<Longrightarrow> taken s [] s"
  by (simp add: taken_def)

lemma taken_append:
  assumes "taken s ds s'" "taken s' es s''"
  shows "taken s (ds @ es) s''"
proof -
  note a = takenD [OF assms(1)] and b = takenD [OF assms(2)]
  note same = same_devs_sel(6) [OF a(1)]
  have "set (free_devs s'') = set (free_devs s) - set (ds @ es) - {x. \<exists>d \<in> set (ds @ es). linked s d x}"
    unfolding b(5) a(5) same set_append by blast
  moreover have "distinct (ds @ es)" "set (ds @ es) \<subseteq> set (free_devs s)" using a(2,3,5) b(2,3) by auto
  moreover have "\<not> linked s d e" if "d \<in> set (ds @ es)" "e \<in> set (ds @ es)" for d e
  proof -
    have cross: "\<not> linked s x y" if "x \<in> set ds" "y \<in> set es" for x y using that a(5) b(3) by auto
    show ?thesis
      using that a(7) [of d e] b(7) [of d e, unfolded same] cross [of d e] cross [of e d] linked_sym [of s d e] by auto
  qed
  ultimately show ?thesis
    using same_devs_trans [OF a(1) b(1)] b(4) pool_shrunk_trans [OF a(6) b(6)] unfolding taken_def by simp
qed

lemma py_remove_subset: "py_remove h d xs = Some ys \<Longrightarrow> set ys \<subseteq> set xs"
  by (induction xs arbitrary: ys) (auto split: if_splits)

lemma shrunk_remove: "remove_device d s = (r, s') \<Longrightarrow> pool_shrunk (pool_of s q) (pool_of s' q)"
  by (auto simp: remove_device_def decrease_pool_count_def pool_shrunk_def dest: py_remove_subset [THEN subsetD]
      split: sum.splits option.splits if_splits)

lemma shrunk_handle:
  assumes "handle_device_dependents d s = (r, s')"
  shows "pool_shrunk (pool_of s q) (pool_of s' q)"
proof -
  have loop: "pool_shrunk (pool_of s q) (pool_of t' q)" if "sforeach cs remove_device s = (r', t')" for cs r' t'
    by (rule sforeach_inv [where P = "\<lambda>t. pool_shrunk (pool_of s q) (pool_of t q)", OF _ _ that])
      (use shrunk_remove pool_shrunk_trans in blast, simp)
  show ?thesis
    using assms loop shrunk_remove
    by (auto simp: handle_device_dependents_def Let_def split: dev_type.splits option.splits if_splits)
qed

lemma take_one:
  assumes ok: "sys_ok D pend s" and wh: "whole s" and r: "r \<in> set (pools (stats s))"
    and pend: "pend r = Suc n" "\<And>q. q \<noteq> r \<Longrightarrow> pend q = 0"
    and ds: "pool_devices (pool_of s r) = xs @ [d]"
  shows "\<exists>s'. sbind (handle_device_dependents d)
      (\<lambda>_. smodify (\<lambda>t. t\<lparr>store := with_dev d (\<lambda>x. x\<lparr>request_id := Val rid\<rparr>) (store t)\<rparr>))
      (s\<lparr>stats := with_pool r (\<lambda>p. p\<lparr>pool_devices := xs\<rparr>) (stats s)\<rparr>) = (Inr (), s') \<and>
    sys_ok D (pend(r := n)) s' \<and> taken s [d] s' \<and> r \<in> set (pools (stats s')) \<and>
    pool_of s' r = (pool_of s r)\<lparr>pool_devices := xs\<rparr> \<and>
    pool_type s r = type_val (dev_type (heap (store s) d)) \<and>
    (\<forall>q. q \<noteq> r \<longrightarrow> Some (pool_type s q) \<noteq> other_type (dev_type (heap (store s) d)) \<longrightarrow>
       pool_of s' q = pool_of s q \<and> (q \<in> set (pools (stats s')) \<longleftrightarrow> q \<in> set (pools (stats s))))"
proof -
  let ?s1 = "s\<lparr>stats := with_pool r (\<lambda>p. p\<lparr>pool_devices := xs\<rparr>) (stats s)\<rparr>"
  let ?ty = "dev_type (heap (store s) d)"
  have mem: "d \<in> set (free_devs s)" using r ds by (force simp: free_devs_iff)
  note pop = pop_inv [OF sys_okD(1) [OF ok] r pend(1) ds]
  have ok1: "sys_ok D (pend(r := n)) ?s1"
    by (rule sys_ok_pools [OF ok pop(1)]) (use pop(2) in auto)
  obtain k where "dev_key s d = Inr (Some k)" "find_pool k (stats s) = Some r"
    using pools_invD(5) [OF sys_okD(1) [OF ok] r, of d] ds by auto
  then have ty: "pool_type s r = type_val ?ty" using pooled_type [OF sys_okD(6) [OF ok]] by blast
  have types: "pool_type ?s1 q = pool_type s q" for q by simp
  have neq: "other_type ?ty \<noteq> Some (type_val ?ty)" by (cases ?ty) (simp_all add: other_type_def dev_type_str_def)
  have "\<exists>s2. handle_device_dependents d ?s1 = (Inr (), s2) \<and> sys_ok D (pend(r := n)) s2 \<and>
    set (free_devs s2) = set (free_devs ?s1) - {x. linked ?s1 d x} \<and>
    same_but (other_type (dev_type (heap (store ?s1) d))) ?s1 s2"
  proof (rule handle_dependents_ok [OF ok1])
    show "d \<in> D" using mem sys_okD(4) [OF ok] by auto
    show "dev_key ?s1 c = Inr None \<or> c \<in> set (free_devs ?s1)" if "parent_device (heap (store ?s1) c) = Some d" for c
      using that wh mem pop(2) links_ok_irrefl [OF sys_okD(2) [OF ok], of d] dev_key_with_stats [of ?s1 s c]
      unfolding whole_def by auto
    show "(pend(r := n)) q = 0" if "Some (pool_type ?s1 q) = other_type (dev_type (heap (store ?s1) d))" for q
      using that ty neq pend(2) [of q] by (cases "q = r") auto
  qed
  then obtain s2 where s2: "handle_device_dependents d ?s1 = (Inr (), s2)" "sys_ok D (pend(r := n)) s2"
    "set (free_devs s2) = set (free_devs s) - {d} - {x. linked s d x}" "same_but (other_type ?ty) ?s1 s2"
    using pop(2) by (auto simp: linked_def)
  let ?s3 = "s2\<lparr>store := with_dev d (\<lambda>x. x\<lparr>request_id := Val rid\<rparr>) (store s2)\<rparr>"
  have s23: "same_devs s2 ?s3" by (auto simp: same_devs_def same_request)
  have "same_devs s ?s1" by (simp add: same_devs_def same_request)
  from same_devs_trans [OF same_devs_trans [OF this same_but_devs [OF s2(4)]] s23] have same: "same_devs s ?s3" .
  have ok3: "sys_ok D (pend(r := n)) ?s3" by (rule sys_ok_same_devs [OF s2(2) s23]) simp
  have pools3: "pool_of ?s3 q = pool_of ?s1 q" "q \<in> set (pools (stats ?s3)) \<longleftrightarrow> q \<in> set (pools (stats ?s1))"
    if "Some (pool_type s q) \<noteq> other_type ?ty" for q
    using s2(4) that types [of q] unfolding same_but_def by auto
  have "pool_shrunk (pool_of s q) (pool_of ?s1 q)" for q using ds by (auto simp: pool_shrunk_def)
  then have props: "pool_shrunk (pool_of s q) (pool_of ?s3 q)" for q
    using shrunk_handle [OF s2(1), of q] pool_shrunk_trans by simp blast
  have "taken s [d] ?s3"
    unfolding taken_def
    using same mem s2(3) props whole_take [OF wh ok same, of d] links_ok_irrefl [OF sys_okD(2) [OF ok], of d]
    by (simp add: linked_def)
  then show ?thesis
    using s2(1) ok3 pools3 [of r] ty neq r pools3
    by (intro exI [of _ ?s3]) (simp add: sbind_def smodify_def)
qed

definition opposite :: "pyval \<Rightarrow> pyval option" where
  "opposite v = (if v = type_val SRIOV_PF then Some (type_val SRIOV_VF)
     else if v = type_val SRIOV_VF then Some (type_val SRIOV_PF) else None)"

lemma opposite_type [simp]: "opposite (type_val t) = other_type t"
  by (cases t) (simp_all add: opposite_def other_type_def dev_type_str_def)

lemma take_devices_ok:
  assumes "sys_ok D pend s" "whole s" "r \<in> set (pools (stats s))" "pend r = n" "\<And>q. q \<noteq> r \<Longrightarrow> pend q = 0"
    and "n \<le> length (pool_devices (pool_of s r))"
  shows "\<exists>ds s'. take_devices rid n r s = (Inr ds, s') \<and> length ds = n \<and> sys_ok D (\<lambda>_. 0) s' \<and> taken s ds s' \<and>
    set ds \<subseteq> set (pool_devices (pool_of s r)) \<and>
    (\<forall>q. q \<noteq> r \<longrightarrow> Some (pool_type s q) \<noteq> opposite (pool_type s r) \<longrightarrow>
       pool_of s' q = pool_of s q \<and> (q \<in> set (pools (stats s')) \<longleftrightarrow> q \<in> set (pools (stats s))))"
  using assms
proof (induction n arbitrary: s pend)
  case 0
  then have "pend = (\<lambda>_. 0)" by (metis ext)
  with 0 show ?case using taken_Nil [OF 0(2)] by simp
next
  case (Suc n)
  obtain xs d where ds: "pool_devices (pool_of s r) = xs @ [d]"
    using Suc.prems(6) by (cases "pool_devices (pool_of s r)" rule: rev_cases) auto
  obtain s1 where run: "sbind (handle_device_dependents d)
      (\<lambda>_. smodify (\<lambda>t. t\<lparr>store := with_dev d (\<lambda>x. x\<lparr>request_id := Val rid\<rparr>) (store t)\<rparr>))
      (s\<lparr>stats := with_pool r (\<lambda>p. p\<lparr>pool_devices := xs\<rparr>) (stats s)\<rparr>) = (Inr (), s1)"
    and s1: "sys_ok D (pend(r := n)) s1" "taken s [d] s1" "r \<in> set (pools (stats s1))"
      "pool_of s1 r = (pool_of s r)\<lparr>pool_devices := xs\<rparr>" "pool_type s r = type_val (dev_type (heap (store s) d))"
    and other: "\<And>q. q \<noteq> r \<Longrightarrow> Some (pool_type s q) \<noteq> other_type (dev_type (heap (store s) d)) \<Longrightarrow>
       pool_of s1 q = pool_of s q \<and> (q \<in> set (pools (stats s1)) \<longleftrightarrow> q \<in> set (pools (stats s)))"
    using take_one [OF Suc.prems(1-5) ds, of rid] by blast
  have "\<exists>es s2. take_devices rid n r s1 = (Inr es, s2) \<and> length es = n \<and> sys_ok D (\<lambda>_. 0) s2 \<and> taken s1 es s2 \<and>
      set es \<subseteq> set (pool_devices (pool_of s1 r)) \<and>
      (\<forall>q. q \<noteq> r \<longrightarrow> Some (pool_type s1 q) \<noteq> opposite (pool_type s1 r) \<longrightarrow>
         pool_of s2 q = pool_of s1 q \<and> (q \<in> set (pools (stats s2)) \<longleftrightarrow> q \<in> set (pools (stats s1))))"
    using Suc.prems(4,5,6) s1(3,4) ds takenD(4) [OF s1(2)]
    by (intro Suc.IH [OF s1(1)]) auto
  then obtain es s2 where run2: "take_devices rid n r s1 = (Inr es, s2)" and
    s2: "length es = n" "sys_ok D (\<lambda>_. 0) s2" "taken s1 es s2" "set es \<subseteq> set xs"
    and other2: "\<And>q. q \<noteq> r \<Longrightarrow> Some (pool_type s1 q) \<noteq> opposite (pool_type s1 r) \<Longrightarrow>
         pool_of s2 q = pool_of s1 q \<and> (q \<in> set (pools (stats s2)) \<longleftrightarrow> q \<in> set (pools (stats s1)))"
    using s1(4) by auto
  have "take_devices rid (Suc n) r s = (Inr (d # es), s2)"
    using run run2 ds by (auto simp: st_defs split: prod.splits sum.splits)
  moreover have "taken s (d # es) s2" using taken_append [OF s1(2) s2(3)] by simp
  moreover have "pool_of s2 q = pool_of s q \<and> (q \<in> set (pools (stats s2)) \<longleftrightarrow> q \<in> set (pools (stats s)))"
    if "q \<noteq> r" "Some (pool_type s q) \<noteq> opposite (pool_type s r)" for q
    using other [OF that(1)] other2 [OF that(1)] that(2) s1(4,5) pool_shrunk_props [OF takenD(6) [OF s1(2)]] by simp
  ultimately show ?case using s2(1,2,4) ds by auto
qed

lemma count_inv:
  assumes ok: "sys_ok D (\<lambda>_. 0) s" and r: "r \<in> set (pools (stats s))" and n: "n \<le> pool_count (pool_of s r)"
  defines "s' \<equiv> s\<lparr>stats := with_pool r (\<lambda>p. p\<lparr>pool_count := pool_count p - n\<rparr>) (stats s)\<rparr>"
  shows "sys_ok D ((\<lambda>_. 0)(r := n)) s'" "free_devs s' = free_devs s"
proof -
  have devs: "pool_devices (pool_of s' q) = pool_devices (pool_of s q)" for q by (simp add: s'_def)
  then show free: "free_devs s' = free_devs s" unfolding get_free_devs_def by (simp add: s'_def)
  have find_same: "find_pool k (stats s') = find_pool k (stats s)" for k
    by (rule find_pool_pool_at) (simp_all add: s'_def)
  have key: "dev_key s' x = dev_key s x" for x by (rule dev_key_with_stats) (simp_all add: s'_def)
  note inv = sys_okD(1) [OF ok]
  have "pools_inv ((\<lambda>_. 0)(r := n)) s'"
  proof (rule pools_invI)
    fix q assume "q \<in> set (pools (stats s'))"
    then have q: "q \<in> set (pools (stats s))" by (simp add: s'_def)
    show "q < next_pool (stats s')" using pools_invD(2) [OF inv q] by (simp add: s'_def)
    show "pool_count (pool_of s' q) + ((\<lambda>_. 0)(r := n)) q = length (pool_devices (pool_of s' q))"
      using pools_invD(3) [OF inv q] n by (auto simp: s'_def)
    fix x assume "x \<in> set (pool_devices (pool_of s' q))"
    then show "\<exists>k. dev_key s' x = Inr (Some k) \<and> find_pool k (stats s') = Some q"
      using pools_invD(5) [OF inv q] unfolding find_same key devs by blast
  qed (use pools_invD(1,4) [OF inv] free in \<open>simp_all add: s'_def\<close>)
  then show "sys_ok D ((\<lambda>_. 0)(r := n)) s'"
    by (rule sys_ok_pools [OF ok]) (simp_all add: free, simp_all add: s'_def)
qed

text \<open>A list of pools that does not mix physical functions with other devices.\<close>

definition one_side :: "pci_sys \<Rightarrow> pref list \<Rightarrow> bool" where
  "one_side s rs \<longleftrightarrow> (\<forall>r \<in> set rs. pool_type s r = type_val SRIOV_PF) \<or> (\<forall>r \<in> set rs. pool_type s r \<noteq> type_val SRIOV_PF)"

lemma one_side_opposite:
  assumes "one_side s (r # rs)" "q \<in> set rs"
  shows "Some (pool_type s q) \<noteq> opposite (pool_type s r)"
proof -
  have "type_val SRIOV_PF \<noteq> type_val SRIOV_VF" by (simp add: dev_type_str_def)
  then show ?thesis using assms unfolding one_side_def opposite_def by (auto split: if_splits)
qed

lemma take_counted:
  assumes ok: "sys_ok D (\<lambda>_. 0) s" and wh: "whole s" and r: "r \<in> set (pools (stats s))" and n: "n \<le> pool_count (pool_of s r)"
  shows "\<exists>ds s'. take_devices rid n r
      (s\<lparr>stats := with_pool r (\<lambda>p. p\<lparr>pool_count := pool_count p - n\<rparr>) (stats s)\<rparr>) = (Inr ds, s') \<and>
    length ds = n \<and> sys_ok D (\<lambda>_. 0) s' \<and> taken s ds s' \<and> set ds \<subseteq> set (pool_devices (pool_of s r)) \<and>
    (\<forall>q. q \<noteq> r \<longrightarrow> Some (pool_type s q) \<noteq> opposite (pool_type s r) \<longrightarrow>
       pool_of s' q = pool_of s q \<and> (q \<in> set (pools (stats s')) \<longleftrightarrow> q \<in> set (pools (stats s))))"
proof -
  define s1 where "s1 = s\<lparr>stats := with_pool r (\<lambda>p. p\<lparr>pool_count := pool_count p - n\<rparr>) (stats s)\<rparr>"
  note s1 = count_inv [OF ok r n, folded s1_def]
  have len: "n \<le> length (pool_devices (pool_of s r))"
    using pools_invD(3) [OF sys_okD(1) [OF ok] r] n by simp
  have keys: "dev_key s1 x = dev_key s x" for x by (rule dev_key_with_stats) (simp_all add: s1_def)
  have store: "store s1 = store s" by (simp add: s1_def)
  have wh1: "whole s1" using wh unfolding whole_def keys s1(2) store .
  have sel: "pool_devices (pool_of s1 q) = pool_devices (pool_of s q)" "pools (stats s1) = pools (stats s)"
    "pool_props (pool_of s1 q) = pool_props (pool_of s q)" for q by (simp_all add: s1_def)
  have other: "pool_of s1 q = pool_of s q" if "q \<noteq> r" for q using that by (simp add: s1_def)
  obtain ds s2 where run: "take_devices rid n r s1 = (Inr ds, s2)"
    and ds: "length ds = n" "sys_ok D (\<lambda>_. 0) s2" "taken s1 ds s2" "set ds \<subseteq> set (pool_devices (pool_of s r))"
    and kept: "\<And>q. q \<noteq> r \<Longrightarrow> Some (pool_type s q) \<noteq> opposite (pool_type s r) \<Longrightarrow>
         pool_of s2 q = pool_of s q \<and> (q \<in> set (pools (stats s2)) \<longleftrightarrow> q \<in> set (pools (stats s)))"
    using take_devices_ok [OF s1(1) wh1, of r n rid] r len other unfolding sel by auto
  have same: "same_devs s s1" by (simp add: same_devs_def same_request s1_def)
  have "pool_shrunk (pool_of s q) (pool_of s1 q)" for q by (simp add: pool_shrunk_def sel)
  then have "taken s ds s2"
    using takenD [OF ds(3)] same_devs_trans [OF same] pool_shrunk_trans
    unfolding taken_def s1(2) same_devs_sel(6) [OF same] by simp blast
  with run ds kept show ?thesis unfolding s1_def by blast
qed

lemma consume_pools_ok:
  assumes "sys_ok D (\<lambda>_. 0) s" "whole s" "distinct rs" "set rs \<subseteq> set (pools (stats s))" "one_side s rs"
    and "cnt \<le> pool_sum (pool_at (stats s)) rs"
  shows "\<exists>ds s'. consume_pools rid cnt rs s = (Inr ds, s') \<and> length ds = cnt \<and> sys_ok D (\<lambda>_. 0) s' \<and> taken s ds s' \<and>
    (\<forall>d \<in> set ds. \<exists>r \<in> set rs. d \<in> set (pool_devices (pool_of s r)))"
  using assms
proof (induction rs arbitrary: s cnt)
  case Nil
  then show ?case using taken_Nil [OF Nil(2)] by (simp add: pool_sum_def)
next
  case (Cons r rs)
  define n where "n = (if pool_count (pool_of s r) \<ge> cnt then cnt else pool_count (pool_of s r))"
  have n: "n \<le> pool_count (pool_of s r)" "n \<le> cnt" "n < cnt \<Longrightarrow> n = pool_count (pool_of s r)"
    by (simp_all add: n_def split: if_splits)
  have r: "r \<in> set (pools (stats s))" using Cons.prems(4) by simp
  define s1 where "s1 = s\<lparr>stats := with_pool r (\<lambda>p. p\<lparr>pool_count := pool_count p - n\<rparr>) (stats s)\<rparr>"
  obtain ds s2 where run: "take_devices rid n r s1 = (Inr ds, s2)"
    and ds: "length ds = n" "sys_ok D (\<lambda>_. 0) s2" "taken s ds s2" "set ds \<subseteq> set (pool_devices (pool_of s r))"
    and kept: "\<And>q. q \<noteq> r \<Longrightarrow> Some (pool_type s q) \<noteq> opposite (pool_type s r) \<Longrightarrow>
         pool_of s2 q = pool_of s q \<and> (q \<in> set (pools (stats s2)) \<longleftrightarrow> q \<in> set (pools (stats s)))"
    using take_counted [OF Cons.prems(1,2) r n(1), of rid, folded s1_def] by blast
  have same_rs: "pool_of s2 q = pool_of s q" "q \<in> set (pools (stats s2))" if "q \<in> set rs" for q
    using kept [of q] one_side_opposite [OF Cons.prems(5) that] that Cons.prems(3,4) by auto
  show ?case
  proof (cases "cnt - n = 0")
    case True
    then have "consume_pools rid cnt (r # rs) s = (Inr ds, s2)" "length ds = cnt"
      using run ds(1) n(2) unfolding consume_pools.simps Let_def sbind_def sreturn_def s1_def n_def by simp_all
    then show ?thesis using ds by auto
  next
    case False
    have sum: "pool_sum (pool_at (stats s2)) rs = pool_sum (pool_at (stats s)) rs"
      unfolding pool_sum_def using same_rs by (simp cong: map_cong)
    have "\<exists>es s3. consume_pools rid (cnt - n) rs s2 = (Inr es, s3) \<and> length es = cnt - n \<and> sys_ok D (\<lambda>_. 0) s3 \<and>
      taken s2 es s3 \<and> (\<forall>d \<in> set es. \<exists>r \<in> set rs. d \<in> set (pool_devices (pool_of s2 r)))"
    proof (rule Cons.IH [OF ds(2) takenD(4) [OF ds(3)]])
      show "set rs \<subseteq> set (pools (stats s2))" using same_rs by auto
      show "one_side s2 rs" using Cons.prems(5) same_rs unfolding one_side_def by auto
      show "cnt - n \<le> pool_sum (pool_at (stats s2)) rs" using Cons.prems(6) sum False n by (simp add: pool_sum_def)
    qed (use Cons.prems(3) in simp)
    then obtain es s3 where es: "consume_pools rid (cnt - n) rs s2 = (Inr es, s3)" "length es = cnt - n"
      "sys_ok D (\<lambda>_. 0) s3" "taken s2 es s3" "\<forall>d \<in> set es. \<exists>r \<in> set rs. d \<in> set (pool_devices (pool_of s2 r))" by blast
    have "consume_pools rid cnt (r # rs) s = (Inr (ds @ es), s3)"
      using run es(1) False unfolding consume_pools.simps Let_def sbind_def sreturn_def s1_def n_def by simp
    moreover have "length (ds @ es) = cnt" using ds(1) es(2) n(2) by simp
    moreover have "\<forall>d \<in> set (ds @ es). \<exists>q \<in> set (r # rs). d \<in> set (pool_devices (pool_of s q))"
      using ds(4) es(5) same_rs by auto
    ultimately show ?thesis using es(3) taken_append [OF ds(3) es(4)] by blast
  qed
qed

text \<open>A request that names physical functions in all alternatives of its spec or in none.\<close>

definition unmixed :: "pci_request \<Rightarrow> bool" where
  "unmixed req \<longleftrightarrow> (\<forall>spec \<in> set (req_spec req). py_get spec ''dev_type'' \<noteq> type_val SRIOV_PF) \<or>
     (\<forall>spec \<in> set (req_spec req). dict_get spec ''dev_type'' = Some (type_val SRIOV_PF))"

lemma matching_pools_subset:
  "set (matching_pools at req cells ps) \<subseteq> set ps" "distinct ps \<Longrightarrow> distinct (matching_pools at req cells ps)"
  by (auto simp: matching_pools_def Let_def filter_non_requested_pfs_def filter_pools_for_pfs_def
      filter_pools_for_numa_cells_def filter_pools_for_spec_def)

lemma matching_pools_match:
  "r \<in> set (matching_pools at req cells ps) \<Longrightarrow> pci_device_prop_match (pool_dict (at r)) (req_spec req)"
  by (auto simp: matching_pools_def Let_def filter_non_requested_pfs_def filter_pools_for_pfs_def
      filter_pools_for_numa_cells_def filter_pools_for_spec_def split: if_splits)

lemma prop_match_type:
  assumes "pci_device_prop_match m specs" "\<forall>spec \<in> set specs. dict_get spec ''dev_type'' = Some (VStr v)"
  shows "py_get m ''dev_type'' = VStr v"
proof -
  obtain spec where spec: "spec \<in> set specs" "matching_devices m spec"
    using assms(1) by (auto simp: pci_device_prop_match_def)
  then have "(''dev_type'', VStr v) \<in> set spec" using assms(2) map_of_SomeD by fast
  then show ?thesis using spec(2) by (auto simp: matching_devices_def)
qed

lemma matching_one_side:
  assumes "unmixed req"
  shows "one_side s (matching_pools (pool_at (stats s)) req cells ps)"
  using assms unfolding unmixed_def
proof
  assume none: "\<forall>spec \<in> set (req_spec req). py_get spec ''dev_type'' \<noteq> type_val SRIOV_PF"
  then have "\<forall>r \<in> set (matching_pools (pool_at (stats s)) req cells ps). pool_type s r \<noteq> type_val SRIOV_PF"
    by (auto simp: matching_pools_def Let_def filter_non_requested_pfs_def filter_pools_for_pfs_def)
  then show ?thesis by (simp add: one_side_def)
next
  assume every: "\<forall>spec \<in> set (req_spec req). dict_get spec ''dev_type'' = Some (type_val SRIOV_PF)"
  have "pool_type s r = type_val SRIOV_PF" if "r \<in> set (matching_pools (pool_at (stats s)) req cells ps)" for r
  proof -
    have "py_get (pool_dict (pool_of s r)) ''dev_type'' = type_val SRIOV_PF"
      using prop_match_type [OF matching_pools_match [OF that] every] .
    then show ?thesis by (auto simp: pool_dict_def py_get_def map_add_def split: option.splits if_splits)
  qed
  then show ?thesis by (simp add: one_side_def)
qed

text \<open>The device was in a pool that meets the request, whatever its count was.\<close>

definition serves :: "pci_sys \<Rightarrow> pci_request \<Rightarrow> dref \<Rightarrow> bool" where
  "serves s req d \<longleftrightarrow> (\<exists>r n. d \<in> set (pool_devices (pool_of s r)) \<and>
     pci_device_prop_match (pool_props (pool_of s r) @ [(''count'', VInt n)]) (req_spec req))"

lemma serves_shrunk:
  assumes "serves s' req d" "\<And>r. pool_shrunk (pool_of s r) (pool_of s' r)"
  shows "serves s req d"
proof -
  obtain r n where "d \<in> set (pool_devices (pool_of s' r))"
    "pci_device_prop_match (pool_props (pool_of s' r) @ [(''count'', VInt n)]) (req_spec req)"
    using assms(1) by (auto simp: serves_def)
  with assms(2) [of r] show ?thesis unfolding serves_def pool_shrunk_def
    by (intro exI [of _ r] exI [of _ n]) auto
qed

lemma add_devices_ok:
  assumes "sys_ok D (\<lambda>_. 0) s" "distinct ds" "set ds \<inter> set (free_devs s) = {}" "set ds \<subseteq> D"
  shows "\<exists>s'. sforeach ds add_device s = (Inr (), s') \<and> sys_ok D (\<lambda>_. 0) s' \<and>
    set (free_devs s') = set (free_devs s) \<union> {d \<in> set ds. dev_key s d \<noteq> Inr None} \<and> store s' = store s \<and>
    dev_filter (stats s') = dev_filter (stats s)"
  using assms
proof (induction ds arbitrary: s)
  case Nil
  then show ?case by (simp add: sreturn_def)
next
  case (Cons d ds)
  have "\<exists>s1. add_device d s = (Inr (), s1) \<and> sys_ok D (\<lambda>_. 0) s1 \<and> store s1 = store s \<and>
    dev_filter (stats s1) = dev_filter (stats s) \<and>
    set (free_devs s1) = set (free_devs s) \<union> {x. x = d \<and> dev_key s d \<noteq> Inr None}"
  proof (cases "dev_key s d = Inr None")
    case True
    then have "add_device d s = (Inr (), s)" by (simp add: add_device_def dev_key_def)
    then show ?thesis using True Cons.prems(1) by simp
  next
    case False
    then obtain k where k: "dev_key s d = Inr (Some k)"
      using Cons.prems(4) sys_okD(7) [OF Cons.prems(1), of d] by auto
    obtain s1 where s1: "add_device d s = (Inr (), s1)" "pools_inv (\<lambda>_. 0) s1"
      "mset (free_devs s1) = add_mset d (mset (free_devs s))" "store s1 = store s"
      "dev_filter (stats s1) = dev_filter (stats s)"
      using add_device_spec [OF sys_okD(1) [OF Cons.prems(1)] k] Cons.prems(3) by auto
    have free: "set (free_devs s1) = insert d (set (free_devs s))" using arg_cong [OF s1(3), of set_mset] by simp
    have key: "dev_key s1 x = dev_key s x" for x using dev_key_with_stats [of s1 s x] s1(4,5) by simp
    have "set (free_devs s1) \<subseteq> D" using free Cons.prems(4) sys_okD(4) [OF Cons.prems(1)] by simp
    then have "sys_ok D (\<lambda>_. 0) s1"
      unfolding sys_ok_def addr_inj_def s1(4,5) key
      using s1(2) sys_okD(2,3,5-) [OF Cons.prems(1)] unfolding addr_inj_def by simp
    then show ?thesis using s1 free k by auto
  qed
  then obtain s1 where s1: "add_device d s = (Inr (), s1)" "sys_ok D (\<lambda>_. 0) s1" "store s1 = store s"
    "dev_filter (stats s1) = dev_filter (stats s)"
    "set (free_devs s1) = set (free_devs s) \<union> {x. x = d \<and> dev_key s d \<noteq> Inr None}" by blast
  have key: "dev_key s1 x = dev_key s x" for x using dev_key_with_stats [of s1 s x] s1(3,4) by simp
  have "\<exists>s'. sforeach ds add_device s1 = (Inr (), s') \<and> sys_ok D (\<lambda>_. 0) s' \<and>
    set (free_devs s') = set (free_devs s1) \<union> {d \<in> set ds. dev_key s1 d \<noteq> Inr None} \<and> store s' = store s1 \<and>
    dev_filter (stats s') = dev_filter (stats s1)"
    using Cons.prems(2-4) s1(5) by (intro Cons.IH [OF s1(2)]) auto
  then obtain s' where "sforeach ds add_device s1 = (Inr (), s')" "sys_ok D (\<lambda>_. 0) s'"
    "set (free_devs s') = set (free_devs s1) \<union> {d \<in> set ds. dev_key s d \<noteq> Inr None}" "store s' = store s1"
    "dev_filter (stats s') = dev_filter (stats s1)" unfolding key by blast
  with s1 show ?case by (intro exI [of _ s']) (auto simp: sbind_def)
qed

text \<open>
  \<open>allocated\<close> is the successful outcome for a list of requests: the devices, in the order of
  the requests, as many as each asks for and each from a pool that meets it.
\<close>

definition allocated :: "pci_sys \<Rightarrow> pci_request list \<Rightarrow> dref list \<Rightarrow> bool" where
  "allocated s reqs ds \<longleftrightarrow> (\<exists>parts. ds = concat parts \<and>
     list_all2 (\<lambda>req part. length part = req_count req \<and> (\<forall>d \<in> set part. serves s req d)) reqs parts)"

lemma allocated_Cons:
  assumes "length part = req_count req" "\<forall>d \<in> set part. serves s req d" "allocated s' reqs ds"
    "\<And>r. pool_shrunk (pool_of s r) (pool_of s' r)"
  shows "allocated s (req # reqs) (part @ ds)"
proof -
  obtain parts where parts: "ds = concat parts"
    "list_all2 (\<lambda>req part. length part = req_count req \<and> (\<forall>d \<in> set part. serves s' req d)) reqs parts"
    using assms(3) by (auto simp: allocated_def)
  from parts(2) have "list_all2 (\<lambda>req part. length part = req_count req \<and> (\<forall>d \<in> set part. serves s req d)) reqs parts"
    by (rule list_all2_mono) (use serves_shrunk assms(4) in blast)
  with assms(1,2) parts(1) show ?thesis unfolding allocated_def by (intro exI [of _ "part # parts"]) simp
qed

lemma consume_from_ok:
  assumes "sys_ok D (\<lambda>_. 0) s" "whole s" "\<forall>req \<in> set reqs. unmixed req"
    and "distinct acc" "set acc \<inter> set (free_devs s) = {}" "set acc \<subseteq> D" "\<forall>d \<in> set acc. dev_key s d \<noteq> Inr None"
  shows "\<exists>r s'. consume_from cells acc reqs s = (Inr r, s') \<and> sys_ok D (\<lambda>_. 0) s' \<and> same_devs s s' \<and>
    (case r of
       Some ds' \<Rightarrow> (\<exists>ds. ds' = acc @ ds \<and> allocated s reqs ds \<and> taken s ds s')
     | None \<Rightarrow> set (free_devs s') \<subseteq> set (free_devs s) \<union> set acc \<and>
          (\<forall>x \<in> set (free_devs s) \<union> set acc - set (free_devs s'). \<exists>d \<in> set (free_devs s). linked s d x))"
  using assms
proof (induction reqs arbitrary: s acc)
  case Nil
  then show ?case using taken_Nil [OF Nil(2)] by (simp add: allocated_def)
next
  case (Cons req reqs)
  note ok = Cons.prems(1)
  let ?ps = "matching_pools (pool_at (stats s)) req cells (pools (stats s))"
  show ?case
  proof (cases "pool_sum (pool_at (stats s)) ?ps < req_count req")
    case True
    obtain s' where s': "sforeach (rev acc) add_device s = (Inr (), s')" "sys_ok D (\<lambda>_. 0) s'"
      "set (free_devs s') = set (free_devs s) \<union> set acc" "store s' = store s"
      "dev_filter (stats s') = dev_filter (stats s)"
      using add_devices_ok [OF ok, of "rev acc"] Cons.prems(4-7) by fastforce
    then have "consume_from cells acc (req # reqs) s = (Inr None, s')"
      using True by (simp add: Let_def sbind_def sreturn_def)
    moreover have "same_devs s s'" using s'(4,5) by (simp add: same_devs_def same_request)
    ultimately show ?thesis using s'(2,3) by (intro exI [of _ None] exI [of _ s']) simp
  next
    case False
    obtain part s1 where run: "consume_pools (req_request_id req) (req_count req) ?ps s = (Inr part, s1)"
      and part: "length part = req_count req" "sys_ok D (\<lambda>_. 0) s1" "taken s part s1"
        "\<forall>d \<in> set part. \<exists>r \<in> set ?ps. d \<in> set (pool_devices (pool_of s r))"
      using consume_pools_ok [OF ok Cons.prems(2), of ?ps "req_count req" "req_request_id req"] False
        matching_pools_subset matching_one_side pools_invD(1) [OF sys_okD(1) [OF ok]] Cons.prems(3) by auto
    note tk = takenD [OF part(3)]
    have keys: "dev_key s1 x = dev_key s x" for x using same_devs_key [OF tk(1) sys_okD(6) [OF ok]] .
    have serve: "\<forall>d \<in> set part. serves s req d"
      using part(4) matching_pools_match unfolding serves_def pool_dict_def by blast
    have "dev_key s x \<noteq> Inr None" if "x \<in> set part" for x
      using free_dev_pool [OF sys_okD(1) [OF ok], of x] tk(3) that by (metis option.distinct(1) subsetD sum.inject(2))
    with Cons.prems(3-7) tk(2,3,5) sys_okD(4) [OF ok] have
      "\<exists>r s'. consume_from cells (acc @ part) reqs s1 = (Inr r, s') \<and> sys_ok D (\<lambda>_. 0) s' \<and> same_devs s1 s' \<and>
        (case r of
           Some ds' \<Rightarrow> (\<exists>ds. ds' = (acc @ part) @ ds \<and> allocated s1 reqs ds \<and> taken s1 ds s')
         | None \<Rightarrow> set (free_devs s') \<subseteq> set (free_devs s1) \<union> set (acc @ part) \<and>
             (\<forall>x \<in> set (free_devs s1) \<union> set (acc @ part) - set (free_devs s'). \<exists>d \<in> set (free_devs s1). linked s1 d x))"
      by (intro Cons.IH [OF part(2) tk(4)]) (auto simp: keys)
    then obtain r s' where rest: "consume_from cells (acc @ part) reqs s1 = (Inr r, s')" "sys_ok D (\<lambda>_. 0) s'"
      "same_devs s1 s'" and out: "case r of
           Some ds' \<Rightarrow> (\<exists>ds. ds' = (acc @ part) @ ds \<and> allocated s1 reqs ds \<and> taken s1 ds s')
         | None \<Rightarrow> set (free_devs s') \<subseteq> set (free_devs s1) \<union> set (acc @ part) \<and>
             (\<forall>x \<in> set (free_devs s1) \<union> set (acc @ part) - set (free_devs s'). \<exists>d \<in> set (free_devs s1). linked s1 d x)"
      by blast
    have "consume_from cells acc (req # reqs) s = (Inr r, s')"
      using run rest(1) False by (simp add: Let_def sbind_def)
    moreover have "same_devs s s'" using same_devs_trans [OF tk(1) rest(3)] .
    moreover have "case r of
           Some ds' \<Rightarrow> (\<exists>ds. ds' = acc @ ds \<and> allocated s (req # reqs) ds \<and> taken s ds s')
         | None \<Rightarrow> set (free_devs s') \<subseteq> set (free_devs s) \<union> set acc \<and>
             (\<forall>x \<in> set (free_devs s) \<union> set acc - set (free_devs s'). \<exists>d \<in> set (free_devs s). linked s d x)"
    proof (cases r)
      case None
      then show ?thesis using out tk(3,5) unfolding same_devs_sel(6) [OF tk(1)] by (auto, blast)
    next
      case (Some ds')
      then show ?thesis using out allocated_Cons [OF part(1) serve _ tk(6)] taken_append [OF part(3)] by auto
    qed
    ultimately show ?thesis using rest(2) by blast
  qed
qed

section \<open>The scheduler's answer and the allocation\<close>

text \<open>
  Both take a request's count greedily from the matching pools, in their order. The scheduler
  drops a pool that runs empty, the allocation keeps it with count zero; \<open>effective\<close> counts
  are the same for both.
\<close>

fun greedy :: "nat \<Rightarrow> pref list \<Rightarrow> (pref \<Rightarrow> nat) \<Rightarrow> pref \<Rightarrow> nat" where
  "greedy n [] c = c"
| "greedy n (r # rs) c = greedy (n - c r) rs (c(r := c r - n))"

definition effective :: "pci_stats \<Rightarrow> pref \<Rightarrow> nat" where
  "effective st r = (if r \<in> set (pools st) then pool_count (pool_at st r) else 0)"

lemma greedy_0 [simp]: "greedy 0 rs c = c"
  by (induction rs arbitrary: c) auto

lemma greedy_out: "r \<notin> set rs \<Longrightarrow> greedy n rs c r = c r"
  by (induction rs arbitrary: n c) auto

lemma greedy_positive:
  assumes "distinct rs"
  shows "greedy n (filter (\<lambda>r. c r > 0) rs) c = greedy n rs c"
proof -
  have "greedy n (filter (\<lambda>r. c' r > 0) rs) c = greedy n rs c" if "\<forall>r \<in> set rs. c' r = c r" for c'
    using assms that
  proof (induction rs arbitrary: n c)
    case (Cons r rs)
    show ?case
    proof (cases "c r = 0")
      case True
      then have "c(r := c r - n) = c" by auto
      with True Cons show ?thesis by simp
    next
      case False
      have "\<forall>x \<in> set rs. c' x = (c(r := c r - n)) x" using Cons.prems by auto
      then have "greedy (n - c r) (filter (\<lambda>r. c' r > 0) rs) (c(r := c r - n)) = greedy (n - c r) rs (c(r := c r - n))"
        by (rule Cons.IH [where c = "c(r := c r - n)", rotated]) (use Cons.prems in simp)
      then show ?thesis using False Cons.prems(2) by simp
    qed
  qed simp
  then show ?thesis by simp
qed

lemma filter_filter_subset:
  assumes "xs = filter (\<lambda>r. r \<in> set xs) ys" "ys = filter (\<lambda>r. r \<in> set ys) zs"
  shows "xs = filter (\<lambda>r. r \<in> set xs) zs"
proof -
  have "set xs \<subseteq> set ys" using assms(1) by (metis filter_is_subset)
  then have "filter (\<lambda>r. r \<in> set xs) (filter (\<lambda>r. r \<in> set ys) zs) = filter (\<lambda>r. r \<in> set xs) zs"
    by (auto intro: filter_cong)
  then show ?thesis using assms by metis
qed

lemma decrease_pools_effective:
  assumes "distinct (pools st)" "distinct rs" "set rs \<subseteq> set (pools st)"
  shows "effective (decrease_pools n rs st) = greedy n rs (effective st)"
    "pools (decrease_pools n rs st) = filter (\<lambda>r. r \<in> set (pools (decrease_pools n rs st))) (pools st)"
    "pool_props (pool_at (decrease_pools n rs st) q) = pool_props (pool_at st q)"
proof -
  have "effective (decrease_pools n rs st) = greedy n rs (effective st) \<and>
    pools (decrease_pools n rs st) = filter (\<lambda>r. r \<in> set (pools (decrease_pools n rs st))) (pools st) \<and>
    (\<forall>q. pool_props (pool_at (decrease_pools n rs st) q) = pool_props (pool_at st q))"
    using assms
  proof (induction rs arbitrary: n st)
    case Nil
    then show ?case by simp
  next
    case (Cons r rs)
    obtain left st1 where dec: "decrease_pool_count r n st = (left, st1)" by fastforce
    have r: "effective st r = pool_count (pool_at st r)" using Cons.prems(3) by (simp add: effective_def)
    have eff1: "effective st1 = (effective st)(r := effective st r - n)" and left: "left = n - effective st r"
      and props1: "\<And>q. pool_props (pool_at st1 q) = pool_props (pool_at st q)"
      using dec r Cons.prems by (auto simp: decrease_pool_count_def effective_def fun_eq_iff split: if_splits)
    have pools1: "pools st1 = filter (\<lambda>r. r \<in> set (pools st1)) (pools st)"
    proof (cases "pool_count (pool_at st r) > n")
      case False
      then have "pools st1 = filter ((\<noteq>) r) (pools st)"
        using dec Cons.prems(1) by (auto simp: decrease_pool_count_def distinct_remove1_removeAll removeAll_filter_not_eq)
      then show ?thesis by (auto intro: filter_cong)
    qed (use dec in \<open>auto simp: decrease_pool_count_def\<close>)
    show ?case
    proof (cases "left = 0")
      case True
      then show ?thesis using dec eff1 left pools1 props1 by simp
    next
      case False
      have "distinct (pools st1)" "set rs \<subseteq> set (pools st1)"
        using Cons.prems dec by (auto simp: decrease_pool_count_def split: if_splits)
      from Cons.IH [OF this(1) _ this(2), of left] Cons.prems(2)
      have IH: "effective (decrease_pools left rs st1) = greedy left rs (effective st1)"
        "pools (decrease_pools left rs st1) = filter (\<lambda>r. r \<in> set (pools (decrease_pools left rs st1))) (pools st1)"
        "\<And>q. pool_props (pool_at (decrease_pools left rs st1) q) = pool_props (pool_at st1 q)" by auto
      have "set (pools (decrease_pools left rs st1)) \<subseteq> set (pools st1)" using IH(2) by (metis filter_is_subset)
      with IH(2) pools1 have "pools (decrease_pools left rs st1) =
          filter (\<lambda>r. r \<in> set (pools (decrease_pools left rs st1))) (pools st)"
        using filter_filter_subset by metis
      with False dec IH(1,3) eff1 left props1 show ?thesis by simp
    qed
  qed
  then show "effective (decrease_pools n rs st) = greedy n rs (effective st)"
    "pools (decrease_pools n rs st) = filter (\<lambda>r. r \<in> set (pools (decrease_pools n rs st))) (pools st)"
    "pool_props (pool_at (decrease_pools n rs st) q) = pool_props (pool_at st q)" by auto
qed

text \<open>Where no two functions of the node are linked, taking devices touches no other pool.\<close>

lemma handle_unlinked:
  assumes "\<And>x. \<not> linked s d x" "links_ok (heap (store s))"
  shows "handle_device_dependents d s = (Inr (), s)"
proof -
  have "child_devices (heap (store s) d) = []"
    using assms(1) links_ok_iff [OF assms(2), of _ d] by (cases "child_devices (heap (store s) d)") (auto simp: linked_def)
  moreover have "parent_device (heap (store s) d) = None"
    using assms(1) by (cases "parent_device (heap (store s) d)") (auto simp: linked_def)
  ultimately show ?thesis
    by (simp add: handle_device_dependents_def Let_def sreturn_def split: dev_type.split)
qed

lemma take_unlinked:
  assumes "\<And>a b. \<not> linked s a b" "links_ok (heap (store s))" "take_devices rid n r s = (Inr ds, s')"
  shows "pools (stats s') = pools (stats s) \<and>
    (\<forall>q. pool_count (pool_of s' q) = pool_count (pool_of s q) \<and> pool_props (pool_of s' q) = pool_props (pool_of s q)) \<and>
    same_devs s s'"
  using assms
proof (induction n arbitrary: s ds)
  case (Suc n)
  obtain d rest where pop: "rev (pool_devices (pool_of s r)) = d # rest"
    using Suc.prems(3) by (cases "rev (pool_devices (pool_of s r))") auto
  let ?s1 = "s\<lparr>stats := with_pool r (\<lambda>p. p\<lparr>pool_devices := rev rest\<rparr>) (stats s)\<rparr>"
  define s2 where "s2 = ?s1\<lparr>store := with_dev d (\<lambda>x. x\<lparr>request_id := Val rid\<rparr>) (store s)\<rparr>"
  have handle: "handle_device_dependents d ?s1 = (Inr (), ?s1)"
    using Suc.prems(1,2) by (intro handle_unlinked) (auto simp: linked_def)
  obtain es where run: "take_devices rid n r s2 = (Inr es, s')"
    using Suc.prems(3) pop handle by (auto simp: st_defs s2_def split: prod.splits sum.splits)
  have same: "same_devs s s2" by (auto simp: same_devs_def same_request s2_def)
  have ok2: "links_ok (heap (store s2))"
    using links_ok_shape [of "heap (store s2)" "heap (store s)", OF same_devs_sel(1) [OF same]] Suc.prems(2) by simp
  have link2: "\<not> linked s2 a b" for a b using Suc.prems(1) same_devs_sel(6) [OF same] by simp
  have "pools (stats s2) = pools (stats s)" "pool_count (pool_of s2 q) = pool_count (pool_of s q)"
    "pool_props (pool_of s2 q) = pool_props (pool_of s q)" for q by (simp_all add: s2_def)
  with Suc.IH [OF link2 ok2 run] same_devs_trans [OF same] show ?case by simp
qed simp

lemma consume_pools_unlinked:
  assumes "\<And>a b. \<not> linked s a b" "links_ok (heap (store s))" "consume_pools rid n rs s = (Inr ds, s')"
  shows "pools (stats s') = pools (stats s) \<and> same_devs s s' \<and>
    (\<lambda>q. pool_count (pool_of s' q)) = greedy n rs (\<lambda>q. pool_count (pool_of s q)) \<and>
    (\<forall>q. pool_props (pool_of s' q) = pool_props (pool_of s q))"
  using assms
proof (induction rs arbitrary: n s ds)
  case (Cons r rs)
  define m where "m = (if pool_count (pool_of s r) \<ge> n then n else pool_count (pool_of s r))"
  define s1 where "s1 = s\<lparr>stats := with_pool r (\<lambda>p. p\<lparr>pool_count := pool_count p - m\<rparr>) (stats s)\<rparr>"
  obtain ds1 s2 where take: "take_devices rid m r s1 = (Inr ds1, s2)"
    and rest: "n - m = 0 \<and> s' = s2 \<or> n - m \<noteq> 0 \<and> (\<exists>ds2. consume_pools rid (n - m) rs s2 = (Inr ds2, s'))"
    using Cons.prems(3) unfolding consume_pools.simps Let_def m_def [symmetric] s1_def [symmetric]
    by (auto simp: sbind_Inr_iff sreturn_def split: if_splits)
  have same1: "same_devs s s1" by (simp add: same_devs_def same_request s1_def)
  have link1: "\<not> linked s1 a b" for a b using Cons.prems(1) by (simp add: s1_def linked_def)
  have ok1: "links_ok (heap (store s1))" using Cons.prems(2) by (simp add: s1_def)
  note t = take_unlinked [OF link1 ok1 take]
  have same2: "same_devs s s2" using same_devs_trans [OF same1] t by blast
  have link2: "\<not> linked s2 a b" for a b using same_devs_sel(6) [OF same2] Cons.prems(1) by simp
  have ok2: "links_ok (heap (store s2))"
    using links_ok_shape [of "heap (store s2)" "heap (store s)", OF same_devs_sel(1) [OF same2]] Cons.prems(2) by simp
  have m: "n - m = n - pool_count (pool_of s r)" "pool_count (pool_of s r) - m = pool_count (pool_of s r) - n"
    by (auto simp: m_def)
  have cnt: "(\<lambda>q. pool_count (pool_of s2 q)) = (\<lambda>q. pool_count (pool_of s q))(r := pool_count (pool_of s r) - n)"
    using t m(2) by (auto simp: s1_def fun_eq_iff)
  have props: "pool_props (pool_of s2 q) = pool_props (pool_of s q)" and pools: "pools (stats s2) = pools (stats s)" for q
    using t by (auto simp: s1_def)
  from rest show ?case
  proof (elim disjE conjE exE)
    assume "n - m = 0" "s' = s2"
    then show ?thesis using cnt props pools same2 m(1) by (simp add: fun_eq_iff)
  next
    fix ds2 assume "consume_pools rid (n - m) rs s2 = (Inr ds2, s')"
    from Cons.IH [OF link2 ok2 this] show ?thesis
      using cnt props pools same_devs_trans [OF same2] m(1) by auto
  qed
qed simp

definition pool_meets :: "pci_request \<Rightarrow> int list \<Rightarrow> pci_pool \<Rightarrow> bool" where
  "pool_meets req cells p \<longleftrightarrow>
     pci_device_prop_match (pool_dict p) (req_spec req) \<and>
     (cells \<noteq> [] \<longrightarrow> (\<exists>cell \<in> set (VNone # map VInt cells). pci_device_prop_match (pool_dict p) [[(''numa_node'', cell)]])) \<and>
     ((\<forall>spec \<in> set (req_spec req). py_get spec ''dev_type'' \<noteq> type_val SRIOV_PF) \<longrightarrow>
        py_get (pool_props p) ''dev_type'' \<noteq> type_val SRIOV_PF)"

lemma matching_pools_meets: "matching_pools at req cells ps = filter (\<lambda>r. pool_meets req cells (at r)) ps"
  by (auto simp: matching_pools_def Let_def filter_non_requested_pfs_def filter_pools_for_pfs_def
      filter_pools_for_numa_cells_def filter_pools_for_spec_def pool_meets_def intro!: filter_cong)

lemma pool_meets_view:
  "pool_props p = pool_props q \<Longrightarrow> pool_count p = pool_count q \<Longrightarrow> pool_meets req cells p = pool_meets req cells q"
  by (simp add: pool_meets_def pool_dict_def)

definition count_sim :: "pci_stats \<Rightarrow> pci_stats \<Rightarrow> bool" where
  "count_sim a b \<longleftrightarrow> distinct (pools b) \<and> pools a = filter (\<lambda>r. r \<in> set (pools a)) (pools b) \<and>
     effective a = effective b \<and> (\<forall>r. pool_props (pool_at a r) = pool_props (pool_at b r))"

lemma count_simD:
  assumes "count_sim a b"
  shows "distinct (pools b)" "pools a = filter (\<lambda>r. r \<in> set (pools a)) (pools b)" "effective a = effective b"
    "pool_props (pool_at a r) = pool_props (pool_at b r)" "distinct (pools a)"
proof -
  show b: "distinct (pools b)" and a: "pools a = filter (\<lambda>r. r \<in> set (pools a)) (pools b)"
    and "effective a = effective b" "pool_props (pool_at a r) = pool_props (pool_at b r)"
    using assms by (auto simp: count_sim_def)
  show "distinct (pools a)" using a b by (metis distinct_filter)
qed

lemma pool_sum_effective:
  assumes "set ps \<subseteq> set (pools st)"
  shows "pool_sum (pool_at st) ps = sum_list (map (effective st) (filter (\<lambda>r. effective st r > 0) ps))"
  using assms unfolding pool_sum_def by (induction ps) (auto simp: effective_def)

lemma count_sim_matching:
  assumes "count_sim a b"
  shows "filter (\<lambda>r. effective a r > 0) (matching_pools (pool_at a) req cells (pools a)) =
    filter (\<lambda>r. effective b r > 0) (matching_pools (pool_at b) req cells (pools b))"
proof -
  note sim = count_simD [OF assms]
  have same: "effective a r > 0 \<and> pool_meets req cells (pool_at a r) \<and> r \<in> set (pools a) \<longleftrightarrow>
      effective b r > 0 \<and> pool_meets req cells (pool_at b r)" if "r \<in> set (pools b)" for r
  proof (cases "effective a r > 0")
    case True
    then have "r \<in> set (pools a)" by (auto simp: effective_def split: if_splits)
    moreover have "pool_count (pool_at a r) = pool_count (pool_at b r)"
      using fun_cong [OF sim(3), of r] that \<open>r \<in> set (pools a)\<close> by (simp add: effective_def)
    ultimately show ?thesis using True sim(3,4) pool_meets_view by metis
  qed (use sim(3) in simp)
  have "filter (\<lambda>r. effective a r > 0) (matching_pools (pool_at a) req cells (pools a)) =
      filter (\<lambda>r. effective a r > 0 \<and> pool_meets req cells (pool_at a r) \<and> r \<in> set (pools a)) (pools b)"
    unfolding matching_pools_meets filter_filter
    using arg_cong [OF sim(2), of "filter (\<lambda>r. pool_meets req cells (pool_at a r) \<and> effective a r > 0)"]
    by (simp add: conj_ac)
  also have "\<dots> = filter (\<lambda>r. effective b r > 0) (matching_pools (pool_at b) req cells (pools b))"
    unfolding matching_pools_meets filter_filter by (rule filter_cong) (use same in auto)
  finally show ?thesis .
qed

lemma count_sim_sum:
  assumes "count_sim a b"
  shows "pool_sum (pool_at a) (matching_pools (pool_at a) req cells (pools a)) =
    pool_sum (pool_at b) (matching_pools (pool_at b) req cells (pools b))"
  using pool_sum_effective [of "matching_pools (pool_at a) req cells (pools a)" a, OF matching_pools_subset(1)]
    pool_sum_effective [of "matching_pools (pool_at b) req cells (pools b)" b, OF matching_pools_subset(1)]
    count_sim_matching [OF assms] count_simD(3) [OF assms] by simp

lemma count_sim_step:
  assumes sim: "count_sim a (stats s)" and link: "\<And>x y. \<not> linked s x y" and ok: "links_ok (heap (store s))"
    and run: "consume_pools rid n (matching_pools (pool_at (stats s)) req cells (pools (stats s))) s = (Inr ds, s')"
  shows "count_sim (decrease_pools n (matching_pools (pool_at a) req cells (pools a)) a) (stats s')"
proof -
  let ?pa = "matching_pools (pool_at a) req cells (pools a)"
  let ?pb = "matching_pools (pool_at (stats s)) req cells (pools (stats s))"
  note d = count_simD [OF sim]
  note u = consume_pools_unlinked [OF link ok run]
  note e = decrease_pools_effective [of a ?pa, OF d(5) matching_pools_subset(2) [OF d(5)] matching_pools_subset(1)]
  have "effective (stats s') = greedy n ?pb (effective (stats s))"
  proof
    fix q
    have pos: "greedy n rs c q = greedy n rs c' q" if "\<forall>r \<in> set rs. c r = c' r" "c q = c' q" for rs n c c' using that
      by (induction rs arbitrary: n c c') auto
    show "effective (stats s') q = greedy n ?pb (effective (stats s)) q"
    proof (cases "q \<in> set (pools (stats s))")
      case True
      have "effective (stats s') q = greedy n ?pb (\<lambda>q. pool_count (pool_of s q)) q"
        using True u by (metis effective_def)
      also have "\<dots> = greedy n ?pb (effective (stats s)) q"
        by (rule pos) (use True matching_pools_subset(1) [of "pool_at (stats s)" req cells] in \<open>auto simp: effective_def\<close>)
      finally show ?thesis .
    next
      case False
      then have "q \<notin> set ?pb" using matching_pools_subset(1) by fastforce
      from greedy_out [OF this, of n "effective (stats s)"] show ?thesis using False u by (simp add: effective_def)
    qed
  qed
  also have "\<dots> = greedy n (filter (\<lambda>r. effective (stats s) r > 0) ?pb) (effective (stats s))"
    by (rule greedy_positive [symmetric, OF matching_pools_subset(2) [OF d(1)]])
  also have "\<dots> = greedy n ?pa (effective a)"
    using greedy_positive [OF matching_pools_subset(2) [OF d(5)], of n "effective a" "pool_at a" req cells]
      count_sim_matching [OF sim] d(3) by metis
  finally have "effective (decrease_pools n ?pa a) = effective (stats s')" using e(1) by simp
  moreover have "pools (decrease_pools n ?pa a) = filter (\<lambda>r. r \<in> set (pools (decrease_pools n ?pa a))) (pools (stats s'))"
    using filter_filter_subset [OF e(2) d(2)] u by simp
  ultimately show ?thesis using d(1,4) u e(3) unfolding count_sim_def by simp
qed

lemma count_sim_refl: "distinct (pools st) \<Longrightarrow> count_sim st st"
  by (auto simp: count_sim_def)

lemma support_consume:
  assumes "count_sim a (stats s)" "\<And>x y. \<not> linked s x y" "links_ok (heap (store s))"
    and "consume_from cells acc reqs s = (Inr r, s')"
  shows "list_all id (fst (apply_all cells reqs a)) \<longleftrightarrow> r \<noteq> None"
  using assms
proof (induction reqs arbitrary: a s acc)
  case (Cons req reqs)
  let ?pa = "matching_pools (pool_at a) req cells (pools a)"
  let ?pb = "matching_pools (pool_at (stats s)) req cells (pools (stats s))"
  note sum = count_sim_sum [OF Cons.prems(1), of req cells]
  show ?case
  proof (cases "pool_sum (pool_at (stats s)) ?pb < req_count req")
    case True
    then have "r = None" using Cons.prems(4) by (auto simp: Let_def sbind_Inr_iff sreturn_def)
    moreover have "fst (apply_all cells (req # reqs) a) = False # fst (apply_all cells reqs a)"
      using True sum by (simp add: apply_request_def Let_def case_prod_beta)
    ultimately show ?thesis by simp
  next
    case False
    then obtain ds s1 where run: "consume_pools (req_request_id req) (req_count req) ?pb s = (Inr ds, s1)"
      and rest: "consume_from cells (acc @ ds) reqs s1 = (Inr r, s')"
      using Cons.prems(4) by (auto simp: Let_def sbind_Inr_iff)
    note u = consume_pools_unlinked [OF Cons.prems(2,3) run]
    then have same: "same_devs s s1" by simp
    have ok1: "links_ok (heap (store s1))"
      using links_ok_shape [of "heap (store s1)" "heap (store s)", OF same_devs_sel(1) [OF same]] Cons.prems(3) by simp
    have link1: "\<not> linked s1 x y" for x y using same_devs_sel(6) [OF same] Cons.prems(2) by simp
    have "fst (apply_all cells (req # reqs) a) =
        True # fst (apply_all cells reqs (decrease_pools (req_count req) ?pa a))"
      using False sum by (simp add: apply_request_def Let_def case_prod_beta)
    then show ?thesis using Cons.IH [OF count_sim_step [OF Cons.prems(1-3) run] link1 ok1 rest] by simp
  qed
qed auto

section \<open>Properties\<close>

definition ex_accept :: "pci_device \<Rightarrow> (pci_error, props option) res" where
  "ex_accept d = Inr (Some [(''physical_network'', VStr ''physnet1'')])"

definition ex_node :: "(dref \<Rightarrow> pci_device) \<Rightarrow> pci_sys" where
  \<comment> \<open>no pools yet; every device has an address of its own\<close>
  "ex_node h = \<lparr>store = \<lparr>heap = (\<lambda>d. (h d)\<lparr>address := replicate d CHR ''a''\<rparr>), attached = (\<lambda>_. [])\<rparr>,
     stats = \<lparr>pool_at = (\<lambda>_. \<lparr>pool_props = [], pool_count = 0, pool_devices = []\<rparr>), pools = [], next_pool = 0,
              dev_filter = ex_accept\<rparr>\<rparr>"

lemma ex_node_ok:
  assumes "links_ok h"
  shows "sys_ok UNIV (\<lambda>_. 0) (ex_node h)"
proof -
  have sel: "parent_device (heap (store (ex_node h)) d) = parent_device (h d)"
    "child_devices (heap (store (ex_node h)) d) = child_devices (h d)"
    "dev_type (heap (store (ex_node h)) d) = dev_type (h d)" "d_id (heap (store (ex_node h)) d) = d_id (h d)" for d
    by (simp_all add: ex_node_def)
  have "links_ok (heap (store (ex_node h)))" using assms unfolding links_ok_def sel .
  moreover have "pools_inv (\<lambda>_. 0) (ex_node h)" by (simp add: ex_node_def pools_inv_def get_free_devs_def)
  moreover have "addr_inj (ex_node h) UNIV" by (simp add: addr_inj_def ex_node_def inj_on_def)
  moreover have "filter_ok (dev_filter (stats (ex_node h)))" by (simp add: filter_ok_def ex_node_def ex_accept_def)
  ultimately show ?thesis
    by (simp add: sys_ok_def dev_key_def create_pool_keys_from_dev_def ex_node_def ex_accept_def)
qed

definition ex_filled :: "(dref \<Rightarrow> pci_device) \<Rightarrow> pci_sys" where
  "ex_filled h = snd (sforeach [0, 1, 2] add_device (ex_node h))"

lemma ex_filled_ok:
  assumes "links_ok h"
  shows "sys_ok UNIV (\<lambda>_. 0) (ex_filled h)" "set (free_devs (ex_filled h)) = {0, 1, 2}"
    "store (ex_filled h) = store (ex_node h)"
proof -
  have key: "\<forall>d \<in> set [0, 1, 2]. dev_key (ex_node h) d \<noteq> Inr None"
    by (simp add: dev_key_def create_pool_keys_from_dev_def ex_node_def ex_accept_def)
  have "set [0, 1, 2] \<inter> set (free_devs (ex_node h)) = {}" by (simp add: ex_node_def get_free_devs_def)
  then obtain s' where s': "sforeach [0, 1, 2] add_device (ex_node h) = (Inr (), s')" "sys_ok UNIV (\<lambda>_. 0) s'"
    "set (free_devs s') = set (free_devs (ex_node h)) \<union> set [0, 1, 2]" "store s' = store (ex_node h)"
    using add_devices_ok [OF ex_node_ok [OF assms], of "[0, 1, 2]"] key by fastforce
  then have "ex_filled h = s'" by (simp only: ex_filled_def snd_conv)
  with s' show "sys_ok UNIV (\<lambda>_. 0) (ex_filled h)" "set (free_devs (ex_filled h)) = {0, 1, 2}"
    "store (ex_filled h) = store (ex_node h)"
    by (auto simp: ex_node_def get_free_devs_def)
qed

definition ex_sys :: pci_sys where
  \<comment> \<open>the pools hold a physical function and its two virtual functions\<close>
  "ex_sys = ex_filled ex_heap"

definition ex_plain :: pci_sys where
  \<comment> \<open>the pools hold three ordinary devices\<close>
  "ex_plain = ex_filled (\<lambda>d. (ex_heap d)\<lparr>dev_type := STANDARD, parent_device := None, child_devices := []\<rparr>)"

definition ex_vf_request :: "nat \<Rightarrow> pci_request" where
  "ex_vf_request n = \<lparr>req_count = n, req_spec = [[(''dev_type'', VStr ''VF'')]], req_request_id = None\<rparr>"

lemmas ex_sys_ok = ex_filled_ok [OF ex_links, folded ex_sys_def]

lemma ex_sys_links:
  "parent_device (heap (store ex_sys) d) = (if d = 1 \<or> d = 2 then Some 0 else None)"
  "status (heap (store ex_sys) d) = AVAILABLE"
  by (simp_all add: ex_sys_ok(3) ex_node_def)

lemma ex_sys_whole: "whole ex_sys"
  by (auto simp: whole_def ex_sys_links ex_sys_ok(2) split: if_splits)

lemma ex_vf_unmixed: "unmixed (ex_vf_request n)"
  by (simp add: unmixed_def ex_vf_request_def py_get_def dev_type_str_def)

text \<open>
  C31. \<open>consume_requests\<close> never raises on well-formed pools, for requests that do not mix
  physical functions with other devices. When it succeeds it returns distinct devices from
  the pools, as many as each request asks for and each from a pool that meets it, and takes
  out of the pools exactly these devices and the functions linked to them. When it fails it
  returns None, and only functions linked to a pooled device are missing from the pools. The
  statuses of devices do not change.
\<close>

theorem consume_requests_spec:
  assumes "sys_ok D (\<lambda>_. 0) s" "whole s" "\<forall>req \<in> set reqs. unmixed req"
  shows "\<exists>r s'. consume_requests reqs cells s = (Inr r, s') \<and> sys_ok D (\<lambda>_. 0) s' \<and>
    (\<forall>x. status (heap (store s') x) = status (heap (store s) x)) \<and>
    (case r of
       Some ds \<Rightarrow> allocated s reqs ds \<and> distinct ds \<and> set ds \<subseteq> set (free_devs s) \<and>
         set (free_devs s') = set (free_devs s) - set ds - {x. \<exists>d \<in> set ds. linked s d x}
     | None \<Rightarrow> set (free_devs s') \<subseteq> set (free_devs s) \<and>
         (\<forall>x \<in> set (free_devs s) - set (free_devs s'). \<exists>d \<in> set (free_devs s). linked s d x))"
proof -
  obtain r s' where run: "consume_from cells [] reqs s = (Inr r, s')" "sys_ok D (\<lambda>_. 0) s'" "same_devs s s'"
    and out: "case r of
       Some ds' \<Rightarrow> (\<exists>ds. ds' = [] @ ds \<and> allocated s reqs ds \<and> taken s ds s')
     | None \<Rightarrow> set (free_devs s') \<subseteq> set (free_devs s) \<union> set [] \<and>
          (\<forall>x \<in> set (free_devs s) \<union> set [] - set (free_devs s'). \<exists>d \<in> set (free_devs s). linked s d x)"
    using consume_from_ok [OF assms, of "[]" cells] by auto
  have "case r of
       Some ds \<Rightarrow> allocated s reqs ds \<and> distinct ds \<and> set ds \<subseteq> set (free_devs s) \<and>
         set (free_devs s') = set (free_devs s) - set ds - {x. \<exists>d \<in> set ds. linked s d x}
     | None \<Rightarrow> set (free_devs s') \<subseteq> set (free_devs s) \<and>
         (\<forall>x \<in> set (free_devs s) - set (free_devs s'). \<exists>d \<in> set (free_devs s). linked s d x)"
    using out takenD(2,3,5) [of s _ s'] by (cases r) simp_all
  with run(1,2) same_devs_sel(2) [OF run(3)] show ?thesis
    by (intro exI [of _ r] exI [of _ s']) (simp add: consume_requests_def)
qed

theorem consume_requests_spec_witness:
  "\<exists>r s'. consume_requests [ex_vf_request 1] [] ex_sys = (Inr r, s') \<and> sys_ok UNIV (\<lambda>_. 0) s' \<and>
    set (free_devs s') \<subseteq> {0, 1, 2}"
proof -
  obtain r s' where "consume_requests [ex_vf_request 1] [] ex_sys = (Inr r, s')" "sys_ok UNIV (\<lambda>_. 0) s'"
    and out: "case r of
       Some ds \<Rightarrow> allocated ex_sys [ex_vf_request 1] ds \<and> distinct ds \<and> set ds \<subseteq> set (free_devs ex_sys) \<and>
         set (free_devs s') = set (free_devs ex_sys) - set ds - {x. \<exists>d \<in> set ds. linked ex_sys d x}
     | None \<Rightarrow> set (free_devs s') \<subseteq> set (free_devs ex_sys) \<and>
         (\<forall>x \<in> set (free_devs ex_sys) - set (free_devs s'). \<exists>d \<in> set (free_devs ex_sys). linked ex_sys d x)"
    using consume_requests_spec [OF ex_sys_ok(1) ex_sys_whole, of "[ex_vf_request 1]" "[]"] ex_vf_unmixed by auto
  moreover have "set (free_devs s') \<subseteq> {0, 1, 2}"
    using out unfolding ex_sys_ok(2) by (auto split: option.splits)
  ultimately show ?thesis by blast
qed

text \<open>
  C32. On a node where no functions are linked, the scheduler's check says yes exactly when
  the allocation of the same requests succeeds.
\<close>

theorem support_iff_consume:
  assumes "sys_ok D (\<lambda>_. 0) s" "\<And>x y. \<not> linked s x y" "\<forall>req \<in> set reqs. unmixed req"
  shows "support_requests reqs cells (stats s) \<longleftrightarrow>
    (\<exists>ds s'. consume_requests reqs cells s = (Inr (Some ds), s'))"
proof -
  have "whole s" using assms(2) by (auto simp: whole_def linked_def)
  then obtain r s' where run: "consume_from cells [] reqs s = (Inr r, s')"
    using consume_from_ok [OF assms(1) _ assms(3), of "[]" cells] by auto
  have sim: "count_sim (stats s) (stats s)" using count_sim_refl pools_invD(1) [OF sys_okD(1) [OF assms(1)]] .
  show ?thesis
    using support_consume [OF sim assms(2) sys_okD(2) [OF assms(1)] run] run
    by (auto simp: support_requests_def consume_requests_def)
qed

theorem support_iff_consume_witness:
  "support_requests [ex_vf_request 1] [] (stats ex_plain) \<longleftrightarrow>
    (\<exists>ds s'. consume_requests [ex_vf_request 1] [] ex_plain = (Inr (Some ds), s'))"
proof -
  let ?h = "\<lambda>d. (ex_heap d)\<lparr>dev_type := STANDARD, parent_device := None, child_devices := []\<rparr>"
  have links: "links_ok ?h" by (simp add: links_ok_def)
  have "\<not> linked ex_plain x y" for x y
    by (simp add: linked_def ex_plain_def ex_filled_ok(3) [OF links] ex_node_def)
  from support_iff_consume [OF ex_filled_ok(1) [OF links, folded ex_plain_def] this] ex_vf_unmixed
  show ?thesis by simp
qed

text \<open>
  A failing \<open>consume_requests\<close> can lose a device: when it has taken a virtual function for
  an earlier request, the physical function was removed from the pools with it, and only the
  virtual function is put back. The physical function stays available but is in no pool.
\<close>

theorem consume_failure_loses_parent:
  "fst (consume_requests [ex_vf_request 1, ex_vf_request 5] [] ex_sys) = Inr None \<and>
   0 \<in> set (free_devs ex_sys) \<and>
   0 \<notin> set (free_devs (snd (consume_requests [ex_vf_request 1, ex_vf_request 5] [] ex_sys))) \<and>
   status (heap (store (snd (consume_requests [ex_vf_request 1, ex_vf_request 5] [] ex_sys))) 0) = AVAILABLE"
  by code_simp

end
