(* ===== verification/Pci_Manager.thy ===== *)
theory Pci_Manager
  imports Pci_Stats "HOL-Library.List_Lexorder" "HOL-Library.Char_ord"
begin

text \<open>
  The PCI device tracker of a compute node (\<^verbatim>\<open>zun/pci/manager.py\<close>): the list of devices,
  the pools of free ones, and which container holds which device. The tracker is the only
  writer of the devices; every method is called with the compute node's lock held.
\<close>

section \<open>State\<close>

record pci_tracker =
  sys :: pci_sys
  pci_devs :: "dref list"
  stale :: "(string, hv_device) dict"
  node_id :: "string option"
  claims :: "(string option, dref list) dict"
  allocations :: "(string option, dref list) dict"
  next_dev :: dref
  fresh_uuid :: "dref \<Rightarrow> string"

text \<open>\<open>fresh_uuid\<close> gives the uuid generated for the object at a new reference.\<close>

definition on_sys :: "(pci_sys, pci_error, 'a) st \<Rightarrow> (pci_tracker, pci_error, 'a) st" where
  "on_sys m t = (case m (sys t) of (r, s) \<Rightarrow> (r, t\<lparr>sys := s\<rparr>))"

definition on_store :: "(pci_store, pci_error, 'a) st \<Rightarrow> (pci_tracker, pci_error, 'a) st" where
  "on_store m t = (case m (store (sys t)) of (r, s) \<Rightarrow> (r, t\<lparr>sys := (sys t)\<lparr>store := s\<rparr>\<rparr>))"

abbreviation dev_at :: "pci_tracker \<Rightarrow> dref \<Rightarrow> pci_device" where
  "dev_at t d \<equiv> heap (store (sys t)) d"

definition set_dev :: "dref \<Rightarrow> (pci_device \<Rightarrow> pci_device) \<Rightarrow> pci_tracker \<Rightarrow> pci_tracker" where
  "set_dev d f t = t\<lparr>sys := (sys t)\<lparr>store := with_dev d f (store (sys t))\<rparr>\<rparr>"

definition mapping_get :: "(string option, dref list) dict \<Rightarrow> string option \<Rightarrow> dref list" where
  "mapping_get m u = (case dict_get m u of None \<Rightarrow> [] | Some ds \<Rightarrow> ds)"

section \<open>The device tree\<close>

fun tree_loop :: "dref list \<Rightarrow> (string, dref) dict \<Rightarrow> (dref \<Rightarrow> pci_device) \<Rightarrow> dref \<Rightarrow> pci_device" where
  "tree_loop [] parents h = h"
| "tree_loop (d # ds) parents h =
     (if status (h d) \<in> {REMOVED, DELETED} then tree_loop ds parents h
      else case dev_type (h d) of
        SRIOV_PF \<Rightarrow> tree_loop ds (dict_set (address (h d)) d parents) (h(d := (h d)\<lparr>child_devices := []\<rparr>))
      | SRIOV_VF \<Rightarrow>
          (let par = (case parent_addr (h d) of None \<Rightarrow> None | Some a \<Rightarrow> dict_get parents a);
               h1 = h(d := (h d)\<lparr>parent_device := par\<rparr>)
           in tree_loop ds parents
                (case par of None \<Rightarrow> h1
                 | Some p \<Rightarrow> h1(p := (h1 p)\<lparr>child_devices := child_devices (h1 p) @ [d]\<rparr>)))
      | STANDARD \<Rightarrow> tree_loop ds parents h)"

definition build_device_tree :: "pci_tracker \<Rightarrow> pci_tracker" where
  "build_device_tree t =
     (let devs = sort_key (\<lambda>d. address (dev_at t d)) (pci_devs t); st = store (sys t)
      in t\<lparr>pci_devs := devs, sys := (sys t)\<lparr>store := st\<lparr>heap := tree_loop devs [] (heap st)\<rparr>\<rparr>\<rparr>)"

section \<open>Start-up and saving\<close>

definition usage_of :: "dref \<Rightarrow> (pci_tracker, pci_error, unit) st" where
  \<comment> \<open>one step of \<open>_initial_instance_usage\<close>\<close>
  "usage_of d t =
     (case container_uuid (dev_at t d) of
        Unset \<Rightarrow> (Inl (NotImplementedError ''container_uuid''), t)
      | Val u \<Rightarrow>
          (case status (dev_at t d) of
             CLAIMED \<Rightarrow> (Inr (), t\<lparr>claims := dict_set u (mapping_get (claims t) u @ [d]) (claims t)\<rparr>)
           | ALLOCATED \<Rightarrow> (Inr (), t\<lparr>allocations := dict_set u (mapping_get (allocations t) u @ [d]) (allocations t)\<rparr>)
           | AVAILABLE \<Rightarrow> on_sys (add_device d) t
           | _ \<Rightarrow> (Inr (), t)))"

definition initial_instance_usage :: "(pci_tracker, pci_error, unit) st" where
  "initial_instance_usage t = sforeach (pci_devs t) usage_of (t\<lparr>allocations := [], claims := []\<rparr>)"

definition init_tracker ::
    "(pci_device \<Rightarrow> (pci_error, props option) res) \<Rightarrow> (dref \<Rightarrow> string) \<Rightarrow> string option \<Rightarrow> pci_device list \<Rightarrow>
     (pci_error, unit) res \<times> pci_tracker" where
  \<comment> \<open>\<open>db_devs\<close> is what \<open>list_by_compute_node\<close> returns; it is used when the node id is given\<close>
  "init_tracker flt uuids node db_devs =
     (let devs = (if truthy node then db_devs else []);
          blank = create [] \<lparr>hv_address = [], hv_vendor_id = [], hv_product_id = [], hv_dev_type = STANDARD,
            hv_dev_id = None, hv_label = None, hv_numa_node = None, hv_parent_addr = None,
            hv_compute_node_uuid = None, hv_extra = []\<rparr>;
          st = \<lparr>heap = (\<lambda>i. if i < length devs then devs ! i else blank), attached = (\<lambda>_. [])\<rparr>;
          t = \<lparr>sys = \<lparr>store = st,
                 stats = \<lparr>pool_at = (\<lambda>_. \<lparr>pool_props = [], pool_count = 0, pool_devices = []\<rparr>), pools = [],
                          next_pool = 0, dev_filter = flt\<rparr>\<rparr>,
               pci_devs = [0..<length devs], stale = [], node_id = node, claims = [], allocations = [],
               next_dev = length devs, fresh_uuid = uuids\<rparr>
      in initial_instance_usage (build_device_tree t))"

function save_loop :: "(pci_tracker \<Rightarrow> dref \<Rightarrow> bool) \<Rightarrow> nat \<Rightarrow> pci_tracker \<Rightarrow> db_call list \<times> pci_tracker" where
  \<comment> \<open>iteration over a list that the body shrinks: the index moves on either way\<close>
  "save_loop changed i t =
     (if i < length (pci_devs t)
      then (let d = pci_devs t ! i
            in if changed t d
               then (let (dev', calls) = save_dev (dev_at t d);
                         t1 = set_dev d (\<lambda>_. dev') t;
                         t2 = (if status dev' = DELETED
                               then t1\<lparr>pci_devs := (case py_remove (heap (store (sys t1))) d (pci_devs t1) of
                                                      Some ds \<Rightarrow> ds | None \<Rightarrow> pci_devs t1)\<rparr>
                               else t1);
                         (more, t3) = save_loop changed (Suc i) t2
                     in (calls @ more, t3))
               else save_loop changed (Suc i) t)
      else ([], t))"
  by pat_completeness auto

lemma py_remove_length: "py_remove h d xs = Some ys \<Longrightarrow> length ys < length xs"
  by (induction xs arbitrary: ys) (fastforce split: if_splits)+

termination save_loop
proof (relation "measure (\<lambda>(_, i, t). length (pci_devs t) - i)")
qed (auto simp: set_dev_def split: option.splits dest!: py_remove_length)

definition save_tracker :: "(pci_tracker \<Rightarrow> dref \<Rightarrow> bool) \<Rightarrow> pci_tracker \<Rightarrow> db_call list \<times> pci_tracker" where
  \<comment> \<open>\<open>changed\<close> stands for \<open>obj_what_changed\<close> of the versioned object library\<close>
  "save_tracker changed t = save_loop changed 0 t"

section \<open>Synchronising with the host\<close>

definition sync_existing :: "hv_device list \<Rightarrow> dref \<Rightarrow> (pci_tracker, pci_error, unit) st" where
  "sync_existing devices d t =
     (if address (dev_at t d) \<notin> set (map hv_address devices)
      then (case on_store (remove_dev d) t of
              (Inl (PciDeviceInvalidStatus _ _), t1) \<Rightarrow> (Inr (), set_dev d (\<lambda>x. x\<lparr>status := REMOVED\<rparr>) t1)
            | (Inl e, t1) \<Rightarrow> (Inl e, t1)
            | (Inr (), t1) \<Rightarrow> on_sys (remove_device d) t1)
      else (case List.find (\<lambda>v. hv_address v = address (dev_at t d)) devices of
              None \<Rightarrow> (Inr (), t)
            | Some v \<Rightarrow>
                (let new_value = v\<lparr>hv_extra := dict_set ''compute_node_id''
                       (case node_id t of None \<Rightarrow> ''null'' | Some n \<Rightarrow> n) (hv_extra v)\<rparr>
                 in if status (dev_at t d) \<in> {CLAIMED, ALLOCATED}
                    then (Inr (), t\<lparr>stale := dict_set (hv_address new_value) new_value (stale t)\<rparr>)
                    else (Inr (), set_dev d (update_device new_value) t))))"

definition add_new :: "hv_device \<Rightarrow> (pci_tracker, pci_error, unit) st" where
  "add_new dev t =
     (let d = next_dev t;
          obj = create (fresh_uuid t d) (dev\<lparr>hv_compute_node_uuid := Some (node_id t)\<rparr>);
          t1 = (set_dev d (\<lambda>_. obj) t)\<lparr>pci_devs := pci_devs t @ [d], next_dev := Suc d\<rparr>
      in on_sys (add_device d) t1)"

definition set_hvdevs :: "hv_device list \<Rightarrow> (pci_tracker, pci_error, unit) st" where
  "set_hvdevs devices t =
     (let exist_addrs = map (\<lambda>d. address (dev_at t d)) (pci_devs t)
      in sbind (sforeach (pci_devs t) (sync_existing devices))
           (\<lambda>_. sbind (sforeach (filter (\<lambda>v. hv_address v \<notin> set exist_addrs) devices) add_new)
             (\<lambda>_. smodify build_device_tree)) t)"

fun assignable_devices :: "(hv_device \<Rightarrow> (pci_error, bool) res) \<Rightarrow> hv_device list \<Rightarrow> (pci_error, hv_device list) res" where
  "assignable_devices ok [] = Inr []"
| "assignable_devices ok (v # vs) =
     rbind (ok v) (\<lambda>b. rbind (assignable_devices ok vs) (\<lambda>rest. Inr (if b then v # rest else rest)))"

definition update_devices_from_compute_resources ::
    "(hv_device \<Rightarrow> (pci_error, bool) res) \<Rightarrow> hv_device list \<Rightarrow> (pci_tracker, pci_error, unit) st" where
  \<comment> \<open>\<open>ok\<close> is \<open>device_assignable\<close> of the whitelist; the JSON text has been decoded\<close>
  "update_devices_from_compute_resources ok devs t =
     (case assignable_devices ok devs of Inl e \<Rightarrow> (Inl e, t) | Inr devices \<Rightarrow> set_hvdevs devices t)"

section \<open>Claiming, allocating and freeing\<close>

definition claim_devices :: "string \<Rightarrow> pci_request list \<Rightarrow> (pci_tracker, pci_error, dref list option) st" where
  \<comment> \<open>\<open>_claim_container\<close>\<close>
  "claim_devices container requests =
     sbind (on_sys (consume_requests requests []))
       (\<lambda>devs. case devs of
          None \<Rightarrow> sreturn None
        | Some [] \<Rightarrow> sreturn None
        | Some ds \<Rightarrow> sbind (sforeach ds (\<lambda>d. on_store (claim d container))) (\<lambda>_. sreturn (Some ds)))"

definition claim_container :: "string \<Rightarrow> pci_request list option \<Rightarrow> (pci_tracker, pci_error, dref list option) st" where
  \<comment> \<open>no requests object and an object with an empty list are treated alike\<close>
  "claim_container container requests t =
     (case requests of
        Some reqs \<Rightarrow>
          if pci_devs t \<noteq> [] \<and> reqs \<noteq> []
          then sbind (claim_devices container reqs)
                 (\<lambda>devs. case devs of
                    None \<Rightarrow> sreturn None
                  | Some ds \<Rightarrow> sbind (smodify (\<lambda>t. t\<lparr>claims := dict_set (Some container) ds (claims t)\<rparr>))
                                 (\<lambda>_. sreturn (Some ds))) t
          else (Inr (Some []), t)
      | None \<Rightarrow> (Inr (Some []), t))"

definition allocate_container :: "string \<Rightarrow> (pci_tracker, pci_error, unit) st" where
  "allocate_container container t =
     (let devs = mapping_get (claims t) (Some container);
          t1 = t\<lparr>claims := dict_del (Some container) (claims t)\<rparr>
      in sbind (sforeach devs (\<lambda>d. on_store (allocate d container)))
           (\<lambda>_. smodify (\<lambda>t2. if devs \<noteq> [] then
                t2\<lparr>allocations := dict_set (Some container) (mapping_get (allocations t2) (Some container) @ devs)
                     (allocations t2)\<rparr> else t2)) t1)"

definition free_tracked :: "dref \<Rightarrow> (pci_tracker, pci_error, unit) st" where
  \<comment> \<open>\<open>_free_device\<close>; the container argument is never given\<close>
  "free_tracked d =
     sbind (on_store (free None d))
       (\<lambda>freed_devs. sbind
          (smodify (\<lambda>t. case dict_get (stale t) (address (dev_at t d)) of
             None \<Rightarrow> t
           | Some v \<Rightarrow> set_dev d (update_device v) (t\<lparr>stale := dict_del (address (dev_at t d)) (stale t)\<rparr>)))
          (\<lambda>_. sforeach freed_devs (\<lambda>x. on_sys (add_device x))))"

definition remove_device_from_pci_mapping ::
    "(dref \<Rightarrow> pci_device) \<Rightarrow> string option \<Rightarrow> dref \<Rightarrow> (string option, dref list) dict \<Rightarrow> (string option, dref list) dict" where
  "remove_device_from_pci_mapping h container d m =
     (case py_remove h d (mapping_get m container) of
        None \<Rightarrow> m
      | Some ds \<Rightarrow> if ds = [] then dict_del container m else dict_set container ds m)"

fun free_device_in :: "int attr \<Rightarrow> string option \<Rightarrow> string \<Rightarrow> dref list \<Rightarrow> (pci_tracker, pci_error, unit) st" where
  "free_device_in i owner container [] t = (Inr (), t)"
| "free_device_in i owner container (d # ds) t =
     (if i = Unset \<or> d_id (dev_at t d) = Unset then (Inl (NotImplementedError ''id''), t)
      else if i = d_id (dev_at t d) \<and> owner = Some container
      then free_tracked d
             (t\<lparr>allocations := remove_device_from_pci_mapping (heap (store (sys t))) (Some container) d (allocations t),
                claims := remove_device_from_pci_mapping (heap (store (sys t))) (Some container) d (claims t)\<rparr>)
      else free_device_in i owner container ds t)"

definition free_device :: "pci_device \<Rightarrow> string \<Rightarrow> (pci_tracker, pci_error, unit) st" where
  \<comment> \<open>\<open>dev\<close> is a copy of the device; its owner is set, as \<open>allocate\<close> sets it before copying\<close>
  "free_device dev container t =
     free_device_in (d_id dev) (case container_uuid dev of Unset \<Rightarrow> None | Val u \<Rightarrow> u) container (pci_devs t) t"

definition free_if_owned :: "string \<Rightarrow> dref \<Rightarrow> (pci_tracker, pci_error, unit) st" where
  "free_if_owned container d t =
     (if status (dev_at t d) \<in> {CLAIMED, ALLOCATED}
      then (if container_uuid (dev_at t d) = Unset then (Inl (NotImplementedError ''container_uuid''), t)
            else if container_uuid (dev_at t d) = Val (Some container) then free_tracked d t
            else (Inr (), t))
      else (Inr (), t))"

definition free_container :: "string \<Rightarrow> (pci_tracker, pci_error, unit) st" where
  "free_container container t =
     (let t1 = t\<lparr>allocations := dict_del (Some container) (allocations t)\<rparr>
      in if mapping_get (allocations t) (Some container) \<noteq> []
         then sforeach (pci_devs t1) (free_if_owned container) t1
         else (let t2 = t1\<lparr>claims := dict_del (Some container) (claims t1)\<rparr>
               in if mapping_get (claims t) (Some container) \<noteq> []
                  then sforeach (pci_devs t2) (free_if_owned container) t2
                  else (Inr (), t2)))"

definition update_pci_for_container :: "string \<Rightarrow> int \<Rightarrow> (pci_tracker, pci_error, unit) st" where
  "update_pci_for_container container sign t =
     (if pci_devs t = [] then (Inr (), t)
      else sbind (\<lambda>t. if sign = -1 then free_container container t else (Inr (), t))
             (\<lambda>_ t. if sign = 1 then allocate_container container t else (Inr (), t)) t)"

definition clean_claims :: "string list \<Rightarrow> string option \<Rightarrow> (pci_tracker, pci_error, unit) st" where
  "clean_claims existed u t =
     (if u \<in> Some ` set existed then (Inr (), t)
      else sforeach (mapping_get (claims t) u) free_tracked (t\<lparr>claims := dict_del u (claims t)\<rparr>))"

definition clean_allocations :: "string list \<Rightarrow> string option \<Rightarrow> (pci_tracker, pci_error, unit) st" where
  "clean_allocations existed u t =
     (if u \<in> Some ` set existed then (Inr (), t)
      else sforeach (mapping_get (allocations t) u) free_tracked (t\<lparr>allocations := dict_del u (allocations t)\<rparr>))"

definition clean_usage :: "string list \<Rightarrow> string list \<Rightarrow> (pci_tracker, pci_error, unit) st" where
  \<comment> \<open>the uuids of the given containers and orphans\<close>
  "clean_usage containers orphans t =
     sbind (sforeach (dict_keys (claims t)) (clean_claims (containers @ orphans)))
       (\<lambda>_ t1. sforeach (dict_keys (allocations t1)) (clean_allocations (containers @ orphans)) t1) t"

text \<open>The request of a container's device is always set: \<open>consume_requests\<close> sets it.\<close>

definition get_container_pci_devs :: "pci_device list option \<Rightarrow> string option \<Rightarrow> pci_device list" where
  "get_container_pci_devs pci_devices rid =
     (case pci_devices of
        None \<Rightarrow> []
      | Some ds \<Rightarrow> filter (\<lambda>d. request_id d = Val rid \<or> rid = Some ''all'') ds)"

section \<open>Invariant of the tracker\<close>

text \<open>
  The pools hold exactly the available devices of the node, those the whitelist lets in, and
  the statuses of linked functions agree.
\<close>

definition pools_hold_available :: "pci_tracker \<Rightarrow> bool" where
  "pools_hold_available t \<longleftrightarrow> (\<forall>d \<in> set (pci_devs t). dev_key (sys t) d \<noteq> Inr None \<longrightarrow>
     (d \<in> set (free_devs (sys t)) \<longleftrightarrow> status (dev_at t d) = AVAILABLE))"

definition tracker_ok :: "pci_tracker \<Rightarrow> bool" where
  "tracker_ok t \<longleftrightarrow> sys_ok (set (pci_devs t)) (\<lambda>_. 0) (sys t) \<and> balanced (heap (store (sys t))) \<and>
     pools_hold_available t"

lemma tracker_okD:
  assumes "tracker_ok t"
  shows "sys_ok (set (pci_devs t)) (\<lambda>_. 0) (sys t)" "balanced (heap (store (sys t)))" "links_ok (heap (store (sys t)))"
    "d \<in> set (pci_devs t) \<Longrightarrow> dev_key (sys t) d \<noteq> Inr None \<Longrightarrow>
       d \<in> set (free_devs (sys t)) \<longleftrightarrow> status (dev_at t d) = AVAILABLE"
  using assms sys_okD(2) unfolding tracker_ok_def pools_hold_available_def by blast+

lemma free_dev_available:
  assumes "tracker_ok t" "d \<in> set (free_devs (sys t))"
  shows "status (dev_at t d) = AVAILABLE" "d \<in> set (pci_devs t)"
proof -
  show d: "d \<in> set (pci_devs t)" using sys_okD(4) [OF tracker_okD(1) [OF assms(1)]] assms(2) by blast
  have "dev_key (sys t) d \<noteq> Inr None"
    by (rule free_dev_pool [OF sys_okD(1) [OF tracker_okD(1) [OF assms(1)]] assms(2)]) simp
  with tracker_okD(4) [OF assms(1) d] assms(2) show "status (dev_at t d) = AVAILABLE" by simp
qed

lemma tracker_whole:
  assumes "tracker_ok t"
  shows "whole (sys t)"
  unfolding whole_def
proof (intro allI impI)
  fix c p assume cp: "parent_device (dev_at t c) = Some p" and p: "p \<in> set (free_devs (sys t))"
  note pa = free_dev_available [OF assms p]
  have "status (dev_at t c) = AVAILABLE"
    using balancedD(1,2,3) [OF tracker_okD(2) [OF assms] cp] pa(1) live_cases by force
  moreover have "c \<in> set (pci_devs t)" using sys_okD(5) [OF tracker_okD(1) [OF assms] cp] pa(2) by simp
  ultimately show "dev_key (sys t) c = Inr None \<or> c \<in> set (free_devs (sys t))"
    using tracker_okD(4) [OF assms] by blast
qed

lemma on_store_foreach: "sforeach ds (\<lambda>d. on_store (f d)) t = on_store (sforeach ds f) t"
proof (induction ds arbitrary: t)
  case (Cons d ds)
  show ?case
    by (cases "f d (store (sys t))"; cases "fst (f d (store (sys t)))")
      (simp_all add: sbind_def on_store_def Cons [unfolded on_store_def] split: prod.splits)
qed (simp add: on_store_def sreturn_def)

lemma dev_key_shape:
  assumes "filter_ok (dev_filter (stats s))" "dev_shape (heap st' d) = dev_shape (heap (store s) d)"
  shows "dev_key (s\<lparr>store := st'\<rparr>) d = dev_key s d"
proof -
  have "dev_filter (stats s) (heap st' d) = dev_filter (stats s) (heap (store s) d)"
    by (rule filter_okD(1) [OF assms(1)]) (use assms(2) in \<open>simp_all add: dev_shape_def\<close>)
  then show ?thesis using assms(2)
    by (simp add: dev_key_def create_pool_keys_from_dev_def dev_props_def dev_shape_def)
qed

lemma sys_ok_shape:
  assumes ok: "sys_ok D pend s" and shape: "\<And>x. dev_shape (heap st' x) = dev_shape (heap (store s) x)"
  shows "sys_ok D pend (s\<lparr>store := st'\<rparr>)"
proof -
  let ?s = "s\<lparr>store := st'\<rparr>"
  have key: "dev_key ?s x = dev_key s x" for x using dev_key_shape [OF sys_okD(6) [OF ok] shape] .
  have sel: "parent_device (heap (store ?s) x) = parent_device (heap (store s) x)"
    "address (heap (store ?s) x) = address (heap (store s) x)" "stats ?s = stats s" for x
    using dev_shapeD(2,4) [of "heap st'" "heap (store s)", OF shape] by simp_all
  have "pools_inv pend ?s" using sys_okD(1) [OF ok] unfolding pools_inv_def key sel(3) .
  moreover have "links_ok (heap (store ?s))"
    using links_ok_shape [of "heap st'" "heap (store s)", OF shape] sys_okD(2) [OF ok] by simp
  ultimately show ?thesis
    using sys_okD(3-) [OF ok] unfolding sys_ok_def addr_inj_def key sel by blast
qed

lemma claim_loop_ok:
  assumes ok: "sys_ok (set (pci_devs t)) (\<lambda>_. 0) (sys t)" and bal: "balanced (heap (store (sys t)))"
    and ds: "distinct ds" "\<forall>d \<in> set ds. status (dev_at t d) = AVAILABLE"
      "\<forall>d \<in> set ds. \<forall>e \<in> set ds. \<not> linked (sys t) d e"
    and held: "\<forall>d \<in> set (pci_devs t). dev_key (sys t) d \<noteq> Inr None \<longrightarrow>
      (d \<in> set (free_devs (sys t)) \<longleftrightarrow> status (dev_at t d) = AVAILABLE \<and> d \<notin> set ds \<and> \<not> (\<exists>e \<in> set ds. linked (sys t) e d))"
  shows "\<exists>t'. sforeach ds (\<lambda>d. on_store (claim d u)) t = (Inr (), t') \<and> tracker_ok t' \<and>
    claim_result ds u (store (sys t)) (store (sys t')) \<and> pci_devs t' = pci_devs t \<and> claims t' = claims t \<and>
    allocations t' = allocations t \<and> stats (sys t') = stats (sys t)"
proof -
  have "\<forall>d \<in> set ds. \<forall>e \<in> set ds. parent_device (dev_at t d) \<noteq> Some e" using ds(3) by (auto simp: linked_def)
  from claim_all [OF sys_okD(2) [OF ok] bal ds(1,2) this, of u] obtain st' where
    run: "sforeach ds (\<lambda>d. claim d u) (store (sys t)) = (Inr (), st')" and bal': "balanced (heap st')"
    and res: "claim_result ds u (store (sys t)) st'" by blast
  let ?t = "t\<lparr>sys := (sys t)\<lparr>store := st'\<rparr>\<rparr>"
  have shape: "dev_shape (heap st' x) = dev_shape (dev_at t x)" for x using res by (simp add: claim_result_def)
  have av: "status (heap st' x) = AVAILABLE \<longleftrightarrow> status (dev_at t x) = AVAILABLE \<and> x \<notin> set ds \<and> \<not> (\<exists>e \<in> set ds. linked (sys t) e x)" for x
    using res unfolding claim_result_def linked_def by auto
  have "pools_hold_available ?t"
    using held av dev_key_shape [OF sys_okD(6) [OF ok] shape] by (simp add: pools_hold_available_def)
  then have "tracker_ok ?t" using sys_ok_shape [OF ok shape] bal' by (simp add: tracker_ok_def)
  then show ?thesis using run res by (simp add: on_store_foreach on_store_def)
qed

lemma balanced_same_devs:
  assumes "same_devs s s'" "balanced (heap (store s))"
  shows "balanced (heap (store s'))"
  using assms(2) unfolding balanced_def same_devs_sel(2,3,5) [OF assms(1)] .

lemma claim_devices_ok:
  assumes ok: "tracker_ok t" and reqs: "\<forall>req \<in> set reqs. unmixed req"
  shows "\<exists>r t'. claim_devices u reqs t = (Inr r, t') \<and> pci_devs t' = pci_devs t \<and> claims t' = claims t \<and>
    (case r of
       Some ds \<Rightarrow> tracker_ok t' \<and> ds \<noteq> [] \<and> allocated (sys t) reqs ds \<and> set ds \<subseteq> set (free_devs (sys t)) \<and>
         (\<forall>d \<in> set ds. status (dev_at t' d) = CLAIMED \<and> container_uuid (dev_at t' d) = Val (Some u)) \<and>
         (\<forall>x. in_use (status (dev_at t x)) \<longrightarrow> status (dev_at t' x) = status (dev_at t x) \<and>
            container_uuid (dev_at t' x) = container_uuid (dev_at t x))
     | None \<Rightarrow> \<forall>x. status (dev_at t' x) = status (dev_at t x))"
proof -
  obtain r s' where run: "consume_from [] [] reqs (sys t) = (Inr r, s')" "sys_ok (set (pci_devs t)) (\<lambda>_. 0) s'"
      "same_devs (sys t) s'"
    and out: "case r of Some ds' \<Rightarrow> (\<exists>ds. ds' = [] @ ds \<and> allocated (sys t) reqs ds \<and> taken (sys t) ds s') | None \<Rightarrow> True"
    using consume_from_ok [OF tracker_okD(1) [OF ok] tracker_whole [OF ok] reqs, of "[]" "[]"]
    by (auto split: option.splits)
  note st = same_devs_sel [OF run(3)]
  let ?t1 = "t\<lparr>sys := s'\<rparr>"
  have start: "on_sys (consume_requests reqs []) t = (Inr r, ?t1)" using run(1) by (simp add: on_sys_def consume_requests_def)
  show ?thesis
  proof (cases "r = None \<or> r = Some []")
    case True
    then have "claim_devices u reqs t = (Inr None, ?t1)"
      using start by (auto simp: claim_devices_def sbind_def sreturn_def)
    then show ?thesis using st(2) by simp
  next
    case False
    then obtain ds where r: "r = Some ds" "ds \<noteq> []" by auto
    with out have ds: "allocated (sys t) reqs ds" "taken (sys t) ds s'" by auto
    note tk = takenD [OF ds(2)]
    have key: "dev_key s' x = dev_key (sys t) x" for x
      using same_devs_key [OF run(3) sys_okD(6) [OF tracker_okD(1) [OF ok]]] .
    have "\<exists>t'. sforeach ds (\<lambda>d. on_store (claim d u)) ?t1 = (Inr (), t') \<and> tracker_ok t' \<and>
      claim_result ds u (store (sys ?t1)) (store (sys t')) \<and> pci_devs t' = pci_devs ?t1 \<and> claims t' = claims ?t1 \<and>
      allocations t' = allocations ?t1 \<and> stats (sys t') = stats (sys ?t1)"
    proof (rule claim_loop_ok)
      show "\<forall>d \<in> set ds. status (dev_at ?t1 d) = AVAILABLE" using tk(3) free_dev_available(1) [OF ok] st(2) by auto
      show "\<forall>d \<in> set ds. \<forall>e \<in> set ds. \<not> linked (sys ?t1) d e" using tk(7) st(6) by simp
      show "\<forall>d \<in> set (pci_devs ?t1). dev_key (sys ?t1) d \<noteq> Inr None \<longrightarrow>
          (d \<in> set (free_devs (sys ?t1)) \<longleftrightarrow> status (dev_at ?t1 d) = AVAILABLE \<and> d \<notin> set ds \<and> \<not> (\<exists>e \<in> set ds. linked (sys ?t1) e d))"
        using tk(5) tracker_okD(4) [OF ok] st(2,6) key by auto
    qed (use run(2) tk(2) balanced_same_devs [OF run(3) tracker_okD(2) [OF ok]] in auto)
    then obtain t' where t': "sforeach ds (\<lambda>d. on_store (claim d u)) ?t1 = (Inr (), t')" "tracker_ok t'"
      "claim_result ds u (store s') (store (sys t'))" "pci_devs t' = pci_devs t" "claims t' = claims t" by auto
    have "claim_devices u reqs t = (Inr (Some ds), t')"
      using start r t'(1) by (cases ds) (auto simp: claim_devices_def sbind_def sreturn_def)
    moreover have "status (dev_at t' x) = status (dev_at t x) \<and> container_uuid (dev_at t' x) = container_uuid (dev_at t x)"
      if "in_use (status (dev_at t x))" for x
    proof -
      have "x \<notin> set ds" using tk(3) free_dev_available(1) [OF ok] that by fastforce
      moreover have "container_uuid (heap (store s') x) = container_uuid (dev_at t x)"
        using run(3) unfolding same_devs_def by (metis (no_types) pci_fields.select_convs(11) pci_fields.surjective pci_fields.update_convs(12))
      ultimately show ?thesis using t'(3) that st(2) [of x] unfolding claim_result_def by auto
    qed
    ultimately show ?thesis using t' r ds(1) tk(3) by (auto simp: claim_result_def)
  qed
qed

lemma on_sys_foreach: "sforeach ds (\<lambda>d. on_sys (f d)) t = on_sys (sforeach ds f) t"
proof (induction ds arbitrary: t)
  case (Cons d ds)
  show ?case
    by (cases "f d (sys t)"; cases "fst (f d (sys t))")
      (simp_all add: sbind_def on_sys_def Cons [unfolded on_sys_def] split: prod.splits)
qed (simp add: on_sys_def sreturn_def)

definition ids_set :: "pci_tracker \<Rightarrow> bool" where
  "ids_set t \<longleftrightarrow> (\<forall>x. d_id (dev_at t x) \<noteq> Unset \<or> parent_device (dev_at t x) = None)"

lemma freed_in_devs:
  assumes "sys_ok D pend s" "d \<in> D" "freed (heap (store s)) d x"
  shows "x \<in> D"
  using assms(2,3) sys_okD(5) [OF assms(1)] by (auto simp: freed_def)

lemma free_tracked_ok:
  assumes ok: "tracker_ok t" and d: "d \<in> set (pci_devs t)" and used: "in_use (status (dev_at t d))"
    and ids: "ids_set t" and fresh: "dict_get (stale t) (address (dev_at t d)) = None"
  shows "\<exists>t' st'. free_tracked d t = (Inr (), t') \<and> tracker_ok t' \<and> free None d (store (sys t)) = (Inr st', store (sys t')) \<and>
    pci_devs t' = pci_devs t \<and> stale t' = stale t \<and> claims t' = claims t \<and> allocations t' = allocations t"
proof -
  note links = tracker_okD(3) [OF ok]
  obtain fs st' where run: "free None d (store (sys t)) = (Inr fs, st')"
    using free_succeeds [OF links used] ids unfolding ids_set_def by blast
  note eff = free_effect [OF links run]
  let ?s1 = "(sys t)\<lparr>store := st'\<rparr>"
  have ok1: "sys_ok (set (pci_devs t)) (\<lambda>_. 0) ?s1" by (rule sys_ok_shape [OF tracker_okD(1) [OF ok] eff(2)])
  have key1: "dev_key ?s1 x = dev_key (sys t) x" for x
    using dev_key_shape [OF sys_okD(6) [OF tracker_okD(1) [OF ok]] eff(2)] .
  have was: "status (dev_at t x) \<noteq> AVAILABLE" if "x \<in> set fs" for x
    using freed_was [OF balanced_exclusive [OF tracker_okD(2) [OF ok]] used] that eff(4) by blast
  have in_devs: "set fs \<subseteq> set (pci_devs t)" using eff(4) freed_in_devs [OF tracker_okD(1) [OF ok] d] by auto
  have "set fs \<inter> set (free_devs ?s1) = {}" using was free_dev_available(1) [OF ok] by auto
  then obtain s2 where s2: "sforeach fs add_device ?s1 = (Inr (), s2)" "sys_ok (set (pci_devs t)) (\<lambda>_. 0) s2"
    "set (free_devs s2) = set (free_devs (sys t)) \<union> {x \<in> set fs. dev_key (sys t) x \<noteq> Inr None}" "store s2 = st'"
    "dev_filter (stats s2) = dev_filter (stats (sys t))"
    using add_devices_ok [OF ok1 eff(5) _ in_devs] unfolding key1 by auto
  let ?t = "t\<lparr>sys := s2\<rparr>"
  have "address (heap st' d) = address (dev_at t d)"
    using dev_shapeD(2) [of "heap st'" "heap (store (sys t))", OF eff(2)] .
  then have go: "free_tracked d t = (Inr (), ?t)"
    using run fresh s2(1) unfolding free_tracked_def sbind_def on_sys_foreach
    by (simp add: on_store_def on_sys_def smodify_def)
  have key2: "dev_key s2 x = dev_key (sys t) x" for x
    using dev_key_with_stats [of s2 ?s1 x] s2(4,5) key1 by simp
  have "pools_hold_available ?t"
    unfolding pools_hold_available_def
  proof (intro ballI impI)
    fix x assume x: "x \<in> set (pci_devs ?t)" "dev_key (sys ?t) x \<noteq> Inr None"
    then show "x \<in> set (free_devs (sys ?t)) \<longleftrightarrow> status (dev_at ?t x) = AVAILABLE"
      using tracker_okD(4) [OF ok, of x] s2(3,4) eff(3) [of x] eff(4) key2 by auto
  qed
  then have "tracker_ok ?t"
    using s2(2,4) free_balanced [OF links tracker_okD(2) [OF ok] run] by (simp add: tracker_ok_def)
  with go run s2(4) show ?thesis by (intro exI [of _ ?t] exI [of _ fs]) simp
qed

text \<open>What \<open>free_container\<close> relies on besides the invariant: ids and owners are set and no
  host update is waiting for an assigned device.\<close>

definition settled :: "pci_tracker \<Rightarrow> bool" where
  "settled t \<longleftrightarrow> tracker_ok t \<and> ids_set t \<and> stale t = [] \<and>
     (\<forall>x. in_use (status (dev_at t x)) \<longrightarrow> container_uuid (dev_at t x) \<noteq> Unset)"

lemma settledD:
  assumes "settled t"
  shows "tracker_ok t" "ids_set t" "stale t = []" "in_use (status (dev_at t x)) \<Longrightarrow> container_uuid (dev_at t x) \<noteq> Unset"
  using assms unfolding settled_def by blast+

lemma free_if_owned_ok:
  assumes set: "settled t" and d: "d \<in> set (pci_devs t)"
  shows "\<exists>t'. free_if_owned u d t = (Inr (), t') \<and> settled t' \<and> pci_devs t' = pci_devs t \<and>
    claims t' = claims t \<and> allocations t' = allocations t \<and>
    (\<forall>x. in_use (status (dev_at t' x)) \<longleftrightarrow> in_use (status (dev_at t x)) \<and>
       \<not> (x = d \<and> container_uuid (dev_at t x) = Val (Some u))) \<and>
    (\<forall>x. in_use (status (dev_at t' x)) \<longrightarrow> container_uuid (dev_at t' x) = container_uuid (dev_at t x))"
proof (cases "in_use (status (dev_at t d)) \<and> container_uuid (dev_at t d) = Val (Some u)")
  case False
  then have "free_if_owned u d t = (Inr (), t)"
    using settledD(4) [OF set, of d] by (auto simp: free_if_owned_def in_use_def)
  then show ?thesis using False set by (intro exI [of _ t]) auto
next
  case True
  obtain t' fs where go: "free_tracked d t = (Inr (), t')" and t': "tracker_ok t'"
      "free None d (store (sys t)) = (Inr fs, store (sys t'))"
      "pci_devs t' = pci_devs t" "stale t' = stale t" "claims t' = claims t" "allocations t' = allocations t"
    using free_tracked_ok [OF settledD(1) [OF set] d _ settledD(2) [OF set]] True settledD(3) [OF set] by auto
  note eff = free_effect [OF tracker_okD(3) [OF settledD(1) [OF set]] t'(2)]
  have ids: "ids_set t'"
    using settledD(2) [OF set] dev_shapeD(1,4) [of "heap (store (sys t'))" "heap (store (sys t))", OF eff(2)]
    by (simp add: ids_set_def)
  have ex: "exclusive (heap (store (sys t)))" using balanced_exclusive tracker_okD(2) settledD(1) [OF set] by blast
  have use: "in_use (status (dev_at t' x)) \<longleftrightarrow> in_use (status (dev_at t x)) \<and> x \<noteq> d" for x
    using eff(3) [of x] exclusiveD [OF ex] eff(1) shut_not_in_use by (auto simp: freed_def)
  then have "settled t'"
    using t'(1,4) ids settledD(3,4) [OF set] eff(6) by (simp add: settled_def)
  moreover have "free_if_owned u d t = (Inr (), t')" using True go by (auto simp: free_if_owned_def in_use_def)
  ultimately show ?thesis using t' use eff(6) True by (intro exI [of _ t']) auto
qed

lemma free_owned_loop:
  assumes "settled t" "set ds \<subseteq> set (pci_devs t)"
  shows "\<exists>t'. sforeach ds (free_if_owned u) t = (Inr (), t') \<and> settled t' \<and> pci_devs t' = pci_devs t \<and>
    claims t' = claims t \<and> allocations t' = allocations t \<and>
    (\<forall>x. in_use (status (dev_at t' x)) \<longleftrightarrow> in_use (status (dev_at t x)) \<and>
       \<not> (x \<in> set ds \<and> container_uuid (dev_at t x) = Val (Some u))) \<and>
    (\<forall>x. in_use (status (dev_at t' x)) \<longrightarrow> container_uuid (dev_at t' x) = container_uuid (dev_at t x))"
  using assms
proof (induction ds arbitrary: t)
  case Nil
  then show ?case by (simp add: sreturn_def)
next
  case (Cons d ds)
  obtain t1 where t1: "free_if_owned u d t = (Inr (), t1)" "settled t1" "pci_devs t1 = pci_devs t"
    "claims t1 = claims t" "allocations t1 = allocations t"
    "\<And>x. in_use (status (dev_at t1 x)) \<longleftrightarrow> in_use (status (dev_at t x)) \<and>
       \<not> (x = d \<and> container_uuid (dev_at t x) = Val (Some u))"
    "\<And>x. in_use (status (dev_at t1 x)) \<Longrightarrow> container_uuid (dev_at t1 x) = container_uuid (dev_at t x)"
    using free_if_owned_ok [OF Cons.prems(1), of d u] Cons.prems(2) by auto
  obtain t2 where t2: "sforeach ds (free_if_owned u) t1 = (Inr (), t2)" "settled t2" "pci_devs t2 = pci_devs t1"
    "claims t2 = claims t1" "allocations t2 = allocations t1"
    "\<And>x. in_use (status (dev_at t2 x)) \<longleftrightarrow> in_use (status (dev_at t1 x)) \<and>
       \<not> (x \<in> set ds \<and> container_uuid (dev_at t1 x) = Val (Some u))"
    "\<And>x. in_use (status (dev_at t2 x)) \<Longrightarrow> container_uuid (dev_at t2 x) = container_uuid (dev_at t1 x)"
    using Cons.IH [OF t1(2)] Cons.prems(2) t1(3) by auto
  have "in_use (status (dev_at t2 x)) \<longleftrightarrow> in_use (status (dev_at t x)) \<and>
       \<not> (x \<in> set (d # ds) \<and> container_uuid (dev_at t x) = Val (Some u))" for x
    using t1(6,7) [of x] t2(6) [of x] by auto
  moreover have "container_uuid (dev_at t2 x) = container_uuid (dev_at t x)" if "in_use (status (dev_at t2 x))" for x
    using t1(7) [of x] t2(6,7) [of x] that by simp
  ultimately show ?case using t1(1,3-5) t2(1-5) by (intro exI [of _ t2]) (simp add: sbind_def)
qed

section \<open>Properties\<close>

lemma sys_ok_subset:
  assumes ok: "sys_ok UNIV pend s" and sub: "set (free_devs s) \<subseteq> D"
    and closed: "\<And>c p. parent_device (heap (store s) c) = Some p \<Longrightarrow> c \<in> D \<longleftrightarrow> p \<in> D"
  shows "sys_ok D pend s"
proof -
  have "addr_inj s D" using sys_okD(3) [OF ok] unfolding addr_inj_def by (rule inj_on_subset) simp
  then show ?thesis using sys_okD(1,2,6,7) [OF ok] sub closed unfolding sys_ok_def by blast
qed

definition ex_tracker :: "pci_sys \<Rightarrow> dref list \<Rightarrow> pci_tracker" where
  "ex_tracker s devs = \<lparr>sys = s, pci_devs = devs, stale = [], node_id = None, claims = [(Some ''c'', devs)],
     allocations = [], next_dev = 10, fresh_uuid = (\<lambda>_. ''u'')\<rparr>"

lemma ex_tracker_free_ok: "tracker_ok (ex_tracker ex_sys [0, 1, 2])"
proof -
  have "sys_ok {0, 1, 2} (\<lambda>_. 0) ex_sys"
    by (rule sys_ok_subset [OF ex_sys_ok(1)]) (auto simp: ex_sys_ok(2) ex_sys_links split: if_splits)
  moreover have "balanced (heap (store ex_sys))"
  proof -
    have "dev_type (heap (store ex_sys) d) = SRIOV_PF \<longleftrightarrow> d = 0" for d by (simp add: ex_sys_ok(3) ex_node_def)
    then show ?thesis unfolding balanced_def ex_sys_links by (auto simp: live_def split: if_splits)
  qed
  ultimately show ?thesis
    by (auto simp: tracker_ok_def ex_tracker_def pools_hold_available_def ex_sys_ok(2) ex_sys_links)
qed

definition ex_used :: pci_sys where
  \<comment> \<open>no pools; device 3, an ordinary one, is claimed\<close>
  "ex_used = ex_node (\<lambda>d. (ex_heap d)\<lparr>dev_type := STANDARD, parent_device := None, child_devices := [],
     status := (if d = 3 then CLAIMED else AVAILABLE), container_uuid := Val (Some ''c'')\<rparr>)"

lemma ex_tracker_settled: "settled (ex_tracker ex_used [3])"
proof -
  have sel: "parent_device (heap (store ex_used) d) = None" "d_id (heap (store ex_used) d) = Val (int d)"
    "status (heap (store ex_used) d) = (if d = 3 then CLAIMED else AVAILABLE)"
    "dev_type (heap (store ex_used) d) = STANDARD" "container_uuid (heap (store ex_used) d) = Val (Some ''c'')" for d
    by (simp_all add: ex_used_def ex_node_def)
  have free: "free_devs ex_used = []" by (simp add: ex_used_def ex_node_def get_free_devs_def)
  have "sys_ok UNIV (\<lambda>_. 0) ex_used" unfolding ex_used_def by (rule ex_node_ok) (simp add: links_ok_def)
  then have "sys_ok {3} (\<lambda>_. 0) ex_used" by (rule sys_ok_subset) (simp_all add: free sel)
  moreover have "balanced (heap (store ex_used))" by (simp add: balanced_def sel)
  ultimately show ?thesis
    by (simp add: settled_def tracker_ok_def ex_tracker_def pools_hold_available_def ids_set_def free sel)
qed

text \<open>
  C2. \<open>claim_container\<close> on a well-formed tracker never raises. When it claims devices, they
  meet the requests in order and number, were free, are now claimed by the container and are
  recorded under it; no device in use changes hands, and the tracker stays well formed: the
  pools hold exactly the devices that are still available, and no function is available
  while the function it is linked to is in use. Otherwise no status changes.
\<close>

theorem claim_container_spec:
  assumes "tracker_ok t" "pci_devs t \<noteq> []" "reqs \<noteq> []" "\<forall>req \<in> set reqs. unmixed req"
  shows "\<exists>r t'. claim_container u (Some reqs) t = (Inr r, t') \<and>
    (case r of
       Some ds \<Rightarrow> tracker_ok t' \<and> claims t' = dict_set (Some u) ds (claims t) \<and> allocated (sys t) reqs ds \<and>
         set ds \<subseteq> set (free_devs (sys t)) \<and>
         (\<forall>d \<in> set ds. status (dev_at t' d) = CLAIMED \<and> container_uuid (dev_at t' d) = Val (Some u)) \<and>
         (\<forall>x. in_use (status (dev_at t x)) \<longrightarrow> status (dev_at t' x) = status (dev_at t x) \<and>
            container_uuid (dev_at t' x) = container_uuid (dev_at t x))
     | None \<Rightarrow> claims t' = claims t \<and> (\<forall>x. status (dev_at t' x) = status (dev_at t x)))"
proof -
  obtain r t1 where run: "claim_devices u reqs t = (Inr r, t1)" "pci_devs t1 = pci_devs t" "claims t1 = claims t"
    and out: "case r of
       Some ds \<Rightarrow> tracker_ok t1 \<and> ds \<noteq> [] \<and> allocated (sys t) reqs ds \<and> set ds \<subseteq> set (free_devs (sys t)) \<and>
         (\<forall>d \<in> set ds. status (dev_at t1 d) = CLAIMED \<and> container_uuid (dev_at t1 d) = Val (Some u)) \<and>
         (\<forall>x. in_use (status (dev_at t x)) \<longrightarrow> status (dev_at t1 x) = status (dev_at t x) \<and>
            container_uuid (dev_at t1 x) = container_uuid (dev_at t x))
     | None \<Rightarrow> \<forall>x. status (dev_at t1 x) = status (dev_at t x)"
    using claim_devices_ok [OF assms(1,4), of u] by blast
  show ?thesis
  proof (cases r)
    case None
    then show ?thesis using run out assms(2,3)
      by (intro exI [of _ None] exI [of _ t1]) (simp add: claim_container_def sbind_def sreturn_def)
  next
    case (Some ds)
    let ?t = "t1\<lparr>claims := dict_set (Some u) ds (claims t1)\<rparr>"
    have "tracker_ok ?t" using out Some by (simp add: tracker_ok_def pools_hold_available_def)
    then show ?thesis using run out Some assms(2,3)
      by (intro exI [of _ "Some ds"] exI [of _ ?t]) (simp add: claim_container_def sbind_def sreturn_def smodify_def)
  qed
qed

theorem claim_container_spec_witness:
  "\<exists>r t'. claim_container ''d'' (Some [ex_vf_request 1]) (ex_tracker ex_sys [0, 1, 2]) = (Inr r, t')"
  using claim_container_spec [OF ex_tracker_free_ok, of "[ex_vf_request 1]" "''d''"] ex_vf_unmixed
  by (auto simp: ex_tracker_def)

text \<open>
  C26. \<open>free_container\<close>, for a container that holds devices, never raises when the ids of
  virtual functions are set and no host update is pending: afterwards exactly the devices the
  container held are no longer in use, the devices of other containers keep their owner, the
  container has no claim or allocation left that was recorded where its devices were found,
  and the pools again hold exactly the available devices.
\<close>

theorem free_container_spec:
  assumes "settled t" "mapping_get (allocations t) (Some u) \<noteq> [] \<or> mapping_get (claims t) (Some u) \<noteq> []"
  shows "\<exists>t'. free_container u t = (Inr (), t') \<and> tracker_ok t' \<and> mapping_get (allocations t') (Some u) = [] \<and>
    (mapping_get (allocations t) (Some u) = [] \<longrightarrow> mapping_get (claims t') (Some u) = []) \<and>
    (\<forall>d \<in> set (pci_devs t). in_use (status (dev_at t' d)) \<longleftrightarrow>
       in_use (status (dev_at t d)) \<and> container_uuid (dev_at t d) \<noteq> Val (Some u)) \<and>
    (\<forall>x. in_use (status (dev_at t' x)) \<longrightarrow> container_uuid (dev_at t' x) = container_uuid (dev_at t x))"
proof -
  let ?t1 = "t\<lparr>allocations := dict_del (Some u) (allocations t)\<rparr>"
  let ?t2 = "?t1\<lparr>claims := dict_del (Some u) (claims t)\<rparr>"
  define t0 where "t0 = (if mapping_get (allocations t) (Some u) \<noteq> [] then ?t1 else ?t2)"
  have t0: "sys t0 = sys t" "pci_devs t0 = pci_devs t" "stale t0 = stale t"
    "mapping_get (allocations t0) (Some u) = []"
    "mapping_get (allocations t) (Some u) = [] \<Longrightarrow> mapping_get (claims t0) (Some u) = []"
    by (simp_all add: t0_def mapping_get_def)
  have "settled t0" using assms(1) t0(1-3) by (simp add: settled_def tracker_ok_def pools_hold_available_def ids_set_def)
  from free_owned_loop [OF this, of "pci_devs t0" u] obtain t' where
    t': "sforeach (pci_devs t0) (free_if_owned u) t0 = (Inr (), t')" "settled t'"
      "claims t' = claims t0" "allocations t' = allocations t0"
      "\<And>x. in_use (status (dev_at t' x)) \<longleftrightarrow> in_use (status (dev_at t0 x)) \<and>
         \<not> (x \<in> set (pci_devs t0) \<and> container_uuid (dev_at t0 x) = Val (Some u))"
      "\<And>x. in_use (status (dev_at t' x)) \<Longrightarrow> container_uuid (dev_at t' x) = container_uuid (dev_at t0 x)" by auto
  have "free_container u t = (Inr (), t')"
    using t'(1) assms(2) by (simp add: free_container_def Let_def t0_def split: if_splits)
  then show ?thesis using t' t0 settledD(1) [OF t'(2)] by (intro exI [of _ t']) auto
qed

theorem free_container_spec_witness:
  "\<exists>t'. free_container ''c'' (ex_tracker ex_used [3]) = (Inr (), t') \<and> \<not> in_use (status (dev_at t' 3))"
  using free_container_spec [OF ex_tracker_settled, of "''c''"]
  by (auto simp: ex_tracker_def mapping_get_def ex_used_def ex_node_def)

text \<open>
  \<open>save\<close> removes deleted devices from the list it iterates over: of two neighbouring
  removed devices it deletes the first from the database and skips the second, which stays in
  the list as removed.
\<close>

theorem save_skips_neighbour:
  assumes "pci_devs t = [a, b]" "a \<noteq> b" "status (dev_at t a) = REMOVED" "status (dev_at t b) = REMOVED"
  shows "fst (save_tracker (\<lambda>_ _. True) t) = [DestroyPciDevice (compute_node_uuid (dev_at t a)) (address (dev_at t a))] \<and>
    pci_devs (snd (save_tracker (\<lambda>_ _. True) t)) = [b] \<and>
    status (dev_at (snd (save_tracker (\<lambda>_ _. True) t)) b) = REMOVED"
  using assms by (simp add: save_tracker_def save_loop.simps save_dev_def set_dev_def)

theorem save_skips_neighbour_witness:
  "pci_devs (snd (save_tracker (\<lambda>_ _. True)
     (ex_tracker (ex_node (\<lambda>d. (ex_heap d)\<lparr>status := REMOVED\<rparr>)) [1, 2]))) = [2]"
proof -
  let ?t = "ex_tracker (ex_node (\<lambda>d. (ex_heap d)\<lparr>status := REMOVED\<rparr>)) [1, 2]"
  have "status (dev_at ?t d) = REMOVED" "pci_devs ?t = [1, 2]" for d by (simp_all add: ex_tracker_def ex_node_def)
  with save_skips_neighbour [of ?t 1 2] show ?thesis by simp
qed

end
