(* ===== verification/Py_Numbers.thy ===== *)
theory Py_Numbers
  imports Prelude
begin

text \<open>
  Numbers in text, as Python's \<open>int\<close> reads them (blanks around them, a sign, digits with single
  underscores between them, for base 16 also a prefix) and as its formats write them.
\<close>

section \<open>Reading\<close>

definition is_digit :: "char \<Rightarrow> bool" where
  "is_digit c \<longleftrightarrow> of_char c \<in> {48::nat..57}"

definition is_hex :: "char \<Rightarrow> bool" where
  "is_hex c \<longleftrightarrow> is_digit c \<or> of_char c \<in> {97::nat..102} \<or> of_char c \<in> {65::nat..70}"

definition is_blank :: "char \<Rightarrow> bool" where
  "is_blank c \<longleftrightarrow> of_char c \<in> {9::nat, 10, 11, 12, 13, 32}"

definition strip :: "string \<Rightarrow> string" where
  "strip s = rev (dropWhile is_blank (rev (dropWhile is_blank s)))"

definition digit_value :: "char \<Rightarrow> nat" where
  "digit_value c = (if is_digit c then of_char c - 48 else if of_char c \<ge> (97::nat) then of_char c - 87 else of_char c - 55)"

definition digits_value :: "nat \<Rightarrow> string \<Rightarrow> nat" where
  "digits_value b = foldl (\<lambda>n c. b * n + digit_value c) 0"

text \<open>The digits, without the underscores between them.\<close>

fun digit_groups :: "(char \<Rightarrow> bool) \<Rightarrow> string \<Rightarrow> string option" where
  "digit_groups ok [] = None"
| "digit_groups ok [c] = (if ok c then Some [c] else None)"
| "digit_groups ok (c # d # cs) =
     (if \<not> ok c then None
      else map_option ((#) c) (digit_groups ok (if d = CHR ''_'' then cs else d # cs)))"

definition signed :: "(string \<Rightarrow> nat option) \<Rightarrow> string \<Rightarrow> int option" where
  "signed num t =
     (if t \<noteq> [] \<and> hd t \<in> {CHR ''-'', CHR ''+''}
      then map_option (\<lambda>n. (if hd t = CHR ''-'' then -1 else 1) * int n) (num (tl t))
      else map_option int (num t))"

definition py_int :: "string \<Rightarrow> int option" where
  "py_int s = signed (\<lambda>t. map_option (digits_value 10) (digit_groups is_digit t)) (strip s)"

definition hex_body :: "string \<Rightarrow> string" where
  "hex_body t =
     (if take 2 t \<in> {''0x'', ''0X''}
      then (if take 1 (drop 2 t) = ''_'' then drop 3 t else drop 2 t) else t)"

definition py_hex :: "string \<Rightarrow> int option" where
  \<comment> \<open>\<open>int(s, 16)\<close>\<close>
  "py_hex s = signed (\<lambda>t. map_option (digits_value 16) (digit_groups is_hex (hex_body t))) (strip s)"

section \<open>Writing\<close>

definition hex_char :: "nat \<Rightarrow> char" where
  "hex_char n = char_of (if n < 10 then 48 + n else 87 + n)"

fun hex_nat :: "nat \<Rightarrow> string" where
  "hex_nat n = (if n < 16 then [hex_char n] else hex_nat (n div 16) @ [hex_char (n mod 16)])"

declare hex_nat.simps [simp del]

definition zero_fill :: "nat \<Rightarrow> string \<Rightarrow> string" where
  "zero_fill w s = replicate (w - length s) (CHR ''0'') @ s"

definition fmt_hex :: "nat \<Rightarrow> int \<Rightarrow> string" where
  \<comment> \<open>the formats \<open>%0wx\<close>\<close>
  "fmt_hex w v = (if v < 0 then ''-'' @ zero_fill (w - 1) (hex_nat (nat (- v))) else zero_fill w (hex_nat (nat v)))"

section \<open>Reading back\<close>

lemma hex_char_value: "n < 16 \<Longrightarrow> digit_value (hex_char n) = n \<and> is_hex (hex_char n)"
  by (auto simp: digit_value_def hex_char_def is_digit_def is_hex_def)

lemma digits_value_snoc [simp]: "digits_value b (s @ [c]) = b * digits_value b s + digit_value c"
  by (simp add: digits_value_def)

lemma hex_nat_value: "digits_value 16 (hex_nat n) = n \<and> list_all is_hex (hex_nat n) \<and> hex_nat n \<noteq> []"
proof (induction n rule: hex_nat.induct)
  case (1 n)
  show ?case
  proof (cases "n < 16")
    case True
    then show ?thesis using hex_char_value [of n] by (subst (1 2 3) hex_nat.simps) (simp add: digits_value_def)
  next
    case False
    then show ?thesis using 1 hex_char_value [of "n mod 16"] by (subst (1 2 3) hex_nat.simps) simp
  qed
qed

lemma digits_value_zeros: "digits_value b (replicate k (CHR ''0'') @ s) = digits_value b s"
proof -
  have "foldl (\<lambda>n c. b * n + digit_value c) 0 (replicate k (CHR ''0'')) = 0"
    by (induction k) (simp_all add: digit_value_def is_digit_def)
  then show ?thesis by (simp add: digits_value_def)
qed

lemma zero_fill_value: "digits_value 16 (zero_fill w (hex_nat n)) = n"
  by (simp add: zero_fill_def digits_value_zeros hex_nat_value)

lemma zero_fill_hex: "list_all is_hex (zero_fill w (hex_nat n))" "zero_fill w (hex_nat n) \<noteq> []"
  using hex_nat_value [of n] by (auto simp: zero_fill_def list_all_iff is_hex_def is_digit_def)

lemma fmt_hex_inj:
  assumes "fmt_hex w u = fmt_hex w v" "0 \<le> u" "0 \<le> v"
  shows "u = v"
  using arg_cong [OF assms(1), of "digits_value 16"] assms(2,3) by (simp add: fmt_hex_def zero_fill_value)

lemma digit_groups_all: "list_all ok s \<Longrightarrow> s \<noteq> [] \<Longrightarrow> \<not> ok (CHR ''_'') \<Longrightarrow> digit_groups ok s = Some s"
  by (induction ok s rule: digit_groups.induct) auto

end
