(* ===== verification/Pci_Whitelist.thy ===== *)
theory Pci_Whitelist
  imports Pci_Manager Py_Numbers
begin

text \<open>
  The whitelist of PCI devices (\<^verbatim>\<open>zun/pci/whitelist.py\<close>, \<^verbatim>\<open>devspec.py\<close>, the addresses of
  \<^verbatim>\<open>utils.py\<close>): which devices of a host may be given to containers. Addresses are shown to
  match by their numbers, and the whitelist to be the filter that the pools rely on.
\<close>

section \<open>Addresses\<close>

record pci_addr =
  pa_domain :: string
  pa_bus :: string
  pa_slot :: string
  pa_func :: string

text \<open>An address in the configuration is a string, a dictionary or something else.\<close>

datatype addr_text = AddrStr string | AddrDict "(string, string) dict" | AddrOther bool \<comment> \<open>its truth value\<close>

text \<open>The world of the code: \<open>re.compile\<close> with the match of its result, and the files of the
  host, where a file that cannot be read is None.\<close>

record host_info =
  re_compile :: "string \<Rightarrow> (string \<Rightarrow> bool) option"
  is_dir :: "string \<Rightarrow> bool"
  read_file :: "string \<Rightarrow> string option"
  read_link :: "string \<Rightarrow> string"
  list_dir :: "string \<Rightarrow> string list option"

abbreviation ANY :: string where "ANY \<equiv> ''*''"

definition MAX_VENDOR_ID :: int where "MAX_VENDOR_ID = 0xFFFF"
definition MAX_PRODUCT_ID :: int where "MAX_PRODUCT_ID = 0xFFFF"
definition MAX_FUNC :: int where "MAX_FUNC = 0x7"
definition MAX_DOMAIN :: int where "MAX_DOMAIN = 0xFFFF"
definition MAX_BUS :: int where "MAX_BUS = 0xFF"
definition MAX_SLOT :: int where "MAX_SLOT = 0x1F"

definition get_pci_dev_info :: "string \<Rightarrow> int \<Rightarrow> nat \<Rightarrow> (pci_error, string) res" where
  \<comment> \<open>the new value of the attribute, in hexadecimal digits of the given width\<close>
  "get_pci_dev_info a mx width =
     (if a = ANY then Inr a
      else case py_hex a of
             None \<Rightarrow> Inl (PciConfigInvalidWhitelist a)
           | Some v \<Rightarrow> if v > mx then Inl (PciConfigInvalidWhitelist a) else Inr (fmt_hex width v))"

definition partition :: "char \<Rightarrow> string \<Rightarrow> string \<times> string" where
  \<comment> \<open>what is before and what is after the first separator\<close>
  "partition c s = (takeWhile (\<lambda>x. x \<noteq> c) s, tl (dropWhile (\<lambda>x. x \<noteq> c) s))"

fun split_on :: "char \<Rightarrow> string \<Rightarrow> string list" where
  "split_on c [] = [[]]"
| "split_on c (x # xs) =
     (if x = c then [] # split_on c xs
      else case split_on c xs of [] \<Rightarrow> [[x]] | w # ws \<Rightarrow> (x # w) # ws)"

definition get_pci_address_fields :: "string \<Rightarrow> pci_addr option" where
  \<comment> \<open>None when there are not three parts before the dot, a ValueError\<close>
  "get_pci_address_fields addr =
     (case partition (CHR ''.'') addr of
        (dbs, func) \<Rightarrow>
          (case split_on (CHR '':'') dbs of
             [d, b, s] \<Rightarrow> Some \<lparr>pa_domain = d, pa_bus = b, pa_slot = s, pa_func = func\<rparr>
           | _ \<Rightarrow> None))"

definition get_pci_address :: "pci_addr \<Rightarrow> string" where
  "get_pci_address a = pa_domain a @ '':'' @ pa_bus a @ '':'' @ pa_slot a @ ''.'' @ pa_func a"

definition parse_address :: "string \<Rightarrow> (pci_error, string \<times> string \<times> string \<times> string) res" where
  \<comment> \<open>the match with \<open>_PCI_ADDRESS_REGEX\<close>, whose dot stands for any character; a final newline is allowed\<close>
  "parse_address a =
     (let s = (if length a = 13 \<and> last a = char_of (10::nat) then butlast a else a)
      in if length s = 12 \<and> list_all is_hex (take 4 s) \<and> s ! 4 = CHR '':'' \<and> list_all is_hex (take 2 (drop 5 s)) \<and>
            s ! 7 = CHR '':'' \<and> list_all is_hex (take 2 (drop 8 s)) \<and> s ! 10 \<noteq> char_of (10::nat) \<and>
            of_char (s ! 11) \<in> {48::nat..55}
         then Inr (take 4 s, take 2 (drop 5 s), take 2 (drop 8 s), [s ! 11])
         else Inl (PciDeviceWrongAddressFormat a))"

definition check_fields :: "pci_addr \<Rightarrow> (pci_error, pci_addr) res" where
  "check_fields a =
     rbind (get_pci_dev_info (pa_func a) MAX_FUNC 1) (\<lambda>f.
     rbind (get_pci_dev_info (pa_domain a) MAX_DOMAIN 4) (\<lambda>d.
     rbind (get_pci_dev_info (pa_bus a) MAX_BUS 2) (\<lambda>b.
     rbind (get_pci_dev_info (pa_slot a) MAX_SLOT 2) (\<lambda>s.
       Inr \<lparr>pa_domain = d, pa_bus = b, pa_slot = s, pa_func = f\<rparr>))))"

definition dict_fields :: "(string, string) dict \<Rightarrow> pci_addr option" where
  "dict_fields m =
     (case (dict_get m ''domain'', dict_get m ''bus'', dict_get m ''slot'', dict_get m ''function'') of
        (Some d, Some b, Some s, Some f) \<Rightarrow> Some \<lparr>pa_domain = d, pa_bus = b, pa_slot = s, pa_func = f\<rparr>
      | _ \<Rightarrow> None)"

definition physical_address :: "addr_text \<Rightarrow> (pci_error, pci_addr) res" where
  "physical_address t =
     (case t of
        AddrDict m \<Rightarrow> (case dict_fields m of None \<Rightarrow> Inl (PciDeviceWrongAddressFormat []) | Some a \<Rightarrow> check_fields a)
      | AddrStr s \<Rightarrow> (case get_pci_address_fields s of None \<Rightarrow> Inl (PciDeviceWrongAddressFormat s) | Some a \<Rightarrow> check_fields a)
      | AddrOther _ \<Rightarrow> Inl TypeError)"

definition or_any :: "string \<Rightarrow> string" where
  "or_any s = (if strip s = [] then ANY else strip s)"

definition glob_address :: "string \<Rightarrow> (pci_error, pci_addr) res" where
  "glob_address addr =
     (case partition (CHR ''.'') addr of
        (dbs, func) \<Rightarrow>
          rbind (if func = [] then Inr ANY else get_pci_dev_info (strip func) MAX_FUNC 1) (\<lambda>f.
            if dbs = [] then Inr \<lparr>pa_domain = ANY, pa_bus = ANY, pa_slot = ANY, pa_func = f\<rparr>
            else (let fields = split_on (CHR '':'') dbs
                  in if length fields > 3 then Inl (PciDeviceWrongAddressFormat addr)
                     else (case map or_any (replicate (3 - length fields) ANY @ fields) of
                             [d, b, s] \<Rightarrow>
                               rbind (get_pci_dev_info d MAX_DOMAIN 4) (\<lambda>d.
                               rbind (get_pci_dev_info b MAX_BUS 2) (\<lambda>b.
                               rbind (get_pci_dev_info s MAX_SLOT 2) (\<lambda>s.
                                 Inr \<lparr>pa_domain = d, pa_bus = b, pa_slot = s, pa_func = f\<rparr>)))
                           | _ \<Rightarrow> Inl (PciDeviceWrongAddressFormat addr)))))"

definition regex_address :: "host_info \<Rightarrow> (string, string) dict \<Rightarrow> (pci_error, pci_addr) res" where
  "regex_address H m =
     (let field = (\<lambda>k. case dict_get m k of None \<Rightarrow> ''.*'' | Some p \<Rightarrow> p);
          a = \<lparr>pa_domain = field ''domain'', pa_bus = field ''bus'', pa_slot = field ''slot'', pa_func = field ''function''\<rparr>
      in if list_all (\<lambda>p. re_compile H p \<noteq> None) [pa_domain a, pa_bus a, pa_slot a, pa_func a] then Inr a
         else Inl (PciDeviceWrongAddressFormat []))"

section \<open>Files of the host\<close>

definition positive_number :: "string option \<Rightarrow> bool option" where
  \<comment> \<open>\<open>int(fd.read()) > 0\<close>, None for an error\<close>
  "positive_number f = (case f of None \<Rightarrow> None | Some t \<Rightarrow> map_option (\<lambda>n. n > 0) (py_int t))"

definition strip_dots :: "string \<Rightarrow> string" where
  "strip_dots s = rev (dropWhile (\<lambda>c. c \<in> set ''./'') (rev (dropWhile (\<lambda>c. c \<in> set ''./'') s)))"

definition get_function_by_ifname :: "host_info \<Rightarrow> string \<Rightarrow> string option \<times> bool" where
  "get_function_by_ifname H ifname =
     (let dev_path = ''/sys/class/net/'' @ ifname @ ''/device''
      in if is_dir H dev_path
         then (Some (strip_dots (read_link H dev_path)),
               positive_number (read_file H (dev_path @ ''/sriov_totalvfs'')) = Some True)
         else (None, False))"

definition is_physical_function :: "host_info \<Rightarrow> pci_addr \<Rightarrow> bool" where
  "is_physical_function H a =
     (let dev_path = ''/sys/bus/pci/devices/'' @ get_pci_address a @ ''/''
      in is_dir H dev_path \<and> positive_number (read_file H (dev_path @ ''sriov_totalvfs'')) = Some True)"

definition get_sysfs_netdev_path :: "string \<Rightarrow> bool \<Rightarrow> string" where
  "get_sysfs_netdev_path addr pf = ''/sys/bus/pci/devices/'' @ addr @ (if pf then ''/physfn/net'' else ''/net'')"

definition get_ifname_by_pci_address :: "host_info \<Rightarrow> string \<Rightarrow> bool \<Rightarrow> string option" where
  \<comment> \<open>None is \<open>PciDeviceNotFoundById\<close>\<close>
  "get_ifname_by_pci_address H addr pf =
     (case list_dir H (get_sysfs_netdev_path addr pf) of
        None \<Rightarrow> None
      | Some names \<Rightarrow> if names = [] then None else Some (last names))"

definition get_mac_by_pci_address :: "host_info \<Rightarrow> string \<Rightarrow> bool \<Rightarrow> string option" where
  \<comment> \<open>the first line of the file\<close>
  "get_mac_by_pci_address H addr pf =
     (case get_ifname_by_pci_address H addr pf of
        None \<Rightarrow> None
      | Some if_name \<Rightarrow>
          (case read_file H (get_sysfs_netdev_path addr pf @ ''/'' @ if_name @ ''/address'') of
             None \<Rightarrow> None
           | Some t \<Rightarrow> if t = [] then None else Some (strip (takeWhile (\<lambda>c. c \<noteq> char_of (10::nat)) t))))"

definition get_net_name_by_vf_pci_address :: "host_info \<Rightarrow> string \<Rightarrow> (string \<times> string) option" where
  "get_net_name_by_vf_pci_address H addr =
     (case (get_mac_by_pci_address H addr False, get_ifname_by_pci_address H addr False) of
        (Some mac, Some ifname) \<Rightarrow>
          Some (''net_'' @ ifname @ ''_'' @ map (\<lambda>c. if c = CHR '':'' then CHR ''_'' else c) mac, ifname)
      | _ \<Rightarrow> None)"

section \<open>Matching\<close>

datatype addr_spec = Physical pci_addr | Glob pci_addr | Regex pci_addr

definition glob_field :: "string \<Rightarrow> string \<Rightarrow> bool" where
  "glob_field p x \<longleftrightarrow> p = ANY \<or> p = x"

definition regex_field :: "host_info \<Rightarrow> string \<Rightarrow> string \<Rightarrow> bool" where
  "regex_field H p x = (case re_compile H p of None \<Rightarrow> False | Some m \<Rightarrow> m x)"

definition fields_match :: "(string \<Rightarrow> string \<Rightarrow> bool) \<Rightarrow> pci_addr \<Rightarrow> pci_addr \<Rightarrow> bool" where
  "fields_match R p a \<longleftrightarrow>
     R (pa_domain p) (pa_domain a) \<and> R (pa_bus p) (pa_bus a) \<and> R (pa_slot p) (pa_slot a) \<and> R (pa_func p) (pa_func a)"

fun spec_match :: "host_info \<Rightarrow> addr_spec \<Rightarrow> pci_addr \<Rightarrow> bool" where
  "spec_match H (Physical p) a = fields_match (=) p a"
| "spec_match H (Glob p) a = fields_match glob_field p a"
| "spec_match H (Regex p) a = fields_match (regex_field H) p a"

fun spec_fields :: "addr_spec \<Rightarrow> pci_addr" where
  "spec_fields (Physical p) = p"
| "spec_fields (Glob p) = p"
| "spec_fields (Regex p) = p"

definition is_single_address :: "addr_spec \<Rightarrow> bool" where
  "is_single_address s =
     (let p = spec_fields s in list_all (list_all is_hex) [pa_domain p, pa_bus p, pa_slot p, pa_func p])"

record wl_address =
  wa_physical_function :: bool
  wa_spec :: addr_spec

definition whitelist_address :: "host_info \<Rightarrow> addr_text \<Rightarrow> bool \<Rightarrow> (pci_error, wl_address) res" where
  "whitelist_address H t pf =
     (if pf then rbind (physical_address t) (\<lambda>p. Inr \<lparr>wa_physical_function = True, wa_spec = Physical p\<rparr>)
      else rbind (case t of
                    AddrStr s \<Rightarrow> rbind (glob_address s) (\<lambda>p. Inr (Glob p))
                  | AddrDict m \<Rightarrow> rbind (regex_address H m) (\<lambda>p. Inr (Regex p))
                  | AddrOther _ \<Rightarrow> Inl (PciDeviceWrongAddressFormat []))
             (\<lambda>spec. let p = spec_fields spec
                     in Inr \<lparr>wa_physical_function = is_single_address spec \<and>
                               is_physical_function H p,
                             wa_spec = spec\<rparr>))"

definition address_match :: "host_info \<Rightarrow> wl_address \<Rightarrow> string \<Rightarrow> string option \<Rightarrow> (pci_error, bool) res" where
  "address_match H w addr phys_addr =
     rbind (if wa_physical_function w \<and> truthy phys_addr
            then rbind (physical_address (AddrStr (the phys_addr))) (\<lambda>p. Inr (spec_match H (wa_spec w) p))
            else Inr False)
       (\<lambda>by_parent. if by_parent then Inr True
                    else rbind (physical_address (AddrStr addr)) (\<lambda>a. Inr (spec_match H (wa_spec w) a)))"

section \<open>Device specifications\<close>

text \<open>An entry of the whitelist as it is configured: the keys that the class takes out of it and
  the tags left over.\<close>

record raw_spec =
  rs_vendor_id :: "string option"
  rs_product_id :: "string option"
  rs_address :: "addr_text option"
  rs_devname :: "string option"
  rs_tags :: props

record dev_spec =
  ds_vendor_id :: string
  ds_product_id :: string
  ds_devname :: "string option"
  ds_address :: "wl_address option"
  ds_tags :: props

definition addr_given :: "addr_text option \<Rightarrow> bool" where
  "addr_given a \<longleftrightarrow> a \<notin> {None, Some (AddrStr []), Some (AddrDict []), Some (AddrOther False)}"

definition device_spec :: "host_info \<Rightarrow> raw_spec \<Rightarrow> (pci_error, dev_spec) res" where
  "device_spec H r =
     rbind (get_pci_dev_info (strip (case rs_vendor_id r of None \<Rightarrow> ANY | Some v \<Rightarrow> v)) MAX_VENDOR_ID 4) (\<lambda>vendor.
     rbind (get_pci_dev_info (case rs_product_id r of None \<Rightarrow> ANY | Some p \<Rightarrow> p) MAX_PRODUCT_ID 4) (\<lambda>product.
       if addr_given (rs_address r) \<and> truthy (rs_devname r) then Inl PciDeviceInvalidDeviceName
       else rbind (if truthy (rs_devname r) then Inr None
                   else rbind (whitelist_address H
                                 (if addr_given (rs_address r) then the (rs_address r) else AddrStr ''*:*:*.*'') False)
                          (\<lambda>w. Inr (Some w)))
              (\<lambda>addr. Inr \<lparr>ds_vendor_id = vendor, ds_product_id = product, ds_devname = rs_devname r,
                          ds_address = addr, ds_tags = rs_tags r\<rparr>)))"

definition device_match :: "host_info \<Rightarrow> dev_spec \<Rightarrow> string \<Rightarrow> string \<Rightarrow> string \<Rightarrow> string option \<Rightarrow> (pci_error, bool) res" where
  \<comment> \<open>the list of conditions is built before it is tested, so the address is always parsed\<close>
  "device_match H d vendor product addr parent =
     (let tests = (\<lambda>w. rbind (address_match H w addr parent)
                        (\<lambda>b. Inr (ds_vendor_id d \<in> {ANY, vendor} \<and> ds_product_id d \<in> {ANY, product} \<and> b)))
      in if truthy (ds_devname d)
         then (case get_function_by_ifname H (the (ds_devname d)) of
                 (a, pf) \<Rightarrow> if \<not> truthy a then Inr False
                            else rbind (whitelist_address H (AddrStr (the a)) pf) tests)
         else (case ds_address d of None \<Rightarrow> Inl TypeError | Some w \<Rightarrow> tests w))"

definition match_pci_obj :: "host_info \<Rightarrow> dev_spec \<Rightarrow> pci_device \<Rightarrow> (pci_error, bool) res" where
  "match_pci_obj H d dev = device_match H d (vendor_id dev) (product_id dev) (address dev) (parent_addr dev)"

section \<open>The whitelist\<close>

text \<open>Decoded JSON, of which only the shape matters; \<open>loads\<close> is the decoder.\<close>

datatype json = JDict raw_spec | JList "json list" | JOther

fun spec_entries :: "host_info \<Rightarrow> json list \<Rightarrow> (pci_error, dev_spec list) res" where
  "spec_entries H [] = Inr []"
| "spec_entries H (j # js) =
     (case j of
        JDict r \<Rightarrow> rbind (device_spec H r) (\<lambda>d. rbind (spec_entries H js) (\<lambda>ds. Inr (d # ds)))
      | _ \<Rightarrow> Inl (PciConfigInvalidWhitelist []))"

fun parse_white_list_from_config :: "(string \<Rightarrow> json option) \<Rightarrow> host_info \<Rightarrow> string list \<Rightarrow> (pci_error, dev_spec list) res" where
  "parse_white_list_from_config loads H [] = Inr []"
| "parse_white_list_from_config loads H (t # ts) =
     (case loads t of
        None \<Rightarrow> Inl (PciConfigInvalidWhitelist t)
      | Some (JDict r) \<Rightarrow> rbind (spec_entries H [JDict r]) (\<lambda>a. rbind (parse_white_list_from_config loads H ts) (\<lambda>b. Inr (a @ b)))
      | Some (JList l) \<Rightarrow> rbind (spec_entries H l) (\<lambda>a. rbind (parse_white_list_from_config loads H ts) (\<lambda>b. Inr (a @ b)))
      | Some JOther \<Rightarrow> Inl (PciConfigInvalidWhitelist t))"

fun device_assignable :: "host_info \<Rightarrow> dev_spec list \<Rightarrow> hv_device \<Rightarrow> (pci_error, bool) res" where
  "device_assignable H [] v = Inr False"
| "device_assignable H (d # ds) v =
     rbind (device_match H d (hv_vendor_id v) (hv_product_id v) (hv_address v) (hv_parent_addr v))
       (\<lambda>b. if b then Inr True else device_assignable H ds v)"

fun get_devspec :: "host_info \<Rightarrow> dev_spec list \<Rightarrow> pci_device \<Rightarrow> (pci_error, dev_spec option) res" where
  "get_devspec H [] dev = Inr None"
| "get_devspec H (d # ds) dev =
     rbind (match_pci_obj H d dev) (\<lambda>b. if b then Inr (Some d) else get_devspec H ds dev)"

text \<open>The filter of the pools.\<close>

definition whitelist_filter :: "host_info \<Rightarrow> dev_spec list \<Rightarrow> pci_device \<Rightarrow> (pci_error, props option) res" where
  "whitelist_filter H specs dev = rbind (get_devspec H specs dev) (\<lambda>d. Inr (map_option ds_tags d))"

section \<open>Addresses by their numbers\<close>

lemma dropWhile_idem: "dropWhile P (dropWhile P s) = dropWhile P s"
  by (induction s) auto

lemma dropWhile_rev_fixed: "dropWhile P s = s \<Longrightarrow> dropWhile P (rev (dropWhile Q (rev s))) = rev (dropWhile Q (rev s))"
proof -
  assume s: "dropWhile P s = s"
  obtain t where t: "s = rev (dropWhile Q (rev s)) @ t"
    by (metis rev_append rev_rev_ident takeWhile_dropWhile_id)
  show ?thesis
  proof (cases "rev (dropWhile Q (rev s))")
    case (Cons x xs)
    then have "hd s = x" using t by (metis append_Cons list.sel(1))
    moreover have "s \<noteq> []" using t Cons by auto
    then have "\<not> P (hd s)" using s by (metis dropWhile_eq_self_iff)
    ultimately show ?thesis using Cons by simp
  next
    case Nil
    then show ?thesis by (metis dropWhile.simps(1))
  qed
qed

lemma strip_idem [simp]: "strip (strip s) = strip s"
  using dropWhile_rev_fixed [OF dropWhile_idem, where P = is_blank and Q = is_blank] by (simp add: strip_def dropWhile_idem)

lemma py_hex_strip [simp]: "py_hex (strip s) = py_hex s"
  by (simp add: py_hex_def)

lemma py_hex_any [simp]: "py_hex [] = None" "py_hex ANY = None"
  by (code_simp, code_simp)

text \<open>A field that holds a number in the range of the attribute.\<close>

definition field_number :: "int \<Rightarrow> string \<Rightarrow> int option" where
  "field_number mx s = (case py_hex s of None \<Rightarrow> None | Some v \<Rightarrow> if 0 \<le> v \<and> v \<le> mx then Some v else None)"

definition address_numbers :: "string \<Rightarrow> (int \<times> int \<times> int \<times> int) option" where
  "address_numbers addr =
     (case get_pci_address_fields addr of
        None \<Rightarrow> None
      | Some a \<Rightarrow>
          (case (field_number MAX_DOMAIN (pa_domain a), field_number MAX_BUS (pa_bus a),
                 field_number MAX_SLOT (pa_slot a), field_number MAX_FUNC (pa_func a)) of
             (Some d, Some b, Some s, Some f) \<Rightarrow> Some (d, b, s, f)
           | _ \<Rightarrow> None))"

definition numbered :: "int \<times> int \<times> int \<times> int \<Rightarrow> pci_addr" where
  "numbered n = (case n of (d, b, s, f) \<Rightarrow>
     \<lparr>pa_domain = fmt_hex 4 d, pa_bus = fmt_hex 2 b, pa_slot = fmt_hex 2 s, pa_func = fmt_hex 1 f\<rparr>)"

lemma field_numberD:
  assumes "field_number mx s = Some v"
  shows "0 \<le> v" "py_hex s = Some v" "get_pci_dev_info s mx w = Inr (fmt_hex w v)" "get_pci_dev_info (strip s) mx w = Inr (fmt_hex w v)"
    "or_any s = strip s" "s \<noteq> []"
proof -
  have v: "py_hex s = Some v" "0 \<le> v" "v \<le> mx" using assms by (auto simp: field_number_def split: option.splits if_splits)
  then show "0 \<le> v" "py_hex s = Some v" by simp_all
  have "s \<noteq> ANY" "strip s \<noteq> ANY" "s \<noteq> []" "strip s \<noteq> []"
    using v(1) py_hex_any py_hex_strip [of s] by (metis option.distinct(1))+
  then show "get_pci_dev_info s mx w = Inr (fmt_hex w v)" "get_pci_dev_info (strip s) mx w = Inr (fmt_hex w v)"
    "or_any s = strip s" "s \<noteq> []"
    using v by (simp_all add: get_pci_dev_info_def or_any_def)
qed

lemma address_numbersD:
  assumes "address_numbers addr = Some (d, b, s, f)"
  obtains a where "get_pci_address_fields addr = Some a" "field_number MAX_DOMAIN (pa_domain a) = Some d"
    "field_number MAX_BUS (pa_bus a) = Some b" "field_number MAX_SLOT (pa_slot a) = Some s" "field_number MAX_FUNC (pa_func a) = Some f"
  using assms by (auto simp: address_numbers_def split: option.splits)

lemma physical_numbers:
  assumes "address_numbers addr = Some n"
  shows "physical_address (AddrStr addr) = Inr (numbered n)"
proof -
  obtain d b s f where n: "n = (d, b, s, f)" by (cases n) auto
  obtain a where a: "get_pci_address_fields addr = Some a" "field_number MAX_DOMAIN (pa_domain a) = Some d"
    "field_number MAX_BUS (pa_bus a) = Some b" "field_number MAX_SLOT (pa_slot a) = Some s" "field_number MAX_FUNC (pa_func a) = Some f"
    using assms address_numbersD unfolding n by blast
  then show ?thesis using field_numberD(3) [OF a(2)] field_numberD(3) [OF a(3)] field_numberD(3) [OF a(4)] field_numberD(3) [OF a(5)]
    by (simp add: physical_address_def check_fields_def numbered_def n)
qed

lemma glob_numbers:
  assumes "address_numbers addr = Some n"
  shows "glob_address addr = Inr (numbered n)"
proof -
  obtain d b s f where n: "n = (d, b, s, f)" by (cases n) auto
  obtain a where a: "get_pci_address_fields addr = Some a" "field_number MAX_DOMAIN (pa_domain a) = Some d"
    "field_number MAX_BUS (pa_bus a) = Some b" "field_number MAX_SLOT (pa_slot a) = Some s" "field_number MAX_FUNC (pa_func a) = Some f"
    using assms address_numbersD unfolding n by blast
  obtain dbs func where p: "partition (CHR ''.'') addr = (dbs, func)" by fastforce
  have fields: "split_on (CHR '':'') dbs = [pa_domain a, pa_bus a, pa_slot a]" "func = pa_func a"
    using a(1) p by (auto simp: get_pci_address_fields_def split: list.splits)
  then have "dbs \<noteq> []" using field_numberD(6) [OF a(2)] by auto
  then show ?thesis using fields p field_numberD(4,5,6) [OF a(2)] field_numberD(4,5,6) [OF a(3)] field_numberD(4,5,6) [OF a(4)]
      field_numberD(4,5,6) [OF a(5)]
    by (simp add: glob_address_def numbered_def n)
qed

lemma numbered_eq:
  assumes "address_numbers a = Some m" "address_numbers b = Some n"
  shows "numbered m = numbered n \<longleftrightarrow> m = n"
proof
  assume eq: "numbered m = numbered n"
  obtain d b s f where m: "m = (d, b, s, f)" by (cases m) auto
  obtain d' b' s' f' where n: "n = (d', b', s', f')" by (cases n) auto
  have pos: "0 \<le> d" "0 \<le> b" "0 \<le> s" "0 \<le> f" using assms(1) unfolding m by (auto elim!: address_numbersD dest: field_numberD(1))
  have pos': "0 \<le> d'" "0 \<le> b'" "0 \<le> s'" "0 \<le> f'" using assms(2) unfolding n by (auto elim!: address_numbersD dest: field_numberD(1))
  show "m = n" using eq pos pos' unfolding m n numbered_def by (auto dest!: fmt_hex_inj)
qed simp

lemma fmt_hex_not_any: "0 \<le> v \<Longrightarrow> fmt_hex w v \<noteq> ANY"
  using zero_fill_hex(1) [of w "nat v"] by (auto simp: fmt_hex_def is_hex_def is_digit_def)

lemma numbered_match:
  assumes "address_numbers a = Some m" "address_numbers b = Some n"
  shows "spec_match H (Glob (numbered m)) (numbered n) \<longleftrightarrow> m = n" "spec_match H (Physical (numbered m)) (numbered n) \<longleftrightarrow> m = n"
proof -
  obtain d b s f where m: "m = (d, b, s, f)" by (cases m) auto
  have pos: "0 \<le> d" "0 \<le> b" "0 \<le> s" "0 \<le> f" using assms(1) unfolding m by (auto elim!: address_numbersD dest: field_numberD(1))
  have "spec_match H (Glob (numbered m)) (numbered n) = spec_match H (Physical (numbered m)) (numbered n)"
    using pos fmt_hex_not_any by (simp add: fields_match_def glob_field_def numbered_def m)
  moreover have "spec_match H (Physical (numbered m)) (numbered n) \<longleftrightarrow> numbered m = numbered n"
    by (auto simp: fields_match_def)
  ultimately show "spec_match H (Glob (numbered m)) (numbered n) \<longleftrightarrow> m = n" "spec_match H (Physical (numbered m)) (numbered n) \<longleftrightarrow> m = n"
    using numbered_eq [OF assms] by simp_all
qed

section \<open>Properties\<close>


lemma get_devspec_mem: "get_devspec H specs dev = Inr (Some d) \<Longrightarrow> d \<in> set specs"
  by (induction specs) (auto simp: rbind_Inr_iff split: if_splits)

lemma get_devspec_cong:
  assumes "vendor_id d = vendor_id d'" "product_id d = product_id d'" "address d = address d'" "parent_addr d = parent_addr d'"
  shows "get_devspec H specs d = get_devspec H specs d'"
proof (induction specs)
  case (Cons s specs)
  have "match_pci_obj H s d = match_pci_obj H s d'" using assms by (simp add: match_pci_obj_def)
  then show ?case using Cons by (cases "match_pci_obj H s d'") simp_all
qed simp

lemma assignable_devspec:
  assumes "vendor_id d = hv_vendor_id v" "product_id d = hv_product_id v" "address d = hv_address v" "parent_addr d = hv_parent_addr v"
  shows "device_assignable H specs v = rbind (get_devspec H specs d) (\<lambda>s. Inr (s \<noteq> None))"
proof (induction specs)
  case (Cons s specs)
  have "device_match H s (hv_vendor_id v) (hv_product_id v) (hv_address v) (hv_parent_addr v) = match_pci_obj H s d"
    using assms by (simp add: match_pci_obj_def)
  then show ?case using Cons by (cases "match_pci_obj H s d") simp_all
qed simp


lemma split_on_none: "c \<notin> set s \<Longrightarrow> split_on c s = [s]"
  by (induction s) auto

lemma split_on_append: "c \<notin> set s \<Longrightarrow> split_on c (s @ c # t) = s # split_on c t"
  by (induction s) auto

lemma partition_append: "c \<notin> set s \<Longrightarrow> partition c (s @ c # t) = (s, t)"
  by (induction s) (auto simp: partition_def)

lemma address_roundtrip:
  assumes "CHR '':'' \<notin> set (pa_domain a @ pa_bus a @ pa_slot a)" "CHR ''.'' \<notin> set (pa_domain a @ pa_bus a @ pa_slot a)"
  shows "get_pci_address_fields (get_pci_address a) = Some a"
proof -
  let ?dbs = "pa_domain a @ CHR '':'' # pa_bus a @ CHR '':'' # pa_slot a"
  have "get_pci_address a = ?dbs @ CHR ''.'' # pa_func a" by (simp add: get_pci_address_def)
  moreover have "CHR ''.'' \<notin> set ?dbs" using assms(2) by simp
  ultimately have "partition (CHR ''.'') (get_pci_address a) = (?dbs, pa_func a)"
    using partition_append [of "CHR ''.''" ?dbs "pa_func a"] by simp
  moreover have "split_on (CHR '':'') ?dbs = [pa_domain a, pa_bus a, pa_slot a]"
    using assms(1) by (simp add: split_on_append split_on_none)
  ultimately show ?thesis by (simp add: get_pci_address_fields_def)
qed

definition ex_host_info :: host_info where
  "ex_host_info = \<lparr>re_compile = (\<lambda>_. None), is_dir = (\<lambda>p. p = ''/sys/bus/pci/devices/0000:0a:00.0/''),
     read_file = (\<lambda>p. if p = ''/sys/bus/pci/devices/0000:0a:00.0/sriov_totalvfs'' then Some ''2'' else None),
     read_link = (\<lambda>_. []), list_dir = (\<lambda>_. None)\<rparr>"


definition ex_specs :: "dev_spec list" where
  "ex_specs = [\<lparr>ds_vendor_id = ''8086'', ds_product_id = ANY, ds_devname = None,
     ds_address = Some \<lparr>wa_physical_function = False, wa_spec = Glob \<lparr>pa_domain = ANY, pa_bus = ANY, pa_slot = ANY, pa_func = ANY\<rparr>\<rparr>,
     ds_tags = [(''physical_network'', VStr ''net1'')]\<rparr>]"


end
