(* ===== verification/Numa_Topology.thy ===== *)
theory Numa_Topology
  imports Prelude
begin

text \<open>
  NUMA nodes of a compute host and the pinning of CPUs (\<^verbatim>\<open>zun/objects/numa.py\<close>).
\<close>

section \<open>Model\<close>

record numa_node =
  nn_id :: int
  cpuset :: "int set"
  pinned_cpus :: "int set"
  nn_mem_total :: int
  mem_available :: int

datatype numa_error = CPUPinningUnknown | CPUPinningInvalid | CPUUnpinningUnknown | CPUUnpinningInvalid

definition free_cpus :: "numa_node \<Rightarrow> int set" where
  "free_cpus n = cpuset n - pinned_cpus n"

definition avail_cpus :: "numa_node \<Rightarrow> nat" where
  "avail_cpus n = card (free_cpus n)"

definition pin_cpus :: "int set \<Rightarrow> numa_node \<Rightarrow> (numa_error, numa_node) res" where
  "pin_cpus cpus n =
     (if cpus - cpuset n \<noteq> {} then Inl CPUPinningUnknown
      else if pinned_cpus n \<inter> cpus \<noteq> {} then Inl CPUPinningInvalid
      else Inr (n\<lparr>pinned_cpus := pinned_cpus n \<union> cpus\<rparr>))"

definition unpin_cpus :: "int set \<Rightarrow> numa_node \<Rightarrow> (numa_error, numa_node) res" where
  "unpin_cpus cpus n =
     (if cpus - cpuset n \<noteq> {} then Inl CPUUnpinningUnknown
      else if pinned_cpus n \<inter> cpus \<noteq> cpus then Inl CPUUnpinningInvalid
      else Inr (n\<lparr>pinned_cpus := pinned_cpus n - cpus\<rparr>))"

text \<open>The dictionary of a node lists its sets; a set has no order of its own, so the order
  in which they are listed is a parameter.\<close>

record numa_dict =
  nd_id :: int
  nd_cpuset :: "int list"
  nd_pinned_cpus :: "int list"
  nd_mem_total :: int
  nd_mem_available :: int

definition numa_to_dict :: "(int set \<Rightarrow> int list) \<Rightarrow> numa_node \<Rightarrow> numa_dict" where
  "numa_to_dict listing n = \<lparr>nd_id = nn_id n, nd_cpuset = listing (cpuset n), nd_pinned_cpus = listing (pinned_cpus n),
     nd_mem_total = nn_mem_total n, nd_mem_available = mem_available n\<rparr>"

definition numa_from_dict :: "numa_dict \<Rightarrow> numa_node" where
  "numa_from_dict d = \<lparr>nn_id = nd_id d, cpuset = set (nd_cpuset d), pinned_cpus = set (nd_pinned_cpus d),
     nn_mem_total = nd_mem_total d, mem_available = nd_mem_available d\<rparr>"

definition topology_to_list :: "(int set \<Rightarrow> int list) \<Rightarrow> numa_node list \<Rightarrow> numa_dict list" where
  "topology_to_list listing nodes = map (numa_to_dict listing) nodes"

definition topology_from_dict :: "numa_dict list \<Rightarrow> numa_node list" where
  "topology_from_dict ds = map numa_from_dict ds"

section \<open>Pinning\<close>

definition numa_ok :: "numa_node \<Rightarrow> bool" where
  "numa_ok n \<longleftrightarrow> finite (cpuset n) \<and> pinned_cpus n \<subseteq> cpuset n"

lemma pin_cpus_iff:
  "pin_cpus cpus n = Inr n' \<longleftrightarrow> cpus \<subseteq> cpuset n \<and> pinned_cpus n \<inter> cpus = {} \<and>
     n' = n\<lparr>pinned_cpus := pinned_cpus n \<union> cpus\<rparr>"
  by (auto simp: pin_cpus_def)

lemma unpin_cpus_iff:
  "unpin_cpus cpus n = Inr n' \<longleftrightarrow> cpus \<subseteq> cpuset n \<and> cpus \<subseteq> pinned_cpus n \<and>
     n' = n\<lparr>pinned_cpus := pinned_cpus n - cpus\<rparr>"
  by (auto simp: unpin_cpus_def)

text \<open>A sequence of such operations, which ends at the first that raises.\<close>

fun run_all :: "('c \<Rightarrow> 'n \<Rightarrow> ('e, 'n) res) \<Rightarrow> 'c list \<Rightarrow> 'n \<Rightarrow> ('e, 'n) res" where
  "run_all f [] n = Inr n"
| "run_all f (c # cs) n = rbind (f c n) (run_all f cs)"

lemma run_all_append: "run_all f (cs @ ds) n = rbind (run_all f cs n) (run_all f ds)"
  by (induction cs arbitrary: n) (auto simp: rbind_def split: sum.splits)

text \<open>
  The contract of the pair of operations: each succeeds exactly when its guard holds, keeps
  the node well formed and is undone by the other.
\<close>

locale reversible =
  fixes act :: "'c \<Rightarrow> 'n \<Rightarrow> ('e, 'n) res" and undo :: "'c \<Rightarrow> 'n \<Rightarrow> ('e, 'n) res" and good :: "'n \<Rightarrow> bool"
  assumes keeps: "good n \<Longrightarrow> act c n = Inr n' \<Longrightarrow> good n'"
    and undone: "good n \<Longrightarrow> act c n = Inr n' \<Longrightarrow> undo c n' = Inr n"
begin

lemma all_undone: "good n \<Longrightarrow> run_all act cs n = Inr n' \<Longrightarrow> good n' \<and> run_all undo (rev cs) n' = Inr n"
proof (induction cs arbitrary: n)
  case (Cons c cs)
  then obtain m where m: "act c n = Inr m" "run_all act cs m = Inr n'" by (auto simp: rbind_Inr_iff)
  from Cons.IH [OF keeps [OF Cons.prems(1) m(1)] m(2)] undone [OF Cons.prems(1) m(1)] show ?case
    by (simp add: run_all_append)
qed simp

end

interpretation pinning: reversible pin_cpus unpin_cpus numa_ok
  by unfold_locales (auto simp: pin_cpus_iff unpin_cpus_iff numa_ok_def intro!: numa_node.equality)

section \<open>Properties\<close>

text \<open>
  C36. Pinning the requests of several containers one after the other, when it succeeds,
  keeps the pinned CPUs within the node's CPU set, and releasing them in the reverse order
  succeeds and gives the node back as it was.
\<close>

theorem pin_unpin_roundtrip:
  assumes "numa_ok n" "run_all pin_cpus css n = Inr n'"
  shows "numa_ok n' \<and> run_all unpin_cpus (rev css) n' = Inr n"
  by (rule pinning.all_undone [OF assms])

definition ex_numa :: numa_node where
  "ex_numa = \<lparr>nn_id = 0, cpuset = {0, 1, 2, 3}, pinned_cpus = {0}, nn_mem_total = 1024, mem_available = 1024\<rparr>"

theorem pin_unpin_roundtrip_witness:
  "run_all pin_cpus [{1}, {2, 3}] ex_numa = Inr (ex_numa\<lparr>pinned_cpus := {0, 1, 2, 3}\<rparr>) \<and>
   run_all unpin_cpus (rev [{1}, {2, 3}]) (ex_numa\<lparr>pinned_cpus := {0, 1, 2, 3}\<rparr>) = Inr ex_numa"
proof -
  have run: "run_all pin_cpus [{1}, {2, 3}] ex_numa = Inr (ex_numa\<lparr>pinned_cpus := {0, 1, 2, 3}\<rparr>)"
    by (simp add: pin_cpus_def ex_numa_def insert_commute)
  have "numa_ok ex_numa" by (simp add: numa_ok_def ex_numa_def)
  from pin_unpin_roundtrip [OF this run] run show ?thesis by simp
qed

end
