(* ===== verification/Compute_Tracker.thy ===== *)
theory Compute_Tracker
  imports Numa_Topology Pci_Manager Complex_Main
begin

text \<open>
  Resource claims and the accounting of a compute node (\<^verbatim>\<open>zun/compute/claims.py\<close>,
  \<^verbatim>\<open>zun/compute/compute_node_tracker.py\<close>). Every method that changes the usage holds the
  compute resource lock for its whole body, so each is one atomic function of the tracker.

  CPU amounts are rationals: the rounding of floating-point sums is not modelled. The memory
  of a container is its decimal string, decoded; None is a missing or empty string.
\<close>

section \<open>State\<close>

record compute_node =
  hostname :: string
  mem_total :: int
  mem_free :: int
  mem_used :: int
  cpus :: rat
  cpu_used :: rat
  disk_total :: int
  disk_used :: int
  running_containers :: int
  numa_nodes :: "numa_node list"

record container =
  c_uuid :: string
  c_memory :: "int option"
  c_cpu :: "rat option"
  c_disk :: "int option"
  c_cpu_policy :: "string option"
  c_cpuset_cpus :: "int set option"
  c_host :: "string option"

text \<open>The part of the limits that the CPU set filter fills in.\<close>

record cpuset_limit =
  cl_node :: int
  cl_cpuset_cpu :: "int set"
  cl_cpuset_cpu_pinned :: "int set"
  cl_cpuset_mem :: int

record limits =
  lim_memory :: "int option"
  lim_cpu :: "rat option"
  lim_disk :: "int option"
  lim_cpuset :: "cpuset_limit option"

record usage =
  us_memory :: int
  us_cpu :: rat
  us_disk :: int
  us_cpuset :: "(int set \<times> int) option"

datatype claim_kind = Res_memory | Res_cpu | Res_disk | Res_pci | Res_cpuset_cpu | Res_cpuset_mem

datatype trk_error =
    ResourcesUnavailable "claim_kind list"
  | NumaError numa_error
  | PciError pci_error
  | AttributeError
  | NodeIndexError
  | TrkTypeError
  | TrkKeyError
  | SampleLargerThanPopulation
  | PublishError

datatype ticket = NopClaim | Claim container | UpdateClaim container container

record cn_tracker =
  host :: string
  compute_node :: "compute_node option"
  tracked_containers :: "(string, container) dict"
  old_resources :: "compute_node option"
  pci_tracker :: "pci_tracker option"
  db_node :: "compute_node option"
  saved_host :: "(string, string) dict"

text \<open>\<open>db_node\<close> is the host's row in the database and \<open>saved_host\<close> the host column that
  \<open>container.save\<close> wrote.\<close>

section \<open>Claim tests\<close>

definition int_or_0 :: "int option \<Rightarrow> int" where
  "int_or_0 x = (case x of None \<Rightarrow> 0 | Some n \<Rightarrow> n)"

definition rat_or_0 :: "rat option \<Rightarrow> rat" where
  "rat_or_0 x = (case x of None \<Rightarrow> 0 | Some n \<Rightarrow> n)"

definition claim_resource_test :: "rat \<Rightarrow> rat \<Rightarrow> rat option \<Rightarrow> bool" where
  \<comment> \<open>\<open>_test\<close>: True when it returns a reason\<close>
  "claim_resource_test used requested limit =
     (case limit of None \<Rightarrow> False | Some l \<Rightarrow> (let free = l - used in requested > free))"

definition test_memory :: "int \<Rightarrow> compute_node \<Rightarrow> int option \<Rightarrow> bool" where
  "test_memory requested cn limit =
     claim_resource_test (of_int (mem_used cn)) (of_int requested) (map_option of_int limit)"

definition test_cpu :: "rat \<Rightarrow> compute_node \<Rightarrow> rat option \<Rightarrow> bool" where
  "test_cpu requested cn limit = claim_resource_test (cpu_used cn) requested limit"

definition test_disk :: "int \<Rightarrow> compute_node \<Rightarrow> int option \<Rightarrow> bool" where
  "test_disk requested cn limit =
     claim_resource_test (of_int (disk_used cn)) (of_int requested) (map_option of_int limit)"

definition test_cpuset_cpu :: "rat \<Rightarrow> cpuset_limit option \<Rightarrow> bool" where
  "test_cpuset_cpu requested limit =
     (case limit of
        None \<Rightarrow> False
      | Some l \<Rightarrow> claim_resource_test (of_nat (card (cl_cpuset_cpu_pinned l))) requested
                    (Some (of_nat (card (cl_cpuset_cpu l)))))"

definition test_cpuset_mem :: "int \<Rightarrow> compute_node \<Rightarrow> cpuset_limit option \<Rightarrow> (trk_error, bool) res" where
  \<comment> \<open>the total is read from the node at the index given by the limit, and only logged\<close>
  "test_cpuset_mem requested cn limit =
     (case limit of
        None \<Rightarrow> Inr False
      | Some l \<Rightarrow>
          if cl_node l \<ge> int (length (numa_nodes cn)) \<or> cl_node l < - int (length (numa_nodes cn))
          then Inl NodeIndexError
          else Inr (claim_resource_test 0 (of_int requested) (Some (of_int (cl_cpuset_mem l)))))"

definition test_pci :: "pci_tracker option \<Rightarrow> pci_request list option \<Rightarrow> (trk_error, bool) res" where
  "test_pci pci requests =
     (case requests of
        None \<Rightarrow> Inr False
      | Some reqs \<Rightarrow>
          if reqs = [] then Inr False
          else (case pci of
                  None \<Rightarrow> Inl AttributeError
                | Some p \<Rightarrow> Inr (\<not> support_requests reqs [] (stats (sys p)))))"

definition no_limits :: limits where
  "no_limits = \<lparr>lim_memory = None, lim_cpu = None, lim_disk = None, lim_cpuset = None\<rparr>"

definition claim_test ::
    "int \<Rightarrow> rat \<Rightarrow> int \<Rightarrow> pci_request list option \<Rightarrow> limits option \<Rightarrow> compute_node \<Rightarrow> pci_tracker option \<Rightarrow>
     (trk_error, unit) res" where
  "claim_test memory cpu disk requests lims cn pci =
     (let l = (case lims of None \<Rightarrow> no_limits | Some l \<Rightarrow> l)
      in rbind (test_pci pci requests)
           (\<lambda>pci_bad. rbind (test_cpuset_mem memory cn (lim_cpuset l))
             (\<lambda>mem_bad.
                let reasons = filter (\<lambda>k. case k of
                      Res_memory \<Rightarrow> test_memory memory cn (lim_memory l)
                    | Res_cpu \<Rightarrow> test_cpu cpu cn (lim_cpu l)
                    | Res_disk \<Rightarrow> test_disk disk cn (lim_disk l)
                    | Res_pci \<Rightarrow> pci_bad
                    | Res_cpuset_cpu \<Rightarrow> test_cpuset_cpu cpu (lim_cpuset l)
                    | Res_cpuset_mem \<Rightarrow> mem_bad)
                    [Res_memory, Res_cpu, Res_disk, Res_pci, Res_cpuset_cpu, Res_cpuset_mem]
                in if reasons = [] then Inr () else Inl (ResourcesUnavailable reasons))))"

definition claim_cpuset :: "rat \<Rightarrow> container \<Rightarrow> limits option \<Rightarrow> (trk_error, unit) res" where
  \<comment> \<open>for a dedicated policy; the node of the limits is an integer, which \<open>set\<close> refuses\<close>
  "claim_cpuset cpu c lims =
     (if c_cpu_policy c \<noteq> Some ''dedicated'' then Inr ()
      else case lims of
        None \<Rightarrow> Inl TrkTypeError
      | Some l \<Rightarrow>
          (case lim_cpuset l of
             None \<Rightarrow> Inl TrkKeyError
           | Some cl \<Rightarrow>
               if int (card (cl_cpuset_cpu cl - cl_cpuset_cpu_pinned cl)) < (if cpu \<ge> 0 then floor cpu else ceiling cpu) \<or> cpu \<le> -1
               then Inl SampleLargerThanPopulation
               else Inl TrkTypeError))"

definition new_claim ::
    "container \<Rightarrow> compute_node option \<Rightarrow> pci_tracker option \<Rightarrow> pci_request list option \<Rightarrow> limits option \<Rightarrow>
     (trk_error, ticket) res" where
  "new_claim c cn pci requests lims =
     (case cn of
        None \<Rightarrow> Inl AttributeError
      | Some n \<Rightarrow>
          rbind (claim_test (int_or_0 (c_memory c)) (rat_or_0 (c_cpu c)) (int_or_0 (c_disk c)) requests lims n pci)
            (\<lambda>_. rbind (claim_cpuset (rat_or_0 (c_cpu c)) c lims) (\<lambda>_. Inr (Claim c))))"

definition new_update_claim ::
    "container \<Rightarrow> container \<Rightarrow> compute_node option \<Rightarrow> pci_tracker option \<Rightarrow> limits option \<Rightarrow> (trk_error, ticket) res" where
  "new_update_claim new old cn pci lims =
     (case cn of
        None \<Rightarrow> Inl AttributeError
      | Some n \<Rightarrow>
          (let cpu = rat_or_0 (c_cpu new) - rat_or_0 (c_cpu old)
           in rbind (claim_test (int_or_0 (c_memory new) - int_or_0 (c_memory old)) cpu (int_or_0 (c_disk new))
                       (Some []) lims n pci)
                (\<lambda>_. rbind (claim_cpuset cpu new lims) (\<lambda>_. Inr (UpdateClaim new old)))))"

section \<open>Usage\<close>

definition get_usage_dict :: "container \<Rightarrow> (trk_error, usage) res" where
  \<comment> \<open>a container with a CPU set has a set of memory nodes, which \<open>int\<close> refuses\<close>
  "get_usage_dict c =
     (if c_cpuset_cpus c \<noteq> None \<and> c_cpuset_cpus c \<noteq> Some {} then Inl TrkTypeError
      else Inr \<lparr>us_memory = int_or_0 (c_memory c), us_cpu = rat_or_0 (c_cpu c), us_disk = int_or_0 (c_disk c),
                us_cpuset = None\<rparr>)"

fun update_nodes :: "int set \<Rightarrow> int \<Rightarrow> int \<Rightarrow> int \<Rightarrow> numa_node list \<Rightarrow> (trk_error, unit) res \<times> numa_node list" where
  "update_nodes cpus_used nid mem sign [] = (Inr (), [])"
| "update_nodes cpus_used nid mem sign (n # ns) =
     (if nn_id n \<noteq> nid
      then (case update_nodes cpus_used nid mem sign ns of (r, ns') \<Rightarrow> (r, n # ns'))
      else (let n1 = n\<lparr>mem_available := mem_available n - mem * sign\<rparr>
            in case (if sign > 0 then pin_cpus cpus_used n1 else unpin_cpus cpus_used n1) of
                 Inl e \<Rightarrow> (Inl (NumaError e), n1 # ns)
               | Inr n2 \<Rightarrow> (case update_nodes cpus_used nid mem sign ns of (r, ns') \<Rightarrow> (r, n2 # ns'))))"

definition update_usage :: "usage \<Rightarrow> int \<Rightarrow> (compute_node, trk_error, unit) st" where
  "update_usage u sign cn =
     (let used = mem_used cn + sign * us_memory u;
          cn1 = cn\<lparr>mem_used := used, cpu_used := cpu_used cn + of_int sign * us_cpu u,
                   disk_used := disk_used cn + sign * us_disk u, mem_free := mem_total cn - used,
                   running_containers := running_containers cn + sign * 1\<rparr>
      in case us_cpuset u of
           None \<Rightarrow> (Inr (), cn1)
         | Some (cpus_used, nid) \<Rightarrow>
             if cpus_used = {} then (Inr (), cn1)
             else (case update_nodes cpus_used nid (us_memory u) sign (numa_nodes cn1) of
                     (r, ns) \<Rightarrow> (r, cn1\<lparr>numa_nodes := ns\<rparr>)))"

definition on_node :: "(compute_node, trk_error, 'a) st \<Rightarrow> (cn_tracker, trk_error, 'a) st" where
  "on_node m t =
     (case compute_node t of
        None \<Rightarrow> (Inl AttributeError, t)
      | Some cn \<Rightarrow> (case m cn of (r, cn') \<Rightarrow> (r, t\<lparr>compute_node := Some cn'\<rparr>)))"

definition on_pci :: "(pci_tracker, pci_error, 'a) st \<Rightarrow> (cn_tracker, trk_error, unit) st" where
  \<comment> \<open>\<open>if self.pci_tracker\<close>; the result is not used\<close>
  "on_pci m t =
     (case pci_tracker t of
        None \<Rightarrow> (Inr (), t)
      | Some p \<Rightarrow> (case m p of
                     (Inl e, p') \<Rightarrow> (Inl (PciError e), t\<lparr>pci_tracker := Some p'\<rparr>)
                   | (Inr _, p') \<Rightarrow> (Inr (), t\<lparr>pci_tracker := Some p'\<rparr>)))"

definition account :: "container \<Rightarrow> int \<Rightarrow> (cn_tracker, trk_error, unit) st" where
  "account c sign = sbind (slift (get_usage_dict c)) (\<lambda>u. on_node (update_usage u sign))"

definition update_usage_from_container :: "container \<Rightarrow> bool \<Rightarrow> (cn_tracker, trk_error, unit) st" where
  "update_usage_from_container c is_removed t =
     (let is_new = c_uuid c \<notin> set (dict_keys (tracked_containers t));
          removed = (\<not> is_new \<and> is_removed);
          sign = (if is_new then 1 else -1);
          t1 = (if is_new then t\<lparr>tracked_containers := dict_set (c_uuid c) c (tracked_containers t)\<rparr>
                else if removed then t\<lparr>tracked_containers := dict_del (c_uuid c) (tracked_containers t)\<rparr> else t)
      in if is_new \<or> removed
         then sbind (on_pci (update_pci_for_container (c_uuid c) sign)) (\<lambda>_. account c sign) t1
         else (Inr (), t1))"

definition update_usage_from_container_update :: "container \<Rightarrow> container \<Rightarrow> (cn_tracker, trk_error, unit) st" where
  "update_usage_from_container_update new old =
     sbind (smodify (\<lambda>t. t\<lparr>tracked_containers := dict_set (c_uuid new) new (tracked_containers t)\<rparr>))
       (\<lambda>_. sbind (account old (-1)) (\<lambda>_. account new 1))"

definition update_usage_from_containers :: "container list \<Rightarrow> (cn_tracker, trk_error, unit) st" where
  "update_usage_from_containers cs =
     sbind (smodify (\<lambda>t. t\<lparr>tracked_containers := []\<rparr>))
       (\<lambda>_. sbind (on_node (smodify (\<lambda>cn. cn\<lparr>cpu_used := 0, mem_free := mem_total cn, mem_used := 0,
                                               running_containers := 0, disk_used := 0\<rparr>)))
         (\<lambda>_. sbind (sforeach cs (\<lambda>c. update_usage_from_container c False))
           (\<lambda>_. on_node (smodify (\<lambda>cn. cn\<lparr>mem_free := max 0 (mem_free cn)\<rparr>)))))"

section \<open>Publishing and the operations of the tracker\<close>

text \<open>What the tracker calls outside: the calls that publish a changed node to the placement
  service, which may raise, and \<open>obj_what_changed\<close> of a PCI device.\<close>

record publisher =
  send_node :: "compute_node \<Rightarrow> (trk_error, unit) res"
  dev_changed :: "pci_tracker \<Rightarrow> dref \<Rightarrow> bool"

definition update :: "publisher \<Rightarrow> (cn_tracker, trk_error, unit) st" where
  \<comment> \<open>\<open>_update\<close>; \<open>_resource_change\<close> remembers the node that it found changed\<close>
  "update pub t =
     (case compute_node t of
        None \<Rightarrow> (Inl AttributeError, t)
      | Some cn \<Rightarrow>
          if old_resources t = Some cn then (Inr (), t)
          else sbind (slift (send_node pub cn))
                 (\<lambda>_. smodify (\<lambda>t. t\<lparr>pci_tracker := map_option (\<lambda>p. snd (save_tracker (dev_changed pub) p)) (pci_tracker t)\<rparr>))
                 (t\<lparr>old_resources := Some cn, db_node := Some cn\<rparr>))"

definition reload :: "cn_tracker \<Rightarrow> cn_tracker" where
  \<comment> \<open>\<open>self.compute_node = self._get_compute_node(context)\<close>\<close>
  "reload t = t\<lparr>compute_node := db_node t\<rparr>"

definition container_claim ::
    "publisher \<Rightarrow> container \<Rightarrow> pci_request list option \<Rightarrow> limits option \<Rightarrow>
     (cn_tracker, trk_error, ticket) st" where
  "container_claim pub c requests lims t =
     (if c_memory c = None \<and> rat_or_0 (c_cpu c) = 0 \<and> requests = None \<and> int_or_0 (c_disk c) = 0
      then (Inr NopClaim, t)
      else (let t1 = reload t
            in sbind (slift (new_claim c (compute_node t1) (pci_tracker t1) requests lims))
                 (\<lambda>ticket. sbind (on_pci (claim_container (c_uuid c) requests))
                   (\<lambda>_. sbind (smodify (\<lambda>t. t\<lparr>saved_host := dict_set (c_uuid c) (host t) (saved_host t)\<rparr>))
                     (\<lambda>_. sbind (update_usage_from_container (c\<lparr>c_host := Some (host t)\<rparr>) False)
                       (\<lambda>_. sbind (update pub) (\<lambda>_. sreturn ticket))))) t1))"

definition container_update_claim ::
    "publisher \<Rightarrow> container \<Rightarrow> container \<Rightarrow> limits option \<Rightarrow>
     (cn_tracker, trk_error, ticket) st" where
  "container_update_claim pub new old lims t =
     (if c_cpu new = c_cpu old \<and> c_memory new = c_memory old then (Inr NopClaim, t)
      else (let t1 = reload t
            in sbind (slift (new_update_claim new old (compute_node t1) (pci_tracker t1) lims))
                 (\<lambda>ticket. sbind (update_usage_from_container_update new old)
                   (\<lambda>_. sbind (update pub) (\<lambda>_. sreturn ticket))) t1))"

definition abort_container_claim ::
    "publisher \<Rightarrow> container \<Rightarrow> (cn_tracker, trk_error, unit) st" where
  "abort_container_claim pub c = sbind (update_usage_from_container c True) (\<lambda>_. update pub)"

definition abort_container_update_claim :: "container \<Rightarrow> container \<Rightarrow> (cn_tracker, trk_error, unit) st" where
  \<comment> \<open>\<open>_update\<close> is called without its context argument\<close>
  "abort_container_update_claim new old =
     sbind (update_usage_from_container_update old new) (\<lambda>_. sraise TrkTypeError)"

definition remove_usage_from_container ::
    "publisher \<Rightarrow> container \<Rightarrow> bool \<Rightarrow> (cn_tracker, trk_error, unit) st" where
  "remove_usage_from_container pub c is_removed t =
     sbind (update_usage_from_container c is_removed) (\<lambda>_. update pub) (reload t)"

definition abort_ticket ::
    "publisher \<Rightarrow> ticket \<Rightarrow> (cn_tracker, trk_error, unit) st" where
  "abort_ticket pub tk =
     (case tk of
        NopClaim \<Rightarrow> sreturn ()
      | Claim c \<Rightarrow> abort_container_claim pub c
      | UpdateClaim new old \<Rightarrow> abort_container_update_claim new old)"

definition update_available_resource ::
    "publisher \<Rightarrow> bool \<Rightarrow> container list \<Rightarrow> container list \<Rightarrow>
     (cn_tracker, trk_error, unit) st" where
  \<comment> \<open>\<open>available\<close> is what \<open>node_is_available\<close> of the driver says; the lists are the
    containers and capsules of the host in the database\<close>
  "update_available_resource pub available containers capsules t =
     (case compute_node t of
        None \<Rightarrow> (Inr (), t)
      | Some cn \<Rightarrow>
          if host t \<noteq> hostname cn \<or> \<not> available then (Inr (), t)
          else sbind (update_usage_from_containers (containers @ capsules)) (\<lambda>_. update pub) t)"

section \<open>Accounting\<close>

abbreviation mem_of :: "container \<Rightarrow> int" where
  "mem_of c \<equiv> int_or_0 (c_memory c)"

abbreviation cpu_of :: "container \<Rightarrow> rat" where
  "cpu_of c \<equiv> rat_or_0 (c_cpu c)"

abbreviation disk_of :: "container \<Rightarrow> int" where
  "disk_of c \<equiv> int_or_0 (c_disk c)"

text \<open>The usage of a node is the sum over some containers, and their number.\<close>

definition sums_to :: "container list \<Rightarrow> compute_node \<Rightarrow> bool" where
  "sums_to cs cn \<longleftrightarrow>
     mem_used cn = sum_list (map mem_of cs) \<and> cpu_used cn = sum_list (map cpu_of cs) \<and>
     disk_used cn = sum_list (map disk_of cs) \<and> running_containers cn = int (length cs)"

definition charged :: "int \<Rightarrow> container \<Rightarrow> compute_node \<Rightarrow> compute_node" where
  "charged sign c cn =
     cn\<lparr>mem_used := mem_used cn + sign * mem_of c, cpu_used := cpu_used cn + of_int sign * cpu_of c,
        disk_used := disk_used cn + sign * disk_of c, mem_free := mem_total cn - (mem_used cn + sign * mem_of c),
        running_containers := running_containers cn + sign\<rparr>"

text \<open>
  The tracker is in step: what it holds, what it last published and the database agree, and
  the usage is the sum over the tracked containers.
\<close>

definition in_step :: "cn_tracker \<Rightarrow> compute_node \<Rightarrow> bool" where
  "in_step t cn \<longleftrightarrow> compute_node t = Some cn \<and> db_node t = Some cn \<and> old_resources t = Some cn \<and>
     dict_wf (tracked_containers t) \<and> sums_to (dict_values (tracked_containers t)) cn"

lemma account_iff:
  "account c sign t = (Inr (), t') \<longleftrightarrow>
     (c_cpuset_cpus c = None \<or> c_cpuset_cpus c = Some {}) \<and>
     (\<exists>cn. compute_node t = Some cn \<and> t' = t\<lparr>compute_node := Some (charged sign c cn)\<rparr>)"
  by (auto simp: account_def get_usage_dict_def on_node_def update_usage_def charged_def Let_def st_defs
      split: option.splits)

lemma on_pci_frame:
  "on_pci m t = (r, t') \<Longrightarrow> \<exists>p. t' = t\<lparr>pci_tracker := p\<rparr>"
  by (auto simp: on_pci_def split: option.splits prod.splits sum.splits) (metis cn_tracker.surjective cn_tracker.update_convs(5))

lemma update_Inr:
  assumes "update pub t = (Inr (), t')"
  shows "\<exists>cn p. compute_node t = Some cn \<and> t' = t\<lparr>old_resources := Some cn, db_node := (if old_resources t = Some cn then db_node t else Some cn), pci_tracker := p\<rparr>"
  using assms
  by (auto simp: update_def st_defs split: option.splits if_splits sum.splits)
    (metis cn_tracker.surjective cn_tracker.update_convs(4) cn_tracker.update_convs(5) cn_tracker.update_convs(6))

lemma sum_values_del:
  fixes f :: "'a \<Rightarrow> 'b::comm_monoid_add"
  assumes "dict_wf m" "dict_get m k = Some v"
  shows "sum_list (map f (dict_values m)) = f v + sum_list (map f (dict_values (dict_del k m)))"
    "length m = Suc (length (dict_del k m))"
  using assms
proof (induction m)
  case (Cons kv m)
  obtain k' v' where kv: "kv = (k', v')" by force
  {
    case 1
    show ?case
    proof (cases "k' = k")
      case True
      then have "dict_del k m = m" using 1 kv by (intro dict_del_absent) auto
      then show ?thesis using True 1 kv by (simp add: dict_del_def)
    next
      case False
      then show ?thesis using 1 kv Cons by (simp add: dict_del_def add_ac)
    qed
  next
    case 2
    show ?case
    proof (cases "k' = k")
      case True
      then have "dict_del k m = m" using 2 kv by (intro dict_del_absent) auto
      then show ?thesis using True 2 kv by (simp add: dict_del_def)
    next
      case False
      then show ?thesis using 2 kv Cons by (simp add: dict_del_def)
    qed
  }
qed simp_all

lemma sums_to_add:
  assumes "sums_to cs cn"
  shows "sums_to (cs @ [c]) (charged 1 c cn)"
  using assms by (simp add: sums_to_def charged_def)

lemma sums_to_remove:
  assumes "dict_wf m" "dict_get m k = Some v" "sums_to (dict_values m) cn"
    and "mem_of v = mem_of c" "cpu_of v = cpu_of c" "disk_of v = disk_of c"
  shows "sums_to (dict_values (dict_del k m)) (charged (-1) c cn)"
  using assms(3-) sum_values_del(1) [OF assms(1,2), of mem_of] sum_values_del(1) [OF assms(1,2), of cpu_of]
    sum_values_del(1) [OF assms(1,2), of disk_of] sum_values_del(2) [OF assms(1,2)]
  by (simp add: sums_to_def charged_def)

lemma track_new:
  assumes new: "c_uuid c \<notin> set (dict_keys (tracked_containers t))"
    and run: "update_usage_from_container c removed t = (Inr (), t')"
  shows "\<exists>cn p. compute_node t = Some cn \<and>
    t' = t\<lparr>compute_node := Some (charged 1 c cn), tracked_containers := tracked_containers t @ [(c_uuid c, c)], pci_tracker := p\<rparr>"
proof -
  let ?t1 = "t\<lparr>tracked_containers := tracked_containers t @ [(c_uuid c, c)]\<rparr>"
  obtain t2 where t2: "on_pci (update_pci_for_container (c_uuid c) 1) ?t1 = (Inr (), t2)"
    and acc: "account c 1 t2 = (Inr (), t')"
    using run new dict_set_fresh [OF new, of c] unfolding update_usage_from_container_def Let_def
    by (auto simp: sbind_Inr_iff simp del: set_map)
  obtain p where p: "t2 = ?t1\<lparr>pci_tracker := p\<rparr>" using on_pci_frame [OF t2] by blast
  obtain cn where "compute_node t2 = Some cn" "t' = t2\<lparr>compute_node := Some (charged 1 c cn)\<rparr>" using acc account_iff by blast
  then show ?thesis using p by (intro exI [of _ cn] exI [of _ p]) simp
qed

lemma untrack:
  assumes old: "c_uuid c \<in> set (dict_keys (tracked_containers t))"
    and run: "update_usage_from_container c True t = (Inr (), t')"
  shows "\<exists>cn p. compute_node t = Some cn \<and>
    t' = t\<lparr>compute_node := Some (charged (-1) c cn), tracked_containers := dict_del (c_uuid c) (tracked_containers t),
           pci_tracker := p\<rparr>"
proof -
  let ?t1 = "t\<lparr>tracked_containers := dict_del (c_uuid c) (tracked_containers t)\<rparr>"
  obtain t2 where t2: "on_pci (update_pci_for_container (c_uuid c) (-1)) ?t1 = (Inr (), t2)"
    and acc: "account c (-1) t2 = (Inr (), t')"
    using run old unfolding update_usage_from_container_def Let_def by (auto simp: sbind_Inr_iff simp del: set_map)
  obtain p where p: "t2 = ?t1\<lparr>pci_tracker := p\<rparr>" using on_pci_frame [OF t2] by blast
  obtain cn where "compute_node t2 = Some cn" "t' = t2\<lparr>compute_node := Some (charged (-1) c cn)\<rparr>" using acc account_iff by blast
  then show ?thesis using p by (intro exI [of _ cn] exI [of _ p]) simp
qed

lemma claim_test_limits:
  assumes "claim_test m cp d reqs lims cn pci = Inr ()"
  shows "lims = Some l \<Longrightarrow> lim_memory l = Some b \<Longrightarrow> mem_used cn + m \<le> b"
    and "lims = Some l \<Longrightarrow> lim_cpu l = Some x \<Longrightarrow> cpu_used cn + cp \<le> x"
    and "lims = Some l \<Longrightarrow> lim_disk l = Some b \<Longrightarrow> disk_used cn + d \<le> b"
proof -
  let ?l = "case lims of None \<Rightarrow> no_limits | Some l \<Rightarrow> l"
  have "\<not> test_memory m cn (lim_memory ?l)" "\<not> test_cpu cp cn (lim_cpu ?l)" "\<not> test_disk d cn (lim_disk ?l)"
    using assms by (auto simp: claim_test_def Let_def rbind_Inr_iff split: if_splits)
  then show "lims = Some l \<Longrightarrow> lim_memory l = Some b \<Longrightarrow> mem_used cn + m \<le> b"
    "lims = Some l \<Longrightarrow> lim_cpu l = Some x \<Longrightarrow> cpu_used cn + cp \<le> x"
    "lims = Some l \<Longrightarrow> lim_disk l = Some b \<Longrightarrow> disk_used cn + d \<le> b"
    by (auto simp: test_memory_def test_cpu_def test_disk_def claim_resource_test_def of_int_diff [symmetric]
        simp del: of_int_diff)
qed

lemma charged_differs: "charged 1 c cn \<noteq> cn" "charged (-1) c cn \<noteq> cn"
proof -
  have "running_containers (charged 1 c cn) \<noteq> running_containers cn" "running_containers (charged (-1) c cn) \<noteq> running_containers cn"
    by (simp_all add: charged_def)
  then show "charged 1 c cn \<noteq> cn" "charged (-1) c cn \<noteq> cn" by metis+
qed

lemma publish_step:
  assumes "update pub t = (Inr (), t')" "compute_node t = Some cn" "old_resources t \<noteq> Some cn"
    "dict_wf (tracked_containers t)" "sums_to (dict_values (tracked_containers t)) cn"
  shows "in_step t' cn \<and> tracked_containers t' = tracked_containers t"
  using update_Inr [OF assms(1)] assms(2-) by (auto simp: in_step_def)

lemma dict_wf_snoc: "dict_wf m \<Longrightarrow> k \<notin> set (dict_keys m) \<Longrightarrow> dict_wf (m @ [(k, v)])"
  by simp

lemma container_claim_Inr:
  assumes step: "in_step t cn" and new: "c_uuid c \<notin> set (dict_keys (tracked_containers t))"
    and run: "container_claim pub c reqs lims t = (Inr (Claim c'), t')"
  defines "cn' \<equiv> charged 1 (c\<lparr>c_host := Some (host t)\<rparr>) cn"
  shows "in_step t' cn'" "c' = c"
    "tracked_containers t' = tracked_containers t @ [(c_uuid c, c\<lparr>c_host := Some (host t)\<rparr>)]"
    "claim_test (mem_of c) (cpu_of c) (disk_of c) reqs lims cn (pci_tracker t) = Inr ()"
    "c_cpuset_cpus c = None \<or> c_cpuset_cpus c = Some {}"
proof -
  let ?c = "c\<lparr>c_host := Some (host t)\<rparr>"
  have cn: "compute_node (reload t) = Some cn" using step by (simp add: reload_def in_step_def)
  obtain t1 t2 where claim: "new_claim c (Some cn) (pci_tracker t) reqs lims = Inr (Claim c')"
    and pci: "on_pci (claim_container (c_uuid c) reqs) (reload t) = (Inr (), t1)"
    and usage: "update_usage_from_container ?c False (t1\<lparr>saved_host := dict_set (c_uuid c) (host t1) (saved_host t1)\<rparr>) = (Inr (), t2)"
    and upd: "update pub t2 = (Inr (), t')"
    using run cn by (auto simp: container_claim_def Let_def sbind_Inr_iff slift_def smodify_def sreturn_def reload_def
        split: if_splits)
  show "c' = c" "claim_test (mem_of c) (cpu_of c) (disk_of c) reqs lims cn (pci_tracker t) = Inr ()"
    using claim by (auto simp: new_claim_def rbind_Inr_iff)
  obtain p where t1: "t1 = (reload t)\<lparr>pci_tracker := p\<rparr>" using on_pci_frame [OF pci] by blast
  let ?t1 = "t1\<lparr>saved_host := dict_set (c_uuid c) (host t1) (saved_host t1)\<rparr>"
  have fresh: "c_uuid ?c \<notin> set (dict_keys (tracked_containers ?t1))" using new t1 by (simp add: reload_def)
  obtain q where t2: "t2 = ?t1\<lparr>compute_node := Some cn', tracked_containers := tracked_containers t @ [(c_uuid c, ?c)], pci_tracker := q\<rparr>"
    using track_new [OF fresh usage] cn t1 by (auto simp: cn'_def reload_def)
  have wf: "dict_wf (tracked_containers t2)" using t2 step new by (simp add: in_step_def)
  have sums: "sums_to (dict_values (tracked_containers t2)) cn'"
    using t2 step sums_to_add [of "dict_values (tracked_containers t)" cn ?c] by (simp add: in_step_def cn'_def)
  have "old_resources t2 \<noteq> Some cn'" using t2 t1 step charged_differs(1) [THEN not_sym] by (auto simp: reload_def in_step_def cn'_def)
  from publish_step [OF upd _ this wf sums] t2 show "in_step t' cn'"
    "tracked_containers t' = tracked_containers t @ [(c_uuid c, ?c)]" by auto
  show "c_cpuset_cpus c = None \<or> c_cpuset_cpus c = Some {}"
    using usage fresh unfolding update_usage_from_container_def Let_def
    by (auto simp: sbind_Inr_iff account_iff simp del: set_map)
qed

lemma charged_back:
  assumes "mem_of c' = mem_of c" "cpu_of c' = cpu_of c" "disk_of c' = disk_of c"
  shows "charged (-1) c (charged 1 c' cn) = cn\<lparr>mem_free := mem_total cn - mem_used cn\<rparr>"
  using assms by (simp add: charged_def)

lemma abort_claim_Inr:
  assumes step: "in_step t cn" and run: "abort_ticket pub (Claim c) t = (Inr (), t')"
    and old: "dict_get (tracked_containers t) (c_uuid c) = Some v"
    and same: "mem_of v = mem_of c" "cpu_of v = cpu_of c" "disk_of v = disk_of c"
  shows "in_step t' (charged (-1) c cn) \<and> tracked_containers t' = dict_del (c_uuid c) (tracked_containers t)"
proof -
  obtain t1 where use: "update_usage_from_container c True t = (Inr (), t1)" and upd: "update pub t1 = (Inr (), t')"
    using run by (auto simp: abort_ticket_def abort_container_claim_def sbind_Inr_iff)
  obtain p where t1: "t1 = t\<lparr>compute_node := Some (charged (-1) c cn), tracked_containers := dict_del (c_uuid c) (tracked_containers t), pci_tracker := p\<rparr>"
    using untrack [OF dict_get_in [OF old] use] step by (auto simp: in_step_def)
  have "sums_to (dict_values (tracked_containers t1)) (charged (-1) c cn)"
    using t1 step sums_to_remove [OF _ old _ same] by (simp add: in_step_def)
  moreover have "old_resources t1 \<noteq> Some (charged (-1) c cn)"
    using t1 step charged_differs(2) [THEN not_sym] by (simp add: in_step_def)
  ultimately show ?thesis using publish_step [OF upd] t1 step by (simp add: in_step_def)
qed

lemma track_all:
  assumes "sforeach cs (\<lambda>c. update_usage_from_container c False) t = (Inr (), t')" "compute_node t = Some cn"
    and "distinct (map c_uuid cs)" "set (map c_uuid cs) \<inter> set (dict_keys (tracked_containers t)) = {}"
  shows "\<exists>p. t' = t\<lparr>compute_node := Some (fold (charged 1) cs cn),
      tracked_containers := tracked_containers t @ map (\<lambda>c. (c_uuid c, c)) cs, pci_tracker := p\<rparr>"
  using assms
proof (induction cs arbitrary: t cn)
  case Nil
  then show ?case by (intro exI [of _ "pci_tracker t"]) (simp add: sreturn_def)
next
  case (Cons c cs)
  obtain t1 where first: "update_usage_from_container c False t = (Inr (), t1)"
    and rest: "sforeach cs (\<lambda>c. update_usage_from_container c False) t1 = (Inr (), t')"
    using Cons.prems(1) by (auto simp: sbind_Inr_iff)
  obtain p where t1: "t1 = t\<lparr>compute_node := Some (charged 1 c cn), tracked_containers := tracked_containers t @ [(c_uuid c, c)], pci_tracker := p\<rparr>"
    using track_new [OF _ first] Cons.prems(2,4) by auto
  have "\<exists>p. t' = t1\<lparr>compute_node := Some (fold (charged 1) cs (charged 1 c cn)),
      tracked_containers := tracked_containers t1 @ map (\<lambda>c. (c_uuid c, c)) cs, pci_tracker := p\<rparr>"
    using Cons.prems(3,4) t1 by (intro Cons.IH [OF rest]) auto
  then show ?case using t1 by auto
qed

lemma sums_to_fold: "sums_to cs0 cn \<Longrightarrow> sums_to (cs0 @ cs) (fold (charged 1) cs cn)"
proof (induction cs arbitrary: cs0 cn)
  case (Cons c cs)
  then show ?case using Cons.IH [OF sums_to_add [OF Cons.prems, of c]] by simp
qed simp

lemma fold_charged_free:
  "mem_free cn = mem_total cn - mem_used cn \<Longrightarrow>
   mem_total (fold (charged 1) cs cn) = mem_total cn \<and>
   mem_free (fold (charged 1) cs cn) = mem_total (fold (charged 1) cs cn) - mem_used (fold (charged 1) cs cn)"
proof (induction cs arbitrary: cn)
  case (Cons c cs)
  have "mem_free (charged 1 c cn) = mem_total (charged 1 c cn) - mem_used (charged 1 c cn)" by (simp add: charged_def)
  from Cons.IH [OF this] show ?case by (simp add: charged_def)
qed simp

section \<open>Properties\<close>

text \<open>
  C3. A successful claim keeps the tracker in step: the container is tracked, the usage of
  the node is the sum over the tracked containers and is published, and no limit that was
  given for memory, CPU or disk is exceeded by the new usage.
\<close>

theorem container_claim_within_limits:
  assumes "in_step t cn" "c_uuid c \<notin> set (dict_keys (tracked_containers t))"
    and "container_claim pub c reqs lims t = (Inr (Claim c'), t')"
  shows "\<exists>cn'. in_step t' cn' \<and> dict_get (tracked_containers t') (c_uuid c) = Some (c\<lparr>c_host := Some (host t)\<rparr>) \<and>
    mem_used cn' = mem_used cn + mem_of c \<and> cpu_used cn' = cpu_used cn + cpu_of c \<and>
    disk_used cn' = disk_used cn + disk_of c \<and>
    (\<forall>l. lims = Some l \<longrightarrow>
       (\<forall>b. lim_memory l = Some b \<longrightarrow> mem_used cn' \<le> b) \<and> (\<forall>b. lim_cpu l = Some b \<longrightarrow> cpu_used cn' \<le> b) \<and>
       (\<forall>b. lim_disk l = Some b \<longrightarrow> disk_used cn' \<le> b))"
proof -
  note r = container_claim_Inr [OF assms]
  have "dict_get (tracked_containers t) (c_uuid c) = None" using assms(2) by (simp add: dict_get_None)
  with r(1,3) claim_test_limits [OF r(4)] show ?thesis
    by (intro exI [of _ "charged 1 (c\<lparr>c_host := Some (host t)\<rparr>) cn"]) (simp add: charged_def map_add_def)
qed

text \<open>
  C28. Aborting a successful claim gives back exactly what it took: the tracker is in step
  again, tracks the containers it tracked before, and the node is as it was, its free memory
  being computed anew from its total.
\<close>

theorem claim_abort_restores:
  assumes "in_step t cn" "c_uuid c \<notin> set (dict_keys (tracked_containers t))"
    and "container_claim pub c reqs lims t = (Inr (Claim c'), t1)" "abort_ticket pub (Claim c') t1 = (Inr (), t2)"
  shows "in_step t2 (cn\<lparr>mem_free := mem_total cn - mem_used cn\<rparr>) \<and> tracked_containers t2 = tracked_containers t"
proof -
  let ?c = "c\<lparr>c_host := Some (host t)\<rparr>"
  note r = container_claim_Inr [OF assms(1-3)]
  have None: "dict_get (tracked_containers t) (c_uuid c) = None" using assms(2) by (simp add: dict_get_None)
  have "dict_get (tracked_containers t1) (c_uuid c) = Some ?c" using r(3) None by (simp add: map_add_def)
  from abort_claim_Inr [OF r(1) _ this] assms(4) r(2)
  have "in_step t2 (charged (-1) c (charged 1 ?c cn))" "tracked_containers t2 = dict_del (c_uuid c) (tracked_containers t1)" by auto
  moreover have "dict_del (c_uuid c) (tracked_containers t1) = tracked_containers t"
    using r(3) dict_del_absent [OF assms(2)] by (simp add: dict_del_def)
  moreover have "charged (-1) c (charged 1 ?c cn) = cn\<lparr>mem_free := mem_total cn - mem_used cn\<rparr>" by (rule charged_back) simp_all
  ultimately show ?thesis by simp
qed

text \<open>
  C29. The audit of a node rebuilds its usage from the containers of the host: whatever was
  recorded before, the usage becomes the sum over the containers, exactly they are tracked,
  and the free memory is what they leave, never negative.
\<close>

theorem audit_sums:
  assumes "update_usage_from_containers cs t = (Inr (), t')" "distinct (map c_uuid cs)"
  shows "\<exists>cn'. compute_node t' = Some cn' \<and> sums_to cs cn' \<and> dict_values (tracked_containers t') = cs \<and>
    mem_free cn' = max 0 (mem_total cn' - mem_used cn') \<and> mem_free cn' \<ge> 0"
proof -
  let ?zero = "\<lambda>cn. cn\<lparr>cpu_used := 0, mem_free := mem_total cn, mem_used := 0, running_containers := 0, disk_used := 0\<rparr>"
  obtain cn t2 where cn: "compute_node t = Some cn"
    and all: "sforeach cs (\<lambda>c. update_usage_from_container c False) (t\<lparr>tracked_containers := [], compute_node := Some (?zero cn)\<rparr>) = (Inr (), t2)"
    and last: "on_node (smodify (\<lambda>cn. cn\<lparr>mem_free := max 0 (mem_free cn)\<rparr>)) t2 = (Inr (), t')"
    using assms(1) unfolding update_usage_from_containers_def
    by (auto simp: sbind_Inr_iff smodify_def on_node_def split: option.splits)
  obtain p where t2: "t2 = t\<lparr>compute_node := Some (fold (charged 1) cs (?zero cn)),
      tracked_containers := map (\<lambda>c. (c_uuid c, c)) cs, pci_tracker := p\<rparr>"
    using track_all [OF all, of "?zero cn"] assms(2) by auto
  have "sums_to ([] @ cs) (fold (charged 1) cs (?zero cn))" by (rule sums_to_fold) (simp add: sums_to_def)
  moreover have "mem_free (fold (charged 1) cs (?zero cn)) = mem_total (fold (charged 1) cs (?zero cn)) - mem_used (fold (charged 1) cs (?zero cn))"
    using fold_charged_free [of "?zero cn" cs] by simp
  ultimately show ?thesis using last t2 by (auto simp: on_node_def smodify_def sums_to_def comp_def)
qed

text \<open>
  Removing the usage of a container that is not tracked adds it: the container becomes
  tracked and the node is charged for it. This happens when a deletion whose later steps
  failed is repeated.
\<close>

theorem remove_untracked_adds:
  assumes "in_step t cn" "c_uuid c \<notin> set (dict_keys (tracked_containers t))"
    and "remove_usage_from_container pub c True t = (Inr (), t')"
  shows "in_step t' (charged 1 c cn) \<and> dict_get (tracked_containers t') (c_uuid c) = Some c"
proof -
  have same: "reload t = t" using assms(1) by (simp add: reload_def in_step_def)
  obtain t1 where use: "update_usage_from_container c True t = (Inr (), t1)" and upd: "update pub t1 = (Inr (), t')"
    using assms(3) same by (auto simp: remove_usage_from_container_def sbind_Inr_iff)
  obtain p where t1: "t1 = t\<lparr>compute_node := Some (charged 1 c cn), tracked_containers := tracked_containers t @ [(c_uuid c, c)], pci_tracker := p\<rparr>"
    using track_new [OF assms(2) use] assms(1) by (auto simp: in_step_def)
  have "sums_to (dict_values (tracked_containers t1)) (charged 1 c cn)"
    using t1 assms(1) sums_to_add [of "dict_values (tracked_containers t)" cn c] by (simp add: in_step_def)
  moreover have "old_resources t1 \<noteq> Some (charged 1 c cn)"
    using t1 assms(1) charged_differs(1) [THEN not_sym] by (simp add: in_step_def)
  moreover have "dict_get (tracked_containers t) (c_uuid c) = None" using assms(2) by (simp add: dict_get_None)
  ultimately show ?thesis using publish_step [OF upd] t1 assms(1,2) by (simp add: in_step_def map_add_def)
qed

text \<open>
  Aborting the claim of an update always raises, because the tracker is told to publish
  without a context; the exception that caused the abort is lost.
\<close>

theorem abort_update_raises:
  "\<exists>e. fst (abort_ticket pub (UpdateClaim new old) t) = Inl e"
proof -
  obtain r t' where "update_usage_from_container_update old new t = (r, t')" by fastforce
  then show ?thesis
    by (cases r) (simp_all add: abort_ticket_def abort_container_update_claim_def sbind_def sraise_def)
qed

definition ex_cn :: compute_node where
  "ex_cn = \<lparr>hostname = ''h'', mem_total = 1000, mem_free = 1000, mem_used = 0, cpus = 4, cpu_used = 0,
     disk_total = 100, disk_used = 0, running_containers = 0, numa_nodes = []\<rparr>"

definition ex_cn_tracker :: cn_tracker where
  "ex_cn_tracker = \<lparr>host = ''h'', compute_node = Some ex_cn, tracked_containers = [], old_resources = Some ex_cn,
     pci_tracker = None, db_node = Some ex_cn, saved_host = []\<rparr>"

definition ex_container :: container where
  "ex_container = \<lparr>c_uuid = ''c'', c_memory = Some 512, c_cpu = Some 1, c_disk = None, c_cpu_policy = None,
     c_cpuset_cpus = None, c_host = None\<rparr>"

definition ex_limits :: limits where
  "ex_limits = \<lparr>lim_memory = Some 1000, lim_cpu = Some 4, lim_disk = None, lim_cpuset = None\<rparr>"

definition ex_pub :: publisher where
  "ex_pub = \<lparr>send_node = (\<lambda>_. Inr ()), dev_changed = (\<lambda>_ _. False)\<rparr>"

lemma ex_in_step: "in_step ex_cn_tracker ex_cn"
  by (simp add: in_step_def ex_cn_tracker_def sums_to_def ex_cn_def)

lemma ex_claim:
  "fst (container_claim ex_pub ex_container None (Some ex_limits) ex_cn_tracker) = Inr (Claim ex_container)"
  by code_simp

theorem container_claim_within_limits_witness:
  "\<exists>cn'. in_step (snd (container_claim ex_pub ex_container None (Some ex_limits) ex_cn_tracker)) cn' \<and>
    mem_used cn' = 512 \<and> mem_used cn' \<le> 1000"
proof -
  let ?run = "container_claim ex_pub ex_container None (Some ex_limits) ex_cn_tracker"
  have run: "?run = (Inr (Claim ex_container), snd ?run)" using ex_claim by (metis prod.collapse)
  have "c_uuid ex_container \<notin> set (dict_keys (tracked_containers ex_cn_tracker))" by (simp add: ex_cn_tracker_def)
  from container_claim_within_limits [OF ex_in_step this run] show ?thesis
    by (auto simp: ex_cn_def ex_container_def ex_limits_def int_or_0_def)
qed

theorem claim_abort_restores_witness:
  "tracked_containers (snd (abort_ticket ex_pub (Claim ex_container)
     (snd (container_claim ex_pub ex_container None (Some ex_limits) ex_cn_tracker)))) = []"
proof -
  let ?run = "container_claim ex_pub ex_container None (Some ex_limits) ex_cn_tracker"
  let ?undo = "abort_ticket ex_pub (Claim ex_container) (snd ?run)"
  have run: "?run = (Inr (Claim ex_container), snd ?run)" using ex_claim by (metis prod.collapse)
  have "fst ?undo = Inr ()" by code_simp
  then have undo: "?undo = (Inr (), snd ?undo)" by (metis prod.collapse)
  have "c_uuid ex_container \<notin> set (dict_keys (tracked_containers ex_cn_tracker))" by (simp add: ex_cn_tracker_def)
  from claim_abort_restores [OF ex_in_step this run undo] show ?thesis by (simp add: ex_cn_tracker_def)
qed

theorem audit_sums_witness:
  "\<exists>cn'. compute_node (snd (update_usage_from_containers [ex_container] ex_cn_tracker)) = Some cn' \<and> mem_used cn' = 512"
proof -
  let ?run = "update_usage_from_containers [ex_container] ex_cn_tracker"
  have "fst ?run = Inr ()" by code_simp
  then have "?run = (Inr (), snd ?run)" by (metis prod.collapse)
  from audit_sums [OF this] show ?thesis by (auto simp: sums_to_def ex_container_def int_or_0_def)
qed

theorem remove_untracked_adds_witness:
  "dict_get (tracked_containers (snd (remove_usage_from_container ex_pub ex_container True ex_cn_tracker))) ''c'' = Some ex_container"
proof -
  let ?run = "remove_usage_from_container ex_pub ex_container True ex_cn_tracker"
  have "fst ?run = Inr ()" by code_simp
  then have run: "?run = (Inr (), snd ?run)" by (metis prod.collapse)
  have "c_uuid ex_container \<notin> set (dict_keys (tracked_containers ex_cn_tracker))" by (simp add: ex_cn_tracker_def)
  from remove_untracked_adds [OF ex_in_step this run] show ?thesis by (simp add: ex_container_def)
qed

end
