(* ===== verification/Container_State.thy ===== *)
theory Container_State
  imports Compute_Tracker "HOL-Library.Sublist"
begin

text \<open>
  Containers as the compute service handles them: status and task state
  (\<^verbatim>\<open>zun/common/consts.py\<close>), the states in which an action is allowed
  (\<^verbatim>\<open>zun/common/utils.py\<close>), the versioned object with its record of changed fields
  and what \<open>save\<close> writes of it (\<^verbatim>\<open>zun/objects/container.py\<close>), and the world the
  compute manager and the drivers act on.
\<close>

section \<open>Constants\<close>

datatype status =
    ERROR | RUNNING | STOPPED | PAUSED | UNKNOWN | CREATING | CREATED
  | DELETED | DELETING | REBUILDING | DEAD | RESTARTING

datatype task_state =
    IMAGE_PULLING | CONTAINER_CREATING | CONTAINER_STARTING | CONTAINER_DELETING
  | CONTAINER_STOPPING | CONTAINER_REBOOTING | CONTAINER_PAUSING | CONTAINER_UNPAUSING
  | CONTAINER_KILLING | SG_ADDING | SG_REMOVING | NETWORK_ATTACHING | NETWORK_DETACHING
  | CONTAINER_REBUILDING

definition CONTAINER_STATUSES :: "status list" where
  "CONTAINER_STATUSES = [ERROR, RUNNING, STOPPED, PAUSED, UNKNOWN, CREATING, CREATED,
     DELETED, DELETING, REBUILDING, DEAD, RESTARTING]"

fun status_text :: "status \<Rightarrow> string" where
  "status_text ERROR = ''Error''"
| "status_text RUNNING = ''Running''"
| "status_text STOPPED = ''Stopped''"
| "status_text PAUSED = ''Paused''"
| "status_text UNKNOWN = ''Unknown''"
| "status_text CREATING = ''Creating''"
| "status_text CREATED = ''Created''"
| "status_text DELETED = ''Deleted''"
| "status_text DELETING = ''Deleting''"
| "status_text REBUILDING = ''Rebuilding''"
| "status_text DEAD = ''Dead''"
| "status_text RESTARTING = ''Restarting''"

definition status_of_text :: "string \<Rightarrow> status option" where
  "status_of_text s = List.find (\<lambda>st. status_text st = s) CONTAINER_STATUSES"

datatype action =
    Commit | Delete | Delete_force | Delete_after_stop | Start | Stop | Reboot | Rebuild
  | Pause | Unpause | Kill | Execute | Execute_resize | Update | Attach | Resize | Top
  | Get_archive | Put_archive | Logs | Stats | Add_security_group | Remove_security_group
  | Resize_container

fun VALID_STATES :: "action \<Rightarrow> status list" where
  "VALID_STATES Commit = [RUNNING, STOPPED, PAUSED]"
| "VALID_STATES Delete = [CREATED, ERROR, STOPPED, DELETED, DEAD]"
| "VALID_STATES Delete_force = [CREATED, CREATING, ERROR, RUNNING, STOPPED, UNKNOWN, DELETED,
     DEAD, RESTARTING, REBUILDING, DELETING]"
| "VALID_STATES Delete_after_stop = [RUNNING, CREATED, ERROR, STOPPED, DELETED, DEAD]"
| "VALID_STATES Start = [CREATED, STOPPED, ERROR]"
| "VALID_STATES Stop = [RUNNING]"
| "VALID_STATES Reboot = [CREATED, RUNNING, STOPPED, ERROR]"
| "VALID_STATES Rebuild = [CREATED, RUNNING, STOPPED, ERROR]"
| "VALID_STATES Pause = [RUNNING]"
| "VALID_STATES Unpause = [PAUSED]"
| "VALID_STATES Kill = [RUNNING]"
| "VALID_STATES Execute = [RUNNING]"
| "VALID_STATES Execute_resize = [RUNNING]"
| "VALID_STATES Update = [CREATED, RUNNING, STOPPED, PAUSED]"
| "VALID_STATES Attach = [RUNNING]"
| "VALID_STATES Resize = [RUNNING]"
| "VALID_STATES Top = [RUNNING]"
| "VALID_STATES Get_archive = [CREATED, PAUSED, RUNNING, STOPPED]"
| "VALID_STATES Put_archive = [CREATED, PAUSED, RUNNING, STOPPED]"
| "VALID_STATES Logs = [CREATED, ERROR, PAUSED, RUNNING, STOPPED, UNKNOWN]"
| "VALID_STATES Stats = [RUNNING]"
| "VALID_STATES Add_security_group = [CREATED, RUNNING, STOPPED, PAUSED]"
| "VALID_STATES Remove_security_group = [CREATED, RUNNING, STOPPED, PAUSED]"
| "VALID_STATES Resize_container = [CREATED, RUNNING, STOPPED, PAUSED]"

section \<open>Text\<close>

fun show_nat :: "nat \<Rightarrow> string" where
  "show_nat n = (if n < 10 then [char_of (48 + n)] else show_nat (n div 10) @ [char_of (48 + n mod 10)])"

declare show_nat.simps [simp del]

definition show_int :: "int \<Rightarrow> string" where
  "show_int i = (if i < 0 then ''-'' @ show_nat (nat (- i)) else show_nat (nat i))"

definition upper_char :: "char \<Rightarrow> char" where
  "upper_char c = (let n = of_char c :: nat in if 97 \<le> n \<and> n \<le> 122 then char_of (n - 32) else c)"

definition lower_char :: "char \<Rightarrow> char" where
  "lower_char c = (let n = of_char c :: nat in if 65 \<le> n \<and> n \<le> 90 then char_of (n + 32) else c)"

definition lower :: "string \<Rightarrow> string" where
  "lower s = map lower_char s"

fun capitalize :: "string \<Rightarrow> string" where
  "capitalize [] = []"
| "capitalize (c # s) = upper_char c # lower s"

definition py_int :: "rat \<Rightarrow> int" where
  \<comment> \<open>\<open>int(x)\<close> of a float truncates towards zero\<close>
  "py_int x = (if x \<ge> 0 then \<lfloor>x\<rfloor> else \<lceil>x\<rceil>)"

section \<open>Exceptions\<close>

text \<open>
  A message is a literal text or \<open>str(e)\<close> of an exception, which is kept symbolic. Docker's
  own errors carry their text, since the driver searches it.
\<close>

datatype exn =
    APIError string
  | DockerError string
  | ImageNotFound msg
  | Conflict msg
  | Invalid msg
  | InvalidStateException action status
  | ContainerNotFound string
  | ZunException msg
  | TrackerError trk_error
  | NeutronError int
  | PortNotFound string
  | PortNotFoundClient string
  | PyTypeError
  | PyKeyError
  | PyIndexError
  | RecursionError
  | PyAttributeError
  | OtherException msg
and msg = Text string | Str exn

fun mentions :: "string \<Rightarrow> exn \<Rightarrow> bool" where
  \<comment> \<open>\<open>s in str(e)\<close> for Docker's errors\<close>
  "mentions s (APIError m) = sublist s m"
| "mentions s (DockerError m) = sublist s (''Docker internal error: '' @ m @ ''.'')"
| "mentions s _ = False"

definition is_not_found :: "exn \<Rightarrow> bool" where
  "is_not_found e = mentions ''404'' e"

definition is_not_connected :: "exn \<Rightarrow> bool" where
  "is_not_connected e = mentions '' is not connected to the network '' e"

definition is_conflict :: "exn \<Rightarrow> bool" where
  "is_conflict e = list_ex (\<lambda>info. mentions info e) [''not running'', ''not paused'', ''paused'']"

fun is_zun_exception :: "exn \<Rightarrow> bool" where
  "is_zun_exception (APIError _) = False"
| "is_zun_exception PyTypeError = False"
| "is_zun_exception PyKeyError = False"
| "is_zun_exception PyIndexError = False"
| "is_zun_exception RecursionError = False"
| "is_zun_exception (NeutronError _) = False"
| "is_zun_exception (PortNotFoundClient _) = False"
| "is_zun_exception PyAttributeError = False"
| "is_zun_exception (OtherException _) = False"
| "is_zun_exception (TrackerError e) =
     (case e of
        ResourcesUnavailable _ \<Rightarrow> True
      | NumaError _ \<Rightarrow> True
      | PciError p \<Rightarrow> (case p of NotImplementedError _ \<Rightarrow> False | TypeError \<Rightarrow> False | ValueNotInList \<Rightarrow> False
                        | PopFromEmptyList \<Rightarrow> False | _ \<Rightarrow> True)
      | _ \<Rightarrow> False)"
| "is_zun_exception _ = True"

fun is_docker_error :: "exn \<Rightarrow> bool" where
  "is_docker_error (DockerError _) = True"
| "is_docker_error _ = False"

section \<open>Container objects\<close>

datatype ctype = Container_obj | Capsule_obj | CapsuleContainer_obj | CapsuleInitContainer_obj

record addr =
  a_port :: string
  a_preserve_on_delete :: bool
  a_addr :: string
  a_version :: int

text \<open>The part of a container that the driver only passes on to Docker.\<close>

record cont_spec =
  sp_environment :: "(string, string) dict"
  sp_workdir :: "string option"
  sp_labels :: "(string, string) dict"
  sp_tty :: bool
  sp_interactive :: bool
  sp_privileged :: bool
  sp_restart_policy :: "(string \<times> int) option"
  sp_healthcheck :: "(string \<times> int \<times> int \<times> int) option"
  sp_cpuset :: "(int set \<times> int) option"

record cont =
  k_uuid :: string
  k_type :: ctype
  k_status :: status
  k_status_reason :: "msg option"
  k_status_detail :: "string option"
  k_task_state :: "task_state option"
  k_container_id :: "string option"
  k_host :: "string option"
  k_auto_remove :: bool
  k_auto_heal :: bool
  k_disk :: "int option"
  k_cpu :: "rat option"
  k_memory :: "int option"
  k_cpu_policy :: "string option"
  k_image_driver :: "string option"
  k_security_groups :: "string list"
  k_addresses :: "(string, addr list) dict"
  k_hostname :: "string option"
  k_ports :: "int list"
  k_runtime :: "string option"
  k_started_at :: "int option"
  k_websocket :: "(string \<times> string) option"
  k_entrypoint :: "string list"
  k_command :: "string list"
  k_exposed_ports :: "string list"
  k_spec :: cont_spec
  k_init_containers :: "string list"
  k_containers :: "string list"

datatype field =
    F_status | F_status_reason | F_status_detail | F_task_state | F_container_id | F_host | F_disk
  | F_cpu | F_memory | F_image_driver | F_security_groups | F_addresses | F_hostname | F_ports
  | F_runtime | F_started_at | F_websocket | F_entrypoint | F_command

definition merge :: "field set \<Rightarrow> cont \<Rightarrow> cont \<Rightarrow> cont" where
  \<comment> \<open>the row after the changed fields of the object are written to it\<close>
  "merge ch c row = row\<lparr>
     k_status := (if F_status \<in> ch then k_status c else k_status row),
     k_status_reason := (if F_status_reason \<in> ch then k_status_reason c else k_status_reason row),
     k_status_detail := (if F_status_detail \<in> ch then k_status_detail c else k_status_detail row),
     k_task_state := (if F_task_state \<in> ch then k_task_state c else k_task_state row),
     k_container_id := (if F_container_id \<in> ch then k_container_id c else k_container_id row),
     k_host := (if F_host \<in> ch then k_host c else k_host row),
     k_disk := (if F_disk \<in> ch then k_disk c else k_disk row),
     k_cpu := (if F_cpu \<in> ch then k_cpu c else k_cpu row),
     k_memory := (if F_memory \<in> ch then k_memory c else k_memory row),
     k_image_driver := (if F_image_driver \<in> ch then k_image_driver c else k_image_driver row),
     k_security_groups := (if F_security_groups \<in> ch then k_security_groups c else k_security_groups row),
     k_addresses := (if F_addresses \<in> ch then k_addresses c else k_addresses row),
     k_hostname := (if F_hostname \<in> ch then k_hostname c else k_hostname row),
     k_ports := (if F_ports \<in> ch then k_ports c else k_ports row),
     k_runtime := (if F_runtime \<in> ch then k_runtime c else k_runtime row),
     k_started_at := (if F_started_at \<in> ch then k_started_at c else k_started_at row),
     k_websocket := (if F_websocket \<in> ch then k_websocket c else k_websocket row),
     k_entrypoint := (if F_entrypoint \<in> ch then k_entrypoint c else k_entrypoint row),
     k_command := (if F_command \<in> ch then k_command c else k_command row)\<rparr>"

section \<open>The world\<close>

record volmap =
  v_uuid :: string
  v_container :: string
  v_volume_id :: int
  v_cinder_volume_id :: "string option"
  v_provider :: string
  v_auto_remove :: bool

datatype event =
    EventStart string string
  | EventFinish string string "exn option"
  | ActionStart string string
  | ActionFinish string string "exn option"

record req_network =
  rn_network :: string
  rn_port :: string
  rn_preserve :: bool

text \<open>
  The work that the handlers of the manager leave to green threads. Each runs under the lock
  of its container.
\<close>

datatype task =
    Create_task string "limits option" "req_network list" "(string, volmap list) dict" bool "pci_request list option"
  | Delete_task string bool
  | Start_task string
  | Stop_task string "int option"
  | Reboot_task string "int option"
  | Rebuild_task string bool
  | Pause_task string
  | Unpause_task string
  | Kill_task string "string option"
  | Add_security_group_task string string
  | Remove_security_group_task string string
  | Network_attach_task string req_network
  | Network_detach_task string string

text \<open>
  Objects live in a store under the uuid of their container; \<open>w_changed\<close> holds the fields
  set since the last save. \<open>w_rows\<close> and \<open>w_volmaps\<close> are the database, \<open>w_allocations\<close>
  the placement service, \<open>w_connected\<close> the volumes that have connection information,
  \<open>w_tasks\<close> the green threads that have not run, \<open>w_events\<close> the action log, \<open>w_tracker\<close> the resource tracker of
  the manager, and \<open>w_env\<close> is everything outside: the Docker daemon, networks, volumes, the
  clock.
\<close>

record 'w world =
  w_objs :: "string \<Rightarrow> cont"
  w_changed :: "string \<Rightarrow> field set"
  w_rows :: "(string, cont) dict"
  w_volmaps :: "volmap list"
  w_connected :: "int list"
  w_allocations :: "string list"
  w_events :: "event list"
  w_tracker :: cn_tracker
  w_tasks :: "task list"
  w_env :: 'w

type_synonym ('w, 'a) op = "('w world, exn, 'a) st"

definition get_obj :: "string \<Rightarrow> ('w, cont) op" where
  "get_obj u w = (Inr (w_objs w u), w)"

text \<open>A setter changes the object and records the field as changed.\<close>

type_synonym tobj = "cont \<times> field set"

definition put :: "field \<Rightarrow> (cont \<Rightarrow> cont) \<Rightarrow> tobj \<Rightarrow> tobj" where
  "put f g x = (g (fst x), insert f (snd x))"

definition put_status :: "status \<Rightarrow> tobj \<Rightarrow> tobj" where
  "put_status x = put F_status (k_status_update (\<lambda>_. x))"

definition put_status_reason :: "msg option \<Rightarrow> tobj \<Rightarrow> tobj" where
  "put_status_reason x = put F_status_reason (k_status_reason_update (\<lambda>_. x))"

definition put_status_detail :: "string option \<Rightarrow> tobj \<Rightarrow> tobj" where
  "put_status_detail x = put F_status_detail (k_status_detail_update (\<lambda>_. x))"

definition put_task_state :: "task_state option \<Rightarrow> tobj \<Rightarrow> tobj" where
  "put_task_state x = put F_task_state (k_task_state_update (\<lambda>_. x))"

definition put_host :: "string option \<Rightarrow> tobj \<Rightarrow> tobj" where
  "put_host x = put F_host (k_host_update (\<lambda>_. x))"

lemmas put_defs = put_def put_status_def put_status_reason_def put_status_detail_def put_task_state_def put_host_def

definition assign :: "(tobj \<Rightarrow> tobj) \<Rightarrow> string \<Rightarrow> ('w, unit) op" where
  \<comment> \<open>setters run on the stored object\<close>
  "assign f u = smodify (\<lambda>w. let x = f (w_objs w u, w_changed w u)
     in w\<lparr>w_objs := (w_objs w)(u := fst x), w_changed := (w_changed w)(u := snd x)\<rparr>)"

definition save_as :: "string \<Rightarrow> tobj \<Rightarrow> ('w, unit) op" where
  \<comment> \<open>\<open>update_container\<close> with the changed fields\<close>
  "save_as u x w =
     (case dict_get (w_rows w) u of
        None \<Rightarrow> (Inl (ContainerNotFound u), w)
      | Some row \<Rightarrow> (Inr (), w\<lparr>w_rows := dict_set u (merge (snd x) (fst x) row) (w_rows w)\<rparr>))"

definition save :: "string \<Rightarrow> ('w, unit) op" where
  "save u = sbind sget (\<lambda>w. sbind (save_as u (w_objs w u, w_changed w u))
     (\<lambda>_. smodify (\<lambda>w. w\<lparr>w_changed := (w_changed w)(u := {})\<rparr>)))"

definition destroy :: "string \<Rightarrow> ('w, unit) op" where
  "destroy u w =
     (case dict_get (w_rows w) u of
        None \<Rightarrow> (Inl (ContainerNotFound u), w)
      | Some _ \<Rightarrow> (Inr (), w\<lparr>w_rows := dict_del u (w_rows w), w_changed := (w_changed w)(u := {})\<rparr>))"

definition validate_container_state :: "cont \<Rightarrow> action \<Rightarrow> (exn, unit) res" where
  "validate_container_state c a =
     (if k_status c \<notin> set (VALID_STATES a) then Inl (InvalidStateException a (k_status c)) else Inr ())"

definition check_container_id :: "string \<Rightarrow> ('w, 'a) op \<Rightarrow> ('w, 'a) op" where
  "check_container_id u m w =
     (if k_container_id (w_objs w u) = None
      then (Inl (Invalid (Text ''Cannot operate an uncreated container.'')), w)
      else m w)"

definition wrap_exception :: "('w, 'a) op \<Rightarrow> ('w, 'a option) op" where
  \<comment> \<open>every exception is logged and dropped; the decorated method then returns None\<close>
  "wrap_exception m w = (case m w of (Inl e, w') \<Rightarrow> (Inr None, w') | (Inr x, w') \<Rightarrow> (Inr (Some x), w'))"

definition translate_exception :: "('w, 'a) op \<Rightarrow> ('w, 'a) op" where
  "translate_exception m =
     scatch m (\<lambda>e. sraise (if is_zun_exception e then e else ZunException (Str e)))"

definition log_event :: "event \<Rightarrow> ('w, unit) op" where
  "log_event e = smodify (\<lambda>w. w\<lparr>w_events := w_events w @ [e]\<rparr>)"

definition finishing :: "(exn option \<Rightarrow> event) \<Rightarrow> ('w, 'a) op \<Rightarrow> ('w, 'a) op" where
  \<comment> \<open>a context manager whose exit reports how the body ended and lets it end so\<close>
  "finishing ev m w =
     (case m w of
        (Inl e, w') \<Rightarrow> (Inl e, w'\<lparr>w_events := w_events w' @ [ev (Some e)]\<rparr>)
      | (Inr x, w') \<Rightarrow> (Inr x, w'\<lparr>w_events := w_events w' @ [ev None]\<rparr>))"

definition event_reporter :: "string \<Rightarrow> string \<Rightarrow> ('w, 'a) op \<Rightarrow> ('w, 'a) op" where
  "event_reporter u name m = sbind (log_event (EventStart u name)) (\<lambda>_. finishing (EventFinish u name) m)"

definition wrap_container_event :: "string \<Rightarrow> string option \<Rightarrow> string \<Rightarrow> ('w, 'a) op \<Rightarrow> ('w, 'a) op" where
  "wrap_container_event name finish_action u m =
     (case finish_action of
        None \<Rightarrow> event_reporter u (''compute_'' @ name) m
      | Some a \<Rightarrow> finishing (ActionFinish u a) (event_reporter u (''compute_'' @ name) m))"

end
