(* ===== verification/Scheduler.thy ===== *)
theory Scheduler
  imports Container_State
begin

text \<open>
  The scheduler: the host filters (\<^verbatim>\<open>zun/scheduler/filters\<close>), the handler that applies
  them, the filter scheduler that claims resources for the hosts left over
  (\<^verbatim>\<open>filter_scheduler.py\<close>, \<^verbatim>\<open>host_state.py\<close>) and the random scheduler. The hosts that pass
  are shown to be those that meet the stated requirement of every filter, and a host that
  passes accepts the claim of the compute service.
\<close>

section \<open>Hosts and requests\<close>

text \<open>Times are in seconds; a service has been created at a known time.\<close>

record service =
  sv_host :: string
  sv_disabled :: bool
  sv_forced_down :: bool
  sv_last_seen_up :: "int option"
  sv_updated_at :: "int option"
  sv_created_at :: int
  sv_availability_zone :: "string option"

record sched_node =
  sn_node :: compute_node
  sn_rp_uuid :: string
  sn_labels :: "(string, string) dict"
  sn_pci :: pci_stats
  sn_disk_quota :: bool
  sn_runtimes :: "string list"
  sn_pinning :: bool
  sn_updated_at :: "int option"

record host_state =
  hs_hostname :: string
  hs_uuid :: "string option"
  hs_mem_total :: int
  hs_mem_free :: int
  hs_mem_used :: int
  hs_cpus :: rat
  hs_cpu_used :: rat
  hs_disk_total :: int
  hs_disk_used :: int
  hs_numa :: "numa_node list"
  hs_labels :: "(string, string) dict"
  hs_pci :: "pci_stats option"
  hs_disk_quota :: bool
  hs_runtimes :: "string list"
  hs_pinning :: bool
  hs_limits :: limits
  hs_updated :: "int option"
  hs_service :: "service option"

text \<open>The container that is placed, the extra specifications (an absent key is the outer
  None, a key whose value is None the inner one) and the configuration. \<open>cf_now\<close> is the time.\<close>

record request = container +
  c_runtime :: "string option"

record extra_spec =
  es_zone :: "string option"
  es_hints :: "(string, string) dict option option"
  es_pci_requests :: "pci_request list option option"
  es_requested_host :: "string option"

record sched_conf =
  cf_default_schedule_zone :: "string option"
  cf_default_availability_zone :: string
  cf_enable_cpu_pinning :: bool
  cf_service_down_time :: int
  cf_now :: int

datatype sched_error = NoValidHost string | SchedulerHostFilterNotFound "string list" | SchAttributeError | SchKeyError
  | SchTypeError | SchIndexError | SchNameError | PlacementUnreachable | ClaimError string

definition service_is_up :: "sched_conf \<Rightarrow> service \<Rightarrow> bool" where
  "service_is_up cf s =
     (if sv_forced_down s then False
      else let last_heartbeat = (case sv_last_seen_up s of Some t \<Rightarrow> t
                                 | None \<Rightarrow> (case sv_updated_at s of Some t \<Rightarrow> t | None \<Rightarrow> sv_created_at s))
           in \<bar>cf_now cf - last_heartbeat\<bar> \<le> cf_service_down_time cf)"

definition new_host_state :: "string \<Rightarrow> host_state" where
  "new_host_state h = \<lparr>hs_hostname = h, hs_uuid = None, hs_mem_total = 0, hs_mem_free = 0, hs_mem_used = 0, hs_cpus = 0,
     hs_cpu_used = 0, hs_disk_total = 0, hs_disk_used = 0, hs_numa = [], hs_labels = [], hs_pci = None,
     hs_disk_quota = False, hs_runtimes = [], hs_pinning = False, hs_limits = no_limits, hs_updated = None,
     hs_service = None\<rparr>"

definition copy_node :: "sched_node \<Rightarrow> host_state \<Rightarrow> host_state" where
  "copy_node n h = h\<lparr>hs_uuid := Some (sn_rp_uuid n), hs_mem_total := mem_total (sn_node n), hs_mem_free := mem_free (sn_node n),
     hs_mem_used := mem_used (sn_node n), hs_cpus := cpus (sn_node n), hs_cpu_used := cpu_used (sn_node n),
     hs_disk_total := disk_total (sn_node n), hs_disk_used := disk_used (sn_node n), hs_numa := numa_nodes (sn_node n),
     hs_labels := sn_labels n, hs_pci := Some (sn_pci n), hs_disk_quota := sn_disk_quota n, hs_runtimes := sn_runtimes n,
     hs_pinning := sn_pinning n, hs_updated := sn_updated_at n\<rparr>"

definition update_from_compute_node :: "sched_node \<Rightarrow> host_state \<Rightarrow> host_state" where
  "update_from_compute_node n h =
     (case (hs_updated h, sn_updated_at n) of
        (Some a, Some b) \<Rightarrow> if a > b then h else copy_node n h
      | _ \<Rightarrow> copy_node n h)"

definition update_host_state :: "sched_node option \<Rightarrow> service option \<Rightarrow> host_state \<Rightarrow> host_state" where
  "update_host_state node sv h =
     (let h1 = (case node of None \<Rightarrow> h | Some n \<Rightarrow> update_from_compute_node n h)
      in case sv of None \<Rightarrow> h1 | Some s \<Rightarrow> h1\<lparr>hs_service := Some s\<rparr>)"

definition consume_from_request :: "int \<Rightarrow> request \<Rightarrow> host_state \<Rightarrow> host_state" where
  "consume_from_request now r h =
     (let used = hs_mem_used h + int_or_0 (c_memory r)
      in h\<lparr>hs_mem_used := used, hs_disk_used := hs_disk_used h + int_or_0 (c_disk r),
           hs_cpu_used := hs_cpu_used h + rat_or_0 (c_cpu r), hs_mem_free := hs_mem_total h - used,
           hs_updated := Some now\<rparr>)"

section \<open>Filters\<close>

text \<open>A filter may change the container and the limits of the host.\<close>

type_synonym passes = "(request \<times> host_state, sched_error, bool) st"

datatype host_filter =
    AvailabilityZoneFilter | ComputeFilter | CPUFilter | CpuSetFilter | DiskFilter | LabelFilter
  | PciPassthroughFilter | RamFilter | RuntimeFilter

definition set_limit :: "(limits \<Rightarrow> limits) \<Rightarrow> passes" where
  "set_limit f x = (Inr True, (fst x, (snd x)\<lparr>hs_limits := f (hs_limits (snd x))\<rparr>))"

definition zone_passes :: "sched_conf \<Rightarrow> extra_spec \<Rightarrow> passes" where
  "zone_passes cf es x =
     (let zone = (if truthy (es_zone es) then es_zone es else cf_default_schedule_zone cf)
      in if \<not> truthy zone then (Inr True, x)
         else case hs_service (snd x) of
                None \<Rightarrow> (Inl SchAttributeError, x)
              | Some s \<Rightarrow>
                  let host_az = (if truthy (sv_availability_zone s) then sv_availability_zone s
                                 else Some (cf_default_availability_zone cf))
                  in (Inr (zone = host_az), x))"

definition compute_passes :: "sched_conf \<Rightarrow> passes" where
  "compute_passes cf x =
     (case hs_service (snd x) of
        None \<Rightarrow> (Inl SchAttributeError, x)
      | Some s \<Rightarrow> (Inr (\<not> sv_disabled s \<and> service_is_up cf s), x))"

definition cpu_passes :: passes where
  "cpu_passes x =
     (let cpu = rat_or_0 (c_cpu (fst x)); h = snd x
      in if cpu = 0 then (Inr True, x)
         else if hs_cpus h - hs_cpu_used h < cpu then (Inr False, x)
         else set_limit (\<lambda>l. l\<lparr>lim_cpu := Some (hs_cpus h)\<rparr>) x)"

definition numa_fits :: "rat \<Rightarrow> int \<Rightarrow> numa_node \<Rightarrow> bool" where
  "numa_fits cpu memory n \<longleftrightarrow>
     of_int (int (card (cpuset n)) - int (card (pinned_cpus n))) \<ge> cpu \<and> mem_available n \<ge> memory"

definition with_policy :: "request \<Rightarrow> request" where
  "with_policy r = (if c_cpu_policy r = None then r\<lparr>c_cpu_policy := Some ''shared''\<rparr> else r)"

definition cpuset_passes :: "sched_conf \<Rightarrow> passes" where
  \<comment> \<open>a policy that is neither of the two gives None, which is false\<close>
  "cpuset_passes cf x =
     (let r = with_policy (fst x); h = snd x; memory = int_or_0 (c_memory r)
      in if c_cpu_policy r = Some ''dedicated''
         then if \<not> hs_pinning h \<or> hs_numa h = [] then (Inr False, (r, h))
              else (case c_cpu r of
                      None \<Rightarrow> (Inl SchTypeError, (r, h))
                    | Some cpu \<Rightarrow>
                        (case List.find (numa_fits cpu memory) (hs_numa h) of
                           None \<Rightarrow> (Inr False, (r, h))
                         | Some n \<Rightarrow> set_limit (\<lambda>l. l\<lparr>lim_cpuset := Some \<lparr>cl_node = nn_id n, cl_cpuset_cpu = cpuset n,
                                       cl_cpuset_cpu_pinned = pinned_cpus n, cl_cpuset_mem = mem_available n\<rparr>\<rparr>) (r, h)))
         else (Inr (c_cpu_policy r = Some ''shared'' \<and> \<not> cf_enable_cpu_pinning cf), (r, h)))"

definition disk_passes :: passes where
  "disk_passes x =
     (let disk = int_or_0 (c_disk (fst x)); h = snd x
      in if disk = 0 then (Inr True, x)
         else if \<not> hs_disk_quota h then (Inr False, x)
         else if hs_disk_total h - hs_disk_used h < disk then (Inr False, x)
         else set_limit (\<lambda>l. l\<lparr>lim_disk := Some (hs_disk_total h)\<rparr>) x)"

definition wanted_labels :: "(string, string) dict \<Rightarrow> (string, string) dict" where
  "wanted_labels hints =
     dict_update [] (map (\<lambda>(k, v). (drop 6 k, v)) (filter (\<lambda>(k, _). take 6 k = ''label:'') hints))"

definition label_passes :: "extra_spec \<Rightarrow> passes" where
  "label_passes es x =
     (case es_hints es of
        None \<Rightarrow> (Inl SchKeyError, x)
      | Some None \<Rightarrow> (Inl SchAttributeError, x)
      | Some (Some hints) \<Rightarrow>
          (Inr (list_all (\<lambda>(k, v). dict_get (hs_labels (snd x)) k = Some v) (wanted_labels hints)), x))"

definition pci_passes :: "extra_spec \<Rightarrow> passes" where
  "pci_passes es x =
     (case es_pci_requests es of
        None \<Rightarrow> (Inl SchKeyError, x)
      | Some reqs \<Rightarrow>
          (case reqs of
             None \<Rightarrow> (Inr True, x)
           | Some rs \<Rightarrow>
               if rs = [] then (Inr True, x)
               else (case hs_pci (snd x) of
                       None \<Rightarrow> (Inr False, x)
                     | Some st \<Rightarrow> (Inr (support_requests rs [] st), x))))"

definition ram_passes :: passes where
  "ram_passes x =
     (let ram = int_or_0 (c_memory (fst x)); h = snd x
      in if c_memory (fst x) = None then (Inr True, x)
         else if hs_mem_total h - hs_mem_used h < ram then (Inr False, x)
         else set_limit (\<lambda>l. l\<lparr>lim_memory := Some (hs_mem_total h)\<rparr>) x)"

definition runtime_passes :: passes where
  "runtime_passes x =
     (case c_runtime (fst x) of
        None \<Rightarrow> (Inr True, x)
      | Some rt \<Rightarrow> (Inr (rt = [] \<or> rt \<in> set (hs_runtimes (snd x))), x))"

fun host_passes :: "sched_conf \<Rightarrow> extra_spec \<Rightarrow> host_filter \<Rightarrow> passes" where
  "host_passes cf es AvailabilityZoneFilter = zone_passes cf es"
| "host_passes cf es ComputeFilter = compute_passes cf"
| "host_passes cf es CPUFilter = cpu_passes"
| "host_passes cf es CpuSetFilter = cpuset_passes cf"
| "host_passes cf es DiskFilter = disk_passes"
| "host_passes cf es LabelFilter = label_passes es"
| "host_passes cf es PciPassthroughFilter = pci_passes es"
| "host_passes cf es RamFilter = ram_passes"
| "host_passes cf es RuntimeFilter = runtime_passes"

fun run_filter_once_per_request :: "host_filter \<Rightarrow> bool" where
  "run_filter_once_per_request PciPassthroughFilter = False"
| "run_filter_once_per_request _ = True"

definition run_filter_for_index :: "('f \<Rightarrow> bool) \<Rightarrow> 'f \<Rightarrow> nat \<Rightarrow> bool" where
  "run_filter_for_index once f index \<longleftrightarrow> \<not> (once f \<and> index > 0)"

fun filter_all :: "passes \<Rightarrow> host_state list \<Rightarrow> (request, sched_error, host_state list) st" where
  "filter_all p [] r = (Inr [], r)"
| "filter_all p (h # hs) r =
     (case p (r, h) of
        (Inl e, (r1, _)) \<Rightarrow> (Inl e, r1)
      | (Inr b, (r1, h1)) \<Rightarrow>
          (case filter_all p hs r1 of
             (Inl e, r2) \<Rightarrow> (Inl e, r2)
           | (Inr hs1, r2) \<Rightarrow> (Inr (if b then h1 # hs1 else hs1), r2)))"

text \<open>The handler works for any kind of filter objects: \<open>once\<close> is their class attribute, \<open>passes\<close>
  their method.\<close>

fun get_filtered_objects ::
    "('f \<Rightarrow> bool) \<Rightarrow> ('f \<Rightarrow> passes) \<Rightarrow> 'f list \<Rightarrow> nat \<Rightarrow> host_state list \<Rightarrow> (request, sched_error, host_state list) st" where
  "get_filtered_objects once passes [] index hs = sreturn hs"
| "get_filtered_objects once passes (f # fs) index hs =
     (if run_filter_for_index once f index
      then sbind (filter_all (passes f) hs)
             (\<lambda>hs1. if hs1 = [] then sreturn [] else get_filtered_objects once passes fs index hs1)
      else get_filtered_objects once passes fs index hs)"

section \<open>Schedulers\<close>

fun filter_name :: "host_filter \<Rightarrow> string" where
  "filter_name AvailabilityZoneFilter = ''AvailabilityZoneFilter''"
| "filter_name ComputeFilter = ''ComputeFilter''"
| "filter_name CPUFilter = ''CPUFilter''"
| "filter_name CpuSetFilter = ''CpuSetFilter''"
| "filter_name DiskFilter = ''DiskFilter''"
| "filter_name LabelFilter = ''LabelFilter''"
| "filter_name PciPassthroughFilter = ''PciPassthroughFilter''"
| "filter_name RamFilter = ''RamFilter''"
| "filter_name RuntimeFilter = ''RuntimeFilter''"

definition choose_host_filters :: "host_filter list \<Rightarrow> string list \<Rightarrow> (sched_error, host_filter list) res" where
  \<comment> \<open>the available filters by name\<close>
  "choose_host_filters available names =
     (let find = (\<lambda>n. List.find (\<lambda>f. filter_name f = n) available);
          bad = filter (\<lambda>n. find n = None) names
      in if bad \<noteq> [] then Inl (SchedulerHostFilterNotFound bad) else Inr (List.map_filter find names))"

definition get_filtered_hosts ::
    "sched_conf \<Rightarrow> extra_spec \<Rightarrow> host_filter list \<Rightarrow> host_state list \<Rightarrow> (request, sched_error, host_state list) st" where
  "get_filtered_hosts cf es fs hs =
     get_filtered_objects run_filter_once_per_request (host_passes cf es) fs 0
       (if truthy (es_requested_host es) then filter (\<lambda>h. Some (hs_hostname h) = es_requested_host es) hs else hs)"

definition get_all_host_state :: "sched_node list \<Rightarrow> (string, service) dict \<Rightarrow> host_state list" where
  "get_all_host_state nodes services =
     map (\<lambda>n. update_host_state (Some n) (dict_get services (hostname (sn_node n))) (new_host_state (hostname (sn_node n)))) nodes"

text \<open>The claim of an allocation request in the placement service is a parameter.\<close>

type_synonym ('w, 'r) claimer = "string \<Rightarrow> 'r \<Rightarrow> ('w, sched_error, bool) st"

fun claim_host :: "('w, 'r) claimer \<Rightarrow> string \<Rightarrow> (string, 'r list) dict \<Rightarrow> host_state list \<Rightarrow> ('w, sched_error, host_state option) st" where
  "claim_host put_claim u allocs [] = sreturn None"
| "claim_host put_claim u allocs (h # hs) =
     (case (case hs_uuid h of None \<Rightarrow> None | Some i \<Rightarrow> dict_get allocs i) of
        None \<Rightarrow> claim_host put_claim u allocs hs
      | Some reqs \<Rightarrow>
          (case reqs of
             [] \<Rightarrow> sraise SchIndexError
           | a # _ \<Rightarrow> sbind (put_claim u a) (\<lambda>ok. if ok then sreturn (Some h) else claim_host put_claim u allocs hs)))"

record ('w, 'r) sched_env =
  se_conf :: sched_conf
  se_filters :: "host_filter list"
  se_nodes :: "sched_node list"
  se_services :: "service list"
  se_claim :: "('w, 'r) claimer"

definition host_states :: "('w, 'r) sched_env \<Rightarrow> string list option \<Rightarrow> host_state list" where
  \<comment> \<open>the providers of the summaries, or all nodes without them\<close>
  "host_states E providers =
     (let nodes = (case providers of None \<Rightarrow> se_nodes E | Some ps \<Rightarrow> filter (\<lambda>n. sn_rp_uuid n \<in> set ps) (se_nodes E));
          services = dict_update [] (map (\<lambda>s. (sv_host s, s)) (se_services E));
          known = filter (\<lambda>n. hostname (sn_node n) \<in> set (dict_keys services)) nodes
      in get_all_host_state known services)"

definition schedule ::
    "('w, 'r) sched_env \<Rightarrow> extra_spec \<Rightarrow> (string, 'r list) dict \<Rightarrow> string list option \<Rightarrow> request \<Rightarrow> ('w, sched_error, request \<times> host_state) st" where
  \<comment> \<open>the container is returned with the policy that a filter may have set\<close>
  "schedule E es allocs providers r w =
     (case get_filtered_hosts (se_conf E) es (se_filters E) (host_states E providers) r of
           (Inl e, _) \<Rightarrow> (Inl e, w)
         | (Inr hs, r1) \<Rightarrow>
             if hs = [] then (Inl (NoValidHost ''Is the appropriate service running?''), w)
             else sbind (claim_host (se_claim E) (c_uuid r1) allocs hs)
                    (\<lambda>h. case h of
                           None \<Rightarrow> sraise (NoValidHost ''Unable to successfully claim against any host.'')
                         | Some h \<Rightarrow> sreturn (r1, consume_from_request (cf_now (se_conf E)) r1 h)) w)"

fun select_all ::
    "('w, 'r) sched_env \<Rightarrow> extra_spec \<Rightarrow> (string, 'r list) dict \<Rightarrow> string list option \<Rightarrow> request list \<Rightarrow>
     ('w, sched_error, (request \<times> string \<times> limits) list) st" where
  "select_all E es allocs providers [] = sreturn []"
| "select_all E es allocs providers (r # rs) =
     sbind (schedule E es allocs providers r)
       (\<lambda>(r1, h). sbind (select_all E es allocs providers rs) (\<lambda>ds. sreturn ((r1, hs_hostname h, hs_limits h) # ds)))"

definition select_destinations ::
    "('w, 'r) sched_env \<Rightarrow> extra_spec \<Rightarrow> (string, 'r list) dict \<Rightarrow> string list option \<Rightarrow> request list \<Rightarrow>
     ('w, sched_error, (request \<times> string \<times> limits) list) st" where
  "select_destinations E es allocs providers rs =
     sbind (select_all E es allocs providers rs)
       (\<lambda>ds. if ds = [] then sraise (NoValidHost ''There are not enough hosts available.'') else sreturn ds)"

definition hosts_up :: "sched_conf \<Rightarrow> service list \<Rightarrow> string list" where
  "hosts_up cf services = map sv_host (filter (\<lambda>s. service_is_up cf s \<and> \<not> sv_disabled s) services)"

text \<open>\<open>random_choice\<close> is \<open>random.choice\<close>, with the state of the generator.\<close>

definition chance_schedule ::
    "(string list \<Rightarrow> ('w, sched_error, string) st) \<Rightarrow> sched_conf \<Rightarrow> service list \<Rightarrow> ('w, sched_error, string) st" where
  "chance_schedule random_choice cf services =
     (let hosts = hosts_up cf services
      in if hosts = [] then sraise (NoValidHost ''Is the appropriate service running?'') else random_choice hosts)"

fun chance_all ::
    "(string list \<Rightarrow> ('w, sched_error, string) st) \<Rightarrow> sched_conf \<Rightarrow> service list \<Rightarrow> request list \<Rightarrow> ('w, sched_error, string list) st" where
  "chance_all random_choice cf services [] = sreturn []"
| "chance_all random_choice cf services (r # rs) =
     sbind (chance_schedule random_choice cf services) (\<lambda>h. sbind (chance_all random_choice cf services rs) (\<lambda>hs. sreturn (h # hs)))"

definition chance_select_destinations ::
    "(string list \<Rightarrow> ('w, sched_error, string) st) \<Rightarrow> sched_conf \<Rightarrow> service list \<Rightarrow> request list \<Rightarrow> ('w, sched_error, string list) st" where
  "chance_select_destinations random_choice cf services rs =
     sbind (chance_all random_choice cf services rs)
       (\<lambda>ds. if ds = [] then sraise (NoValidHost ''There are not enough hosts available.'') else sreturn ds)"

section \<open>What the filters require\<close>

text \<open>The requirement of each filter on a host, and the limit that it grants to a host that
  meets it, without the order and the short cuts of the filters.\<close>

definition zone_wanted :: "sched_conf \<Rightarrow> extra_spec \<Rightarrow> string option" where
  "zone_wanted cf es = (if truthy (es_zone es) then es_zone es else cf_default_schedule_zone cf)"

definition zone_of :: "sched_conf \<Rightarrow> service \<Rightarrow> string" where
  "zone_of cf s = (if truthy (sv_availability_zone s) then the (sv_availability_zone s) else cf_default_availability_zone cf)"

fun meets :: "sched_conf \<Rightarrow> extra_spec \<Rightarrow> host_filter \<Rightarrow> request \<Rightarrow> host_state \<Rightarrow> bool" where
  "meets cf es AvailabilityZoneFilter r h \<longleftrightarrow>
     (truthy (zone_wanted cf es) \<longrightarrow> zone_wanted cf es = map_option (zone_of cf) (hs_service h))"
| "meets cf es ComputeFilter r h \<longleftrightarrow>
     (case hs_service h of None \<Rightarrow> False | Some s \<Rightarrow> \<not> sv_disabled s \<and> service_is_up cf s)"
| "meets cf es CPUFilter r h \<longleftrightarrow> rat_or_0 (c_cpu r) = 0 \<or> hs_cpu_used h + rat_or_0 (c_cpu r) \<le> hs_cpus h"
| "meets cf es CpuSetFilter r h \<longleftrightarrow>
     (if c_cpu_policy r = Some ''dedicated''
      then hs_pinning h \<and> (\<exists>n\<in>set (hs_numa h). numa_fits (rat_or_0 (c_cpu r)) (int_or_0 (c_memory r)) n)
      else c_cpu_policy r \<in> {None, Some ''shared''} \<and> \<not> cf_enable_cpu_pinning cf)"
| "meets cf es DiskFilter r h \<longleftrightarrow>
     int_or_0 (c_disk r) = 0 \<or> hs_disk_quota h \<and> hs_disk_used h + int_or_0 (c_disk r) \<le> hs_disk_total h"
| "meets cf es LabelFilter r h \<longleftrightarrow>
     (\<forall>(k, v)\<in>set (wanted_labels (the (the (es_hints es)))). dict_get (hs_labels h) k = Some v)"
| "meets cf es PciPassthroughFilter r h \<longleftrightarrow>
     (\<forall>rs. es_pci_requests es = Some (Some rs) \<and> rs \<noteq> [] \<longrightarrow> (\<exists>st. hs_pci h = Some st \<and> support_requests rs [] st))"
| "meets cf es RamFilter r h \<longleftrightarrow> c_memory r = None \<or> hs_mem_used h + the (c_memory r) \<le> hs_mem_total h"
| "meets cf es RuntimeFilter r h \<longleftrightarrow> (truthy (c_runtime r) \<longrightarrow> the (c_runtime r) \<in> set (hs_runtimes h))"

definition cpuset_grant :: "request \<Rightarrow> host_state \<Rightarrow> cpuset_limit option" where
  "cpuset_grant r h =
     map_option (\<lambda>n. \<lparr>cl_node = nn_id n, cl_cpuset_cpu = cpuset n, cl_cpuset_cpu_pinned = pinned_cpus n,
                      cl_cpuset_mem = mem_available n\<rparr>)
       (List.find (numa_fits (rat_or_0 (c_cpu r)) (int_or_0 (c_memory r))) (hs_numa h))"

fun grant :: "request \<Rightarrow> host_filter \<Rightarrow> host_state \<Rightarrow> host_state" where
  "grant r CPUFilter h =
     (if rat_or_0 (c_cpu r) = 0 then h else h\<lparr>hs_limits := (hs_limits h)\<lparr>lim_cpu := Some (hs_cpus h)\<rparr>\<rparr>)"
| "grant r DiskFilter h =
     (if int_or_0 (c_disk r) = 0 then h else h\<lparr>hs_limits := (hs_limits h)\<lparr>lim_disk := Some (hs_disk_total h)\<rparr>\<rparr>)"
| "grant r RamFilter h =
     (if c_memory r = None then h else h\<lparr>hs_limits := (hs_limits h)\<lparr>lim_memory := Some (hs_mem_total h)\<rparr>\<rparr>)"
| "grant r CpuSetFilter h =
     (if c_cpu_policy r = Some ''dedicated'' then h\<lparr>hs_limits := (hs_limits h)\<lparr>lim_cpuset := cpuset_grant r h\<rparr>\<rparr> else h)"
| "grant r f h = h"

definition given :: "'a option option \<Rightarrow> bool" where
  "given x \<longleftrightarrow> (\<exists>v. x = Some (Some v))"

text \<open>The requests and hosts on which no filter raises.\<close>

definition well_posed :: "host_filter set \<Rightarrow> extra_spec \<Rightarrow> request \<Rightarrow> bool" where
  "well_posed F es r \<longleftrightarrow>
     (LabelFilter \<in> F \<longrightarrow> given (es_hints es)) \<and> (PciPassthroughFilter \<in> F \<longrightarrow> es_pci_requests es \<noteq> None) \<and>
     (CpuSetFilter \<in> F \<longrightarrow> c_cpu_policy r = Some ''dedicated'' \<longrightarrow> c_cpu r \<noteq> None)"

definition answerable :: "host_filter set \<Rightarrow> extra_spec \<Rightarrow> request \<Rightarrow> host_state \<Rightarrow> bool" where
  "answerable F es r h \<longleftrightarrow> hs_service h \<noteq> None \<and> well_posed F es r"

text \<open>The identifiers of the NUMA nodes are positions in their list.\<close>

definition numa_indexed :: "compute_node \<Rightarrow> bool" where
  "numa_indexed n \<longleftrightarrow> (\<forall>k\<in>set (numa_nodes n). 0 \<le> nn_id k \<and> nn_id k < int (length (numa_nodes n)))"

definition bare :: "host_state \<Rightarrow> host_state" where
  "bare h = h\<lparr>hs_limits := no_limits\<rparr>"

text \<open>What the handler relies on: a filter answers with its requirement, grants its limit to a
  host that passes, and leaves the rest alone but for a default policy of the container. The
  requirement depends neither on the limits nor on that default.\<close>

locale filter_contract =
  fixes F :: "'f set"
    and passes :: "'f \<Rightarrow> request \<times> host_state \<Rightarrow> (sched_error, bool) res \<times> request \<times> host_state"
    and req :: "'f \<Rightarrow> request \<Rightarrow> host_state \<Rightarrow> bool"
    and gr :: "request \<Rightarrow> 'f \<Rightarrow> host_state \<Rightarrow> host_state"
    and sound :: "request \<Rightarrow> host_state \<Rightarrow> bool"
  assumes answers: "f \<in> F \<Longrightarrow> sound r h \<Longrightarrow>
      \<exists>r'. passes f (r, h) = (Inr (req f r h), r', if req f r h then gr r f h else h) \<and> with_policy r' = with_policy r"
    and req_policy: "req f (with_policy r) h = req f r h"
    and gr_policy: "gr (with_policy r) f h = gr r f h"
    and sound_policy: "sound (with_policy r) h = sound r h"
    and req_gr: "req f r (gr r g h) = req f r h"
    and sound_gr: "sound r (gr r g h) = sound r h"
begin

lemma same_policy:
  assumes "with_policy r = with_policy r'"
  shows "req f r = req f r'" "gr r f = gr r' f" "sound r = sound r'"
proof -
  show "req f r = req f r'" using assms req_policy by (intro ext) metis
  show "gr r f = gr r' f" using assms gr_policy by (intro ext) metis
  show "sound r = sound r'" using assms sound_policy by (intro ext) metis
qed

lemma filter_all_spec:
  assumes "f \<in> F" "\<forall>h\<in>set hs. sound r h"
  shows "\<exists>r'. filter_all (passes f) hs r = (Inr (map (gr r f) (filter (req f r) hs)), r') \<and> with_policy r' = with_policy r"
  using assms(2)
proof (induction hs arbitrary: r)
  case (Cons h hs)
  obtain r1 where r1: "passes f (r, h) = (Inr (req f r h), r1, if req f r h then gr r f h else h)"
    "with_policy r1 = with_policy r" using answers [OF assms(1), of r h] Cons.prems by auto
  note eq = same_policy [OF r1(2)]
  obtain r2 where "filter_all (passes f) hs r1 = (Inr (map (gr r f) (filter (req f r) hs)), r2)"
    "with_policy r2 = with_policy r"
    using Cons.IH [of r1] Cons.prems eq r1(2) by auto
  then show ?case using r1 by auto
qed simp

lemma sound_grants: "sound r (fold (gr r) fs h) = sound r h"
  by (induction fs arbitrary: h) (simp_all add: sound_gr)

lemma req_grants: "req f r (fold (gr r) fs h) = req f r h"
  by (induction fs arbitrary: h) (simp_all add: req_gr)

lemma handler_spec:
  assumes "set fs \<subseteq> F" "\<forall>h\<in>set hs. sound r h"
  shows "\<exists>r'. get_filtered_objects once passes fs index hs r =
           (Inr (map (fold (gr r) (filter (\<lambda>f. run_filter_for_index once f index) fs))
                  (filter (\<lambda>h. \<forall>f\<in>set fs. run_filter_for_index once f index \<longrightarrow> req f r h) hs)), r') \<and>
           with_policy r' = with_policy r"
  using assms
proof (induction fs arbitrary: hs r)
  case Nil
  then show ?case by (simp add: sreturn_def)
next
  case (Cons f fs)
  show ?case
  proof (cases "run_filter_for_index once f index")
    case True
    obtain r1 where r1: "filter_all (passes f) hs r = (Inr (map (gr r f) (filter (req f r) hs)), r1)"
      "with_policy r1 = with_policy r" using filter_all_spec [of f hs r] Cons.prems by auto
    note eq = same_policy [OF r1(2)]
    define hs1 where "hs1 = map (gr r f) (filter (req f r) hs)"
    have "\<forall>h\<in>set hs1. sound r1 h" using Cons.prems by (auto simp: hs1_def eq sound_gr)
    from Cons.IH [OF _ this] Cons.prems(1) obtain r2 where r2: "get_filtered_objects once passes fs index hs1 r1 =
        (Inr (map (fold (gr r) (filter (\<lambda>f. run_filter_for_index once f index) fs))
           (filter (\<lambda>h. \<forall>f\<in>set fs. run_filter_for_index once f index \<longrightarrow> req f r h) hs1)), r2)"
      "with_policy r2 = with_policy r" by (auto simp: eq r1(2))
    have "filter P hs1 = map (gr r f) (filter (\<lambda>h. req f r h \<and> P (gr r f h)) hs)" for P
      by (simp add: hs1_def filter_map comp_def conj_commute)
    moreover have "hs1 = [] \<Longrightarrow> filter (\<lambda>h. req f r h \<and> P h) hs = []" for P
      by (auto simp: hs1_def filter_empty_conv)
    ultimately show ?thesis using True r1 r2
      by (auto simp: sbind_def sreturn_def hs1_def [symmetric] req_gr comp_def)
  next
    case False
    then show ?thesis using Cons by auto
  qed
qed

end

section \<open>The filters keep the contract\<close>

lemma with_policy_simps [simp]:
  "c_cpu (with_policy r) = c_cpu r" "c_memory (with_policy r) = c_memory r" "c_disk (with_policy r) = c_disk r"
  "c_runtime (with_policy r) = c_runtime r" "c_uuid (with_policy r) = c_uuid r"
  "c_cpu_policy (with_policy r) = (if c_cpu_policy r = None then Some ''shared'' else c_cpu_policy r)"
  "with_policy (with_policy r) = with_policy r"
  by (simp_all add: with_policy_def)

lemma same_with_policy:
  assumes "with_policy r' = with_policy r"
  shows "c_memory r' = c_memory r" "c_cpu r' = c_cpu r" "c_disk r' = c_disk r" "c_uuid r' = c_uuid r"
    "c_cpu_policy r \<noteq> Some ''dedicated'' \<Longrightarrow> c_cpu_policy r' \<noteq> Some ''dedicated''"
  using arg_cong [OF assms, of c_memory] arg_cong [OF assms, of c_cpu] arg_cong [OF assms, of c_disk]
    arg_cong [OF assms, of c_uuid] arg_cong [OF assms, of c_cpu_policy]
  by (auto split: if_splits)

lemma grant_frame [simp]: "bare (grant r f h) = bare h"
  by (cases f) (simp_all add: bare_def)

lemma meets_bare: "meets cf es f r (bare h) = meets cf es f r h"
  by (cases f) (simp_all add: bare_def)

lemma answerable_bare: "answerable F es r (bare h) = answerable F es r h"
  by (simp add: answerable_def bare_def)

lemma zone_answers:
  "hs_service h \<noteq> None \<Longrightarrow> zone_passes cf es (r, h) = (Inr (meets cf es AvailabilityZoneFilter r h), r, h)"
  by (auto simp: zone_passes_def zone_wanted_def zone_of_def Let_def truthy_def split: option.splits)

lemma cpuset_answers:
  assumes "c_cpu_policy r = Some ''dedicated'' \<longrightarrow> c_cpu r \<noteq> None"
  shows "cpuset_passes cf (r, h) =
    (Inr (meets cf es CpuSetFilter r h), with_policy r, if meets cf es CpuSetFilter r h then grant r CpuSetFilter h else h)"
proof (cases "c_cpu_policy r = Some ''dedicated''")
  case True
  then obtain cp where cp: "c_cpu r = Some cp" using assms by auto
  show ?thesis
  proof (cases "List.find (numa_fits cp (int_or_0 (c_memory r))) (hs_numa h)")
    case None
    then have "\<forall>n\<in>set (hs_numa h). \<not> numa_fits cp (int_or_0 (c_memory r)) n" by (auto dest: find_NoneD)
    then show ?thesis using True cp None
      by (auto simp: cpuset_passes_def Let_def rat_or_0_def with_policy_def)
  next
    case (Some n)
    then have "n \<in> set (hs_numa h)" "numa_fits cp (int_or_0 (c_memory r)) n" by (auto dest: find_SomeD)
    then show ?thesis using True cp Some
      by (auto simp: cpuset_passes_def Let_def rat_or_0_def with_policy_def set_limit_def cpuset_grant_def)
  qed
next
  case False
  then show ?thesis by (auto simp: cpuset_passes_def Let_def with_policy_def)
qed

lemma label_answers:
  "given (es_hints es) \<Longrightarrow> label_passes es (r, h) = (Inr (meets cf es LabelFilter r h), r, h)"
  by (auto simp: label_passes_def list_all_iff given_def)

lemma pci_answers:
  "es_pci_requests es \<noteq> None \<Longrightarrow> pci_passes es (r, h) = (Inr (meets cf es PciPassthroughFilter r h), r, h)"
  by (auto simp: pci_passes_def split: option.splits)

lemma filter_answers:
  assumes "f \<in> F" "answerable F es r h"
  shows "\<exists>r'. host_passes cf es f (r, h) =
           (Inr (meets cf es f r h), r', if meets cf es f r h then grant r f h else h) \<and> with_policy r' = with_policy r"
proof -
  note a = assms [unfolded answerable_def well_posed_def]
  show ?thesis
  proof (cases f)
    case AvailabilityZoneFilter
    then show ?thesis using a zone_answers [of h cf es r] by simp
  next
    case ComputeFilter
    then show ?thesis using a by (auto simp: compute_passes_def)
  next
    case CPUFilter
    then show ?thesis by (auto simp: cpu_passes_def Let_def set_limit_def algebra_simps)
  next
    case CpuSetFilter
    then show ?thesis using a cpuset_answers [of r cf h es] by simp
  next
    case DiskFilter
    then show ?thesis by (auto simp: disk_passes_def Let_def set_limit_def algebra_simps)
  next
    case LabelFilter
    then show ?thesis using a label_answers [of es r h cf] by simp
  next
    case PciPassthroughFilter
    then show ?thesis using a pci_answers [of es r h cf] by simp
  next
    case RamFilter
    then show ?thesis by (cases "c_memory r") (auto simp: ram_passes_def Let_def set_limit_def int_or_0_def)
  next
    case RuntimeFilter
    then show ?thesis by (auto simp: runtime_passes_def split: option.splits)
  qed
qed

interpretation hf: filter_contract F "host_passes cf es" "meets cf es" grant "answerable F es" for F cf es
proof unfold_locales
  fix r f h g
  show "f \<in> F \<Longrightarrow> answerable F es r h \<Longrightarrow> \<exists>r'. host_passes cf es f (r, h) =
      (Inr (meets cf es f r h), r', if meets cf es f r h then grant r f h else h) \<and> with_policy r' = with_policy r"
    by (rule filter_answers)
  show "meets cf es f (with_policy r) h = meets cf es f r h" by (cases f) auto
  show "grant (with_policy r) f h = grant r f h" by (cases f) (auto simp: cpuset_grant_def)
  show "answerable F es (with_policy r) h = answerable F es r h" by (auto simp: answerable_def well_posed_def)
  show "meets cf es f r (grant r g h) = meets cf es f r h"
    using meets_bare [of cf es f r "grant r g h"] meets_bare [of cf es f r h] by simp
  show "answerable F es r (grant r g h) = answerable F es r h"
    using answerable_bare [of F es r "grant r g h"] answerable_bare [of F es r h] by simp
qed

section \<open>Limits and candidates\<close>

lemma grants_limits:
  fixes r :: request and fs :: "host_filter list" and h :: host_state
  defines "l \<equiv> hs_limits (fold (grant r) fs h)"
  shows "lim_memory l = (if RamFilter \<in> set fs \<and> c_memory r \<noteq> None then Some (hs_mem_total h) else lim_memory (hs_limits h))"
    and "lim_cpu l = (if CPUFilter \<in> set fs \<and> rat_or_0 (c_cpu r) \<noteq> 0 then Some (hs_cpus h) else lim_cpu (hs_limits h))"
    and "lim_disk l = (if DiskFilter \<in> set fs \<and> int_or_0 (c_disk r) \<noteq> 0 then Some (hs_disk_total h) else lim_disk (hs_limits h))"
    and "lim_cpuset l = (if CpuSetFilter \<in> set fs \<and> c_cpu_policy r = Some ''dedicated'' then cpuset_grant r h
                         else lim_cpuset (hs_limits h))"
  unfolding l_def
proof (induction fs arbitrary: h)
  case (Cons f fs)
  { case 1 show ?case using Cons(1) [of "grant r f h"] by (cases f) auto }
  { case 2 show ?case using Cons(2) [of "grant r f h"] by (cases f) auto }
  { case 3 show ?case using Cons(3) [of "grant r f h"] by (cases f) auto }
  { case 4 show ?case using Cons(4) [of "grant r f h"] by (cases f) (auto simp: cpuset_grant_def) }
qed simp_all

lemma grants_bare: "bare (fold (grant r) fs h) = bare h"
  by (induction fs arbitrary: h) simp_all

lemma bare_eq: "bare h = bare h' \<Longrightarrow> hs_uuid h = hs_uuid h' \<and> hs_hostname h = hs_hostname h'"
  by (cases h; cases h') (simp add: bare_def)

lemma services_dict: "dict_get (dict_update [] (map (\<lambda>s. (sv_host s, s)) ss)) k = Some s \<Longrightarrow> s \<in> set ss \<and> sv_host s = k"
  by (auto simp: dict_get_update split: option.splits dest: map_of_SomeD)

lemma host_states_elem:
  assumes "h \<in> set (host_states E ps)"
  obtains n s where "n \<in> set (se_nodes E)" "s \<in> set (se_services E)" "sv_host s = hostname (sn_node n)"
    "h = (copy_node n (new_host_state (hostname (sn_node n))))\<lparr>hs_service := Some s\<rparr>"
    "\<And>us. ps = Some us \<Longrightarrow> sn_rp_uuid n \<in> set us"
proof -
  define D where "D = dict_update [] (map (\<lambda>s. (sv_host s, s)) (se_services E))"
  obtain n where n: "n \<in> set (se_nodes E)" "\<And>us. ps = Some us \<Longrightarrow> sn_rp_uuid n \<in> set us" "hostname (sn_node n) \<in> set (dict_keys D)"
    "h = update_host_state (Some n) (dict_get D (hostname (sn_node n))) (new_host_state (hostname (sn_node n)))"
    using assms by (auto simp: host_states_def get_all_host_state_def Let_def D_def [symmetric] split: option.splits)
  from n(3) obtain s where s: "dict_get D (hostname (sn_node n)) = Some s"
    by (metis dict_get_None option.exhaust)
  have "h = (copy_node n (new_host_state (hostname (sn_node n))))\<lparr>hs_service := Some s\<rparr>"
    using n(4) s by (simp add: update_host_state_def update_from_compute_node_def new_host_state_def)
  then show thesis using that [of n s] n(1,2) services_dict [of "se_services E"] s D_def by blast
qed

lemma claim_host_Some:
  "claim_host put_claim u allocs hs w = (Inr (Some h), w') \<Longrightarrow>
     \<exists>i a as w1. h \<in> set hs \<and> hs_uuid h = Some i \<and> dict_get allocs i = Some (a # as) \<and> put_claim u a w1 = (Inr True, w')"
proof (induction hs arbitrary: w)
  case (Cons k hs)
  show ?case
  proof (cases "\<exists>i a as. hs_uuid k = Some i \<and> dict_get allocs i = Some (a # as)")
    case True
    then obtain i a as where k: "hs_uuid k = Some i" "dict_get allocs i = Some (a # as)" by blast
    then obtain ok w1 where ok: "put_claim u a w = (Inr ok, w1)"
      "if ok then k = h \<and> w1 = w' else claim_host put_claim u allocs hs w1 = (Inr (Some h), w')"
      using Cons.prems by (auto simp: sbind_Inr_iff sreturn_def split: if_splits)
    then show ?thesis using Cons.IH [of w1] k by (cases ok) auto
  next
    case False
    then have "claim_host put_claim u allocs hs w = (Inr (Some h), w')"
      using Cons.prems by (auto simp: sraise_def split: option.splits list.splits)
    then show ?thesis using Cons.IH [of w] by auto
  qed
qed (simp add: sreturn_def)

lemma claim_host_finds:
  assumes "h \<in> set hs" "hs_uuid h = Some i" "dict_get allocs i = Some (a # as)"
    and "\<And>w. fst (put_claim u a w) = Inr True" "\<And>b w. \<exists>ok. fst (put_claim u b w) = Inr ok"
    and "[] \<notin> set (dict_values allocs)"
  shows "\<exists>h' w'. claim_host put_claim u allocs hs w = (Inr (Some h'), w')"
  using assms(1)
proof (induction hs arbitrary: w)
  case (Cons k hs)
  show ?case
  proof (cases "case hs_uuid k of None \<Rightarrow> None | Some i \<Rightarrow> dict_get allocs i")
    case None
    then show ?thesis using Cons assms(2,3) by auto
  next
    case (Some reqs)
    then have "reqs \<in> set (dict_values allocs)" by (force split: option.splits dest: map_of_SomeD)
    then have "reqs \<noteq> []" using assms(6) by metis
    then obtain b bs where "reqs = b # bs" by (cases reqs) auto
    moreover obtain ok w1 where ok: "put_claim u b w = (Inr ok, w1)" using assms(5) [of b w] by (metis prod.collapse)
    moreover have "\<not> ok \<Longrightarrow> h \<in> set hs"
      using Cons.prems assms(2,3) Some ok assms(4) [of w] calculation(1) by auto
    ultimately show ?thesis using Cons.IH [of w1] Some by (cases ok) (auto simp: sbind_def sreturn_def)
  qed
qed simp

lemma get_filtered_hosts_eq:
  assumes "\<forall>h\<in>set hs. answerable (set fs) es r h"
  shows "\<exists>r'. get_filtered_hosts cf es fs hs r =
    (Inr (map (fold (grant r) fs)
           (filter (\<lambda>h. (truthy (es_requested_host es) \<longrightarrow> Some (hs_hostname h) = es_requested_host es) \<and>
                        (\<forall>f\<in>set fs. meets cf es f r h)) hs)), r') \<and> with_policy r' = with_policy r"
proof -
  define hs1 where "hs1 = (if truthy (es_requested_host es) then filter (\<lambda>h. Some (hs_hostname h) = es_requested_host es) hs else hs)"
  have "\<forall>h\<in>set hs1. answerable (set fs) es r h" using assms by (auto simp: hs1_def)
  from hf.handler_spec [OF subset_refl this, of run_filter_once_per_request cf 0] obtain r' where
    "get_filtered_objects run_filter_once_per_request (host_passes cf es) fs 0 hs1 r =
       (Inr (map (fold (grant r) fs) (filter (\<lambda>h. \<forall>f\<in>set fs. meets cf es f r h) hs1)), r')" "with_policy r' = with_policy r"
    by (auto simp: run_filter_for_index_def)
  then show ?thesis by (auto simp: get_filtered_hosts_def hs1_def [symmetric]) (auto simp: hs1_def conj_commute)
qed

text \<open>A host that meets the filters, with the limits that they grant, passes every test of a
  claim against the node it was made from.\<close>

lemma granted_tests:
  fixes n :: sched_node and sv :: "service option" and r :: request and fs :: "host_filter list"
  defines "h \<equiv> (copy_node n (new_host_state (hostname (sn_node n))))\<lparr>hs_service := sv\<rparr>"
  defines "l \<equiv> hs_limits (fold (grant r) fs h)"
  assumes "\<forall>f\<in>set fs. meets cf es f r h"
  shows "\<not> test_memory (int_or_0 (c_memory r)) (sn_node n) (lim_memory l)"
    and "\<not> test_cpu (rat_or_0 (c_cpu r)) (sn_node n) (lim_cpu l)"
    and "\<not> test_disk (int_or_0 (c_disk r)) (sn_node n) (lim_disk l)"
    and "\<not> test_cpuset_cpu (rat_or_0 (c_cpu r)) (lim_cpuset l)"
    and "numa_indexed (sn_node n) \<Longrightarrow>
         test_cpuset_mem (int_or_0 (c_memory r)) (sn_node n) (lim_cpuset l) = Inr False"
proof -
  have no: "hs_limits h = no_limits" by (simp add: h_def copy_node_def new_host_state_def)
  note lim = grants_limits [of r fs h, folded l_def, unfolded no]
  have fields: "hs_mem_used h = mem_used (sn_node n)" "hs_mem_total h = mem_total (sn_node n)" "hs_cpus h = cpus (sn_node n)"
    "hs_cpu_used h = cpu_used (sn_node n)" "hs_disk_used h = disk_used (sn_node n)" "hs_disk_total h = disk_total (sn_node n)"
    "hs_numa h = numa_nodes (sn_node n)"
    by (simp_all add: h_def copy_node_def)
  have "RamFilter \<in> set fs \<Longrightarrow> meets cf es RamFilter r h" using assms by blast
  then show "\<not> test_memory (int_or_0 (c_memory r)) (sn_node n) (lim_memory l)"
    by (cases "c_memory r") (auto simp: lim fields test_memory_def claim_resource_test_def no_limits_def int_or_0_def)
  have "CPUFilter \<in> set fs \<Longrightarrow> meets cf es CPUFilter r h" using assms by blast
  then show "\<not> test_cpu (rat_or_0 (c_cpu r)) (sn_node n) (lim_cpu l)"
    by (auto simp: lim fields test_cpu_def claim_resource_test_def no_limits_def)
  have "DiskFilter \<in> set fs \<Longrightarrow> meets cf es DiskFilter r h" using assms by blast
  then show "\<not> test_disk (int_or_0 (c_disk r)) (sn_node n) (lim_disk l)"
    by (auto simp: lim fields test_disk_def claim_resource_test_def no_limits_def)
  have cpuset: "lim_cpuset l = None \<or> (\<exists>k\<in>set (numa_nodes (sn_node n)). numa_fits (rat_or_0 (c_cpu r)) (int_or_0 (c_memory r)) k \<and>
      lim_cpuset l = Some \<lparr>cl_node = nn_id k, cl_cpuset_cpu = cpuset k, cl_cpuset_cpu_pinned = pinned_cpus k, cl_cpuset_mem = mem_available k\<rparr>)"
    by (cases "List.find (numa_fits (rat_or_0 (c_cpu r)) (int_or_0 (c_memory r))) (numa_nodes (sn_node n))")
       (auto simp: lim(4) fields cpuset_grant_def no_limits_def dest: find_SomeD)
  then show "\<not> test_cpuset_cpu (rat_or_0 (c_cpu r)) (lim_cpuset l)"
    by (auto simp: test_cpuset_cpu_def claim_resource_test_def numa_fits_def)
  assume "numa_indexed (sn_node n)"
  with cpuset show "test_cpuset_mem (int_or_0 (c_memory r)) (sn_node n) (lim_cpuset l) = Inr False"
    by (auto simp: test_cpuset_mem_def claim_resource_test_def numa_fits_def numa_indexed_def)
qed

lemma granted_claim:
  assumes h: "h = (copy_node n (new_host_state (hostname (sn_node n))))\<lparr>hs_service := sv\<rparr>"
    and fs: "\<forall>f\<in>set fs. meets cf es f r h" "PciPassthroughFilter \<in> set fs \<or> reqs \<in> {None, Some []}" "es_pci_requests es = Some reqs"
    and n: "numa_indexed (sn_node n)" "stats (sys p) = sn_pci n"
  shows "claim_test (int_or_0 (c_memory r)) (rat_or_0 (c_cpu r)) (int_or_0 (c_disk r)) reqs
           (Some (hs_limits (fold (grant r) fs h))) (sn_node n) (Some p) = Inr ()"
proof -
  have "PciPassthroughFilter \<in> set fs \<Longrightarrow> meets cf es PciPassthroughFilter r h" using fs by blast
  then have "test_pci (Some p) reqs = Inr False"
    using fs(2,3) n(2) by (auto simp: test_pci_def h copy_node_def split: option.splits)
  moreover note granted_tests [OF fs(1) [unfolded h], folded h]
  ultimately show ?thesis using n(1) by (simp add: claim_test_def)
qed

lemma claim_of_request:
  assumes "with_policy r' = with_policy r" "c_cpu_policy r \<noteq> Some ''dedicated''"
    and "claim_test (int_or_0 (c_memory r)) (rat_or_0 (c_cpu r)) (int_or_0 (c_disk r)) reqs lims n pci = Inr ()"
  shows "new_claim (container.truncate r') (Some n) pci reqs lims = Inr (Claim (container.truncate r'))"
  using same_with_policy [OF assms(1)] assms(2,3) by (simp add: new_claim_def claim_cpuset_def container.truncate_def)

lemma schedule_Inr:
  assumes "schedule E es allocs ps r w = (Inr (r', h), w')"
    and "well_posed (set (se_filters E)) es r"
  obtains h0 i a as w1 where "h0 \<in> set (host_states E ps)" "\<forall>f\<in>set (se_filters E). meets (se_conf E) es f r h0"
    "truthy (es_requested_host es) \<longrightarrow> Some (hs_hostname h0) = es_requested_host es"
    "hs_limits h = hs_limits (fold (grant r) (se_filters E) h0)" "hs_hostname h = hs_hostname h0"
    "hs_uuid h0 = Some i" "dict_get allocs i = Some (a # as)" "se_claim E (c_uuid r) a w1 = (Inr True, w')"
    "with_policy r' = with_policy r"
proof -
  have "\<forall>h\<in>set (host_states E ps). answerable (set (se_filters E)) es r h"
    using assms(2-) by (auto simp: answerable_def elim: host_states_elem)
  from get_filtered_hosts_eq [OF this, of "se_conf E"] obtain r1 hs where
    r1: "get_filtered_hosts (se_conf E) es (se_filters E) (host_states E ps) r = (Inr hs, r1)" "with_policy r1 = with_policy r"
    and hs: "hs = map (fold (grant r) (se_filters E)) (filter (\<lambda>h. (truthy (es_requested_host es) \<longrightarrow>
      Some (hs_hostname h) = es_requested_host es) \<and> (\<forall>f\<in>set (se_filters E). meets (se_conf E) es f r h)) (host_states E ps))"
    by blast
  from assms(1) r1(1) obtain k where k: "claim_host (se_claim E) (c_uuid r1) allocs hs w = (Inr (Some k), w')"
    "r' = r1" "h = consume_from_request (cf_now (se_conf E)) r1 k"
    by (auto simp: schedule_def sbind_Inr_iff sreturn_def sraise_def split: if_splits option.splits)
  have u: "c_uuid r1 = c_uuid r" using same_with_policy(4) [OF r1(2)] .
  from claim_host_Some [OF k(1)] obtain i a as w1 where c: "k \<in> set hs" "hs_uuid k = Some i"
    "dict_get allocs i = Some (a # as)" "se_claim E (c_uuid r) a w1 = (Inr True, w')" unfolding u by blast
  from c(1) obtain h0 where h0: "h0 \<in> set (host_states E ps)" "k = fold (grant r) (se_filters E) h0"
    "\<forall>f\<in>set (se_filters E). meets (se_conf E) es f r h0"
    "truthy (es_requested_host es) \<longrightarrow> Some (hs_hostname h0) = es_requested_host es" by (auto simp: hs)
  have "hs_uuid k = hs_uuid h0" "hs_hostname k = hs_hostname h0"
    using bare_eq [OF grants_bare [of r "se_filters E" h0]] h0(2) by auto
  then show thesis using that [OF h0(1,3,4)] h0(2) c k(2,3) r1(2) by (simp add: consume_from_request_def Let_def)
qed

section \<open>Properties\<close>

text \<open>
  C18. When the hosts have a service and the request the keys the filters read, the handler
  raises nothing and returns, in order, exactly the hosts that meet every filter that runs for
  the index, each with the limits that those filters grant and otherwise unchanged, whatever
  the order in which the filters are configured and the point where it stops early.
\<close>

theorem filtering_exact:
  assumes "\<forall>h\<in>set hs. answerable (set fs) es r h"
  shows "\<exists>r'. get_filtered_objects run_filter_once_per_request (host_passes cf es) fs index hs r =
      (Inr (map (fold (grant r) (filter (\<lambda>f. run_filter_for_index run_filter_once_per_request f index) fs))
        (filter (\<lambda>h. \<forall>f\<in>set fs. run_filter_for_index run_filter_once_per_request f index \<longrightarrow> meets cf es f r h) hs)), r') \<and>
    with_policy r' = with_policy r"
  using subset_refl assms by (rule hf.handler_spec)


text \<open>
  C19. A container is placed whenever it can be: if one of the candidate hosts meets the
  filters and the placement service accepts its allocation, and no claim raises, then the
  scheduler selects a host.
\<close>

theorem schedule_finds_host:
  assumes "h \<in> set (host_states E ps)" "\<forall>f\<in>set (se_filters E). meets (se_conf E) es f r h"
    and "truthy (es_requested_host es) \<longrightarrow> Some (hs_hostname h) = es_requested_host es"
    and "well_posed (set (se_filters E)) es r"
    and "hs_uuid h = Some i" "dict_get allocs i = Some (a # as)" "[] \<notin> set (dict_values allocs)"
    and "\<forall>w. fst (se_claim E (c_uuid r) a w) = Inr True" "\<forall>b w. \<exists>ok. fst (se_claim E (c_uuid r) b w) = Inr ok"
  shows "\<exists>r' h' w'. schedule E es allocs ps r w = (Inr (r', h'), w')"
proof -
  have "\<forall>h\<in>set (host_states E ps). answerable (set (se_filters E)) es r h"
    using assms(4) by (auto simp: answerable_def elim: host_states_elem)
  from get_filtered_hosts_eq [OF this, of "se_conf E"] obtain r1 hs where
    r1: "get_filtered_hosts (se_conf E) es (se_filters E) (host_states E ps) r = (Inr hs, r1)" "with_policy r1 = with_policy r"
    and hs: "fold (grant r) (se_filters E) h \<in> set hs" using assms(1-3) by auto
  have u: "c_uuid r1 = c_uuid r" using same_with_policy(4) [OF r1(2)] .
  have "hs_uuid (fold (grant r) (se_filters E) h) = Some i"
    using bare_eq [OF grants_bare [of r "se_filters E" h]] assms(5) by simp
  then obtain h' w' where "claim_host (se_claim E) (c_uuid r1) allocs hs w = (Inr (Some h'), w')"
    using claim_host_finds [OF hs _ assms(6), of "se_claim E" "c_uuid r"] assms(7-) u by metis
  then show ?thesis using r1(1) hs by (auto simp: schedule_def sbind_def sreturn_def)
qed

lemma handler_append:
  "get_filtered_objects once passes (fs1 @ fs2) index hs r =
     sbind (get_filtered_objects once passes fs1 index hs)
       (\<lambda>hs1. if hs1 = [] \<and> hs \<noteq> [] then sreturn [] else get_filtered_objects once passes fs2 index hs1) r"
  if "hs \<noteq> []"
  using that
proof (induction fs1 arbitrary: hs r)
  case (Cons f fs1)
  show ?case
  proof (cases "run_filter_for_index once f index")
    case True
    obtain x r1 where x: "filter_all (passes f) hs r = (x, r1)" by fastforce
    then show ?thesis using True Cons.IH [of _ r1] Cons.prems
      by (cases x) (auto simp: sbind_def sreturn_def)
  next
    case False
    then show ?thesis using Cons by simp
  qed
qed (simp add: sbind_def sreturn_def)

text \<open>
  The label filter cannot do without hints: for a container created without hints, whose
  request carries the hints None, it raises an attribute error as soon as some host meets the
  filters before it.
\<close>

theorem label_filter_raises:
  assumes "es_hints es = Some None" "\<forall>h\<in>set hs. answerable (set fs1) es r h"
    and "\<exists>h\<in>set hs. \<forall>f\<in>set fs1. meets cf es f r h"
  shows "fst (get_filtered_objects run_filter_once_per_request (host_passes cf es) (fs1 @ LabelFilter # fs2) 0 hs r) = Inl SchAttributeError"
proof -
  have "hs \<noteq> []" using assms(3) by auto
  obtain r1 where r1: "get_filtered_objects run_filter_once_per_request (host_passes cf es) fs1 0 hs r =
      (Inr (map (fold (grant r) fs1) (filter (\<lambda>h. \<forall>f\<in>set fs1. meets cf es f r h) hs)), r1)"
    using hf.handler_spec [OF subset_refl assms(2), of run_filter_once_per_request cf 0] by (auto simp: run_filter_for_index_def)
  obtain k ks where "map (fold (grant r) fs1) (filter (\<lambda>h. \<forall>f\<in>set fs1. meets cf es f r h) hs) = k # ks"
    using assms(3) by (cases "filter (\<lambda>h. \<forall>f\<in>set fs1. meets cf es f r h) hs") (auto simp: filter_empty_conv)
  moreover have "label_passes es x = (Inl SchAttributeError, x)" for x using assms(1) by (simp add: label_passes_def)
  ultimately show ?thesis using r1
    by (simp add: handler_append [OF \<open>hs \<noteq> []\<close>] sbind_def run_filter_for_index_def split: prod.splits)
qed

definition ex_pci_stats :: pci_stats where
  "ex_pci_stats = \<lparr>pool_at = (\<lambda>_. \<lparr>pool_props = [], pool_count = 0, pool_devices = []\<rparr>), pools = [], next_pool = 0,
     dev_filter = (\<lambda>_. Inr None)\<rparr>"

definition ex_service :: service where
  "ex_service = \<lparr>sv_host = ''h'', sv_disabled = False, sv_forced_down = False, sv_last_seen_up = Some 100, sv_updated_at = None,
     sv_created_at = 0, sv_availability_zone = None\<rparr>"

definition ex_sched_node :: sched_node where
  "ex_sched_node = \<lparr>sn_node = ex_cn, sn_rp_uuid = ''rp'', sn_labels = [(''disk'', ''ssd'')], sn_pci = ex_pci_stats, sn_disk_quota = True,
     sn_runtimes = [''runc''], sn_pinning = False, sn_updated_at = None\<rparr>"

definition ex_request :: request where
  "ex_request = \<lparr>c_uuid = ''c'', c_memory = Some 512, c_cpu = Some 1, c_disk = Some 10, c_cpu_policy = None,
     c_cpuset_cpus = None, c_host = None, c_runtime = Some ''runc''\<rparr>"

definition ex_spec :: extra_spec where
  "ex_spec = \<lparr>es_zone = None, es_hints = Some (Some [(''label:disk'', ''ssd'')]), es_pci_requests = Some None, es_requested_host = None\<rparr>"

definition ex_env :: "(string list, string) sched_env" where
  "ex_env = \<lparr>se_conf = \<lparr>cf_default_schedule_zone = None, cf_default_availability_zone = ''az'', cf_enable_cpu_pinning = False,
       cf_service_down_time = 180, cf_now = 200\<rparr>,
     se_filters = [AvailabilityZoneFilter, ComputeFilter, CPUFilter, CpuSetFilter, DiskFilter, LabelFilter, PciPassthroughFilter,
       RamFilter, RuntimeFilter],
     se_nodes = [ex_sched_node], se_services = [ex_service], se_claim = (\<lambda>u a log. (Inr True, u # log))\<rparr>"

lemmas ex_sched_defs = ex_pci_stats_def ex_service_def ex_sched_node_def ex_request_def ex_spec_def ex_env_def ex_cn_def

definition ex_host :: host_state where
  "ex_host = hd (host_states ex_env None)"

lemma ex_host_eq: "ex_host = (copy_node ex_sched_node (new_host_state ''h''))\<lparr>hs_service := Some ex_service\<rparr>"
  "host_states ex_env None = [ex_host]"
  by (simp_all add: ex_host_def host_states_def get_all_host_state_def ex_env_def ex_sched_node_def ex_service_def ex_cn_def dict_update_def
      update_host_state_def update_from_compute_node_def new_host_state_def)

lemma ex_host_fields:
  "hs_service ex_host = Some ex_service" "hs_hostname ex_host = ''h''" "hs_uuid ex_host = Some ''rp''" "hs_limits ex_host = no_limits"
  by (simp_all add: ex_host_eq(1) copy_node_def new_host_state_def ex_sched_node_def)

lemma ex_meets: "\<forall>f\<in>set (se_filters ex_env). meets (se_conf ex_env) ex_spec f ex_request ex_host"
  by (simp add: ex_env_def ex_host_fields)
     (simp add: ex_host_eq(1) copy_node_def new_host_state_def ex_sched_node_def ex_cn_def ex_request_def ex_spec_def ex_service_def zone_wanted_def
       service_is_up_def wanted_labels_def dict_update_def int_or_0_def rat_or_0_def)

lemma ex_posed: "well_posed (set (se_filters ex_env)) ex_spec ex_request"
  by (simp add: well_posed_def given_def ex_spec_def ex_request_def)

theorem filtering_exact_witness:
  "\<exists>r'. get_filtered_objects run_filter_once_per_request (host_passes (se_conf ex_env) ex_spec) (se_filters ex_env) 0 [ex_host] ex_request =
     (Inr [fold (grant ex_request) (se_filters ex_env) ex_host], r')"
proof -
  have "\<forall>h\<in>set [ex_host]. answerable (set (se_filters ex_env)) ex_spec ex_request h"
    by (simp add: answerable_def ex_posed ex_host_fields)
  from filtering_exact [OF this, of "se_conf ex_env" 0] show ?thesis
    using ex_meets by (auto simp: run_filter_for_index_def)
qed

lemma ex_schedule:
  obtains r' h w' where "schedule ex_env ex_spec [(''rp'', [''ar''])] None ex_request [] = (Inr (r', h), w')"
proof -
  have "case fst (schedule ex_env ex_spec [(''rp'', [''ar''])] None ex_request []) of Inl e \<Rightarrow> False | Inr x \<Rightarrow> True"
    by code_simp
  then show thesis using that
    by (cases "schedule ex_env ex_spec [(''rp'', [''ar''])] None ex_request []") (auto split: sum.splits)
qed


theorem schedule_finds_host_witness:
  "\<exists>r' h' w'. schedule ex_env ex_spec [(''rp'', [''ar''])] None ex_request [] = (Inr (r', h'), w')"
proof -
  have "ex_host \<in> set (host_states ex_env None)" by (simp add: ex_host_eq(2))
  from schedule_finds_host [OF this ex_meets _ ex_posed, of "''rp''" "[(''rp'', [''ar''])]" "''ar''" "[]" "[]"] show ?thesis
    by (simp add: ex_host_fields ex_spec_def ex_request_def) (auto simp: ex_env_def)
qed

theorem label_filter_raises_witness:
  "fst (get_filtered_objects run_filter_once_per_request (host_passes (se_conf ex_env) (ex_spec\<lparr>es_hints := Some None\<rparr>))
     ([ComputeFilter] @ LabelFilter # [RamFilter]) 0 [ex_host] ex_request) = Inl SchAttributeError"
proof (rule label_filter_raises)
  show "\<forall>h\<in>set [ex_host]. answerable (set [ComputeFilter]) (ex_spec\<lparr>es_hints := Some None\<rparr>) ex_request h"
    by (simp add: answerable_def well_posed_def ex_host_fields)
  show "\<exists>h\<in>set [ex_host]. \<forall>f\<in>set [ComputeFilter]. meets (se_conf ex_env) (ex_spec\<lparr>es_hints := Some None\<rparr>) f ex_request h"
    by (simp add: ex_host_fields ex_service_def service_is_up_def ex_env_def)
qed simp

end
