(* ===== verification/Placement_Request.thy ===== *)
theory Placement_Request
  imports Scheduler Py_Numbers "HOL-Library.Char_ord" "HOL-Library.List_Lexorder" "HOL-Library.Product_Lexorder"
begin

text \<open>
  The request for resources that the scheduler client sends to the placement service
  (\<^verbatim>\<open>zun/scheduler/utils.py\<close>, \<^verbatim>\<open>request_filter.py\<close>) and the client that puts placement and
  scheduler together (\<^verbatim>\<open>client/query.py\<close>). The request is shown to ask for what the
  container or its extra specifications say, in total over its groups.
\<close>

section \<open>Model\<close>

text \<open>Groups have the identifier None, the digits of a key of the extra specifications, or a
  number given by \<open>add_request_group\<close>.\<close>

datatype ident = NoId | StrId string | NumId nat

record request_group =
  rg_same_provider :: bool
  rg_resources :: "(string, int) dict"
  rg_required :: "string set"
  rg_forbidden :: "string set"
  rg_aggregates :: "string list list"
  rg_in_tree :: "string option"

record resource_request =
  rr_groups :: "(ident, request_group) dict"
  rr_policy :: "string option"
  rr_limit :: "int option"

text \<open>The names of the resource classes, from a package of OpenStack, and the configuration.\<close>

record placement_conf =
  pc_vcpu :: string
  pc_memory :: string
  pc_disk :: string
  pc_known_class :: "string \<Rightarrow> bool"
  pc_default_cpu :: rat
  pc_default_memory :: int
  pc_limit :: int

text \<open>The items of the extra specifications that are not in \<^typ>\<open>extra_spec\<close>, and the groups
  requested for ports.\<close>

datatype xval = XStr string | XInt int

record request_spec = extra_spec +
  xs_items :: "(string, xval) dict"
  xs_requested_resources :: "request_group list"

definition new_group :: "bool \<Rightarrow> request_group" where
  "new_group same = \<lparr>rg_same_provider = same, rg_resources = [], rg_required = {}, rg_forbidden = {}, rg_aggregates = [], rg_in_tree = None\<rparr>"

definition new_request :: "placement_conf \<Rightarrow> resource_request" where
  "new_request pc = \<lparr>rr_groups = [], rr_policy = None, rr_limit = Some (pc_limit pc)\<rparr>"

definition get_request_group :: "ident \<Rightarrow> resource_request \<Rightarrow> request_group \<times> resource_request" where
  "get_request_group i q =
     (case dict_get (rr_groups q) i of
        Some g \<Rightarrow> (g, q)
      | None \<Rightarrow> (let g = new_group (i \<noteq> NoId) in (g, q\<lparr>rr_groups := dict_set i g (rr_groups q)\<rparr>)))"

text \<open>A change of the group that \<open>get_request_group\<close> returns.\<close>

definition on_group :: "ident \<Rightarrow> (request_group \<Rightarrow> request_group) \<Rightarrow> resource_request \<Rightarrow> resource_request" where
  "on_group i f q = (case get_request_group i q of (g, q1) \<Rightarrow> q1\<lparr>rr_groups := dict_set i (f g) (rr_groups q1)\<rparr>)"

fun ident_number :: "ident \<Rightarrow> nat" where
  "ident_number NoId = 0"
| "ident_number (StrId s) = digits_value 10 s"
| "ident_number (NumId n) = n"

definition add_request_group :: "request_group \<Rightarrow> resource_request \<Rightarrow> resource_request" where
  "add_request_group g q =
     (let i = foldl max 0 (map (ident_number \<circ> fst) (filter (\<lambda>(i, _). i \<noteq> NoId) (rr_groups q))) + 1
      in q\<lparr>rr_groups := dict_set (NumId i) g (rr_groups q)\<rparr>)"

section \<open>Extra specifications\<close>

fun int_of_xval :: "xval \<Rightarrow> int option" where
  "int_of_xval (XStr s) = py_int s"
| "int_of_xval (XInt i) = Some i"

definition add_resource :: "placement_conf \<Rightarrow> ident \<Rightarrow> string \<Rightarrow> xval \<Rightarrow> resource_request \<Rightarrow> resource_request" where
  "add_resource pc i rclass amount q =
     (if \<not> pc_known_class pc rclass then q
      else case int_of_xval amount of
        None \<Rightarrow> q
      | Some a \<Rightarrow>
          if a < 0 then q else on_group i (\<lambda>g. g\<lparr>rg_resources := dict_set rclass a (rg_resources g)\<rparr>) q)"

definition add_trait :: "ident \<Rightarrow> string \<Rightarrow> xval \<Rightarrow> resource_request \<Rightarrow> resource_request" where
  "add_trait i trait kind q =
     (if kind = XStr ''required'' then on_group i (\<lambda>g. g\<lparr>rg_required := insert trait (rg_required g)\<rparr>) q
      else if kind = XStr ''forbidden'' then on_group i (\<lambda>g. g\<lparr>rg_forbidden := insert trait (rg_forbidden g)\<rparr>) q
      else q)"

definition add_group_policy :: "xval \<Rightarrow> resource_request \<Rightarrow> resource_request" where
  "add_group_policy policy q =
     (if policy = XStr ''none'' then q\<lparr>rr_policy := Some ''none''\<rparr>
      else if policy = XStr ''isolate'' then q\<lparr>rr_policy := Some ''isolate''\<rparr>
      else q)"

datatype key_prefix = Resources | Trait

text \<open>The match of a key with the pattern of \<open>XS_KEYPAT\<close>. A final newline is not part of the
  name, and no other newline can be.\<close>

definition key_name :: "string \<Rightarrow> string option" where
  "key_name s =
     (let nl = char_of (10::nat)
      in if nl \<notin> set s then Some s
         else if last s = nl \<and> nl \<notin> set (butlast s) then Some (butlast s) else None)"

definition key_tail :: "key_prefix \<Rightarrow> string \<Rightarrow> (key_prefix \<times> ident \<times> string) option" where
  "key_tail p s =
     (let ds = takeWhile is_digit s
      in case dropWhile is_digit s of
           [] \<Rightarrow> None
         | c # cs \<Rightarrow>
             if c \<noteq> CHR '':'' \<or> (ds \<noteq> [] \<and> hd ds = CHR ''0'') then None
             else map_option (\<lambda>n. (p, if ds = [] then NoId else StrId ds, n)) (key_name cs))"

definition parse_key :: "string \<Rightarrow> (key_prefix \<times> ident \<times> string) option" where
  "parse_key key =
     (if take 9 key = ''resources'' then key_tail Resources (drop 9 key)
      else if take 5 key = ''trait'' then key_tail Trait (drop 5 key)
      else None)"

definition add_item :: "placement_conf \<Rightarrow> string \<times> xval \<Rightarrow> resource_request \<Rightarrow> resource_request" where
  "add_item pc kv q =
     (let (key, val) = kv
      in if key = ''group_policy'' then add_group_policy val q
         else case parse_key key of
                None \<Rightarrow> q
              | Some (Resources, i, name) \<Rightarrow> add_resource pc i name val q
              | Some (Trait, i, name) \<Rightarrow> add_trait i name val q)"

definition from_extra_specs :: "placement_conf \<Rightarrow> (string, xval) dict \<Rightarrow> resource_request" where
  "from_extra_specs pc items = fold (add_item pc) items (new_request pc)"

section \<open>Amounts\<close>

definition add_amount :: "string \<times> int \<Rightarrow> (string, int) dict \<Rightarrow> (string, int) dict" where
  "add_amount ra m = (case ra of (rclass, a) \<Rightarrow> dict_set rclass ((case dict_get m rclass of None \<Rightarrow> 0 | Some b \<Rightarrow> b) + a) m)"

definition merged_resources :: "(string, int) dict \<Rightarrow> resource_request \<Rightarrow> (string, int) dict" where
  "merged_resources resources q =
     (let ret = fold add_amount (concat (map rg_resources (dict_values (rr_groups q)))) []
      in if resources = [] then ret
         else filter (\<lambda>(_, a). a \<noteq> 0) (fold (\<lambda>(rc, a) m. if rc \<in> set (dict_keys m) then m else dict_set rc a m) resources ret))"

definition clean_empties :: "resource_request \<Rightarrow> resource_request" where
  "clean_empties q =
     q\<lparr>rr_groups := filter (\<lambda>(_, g). \<not> (rg_resources g = [] \<and> rg_required g = {} \<and> rg_forbidden g = {})) (rr_groups q)\<rparr>"

definition strip_zeros :: "resource_request \<Rightarrow> resource_request" where
  "strip_zeros q =
     clean_empties (q\<lparr>rr_groups := map (\<lambda>(i, g). (i, g\<lparr>rg_resources := filter (\<lambda>(_, a). a \<noteq> 0) (rg_resources g)\<rparr>)) (rr_groups q)\<rparr>)"

definition get_num_of_numbered_groups :: "resource_request \<Rightarrow> nat" where
  "get_num_of_numbered_groups q = length (filter (\<lambda>i. i \<noteq> NoId) (dict_keys (rr_groups q)))"

section \<open>The query\<close>

fun join :: "string \<Rightarrow> string list \<Rightarrow> string" where
  "join sep [] = []"
| "join sep [x] = x"
| "join sep (x # y # ys) = x @ sep @ join sep (y # ys)"

definition ident_suffix :: "ident \<Rightarrow> string" where
  "ident_suffix i = (case i of NoId \<Rightarrow> '''' | StrId s \<Rightarrow> s | NumId n \<Rightarrow> show_nat n)"

definition to_queryparams :: "request_group \<Rightarrow> string \<Rightarrow> (string \<times> string) list" where
  "to_queryparams g sfx =
     (let resource_query = join '','' (sort (map (\<lambda>(rc, a). rc @ '':'' @ show_int a) (rg_resources g)));
          required_val = join '','' (sorted_list_of_set (rg_required g) @ map ((@) ''!'') (sorted_list_of_set (rg_forbidden g)))
      in [(''resources'' @ sfx, resource_query)] @
         (if required_val = [] then [] else [(''required'' @ sfx, required_val)]) @
         sort (map (\<lambda>aggs. (''member_of'' @ sfx, ''in:'' @ join '','' (sort aggs))) (rg_aggregates g)) @
         (if truthy (rg_in_tree g) then [(''in_tree'' @ sfx, the (rg_in_tree g))] else []))"

text \<open>\<open>urlencode\<close> of the standard library; a character is a byte of the encoded text.\<close>

definition hex_digit :: "nat \<Rightarrow> char" where
  "hex_digit n = char_of (if n < 10 then 48 + n else 55 + n)"

definition unreserved :: "char \<Rightarrow> bool" where
  "unreserved c \<longleftrightarrow> is_digit c \<or> of_char c \<in> {65::nat..90} \<or> of_char c \<in> {97::nat..122} \<or> c \<in> set ''_.-~''"

definition quote_plus :: "string \<Rightarrow> string" where
  "quote_plus s = concat (map (\<lambda>c. if unreserved c then [c] else if c = CHR '' '' then ''+''
     else [CHR ''%'', hex_digit (of_char c div 16), hex_digit (of_char c mod 16)]) s)"

definition urlencode :: "(string \<times> string) list \<Rightarrow> string" where
  "urlencode ps = join ''&'' (map (\<lambda>(k, v). quote_plus k @ ''='' @ quote_plus v) ps)"

definition to_querystring :: "resource_request \<Rightarrow> string" where
  "to_querystring q =
     urlencode (sort ((case rr_limit q of None \<Rightarrow> [] | Some l \<Rightarrow> [(''limit'', show_int l)]) @
       (case rr_policy q of None \<Rightarrow> [] | Some p \<Rightarrow> [(''group_policy'', p)]) @
       concat (map (\<lambda>(i, g). to_queryparams g (ident_suffix i)) (rr_groups q))))"

section \<open>The request for a container\<close>

definition container_resources :: "placement_conf \<Rightarrow> request \<Rightarrow> (string, int) dict" where
  "container_resources pc r =
     (let cpu = ceiling (if rat_or_0 (c_cpu r) = 0 then pc_default_cpu pc else rat_or_0 (c_cpu r));
          cpu1 = (if cpu > 1 then cpu else 1);
          memory = (case c_memory r of None \<Rightarrow> pc_default_memory pc | Some m \<Rightarrow> m);
          memory1 = (if memory > 1 then memory else 1);
          res = dict_set (pc_memory pc) memory1 [(pc_vcpu pc, cpu1)]
      in if int_or_0 (c_disk r) \<noteq> 0 then dict_set (pc_disk pc) (int_or_0 (c_disk r)) res else res)"

definition add_own :: "string \<times> int \<Rightarrow> resource_request \<Rightarrow> resource_request" where
  "add_own ra = on_group NoId (\<lambda>g. g\<lparr>rg_resources := dict_set (fst ra) (snd ra) (rg_resources g)\<rparr>)"

definition base_request :: "placement_conf \<Rightarrow> request \<Rightarrow> request_spec \<Rightarrow> resource_request" where
  "base_request pc r s =
     (let own = container_resources pc r; q = from_extra_specs pc (xs_items s);
          given = dict_keys (merged_resources [] q)
      in if xs_items s \<noteq> []
         then fold add_own (filter (\<lambda>(rc, _). rc \<notin> set given) own) (strip_zeros q)
         else fold add_own own (new_request pc))"

definition target_host :: "sched_node list \<Rightarrow> request_spec \<Rightarrow> resource_request \<Rightarrow> (sched_error, resource_request) res" where
  \<comment> \<open>the translation function of the message is not imported\<close>
  "target_host nodes s q =
     (if \<not> truthy (es_requested_host s) then Inr q
      else case filter (\<lambda>n. Some (hostname (sn_node n)) = es_requested_host s) nodes of
             [] \<Rightarrow> Inl SchNameError
           | [n] \<Rightarrow> Inr (on_group NoId (\<lambda>g. g\<lparr>rg_in_tree := Some (sn_rp_uuid n)\<rparr>) q)
           | _ \<Rightarrow> Inr (q\<lparr>rr_limit := None\<rparr>))"

definition affinity_hint :: "request_spec \<Rightarrow> bool" where
  "affinity_hint s =
     (case es_hints s of
        Some (Some hints) \<Rightarrow> list_ex (\<lambda>k. k \<in> {''group'', ''same_host'', ''different_host''}) (dict_keys hints)
      | _ \<Rightarrow> False)"

definition resources_from_request_spec ::
    "placement_conf \<Rightarrow> sched_node list \<Rightarrow> request \<Rightarrow> request_spec \<Rightarrow> (sched_error, resource_request) res" where
  "resources_from_request_spec pc nodes r s =
     (let numbered = (if xs_items s \<noteq> [] then get_num_of_numbered_groups (strip_zeros (from_extra_specs pc (xs_items s))) else 0)
      in rbind (target_host nodes s (fold add_request_group (xs_requested_resources s) (base_request pc r s)))
           (\<lambda>q. let q1 = (if affinity_hint s then q\<lparr>rr_limit := None\<rparr> else q)
                 in Inr (if get_num_of_numbered_groups q1 \<ge> 2 \<and> \<not> truthy (rr_policy q1) \<and> numbered \<le> 1
                         then q1\<lparr>rr_policy := Some ''none''\<rparr> else q1)))"

section \<open>The scheduler client\<close>

definition status_trait :: string where
  "status_trait = ''CUSTOM_ZUN_COMPUTE_STATUS_DISABLED''"

definition process_reqspec :: "request_spec \<Rightarrow> request_spec" where
  \<comment> \<open>\<open>compute_status_filter\<close>, the only request filter\<close>
  "process_reqspec s = s\<lparr>xs_items := dict_set (''trait:'' @ status_trait) (XStr ''forbidden'') (xs_items s)\<rparr>"

text \<open>The placement service: its traits, and the allocation candidates of a request with their
  providers; \<open>offers\<close> gives the providers of an allocation request.\<close>

record ('w, 'r) placement =
  ensure_traits :: "string list \<Rightarrow> ('w, sched_error, unit) st"
  get_allocation_candidates :: "resource_request \<Rightarrow> ('w, sched_error, 'r list option \<times> string list option) st"
  offers :: "'r \<Rightarrow> string list"

definition add_offer :: "'r \<Rightarrow> string \<Rightarrow> (string, 'r list) dict \<Rightarrow> (string, 'r list) dict" where
  "add_offer ar u m = dict_set u ((case dict_get m u of None \<Rightarrow> [] | Some l \<Rightarrow> l) @ [ar]) m"

definition allocs_by_provider :: "('r \<Rightarrow> string list) \<Rightarrow> 'r list \<Rightarrow> (string, 'r list) dict" where
  "allocs_by_provider prov ars = fold (\<lambda>ar m. fold (add_offer ar) (prov ar) m) ars []"

definition candidates :: "('w, 'r) placement \<Rightarrow> resource_request \<Rightarrow> ('w, sched_error, 'r list option \<times> string list option) st" where
  "candidates P q = scatch (get_allocation_candidates P q) (\<lambda>e. if e = PlacementUnreachable then sreturn (None, None) else sraise e)"

definition select_among ::
    "('w, 'r) placement \<Rightarrow> ('w, 'r) sched_env \<Rightarrow> request list \<Rightarrow> extra_spec \<Rightarrow> 'r list option \<times> string list option \<Rightarrow>
     ('w, sched_error, (request \<times> string \<times> limits) list) st" where
  "select_among P E rs es found =
     (case fst found of
        None \<Rightarrow> sraise (NoValidHost [])
      | Some ars \<Rightarrow>
          if ars = [] then sraise (NoValidHost [])
          else select_destinations E es (allocs_by_provider (offers P) ars) (snd found) rs)"

definition select_with ::
    "placement_conf \<Rightarrow> ('w, 'r) placement \<Rightarrow> ('w, 'r) sched_env \<Rightarrow> request list \<Rightarrow> request_spec \<Rightarrow>
     ('w, sched_error, (request \<times> string \<times> limits) list) st" where
  "select_with pc P E rs s =
     (case rs of
        [] \<Rightarrow> sraise SchIndexError
      | r # _ \<Rightarrow>
          sbind (slift (resources_from_request_spec pc (se_nodes E) r s))
            (\<lambda>q. sbind (candidates P q) (select_among P E rs (extra_spec.truncate s))))"

text \<open>The state of the client is whether it has already ensured the traits.\<close>

definition client_select_destinations ::
    "placement_conf \<Rightarrow> ('w, 'r) placement \<Rightarrow> ('w, 'r) sched_env \<Rightarrow> request list \<Rightarrow> request_spec \<Rightarrow>
     (bool \<times> 'w, sched_error, (request \<times> string \<times> limits) list) st" where
  "client_select_destinations pc P E rs s x =
     (case (if fst x then sreturn () else ensure_traits P [status_trait]) (snd x) of
        (Inl e, w) \<Rightarrow> (Inl e, (fst x, w))
      | (Inr _, w) \<Rightarrow> (case select_with pc P E rs (process_reqspec s) w of (res, w1) \<Rightarrow> (res, (True, w1))))"

section \<open>Totals\<close>

definition or_0 :: "int option \<Rightarrow> int" where
  "or_0 x = (case x of None \<Rightarrow> 0 | Some a \<Rightarrow> a)"

definition group_amount :: "string \<Rightarrow> request_group \<Rightarrow> int" where
  "group_amount rc g = or_0 (dict_get (rg_resources g) rc)"

definition amount :: "string \<Rightarrow> resource_request \<Rightarrow> int" where
  "amount rc q = (\<Sum>g\<leftarrow>dict_values (rr_groups q). group_amount rc g)"

definition asks_for :: "string \<Rightarrow> resource_request \<Rightarrow> bool" where
  "asks_for rc q \<longleftrightarrow> (\<exists>g\<in>set (dict_values (rr_groups q)). rc \<in> set (dict_keys (rg_resources g)))"

definition request_wf :: "resource_request \<Rightarrow> bool" where
  "request_wf q \<longleftrightarrow> dict_wf (rr_groups q) \<and> (\<forall>g\<in>set (dict_values (rr_groups q)). dict_wf (rg_resources g))"

lemma or_0_simps [simp]: "or_0 None = 0" "or_0 (Some a) = a"
  by (simp_all add: or_0_def)

lemma sum_set_group:
  fixes f :: "'v \<Rightarrow> int"
  assumes "dict_wf m"
  shows "(\<Sum>g\<leftarrow>dict_values (dict_set i v m). f g) = (\<Sum>g\<leftarrow>dict_values m. f g) - (case dict_get m i of None \<Rightarrow> 0 | Some g \<Rightarrow> f g) + f v"
  using assms by (induction m) auto

lemma sum_filter_key:
  fixes m :: "(string, int) dict"
  shows "dict_wf m \<Longrightarrow> (\<Sum>(k, a)\<leftarrow>m. if k = rc then a else 0) = or_0 (dict_get m rc)"
proof (induction m)
  case (Cons kv m)
  have "(\<Sum>(k, a)\<leftarrow>m. if k = rc then a else 0) = 0" if "rc \<notin> set (dict_keys m)" for m :: "(string, int) dict"
    using that by (induction m) auto
  then show ?case using Cons by (cases kv) auto
qed simp

lemma fold_add_amount:
  "dict_get (fold add_amount kvs m) rc =
     (if rc \<in> fst ` set kvs \<or> dict_get m rc \<noteq> None
      then Some (or_0 (dict_get m rc) + (\<Sum>(k, a)\<leftarrow>kvs. if k = rc then a else 0)) else None)"
  by (induction kvs arbitrary: m) (auto simp: add_amount_def or_0_def [symmetric] split: if_splits)

lemma merged_eq:
  assumes "request_wf q"
  shows "dict_get (merged_resources [] q) rc = (if asks_for rc q then Some (amount rc q) else None)"
proof -
  have "(\<Sum>(k, a)\<leftarrow>concat (map rg_resources gs). if k = rc then a else 0) = (\<Sum>g\<leftarrow>gs. group_amount rc g)"
    if "\<forall>g\<in>set gs. dict_wf (rg_resources g)" for gs
    using that by (induction gs) (auto simp: group_amount_def sum_filter_key)
  from this [of "dict_values (rr_groups q)"] show ?thesis using assms
    by (auto simp: merged_resources_def fold_add_amount request_wf_def amount_def asks_for_def)
qed

lemma sum_zeros: "(\<And>x. x \<in> set xs \<Longrightarrow> f x = (0::int)) \<Longrightarrow> (\<Sum>x\<leftarrow>xs. f x) = 0"
  by (induction xs) auto

lemma group_amount_0: "rc \<notin> set (dict_keys (rg_resources g)) \<Longrightarrow> group_amount rc g = 0"
  using dict_get_None [of "rg_resources g" rc] by (simp add: group_amount_def)

lemma not_mentioned: "\<not> asks_for rc q \<Longrightarrow> amount rc q = 0"
  unfolding amount_def asks_for_def by (rule sum_zeros) (blast intro: group_amount_0)

lemma values_get: "dict_wf m \<Longrightarrow> g \<in> set (dict_values m) \<longleftrightarrow> (\<exists>k. dict_get m k = Some g)"
  by (force dest: map_of_SomeD)

lemma dict_set_twice [simp]: "dict_set k v (dict_set k u m) = dict_set k v m"
  by (induction m) auto

abbreviation group_at :: "ident \<Rightarrow> resource_request \<Rightarrow> request_group" where
  "group_at i q \<equiv> fst (get_request_group i q)"

lemma on_group_groups: "rr_groups (on_group i f q) = dict_set i (f (group_at i q)) (rr_groups q)"
  by (simp add: on_group_def get_request_group_def Let_def split: option.splits)

lemma group_at_cases:
  obtains "dict_get (rr_groups q) i = Some (group_at i q)" | "dict_get (rr_groups q) i = None" "group_at i q = new_group (i \<noteq> NoId)"
  by (cases "dict_get (rr_groups q) i") (simp_all add: get_request_group_def Let_def)

lemma new_group_resources [simp]: "rg_resources (new_group b) = []" "group_amount rc (new_group b) = 0"
  by (simp_all add: new_group_def group_amount_def)

lemma request_wf_get:
  "request_wf q \<longleftrightarrow> dict_wf (rr_groups q) \<and> (\<forall>i g. dict_get (rr_groups q) i = Some g \<longrightarrow> dict_wf (rg_resources g))"
  unfolding request_wf_def by (metis values_get)

lemma asks_for_get:
  "request_wf q \<Longrightarrow> asks_for rc q \<longleftrightarrow> (\<exists>i g. dict_get (rr_groups q) i = Some g \<and> rc \<in> set (dict_keys (rg_resources g)))"
  unfolding request_wf_def asks_for_def by (metis values_get)

lemma group_at_wf: "request_wf q \<Longrightarrow> dict_wf (rg_resources (group_at i q))"
  by (rule group_at_cases [of q i]) (auto simp: request_wf_get)

lemma on_group_wf:
  assumes "request_wf q" "\<And>g. dict_wf (rg_resources g) \<Longrightarrow> dict_wf (rg_resources (f g))"
  shows "request_wf (on_group i f q)"
  using assms(1) assms(2) [OF group_at_wf [OF assms(1)]] unfolding request_wf_get on_group_groups
  by (simp add: dict_wf_set)

lemma on_group_amount:
  assumes "request_wf q"
  shows "amount rc (on_group i f q) = amount rc q - group_amount rc (group_at i q) + group_amount rc (f (group_at i q))"
proof -
  have wf: "dict_wf (rr_groups q)" using assms by (simp add: request_wf_get)
  show ?thesis unfolding amount_def on_group_groups sum_set_group [OF wf]
    by (rule group_at_cases [of q i]) simp_all
qed

lemma on_group_mentions:
  assumes "request_wf q" "request_wf (on_group i f q)"
    and "rc \<in> set (dict_keys (rg_resources (f (group_at i q)))) \<longleftrightarrow> rc \<in> set (dict_keys (rg_resources (group_at i q)))"
  shows "asks_for rc (on_group i f q) = asks_for rc q"
proof -
  let ?M = "\<lambda>g. rc \<in> set (dict_keys (rg_resources g))"
  let ?rest = "\<exists>j g. j \<noteq> i \<and> dict_get (rr_groups q) j = Some g \<and> ?M g"
  have "asks_for rc (on_group i f q) \<longleftrightarrow> ?M (f (group_at i q)) \<or> ?rest"
    unfolding asks_for_get [OF assms(2)] on_group_groups dict_get_set by (metis option.inject)
  moreover have "asks_for rc q \<longleftrightarrow> ?M (group_at i q) \<or> ?rest"
    unfolding asks_for_get [OF assms(1)] by (rule group_at_cases [of q i]) (simp; metis option.distinct(1) option.inject)+
  ultimately show ?thesis using assms(3) by simp
qed

lemma add_item_wf:
  assumes "request_wf q"
  shows "request_wf (add_item pc kv q)"
proof -
  have res: "request_wf (add_resource pc i n v q)" for i n v
    using assms by (simp add: add_resource_def on_group_wf split: option.split)
  have trait: "request_wf (add_trait i n v q)" for i n v
    using assms by (simp add: add_trait_def on_group_wf)
  have policy: "request_wf (add_group_policy v q)" for v
    using assms by (simp add: add_group_policy_def request_wf_def)
  show ?thesis using assms res trait policy
    by (simp add: add_item_def Let_def split: prod.split option.split key_prefix.split)
qed

lemma from_extra_specs_wf: "request_wf (from_extra_specs pc items)"
proof -
  have "request_wf q \<Longrightarrow> request_wf (fold (add_item pc) items q)" for q
    by (induction items arbitrary: q) (simp_all add: add_item_wf)
  moreover have "request_wf (new_request pc)" by (simp add: new_request_def request_wf_def)
  ultimately show ?thesis by (simp add: from_extra_specs_def)
qed

lemma nonzero_or_0: "dict_wf m \<Longrightarrow> or_0 (dict_get (filter (\<lambda>(_, a). a \<noteq> 0) m) rc) = or_0 (dict_get m rc)"
proof (induction m)
  case (Cons kv m)
  have "dict_get (filter P m) rc = None" if "rc \<notin> set (dict_keys m)" for P
    using that by (auto simp: map_of_eq_None_iff)
  then show ?case using Cons by (cases kv) auto
qed simp

lemma strip_zeros_groups:
  "rr_groups (strip_zeros q) = filter (\<lambda>(_, g). \<not> (rg_resources g = [] \<and> rg_required g = {} \<and> rg_forbidden g = {}))
     (map (\<lambda>(i, g). (i, g\<lparr>rg_resources := filter (\<lambda>(_, a). a \<noteq> 0) (rg_resources g)\<rparr>)) (rr_groups q))"
  by (simp add: strip_zeros_def clean_empties_def)

abbreviation (input) nonzero :: "request_group \<Rightarrow> request_group" where
  "nonzero g \<equiv> g\<lparr>rg_resources := filter (\<lambda>(_, a). a \<noteq> 0) (rg_resources g)\<rparr>"

lemma strip_zeros_wf:
  assumes "request_wf q"
  shows "request_wf (strip_zeros q)"
proof -
  let ?gs = "map (\<lambda>(i, g). (i, nonzero g)) (rr_groups q)"
  have "map fst ?gs = map fst (rr_groups q)" by (induction "rr_groups q") auto
  then have "dict_wf ?gs" using assms unfolding request_wf_def by metis
  then have "dict_wf (filter P ?gs)" for P by (rule distinct_map_filter)
  moreover have "dict_wf (rg_resources (nonzero g))" if "dict_wf (rg_resources g)" for g
    using that by (simp add: distinct_map_filter)
  ultimately show ?thesis using assms unfolding request_wf_def strip_zeros_groups by auto
qed

lemma strip_zeros_amount:
  assumes "request_wf q"
  shows "amount rc (strip_zeros q) = amount rc q"
proof -
  have "(\<Sum>g\<leftarrow>dict_values (filter (\<lambda>(_, g). \<not> (rg_resources g = [] \<and> rg_required g = {} \<and> rg_forbidden g = {}))
        (map (\<lambda>(i, g). (i, nonzero g)) gs)). group_amount rc g) = (\<Sum>g\<leftarrow>dict_values gs. group_amount rc g)"
    if "\<forall>g\<in>set (dict_values gs). dict_wf (rg_resources g)" for gs
    using that
  proof (induction gs)
    case (Cons ig gs)
    obtain i g where ig: "ig = (i, g)" by fastforce
    have "group_amount rc (nonzero g) = group_amount rc g" using Cons.prems ig by (simp add: group_amount_def nonzero_or_0)
    moreover have "rg_resources (nonzero g) = [] \<Longrightarrow> group_amount rc (nonzero g) = 0" by (simp add: group_amount_def)
    ultimately show ?case using Cons ig by auto
  qed simp
  from this [of "rr_groups q"] show ?thesis using assms by (simp add: amount_def strip_zeros_groups request_wf_def)
qed

lemma strip_zeros_mentions:
  assumes "asks_for rc (strip_zeros q)"
  shows "asks_for rc q"
proof -
  obtain i g where ig: "(i, g) \<in> set (rr_groups q)" "rc \<in> set (dict_keys (rg_resources g))"
    using assms unfolding asks_for_def strip_zeros_groups by auto (metis fst_conv image_eqI)+
  then have "rc \<in> set (dict_keys (rg_resources g))" by auto
  moreover have "g \<in> set (dict_values (rr_groups q))" using ig(1) by force
  ultimately show ?thesis unfolding asks_for_def by blast
qed

lemma add_own_spec:
  assumes "request_wf q" "\<not> asks_for k q"
  shows "request_wf (add_own (k, v) q)" "amount rc (add_own (k, v) q) = amount rc q + (if rc = k then v else 0)"
    "rc \<noteq> k \<Longrightarrow> asks_for rc (add_own (k, v) q) = asks_for rc q"
proof -
  show wf: "request_wf (add_own (k, v) q)" unfolding add_own_def using assms(1) by (rule on_group_wf) simp
  have "k \<notin> set (dict_keys (rg_resources (group_at NoId q)))"
    using assms by (cases rule: group_at_cases [of q NoId]) (auto simp: asks_for_get)
  then have "group_amount k (group_at NoId q) = 0" by (rule group_amount_0)
  then show "amount rc (add_own (k, v) q) = amount rc q + (if rc = k then v else 0)"
    unfolding add_own_def on_group_amount [OF assms(1)] by (simp add: group_amount_def)
  show "rc \<noteq> k \<Longrightarrow> asks_for rc (add_own (k, v) q) = asks_for rc q"
    using wf unfolding add_own_def
    by (intro on_group_mentions [OF assms(1)]) (simp_all add: dict_keys_set)
qed

lemma add_own_fold:
  assumes "request_wf q" "dict_wf own" "\<forall>k\<in>set (dict_keys own). \<not> asks_for k q"
  shows "request_wf (fold add_own own q) \<and> amount rc (fold add_own own q) = amount rc q + or_0 (dict_get own rc)"
  using assms
proof (induction own arbitrary: q)
  case (Cons kv own)
  obtain k v where kv: "kv = (k, v)" by fastforce
  have k: "request_wf q" "\<not> asks_for k q" using Cons.prems kv by auto
  note own = add_own_spec [OF k, where v = v]
  have "\<forall>j\<in>set (dict_keys own). \<not> asks_for j (add_own (k, v) q)"
    using Cons.prems kv own(3) by auto (metis fst_conv image_eqI)
  with Cons.IH [OF own(1)] Cons.prems have IH: "request_wf (fold add_own own (add_own (k, v) q))"
    "amount rc (fold add_own own (add_own (k, v) q)) = amount rc (add_own (k, v) q) + or_0 (dict_get own rc)" by auto
  have "rc = k \<Longrightarrow> dict_get own rc = None" using Cons.prems kv by (simp add: map_of_eq_None_iff)
  then show ?case using IH own(2) [of rc] kv by auto
qed simp

lemma fresh_number: "NumId (foldl max 0 (map (ident_number \<circ> fst) (filter (\<lambda>(i, _). i \<noteq> NoId) gs)) + 1) \<notin> set (dict_keys gs)"
proof -
  have le: "n \<le> foldl max n ns" "\<forall>x\<in>set ns. x \<le> foldl max n ns" for n :: nat and ns
    by (induction ns arbitrary: n) (auto, (meson max.bounded_iff)+)
  show ?thesis
  proof
    let ?l = "map (ident_number \<circ> fst) (filter (\<lambda>(i, _). i \<noteq> NoId) gs)"
    assume "NumId (foldl max 0 ?l + 1) \<in> set (dict_keys gs)"
    then have "foldl max 0 ?l + 1 \<in> set ?l" by (force simp: image_iff)
    then show False using le(2) [of ?l 0] by fastforce
  qed
qed

lemma add_request_group_spec:
  assumes "request_wf q" "dict_wf (rg_resources g)"
  shows "request_wf (add_request_group g q)" "amount rc (add_request_group g q) = amount rc q + group_amount rc g"
    "get_num_of_numbered_groups (add_request_group g q) = get_num_of_numbered_groups q + 1"
  using assms fresh_number [of "rr_groups q"]
  by (auto simp: add_request_group_def Let_def dict_set_fresh request_wf_def amount_def get_num_of_numbered_groups_def)

lemma add_request_groups:
  assumes "request_wf q" "\<forall>g\<in>set gs. dict_wf (rg_resources g)"
  shows "request_wf (fold add_request_group gs q) \<and>
    amount rc (fold add_request_group gs q) = amount rc q + (\<Sum>g\<leftarrow>gs. group_amount rc g) \<and>
    get_num_of_numbered_groups (fold add_request_group gs q) = get_num_of_numbered_groups q + length gs"
  using assms by (induction gs arbitrary: q) (auto simp: add_request_group_spec)

lemma dict_get_filter: "dict_get (filter (\<lambda>(k, _). P k) m) k = (if P k then dict_get m k else None)"
  by (induction m) auto

lemma container_resources_wf: "dict_wf (container_resources pc r)"
  by (simp add: container_resources_def Let_def)

lemma new_request_simps [simp]: "request_wf (new_request pc)" "amount rc (new_request pc) = 0" "\<not> asks_for rc (new_request pc)"
  by (simp_all add: new_request_def request_wf_def amount_def asks_for_def)

lemma base_request_spec:
  fixes s :: request_spec and pc :: placement_conf
  defines "specs \<equiv> merged_resources [] (from_extra_specs pc (xs_items s))"
  shows "request_wf (base_request pc r s)"
    and "amount rc (base_request pc r s) =
      (case dict_get specs rc of Some a \<Rightarrow> a | None \<Rightarrow> or_0 (dict_get (container_resources pc r) rc))"
proof -
  let ?q = "from_extra_specs pc (xs_items s)" and ?own = "container_resources pc r"
  let ?rest = "filter (\<lambda>(k, _). k \<notin> set (dict_keys specs)) ?own"
  have wf: "request_wf ?q" "dict_wf ?own" by (rule from_extra_specs_wf, rule container_resources_wf)
  have specs: "dict_get specs k = (if asks_for k ?q then Some (amount k ?q) else None)" for k
    unfolding specs_def by (rule merged_eq [OF wf(1)])
  then have keys: "k \<in> set (dict_keys specs) \<longleftrightarrow> asks_for k ?q" for k
    using dict_get_None [of specs k] by (metis option.distinct(1))
  have base: "base_request pc r s = fold add_own ?rest (strip_zeros ?q)"
  proof (cases "xs_items s = []")
    case True
    then show ?thesis
      by (simp add: base_request_def Let_def specs_def from_extra_specs_def merged_resources_def strip_zeros_def clean_empties_def
          new_request_def)
  qed (simp add: base_request_def Let_def specs_def)
  have "dict_wf ?rest" using wf(2) by (rule distinct_map_filter)
  moreover have "\<forall>k\<in>set (dict_keys ?rest). \<not> asks_for k (strip_zeros ?q)" using keys strip_zeros_mentions by auto
  ultimately have "request_wf (fold add_own ?rest (strip_zeros ?q)) \<and>
      amount rc (fold add_own ?rest (strip_zeros ?q)) = amount rc ?q + or_0 (dict_get ?rest rc)"
    using add_own_fold [OF strip_zeros_wf [OF wf(1)], of ?rest rc] strip_zeros_amount [OF wf(1), of rc] by simp
  then show "request_wf (base_request pc r s)" "amount rc (base_request pc r s) =
      (case dict_get specs rc of Some a \<Rightarrow> a | None \<Rightarrow> or_0 (dict_get (container_resources pc r) rc))"
    using not_mentioned [of rc ?q] keys [of rc] unfolding base by (simp_all add: dict_get_filter specs)
qed

lemma target_host_spec:
  assumes "target_host nodes s q = Inr q'" "request_wf q"
  shows "amount rc q' = amount rc q"
proof -
  have "amount rc (on_group NoId (\<lambda>g. g\<lparr>rg_in_tree := t\<rparr>) q) = amount rc q" for t
    using on_group_amount [OF assms(2), of rc NoId] by (simp add: group_amount_def)
  moreover have "amount rc (q\<lparr>rr_limit := l\<rparr>) = amount rc q" for l by (simp add: amount_def)
  ultimately show ?thesis using assms(1) by (auto simp: target_host_def split: if_splits list.splits)
qed

section \<open>Traits and candidates\<close>

definition forbids :: "string \<Rightarrow> resource_request \<Rightarrow> bool" where
  "forbids t q \<longleftrightarrow> (\<exists>g. dict_get (rr_groups q) NoId = Some g \<and> t \<in> rg_forbidden g)"

lemma on_group_forbids:
  assumes "forbids t q" "\<And>g. rg_forbidden g \<subseteq> rg_forbidden (f g)"
  shows "forbids t (on_group i f q)"
proof -
  obtain g where g: "dict_get (rr_groups q) NoId = Some g" "t \<in> rg_forbidden g" using assms(1) unfolding forbids_def by blast
  have "t \<in> rg_forbidden (f g)" using g(2) assms(2) by blast
  then show ?thesis using g unfolding forbids_def on_group_groups by (simp add: get_request_group_def)
qed

lemma add_item_forbids:
  assumes "forbids t q"
  shows "forbids t (add_item pc kv q)"
proof -
  have res: "forbids t (add_resource pc i n v q)" for i n v
    using assms by (simp add: add_resource_def on_group_forbids split: option.split)
  have trait: "forbids t (add_trait i n v q)" for i n v
    using assms by (simp add: add_trait_def on_group_forbids subset_insertI)
  have policy: "forbids t (add_group_policy v q)" for v
    using assms by (simp add: add_group_policy_def forbids_def)
  show ?thesis using assms res trait policy
    by (simp add: add_item_def Let_def split: prod.split option.split key_prefix.split)
qed

lemma fold_forbids:
  assumes "forbids t q" "\<And>x q. forbids t q \<Longrightarrow> forbids t (f x q)"
  shows "forbids t (fold f xs q)"
  using assms by (induction xs arbitrary: q) auto

lemma from_extra_specs_forbids:
  assumes "(''trait:'' @ t, XStr ''forbidden'') \<in> set items" "parse_key (''trait:'' @ t) = Some (Trait, NoId, t)"
  shows "forbids t (from_extra_specs pc items)"
proof -
  obtain xs ys where items: "items = xs @ (''trait:'' @ t, XStr ''forbidden'') # ys" using assms(1) by (meson split_list)
  have "forbids t (add_item pc (''trait:'' @ t, XStr ''forbidden'') q)" for q
    using assms(2) by (simp add: add_item_def add_trait_def forbids_def on_group_groups)
  then show ?thesis unfolding from_extra_specs_def items by (simp add: fold_forbids add_item_forbids)
qed

lemma strip_zeros_forbids:
  assumes "forbids t q" "dict_wf (rr_groups q)"
  shows "forbids t (strip_zeros q)"
proof -
  have "dict_get (filter (\<lambda>(_, g). \<not> (rg_resources g = [] \<and> rg_required g = {} \<and> rg_forbidden g = {}))
      (map (\<lambda>(i, g). (i, nonzero g)) gs)) NoId = Some (nonzero g)"
    if "dict_get gs NoId = Some g" "t \<in> rg_forbidden g" for gs g using that by (induction gs) auto
  then show ?thesis using assms(1) unfolding forbids_def strip_zeros_groups by force
qed

lemma base_request_forbids:
  assumes "forbids t (from_extra_specs pc (xs_items s))" "xs_items s \<noteq> []"
  shows "forbids t (base_request pc r s)"
proof -
  have "forbids t (strip_zeros (from_extra_specs pc (xs_items s)))"
    using assms(1) from_extra_specs_wf by (intro strip_zeros_forbids) (simp_all add: request_wf_def)
  then show ?thesis unfolding base_request_def Let_def using assms(2)
    by (simp add: fold_forbids add_own_def on_group_forbids)
qed

lemma dict_set_mem: "(k, v) \<in> set (dict_set k v m)"
  by (induction m) auto

lemma allocs_by_provider_spec:
  assumes "dict_get (allocs_by_provider prov ars) u = Some l"
  shows "l \<noteq> []" "ar \<in> set l \<Longrightarrow> ar \<in> set ars \<and> u \<in> set (prov ar)"
proof -
  define ok where "ok = (\<lambda>m. \<forall>u l. dict_get m u = Some l \<longrightarrow> l \<noteq> [] \<and> (\<forall>ar\<in>set l. ar \<in> set ars \<and> u \<in> set (prov ar)))"
  have step: "ok m \<Longrightarrow> ar \<in> set ars \<Longrightarrow> set us \<subseteq> set (prov ar) \<Longrightarrow> ok (fold (add_offer ar) us m)" for ar us m
  proof (induction us arbitrary: m)
    case (Cons v us)
    have "ok (add_offer ar v m)" unfolding ok_def
    proof (intro allI impI)
      fix u l
      assume l: "dict_get (add_offer ar v m) u = Some l"
      show "l \<noteq> [] \<and> (\<forall>ar\<in>set l. ar \<in> set ars \<and> u \<in> set (prov ar))"
      proof (cases "u = v")
        case True
        then have "l = (case dict_get m v of None \<Rightarrow> [] | Some l \<Rightarrow> l) @ [ar]" using l by (simp add: add_offer_def)
        then show ?thesis using Cons.prems True unfolding ok_def by (auto split: option.splits)
      next
        case False
        then show ?thesis using l Cons.prems(1) unfolding ok_def add_offer_def by simp
      qed
    qed
    then show ?case using Cons by simp
  qed simp
  have "ok m \<Longrightarrow> set xs \<subseteq> set ars \<Longrightarrow> ok (fold (\<lambda>ar m. fold (add_offer ar) (prov ar) m) xs m)" for xs m
    by (induction xs arbitrary: m) (simp_all add: step)
  moreover have "ok []" by (simp add: ok_def)
  ultimately have "ok (allocs_by_provider prov ars)" unfolding allocs_by_provider_def by blast
  then show "l \<noteq> []" "ar \<in> set l \<Longrightarrow> ar \<in> set ars \<and> u \<in> set (prov ar)" using assms unfolding ok_def by blast+
qed

definition placed :: "('w, 'r) sched_env \<Rightarrow> ('r \<Rightarrow> string list) \<Rightarrow> 'r list \<Rightarrow> extra_spec \<Rightarrow> request \<Rightarrow> request \<times> string \<times> limits \<Rightarrow> bool" where
  "placed E prov ars es r d \<longleftrightarrow> (\<exists>n\<in>set (se_nodes E). \<exists>s\<in>set (se_services E). \<exists>ar\<in>set ars. \<exists>w w'.
     fst (snd d) = hostname (sn_node n) \<and> sv_host s = hostname (sn_node n) \<and> sn_rp_uuid n \<in> set (prov ar) \<and>
     se_claim E (c_uuid r) ar w = (Inr True, w') \<and>
     (\<forall>f\<in>set (se_filters E). meets (se_conf E) es f r
        ((copy_node n (new_host_state (hostname (sn_node n))))\<lparr>hs_service := Some s\<rparr>)))"

lemma schedule_placed:
  assumes "schedule E es (allocs_by_provider prov ars) ps r w = (Inr (r', h), w')" "well_posed (set (se_filters E)) es r"
  shows "placed E prov ars es r (r', hs_hostname h, lims)"
proof -
  obtain h0 i a as w1 where s: "h0 \<in> set (host_states E ps)" "\<forall>f\<in>set (se_filters E). meets (se_conf E) es f r h0"
    "hs_hostname h = hs_hostname h0" "hs_uuid h0 = Some i" "dict_get (allocs_by_provider prov ars) i = Some (a # as)"
    "se_claim E (c_uuid r) a w1 = (Inr True, w')" using schedule_Inr [OF assms] by metis
  obtain n sv where n: "n \<in> set (se_nodes E)" "sv \<in> set (se_services E)" "sv_host sv = hostname (sn_node n)"
    "h0 = (copy_node n (new_host_state (hostname (sn_node n))))\<lparr>hs_service := Some sv\<rparr>"
    using s(1) by (rule host_states_elem)
  have "a \<in> set ars" "i \<in> set (prov a)" using allocs_by_provider_spec(2) [OF s(5), of a] by auto
  moreover have "hs_hostname h0 = hostname (sn_node n)" "i = sn_rp_uuid n" using s(4) by (simp_all add: n(4) copy_node_def new_host_state_def)
  ultimately show ?thesis unfolding placed_def using s(2,3,6) n(3)
    by (intro bexI [OF _ n(1)] bexI [OF _ n(2)] bexI [of _ a] exI [of _ w1] exI [of _ w']) (simp_all add: n(4))
qed

lemma select_all_placed:
  assumes "select_all E es (allocs_by_provider prov ars) ps rs w = (Inr ds, w')" "\<forall>r\<in>set rs. well_posed (set (se_filters E)) es r"
  shows "list_all2 (placed E prov ars es) rs ds"
  using assms
proof (induction rs arbitrary: w ds)
  case (Cons r rs)
  then show ?case by (auto simp: sbind_Inr_iff sreturn_def schedule_placed)
qed (simp add: sreturn_def)

section \<open>Properties\<close>

text \<open>
  C20. The request for a container asks in total for exactly the amounts that its extra
  specifications give, for every class that they mention (a zero asks for nothing), for the
  container's own CPUs, memory and disk in the other classes, and for the resources of the
  requested ports on top.
\<close>

theorem request_amounts:
  assumes "resources_from_request_spec pc nodes r s = Inr q"
    and "\<forall>g\<in>set (xs_requested_resources s). dict_wf (rg_resources g)"
  shows "amount rc q =
    (case dict_get (merged_resources [] (from_extra_specs pc (xs_items s))) rc of
       Some a \<Rightarrow> a | None \<Rightarrow> or_0 (dict_get (container_resources pc r) rc)) +
    (\<Sum>g\<leftarrow>xs_requested_resources s. group_amount rc g)"
proof -
  let ?b = "fold add_request_group (xs_requested_resources s) (base_request pc r s)"
  obtain q1 where q1: "target_host nodes s ?b = Inr q1" "rr_groups q = rr_groups q1"
    using assms(1) by (auto simp: resources_from_request_spec_def rbind_Inr_iff Let_def split: if_splits)
  have b: "request_wf ?b" "amount rc ?b = amount rc (base_request pc r s) + (\<Sum>g\<leftarrow>xs_requested_resources s. group_amount rc g)"
    using add_request_groups [OF base_request_spec(1) [of pc r s] assms(2), of rc] by auto
  have "amount rc q = amount rc q1" by (simp add: amount_def q1(2))
  then show ?thesis using target_host_spec [OF q1(1) b(1), of rc] b(2) base_request_spec(2) [where rc = rc and pc = pc and r = r and s = s] by simp
qed

text \<open>
  The amounts of a container are whole numbers that placement accepts: at least one
  CPU and one MB, enough for the CPUs and the memory of the container, and not a whole CPU too
  many.
\<close>

theorem container_resources_bounds:
  assumes "distinct [pc_vcpu pc, pc_memory pc, pc_disk pc]"
  shows "\<exists>n m. dict_get (container_resources pc r) (pc_vcpu pc) = Some n \<and> 1 \<le> n \<and> rat_or_0 (c_cpu r) \<le> of_int n \<and>
      (rat_or_0 (c_cpu r) \<noteq> 0 \<longrightarrow> n = 1 \<or> of_int n < rat_or_0 (c_cpu r) + 1) \<and>
    dict_get (container_resources pc r) (pc_memory pc) = Some m \<and> 1 \<le> m \<and> int_or_0 (c_memory r) \<le> m \<and>
    or_0 (dict_get (container_resources pc r) (pc_disk pc)) = int_or_0 (c_disk r)"
proof -
  let ?c = "if rat_or_0 (c_cpu r) = 0 then pc_default_cpu pc else rat_or_0 (c_cpu r)"
  let ?m = "case c_memory r of None \<Rightarrow> pc_default_memory pc | Some m \<Rightarrow> m"
  have get: "dict_get (container_resources pc r) (pc_vcpu pc) = Some (max 1 \<lceil>?c\<rceil>)"
    "dict_get (container_resources pc r) (pc_memory pc) = Some (max 1 ?m)"
    "or_0 (dict_get (container_resources pc r) (pc_disk pc)) = int_or_0 (c_disk r)"
    using assms by (auto simp: container_resources_def Let_def)
  have "rat_or_0 (c_cpu r) \<le> of_int (max 1 \<lceil>?c\<rceil>)" using le_of_int_ceiling [of ?c] by (auto simp: max_def)
  moreover have "rat_or_0 (c_cpu r) \<noteq> 0 \<longrightarrow> max 1 \<lceil>?c\<rceil> = 1 \<or> of_int (max 1 \<lceil>?c\<rceil>) < rat_or_0 (c_cpu r) + 1"
    using ceiling_correct [of ?c] by (auto simp: max_def)
  moreover have "int_or_0 (c_memory r) \<le> max 1 ?m" by (auto simp: int_or_0_def split: option.split)
  ultimately show ?thesis using get by auto
qed

text \<open>
  C30. The client never asks placement for a host whose compute service is disabled: its
  request forbids the trait of disabled services in the group that every request has.
\<close>

theorem disabled_hosts_forbidden:
  assumes "resources_from_request_spec pc nodes r (process_reqspec s) = Inr q"
  shows "\<exists>g. dict_get (rr_groups q) NoId = Some g \<and> status_trait \<in> rg_forbidden g"
proof -
  let ?s = "process_reqspec s"
  have "parse_key (''trait:'' @ status_trait) = Some (Trait, NoId, status_trait)" by code_simp
  then have "forbids status_trait (from_extra_specs pc (xs_items ?s))"
    by (intro from_extra_specs_forbids) (simp_all add: process_reqspec_def dict_set_mem)
  moreover have "(''trait:'' @ status_trait, XStr ''forbidden'') \<in> set (xs_items ?s)" by (simp add: process_reqspec_def dict_set_mem)
  then have "xs_items ?s \<noteq> []" by auto
  ultimately have "forbids status_trait (base_request pc r ?s)" by (rule base_request_forbids)
  then have "forbids status_trait (fold add_request_group (xs_requested_resources ?s) (base_request pc r ?s))"
    by (rule fold_forbids) (simp add: forbids_def add_request_group_def Let_def)
  moreover obtain q1 where q1: "target_host nodes ?s (fold add_request_group (xs_requested_resources ?s) (base_request pc r ?s)) = Inr q1"
    "rr_groups q = rr_groups q1"
    using assms(1) by (auto simp: resources_from_request_spec_def rbind_Inr_iff Let_def split: if_splits)
  ultimately have "forbids status_trait q1"
    by (auto simp: target_host_def on_group_forbids split: if_splits list.splits) (simp_all add: forbids_def)
  then show ?thesis by (simp add: forbids_def q1(2))
qed

lemma client_destinations:
  assumes "client_select_destinations pc P E rs s x = (Inr ds, x')"
    and "\<forall>r\<in>set rs. well_posed (set (se_filters E)) (extra_spec.truncate (process_reqspec s)) r"
  shows "\<exists>q ars ps w1 w2. rs \<noteq> [] \<and> resources_from_request_spec pc (se_nodes E) (hd rs) (process_reqspec s) = Inr q \<and>
    get_allocation_candidates P q w1 = (Inr (Some ars, ps), w2) \<and>
    list_all2 (placed E (offers P) ars (extra_spec.truncate (process_reqspec s))) rs ds"
proof -
  let ?s = "process_reqspec s"
  obtain w w' where sel: "select_with pc P E rs ?s w = (Inr ds, w')"
    using assms(1) by (auto simp: client_select_destinations_def split: prod.splits sum.splits)
  then obtain r rs' where rs: "rs = r # rs'" by (cases rs) (auto simp: select_with_def sraise_def)
  with sel obtain q found w1 w2 where q: "resources_from_request_spec pc (se_nodes E) r ?s = Inr q"
    "candidates P q w1 = (Inr found, w2)" "select_among P E rs (extra_spec.truncate ?s) found w2 = (Inr ds, w')"
    by (auto simp: select_with_def sbind_Inr_iff slift_def)
  then obtain ars ps where found: "found = (Some ars, ps)" by (cases found; cases "fst found") (auto simp: select_among_def sraise_def)
  then have c: "get_allocation_candidates P q w1 = (Inr (Some ars, ps), w2)"
    using q(2) by (auto simp: candidates_def scatch_def sreturn_def sraise_def split: prod.splits sum.splits if_splits)
  obtain w3 where "select_all E (extra_spec.truncate ?s) (allocs_by_provider (offers P) ars) ps rs w2 = (Inr ds, w3)"
    using q(3) found
    by (auto simp: select_among_def select_destinations_def sbind_Inr_iff sreturn_def sraise_def split: if_splits)
  then have "list_all2 (placed E (offers P) ars (extra_spec.truncate ?s)) rs ds" using assms(2) by (rule select_all_placed)
  then show ?thesis using q(1) c rs by auto
qed

text \<open>
  C21. When the scheduler client returns, it returns one destination per container, in order,
  each the host of a known node that placement offered in an allocation candidate for the
  request, whose allocation placement accepted for that container and which meets every
  filter.
\<close>

theorem client_places:
  assumes "client_select_destinations pc P E rs s x = (Inr ds, x')"
    and "\<forall>r\<in>set rs. well_posed (set (se_filters E)) (extra_spec.truncate (process_reqspec s)) r"
  shows "\<exists>q ars ps w1 w2. rs \<noteq> [] \<and> resources_from_request_spec pc (se_nodes E) (hd rs) (process_reqspec s) = Inr q \<and>
    get_allocation_candidates P q w1 = (Inr (Some ars, ps), w2) \<and>
    list_all2 (placed E (offers P) ars (extra_spec.truncate (process_reqspec s))) rs ds"
  using assms by (rule client_destinations)

text \<open>
  A requested host that is not in the database makes the request raise a name error, and
  not the documented NoValidHost, since the translation function of its message is not
  imported.
\<close>

theorem unknown_host_raises:
  assumes "truthy (es_requested_host s)" "\<forall>n\<in>set nodes. Some (hostname (sn_node n)) \<noteq> es_requested_host s"
  shows "resources_from_request_spec pc nodes r s = Inl SchNameError"
proof -
  have "filter (\<lambda>n. Some (hostname (sn_node n)) = es_requested_host s) nodes = []" using assms(2) by (simp add: filter_empty_conv)
  then have "target_host nodes s q = Inl SchNameError" for q using assms(1) by (simp add: target_host_def)
  then show ?thesis by (simp add: resources_from_request_spec_def Let_def)
qed

definition ex_pconf :: placement_conf where
  "ex_pconf = \<lparr>pc_vcpu = ''VCPU'', pc_memory = ''MEMORY_MB'', pc_disk = ''DISK_GB'',
     pc_known_class = (\<lambda>c. c \<in> set [''VCPU'', ''MEMORY_MB'', ''DISK_GB'']), pc_default_cpu = 1, pc_default_memory = 512, pc_limit = 1000\<rparr>"

definition ex_reqspec :: request_spec where
  "ex_reqspec = \<lparr>es_zone = None, es_hints = Some (Some [(''label:disk'', ''ssd'')]), es_pci_requests = Some None, es_requested_host = None,
     xs_items = [(''resources:VCPU'', XStr ''4''), (''resources1:DISK_GB'', XStr ''0'')],
     xs_requested_resources = [(new_group True)\<lparr>rg_resources := [(''VCPU'', 2)]\<rparr>]\<rparr>"

definition ex_placement :: "(string list, string) placement" where
  "ex_placement = \<lparr>ensure_traits = (\<lambda>_ w. (Inr (), w)),
     get_allocation_candidates = (\<lambda>_ w. (Inr (Some [''ar''], Some [''rp'']), w)), offers = (\<lambda>_. [''rp''])\<rparr>"

lemma ex_request_ok:
  obtains q where "resources_from_request_spec ex_pconf [] ex_request ex_reqspec = Inr q"
proof -
  have "case resources_from_request_spec ex_pconf [] ex_request ex_reqspec of Inl e \<Rightarrow> False | Inr q \<Rightarrow> True" by code_simp
  then show thesis using that by (auto split: sum.splits)
qed

theorem request_amounts_witness:
  "\<exists>q. resources_from_request_spec ex_pconf [] ex_request ex_reqspec = Inr q \<and> amount ''VCPU'' q = 6 \<and> amount ''MEMORY_MB'' q = 512 \<and>
     amount ''DISK_GB'' q = 0"
proof -
  obtain q where q: "resources_from_request_spec ex_pconf [] ex_request ex_reqspec = Inr q" by (rule ex_request_ok)
  have g: "\<forall>g\<in>set (xs_requested_resources ex_reqspec). dict_wf (rg_resources g)" by (simp add: ex_reqspec_def)
  let ?specs = "merged_resources [] (from_extra_specs ex_pconf (xs_items ex_reqspec))"
  have "dict_get ?specs ''VCPU'' = Some 4" "dict_get ?specs ''MEMORY_MB'' = None" "dict_get ?specs ''DISK_GB'' = Some 0"
    by code_simp+
  moreover have "dict_get (container_resources ex_pconf ex_request) ''MEMORY_MB'' = Some 512" by code_simp
  moreover have "(\<Sum>g\<leftarrow>xs_requested_resources ex_reqspec. group_amount ''VCPU'' g) = 2"
    "(\<Sum>g\<leftarrow>xs_requested_resources ex_reqspec. group_amount ''MEMORY_MB'' g) = 0"
    "(\<Sum>g\<leftarrow>xs_requested_resources ex_reqspec. group_amount ''DISK_GB'' g) = 0"
    by (simp_all add: ex_reqspec_def group_amount_def)
  ultimately show ?thesis
    using q request_amounts [OF q g, of "''VCPU''"] request_amounts [OF q g, of "''MEMORY_MB''"] request_amounts [OF q g, of "''DISK_GB''"]
    by simp
qed

theorem container_resources_bounds_witness:
  "\<exists>n. dict_get (container_resources ex_pconf (ex_request\<lparr>c_cpu := Some (1/2)\<rparr>)) ''VCPU'' = Some n \<and> 1 \<le> n \<and> n < 2"
proof -
  have "distinct [pc_vcpu ex_pconf, pc_memory ex_pconf, pc_disk ex_pconf]" by (simp add: ex_pconf_def)
  from container_resources_bounds [OF this, of "ex_request\<lparr>c_cpu := Some (1/2)\<rparr>"] show ?thesis
    by (auto simp: rat_or_0_def ex_pconf_def)
qed

theorem disabled_hosts_forbidden_witness:
  "\<exists>q g. resources_from_request_spec ex_pconf [] ex_request (process_reqspec ex_reqspec) = Inr q \<and>
     dict_get (rr_groups q) NoId = Some g \<and> status_trait \<in> rg_forbidden g"
proof -
  have "case resources_from_request_spec ex_pconf [] ex_request (process_reqspec ex_reqspec) of Inl e \<Rightarrow> False | Inr q \<Rightarrow> True"
    by code_simp
  then obtain q where q: "resources_from_request_spec ex_pconf [] ex_request (process_reqspec ex_reqspec) = Inr q"
    by (auto split: sum.splits)
  then show ?thesis using disabled_hosts_forbidden [OF q] by blast
qed

theorem client_places_witness:
  "\<exists>ds w'. client_select_destinations ex_pconf ex_placement ex_env [ex_request] ex_reqspec (False, []) = (Inr ds, w') \<and>
     (\<exists>ars. list_all2 (placed ex_env (offers ex_placement) ars (extra_spec.truncate (process_reqspec ex_reqspec))) [ex_request] ds)"
proof -
  let ?run = "client_select_destinations ex_pconf ex_placement ex_env [ex_request] ex_reqspec (False, [])"
  have "case fst ?run of Inl e \<Rightarrow> False | Inr ds \<Rightarrow> True" by code_simp
  then obtain ds w' where run: "?run = (Inr ds, w')" by (cases ?run) (auto split: sum.splits)
  have "\<forall>r\<in>set [ex_request]. well_posed (set (se_filters ex_env)) (extra_spec.truncate (process_reqspec ex_reqspec)) r"
    by (simp add: well_posed_def given_def process_reqspec_def ex_reqspec_def ex_request_def extra_spec.truncate_def)
  from client_places [OF run this] show ?thesis using run by blast
qed

theorem unknown_host_raises_witness:
  "resources_from_request_spec ex_pconf [ex_sched_node] ex_request (ex_reqspec\<lparr>es_requested_host := Some ''other''\<rparr>) = Inl SchNameError"
  by (rule unknown_host_raises) (simp_all add: ex_sched_node_def ex_cn_def)

end
