(* ===== verification/Report_Client.thy ===== *)
theory Report_Client
  imports Provider_Tree Complex_Main
begin

text \<open>
  The client of the placement service (\<^verbatim>\<open>zun/scheduler/client/report.py\<close>): the cache of
  resource providers with the times of their last refresh, the requests that keep it and the
  service in step, and the requests on allocations. The service is a parameter that answers
  requests on a world of its own; it may also raise an exception of the HTTP library. The
  requests that were sent are recorded in the state, for the statements about them.
\<close>

section \<open>Requests and replies\<close>

type_synonym 'v inventories = "(string, (string, 'v) dict) dict"
type_synonym version = "nat \<times> nat"

record rp_alloc =
  ra_generation :: "int option"
  ra_resources :: "(string, int) dict"

text \<open>The body of an allocation. None is a missing key; the generation of a consumer may also
  be present and null.\<close>

record consumer_allocs =
  ca_allocations :: "(string, rp_alloc) dict"
  ca_project_id :: "string option"
  ca_user_id :: "string option"
  ca_consumer_generation :: "int option option"

record provider_summary =
  ps_resources :: "(string, int \<times> int) dict"
  ps_traits :: "string list"

datatype 'v request =
    GetCandidates string
  | GetAggregates string
  | GetTraits string
  | GetProvider string
  | GetSharing "string list"
  | GetTree string
  | GetByName string
  | PostProvider string string "string option"
  | DeleteProvider string
  | GetInventories string
  | PutInventories string "int option" "'v inventories"
  | GetTraitNames "string list"
  | PutTrait string
  | PutTraits string "int option" "string list"
  | PutAggregates string "int option" "string list"
  | PutClass string
  | PostReshaper "(string, int option \<times> 'v inventories) dict" "(string, consumer_allocs) dict"
  | GetAllocations string
  | PutAllocations version string consumer_allocs
  | PostAllocations "(string, consumer_allocs) dict"
  | GetProviderAllocations string
  | GetUsages string "string option"

text \<open>The decoded body of a successful reply, by its documented shape.\<close>

datatype 'v body =
    NoBody
  | CandidatesBody "consumer_allocs list" "(string, provider_summary) dict"
  | AggregatesBody "string list" int
  | TraitsBody "string list" int
  | ProviderBody provider_dict
  | ProvidersBody "provider_dict list"
  | InventoriesBody "'v inventories" int
  | TraitNamesBody "string list"
  | AllocationsBody consumer_allocs
  | ConsumersBody "string list"
  | UsagesBody "(string, int) dict"

record 'v reply =
  status_code :: nat
  resp_text :: string
  resp_body :: "'v body"
  resp_errors :: "(string \<times> string) list" \<comment> \<open>code and detail of the errors in the body\<close>

definition resp_ok :: "'v reply \<Rightarrow> bool" where
  \<comment> \<open>the truth value of a reply\<close>
  "resp_ok r \<longleftrightarrow> status_code r < 400"

datatype ks_error =
    EndpointNotFound | MissingAuthPlugin | Unauthorized | DiscoveryFailure | ConnectFailure | HttpNotFound | OtherClientException

datatype rc_error =
    Ks ks_error
  | PtError pt_error
  | BadBody \<comment> \<open>a key or an element that the body of a reply does not have\<close>
  | NoneType \<comment> \<open>a subscript of None\<close>
  | AttributeError
  | ArgumentMissing \<comment> \<open>a \<open>ValueError\<close> about the arguments\<close>
  | Retry string
  | ResourceProviderAggregateRetrievalFailed string
  | ResourceProviderTraitRetrievalFailed string
  | ResourceProviderRetrievalFailed "string list"
  | ResourceProviderNotFound string
  | ResourceProviderCreationFailed string
  | ResourceProviderInUse
  | ResourceProviderDeletionFailed string
  | ResourceProviderUpdateConflict string
  | ResourceProviderUpdateFailed string
  | ResourceProviderSyncFailed
  | ResourceProviderAllocationRetrievalFailed string
  | InventoryInUse string
  | InvalidResourceClass string
  | TraitCreationFailed string
  | TraitRetrievalFailed
  | ReshapeFailed
  | ConsumerAllocationRetrievalFailed string
  | AllocationUpdateFailed string
  | AllocationMoveFailed string string
  | AllocationDeleteFailed string
  | PlacementAPIConnectFailure
  | UsagesRetrievalFailed string
  | ComputeHostNotFound string \<comment> \<open>raised by the tracker, for a node without a provider\<close>

section \<open>The client\<close>

record ('v, 'w) rc_conf =
  http :: "'v request \<Rightarrow> 'w \<Rightarrow> (ks_error + 'v reply) \<times> 'w"
  clock :: "'w \<Rightarrow> rat"
  refresh_interval :: rat \<comment> \<open>\<open>CONF.compute.resource_provider_association_refresh\<close>\<close>
  custom_namespace :: string \<comment> \<open>the prefix of custom resource classes\<close>
  set_order :: "string set \<Rightarrow> string list" \<comment> \<open>the order in which a set is iterated\<close>

record ('v, 'w) rc_state =
  provider_tree :: "'v provider_tree"
  association_refresh_time :: "(string, rat) dict"
  warn_count :: nat
  rc_world :: 'w
  rc_sent :: "'v request list"

type_synonym ('v, 'w, 'a) rc = "(('v, 'w) rc_state, rc_error, 'a) st"

definition WARN_EVERY :: nat where "WARN_EVERY = 10"
definition CONSUMER_GENERATION_VERSION :: version where "CONSUMER_GENERATION_VERSION = (1, 28)"
definition INTREE_AC_VERSION :: version where "INTREE_AC_VERSION = (1, 31)"

definition version_ge :: "version \<Rightarrow> version \<Rightarrow> bool" where
  "version_ge a b \<longleftrightarrow> fst a > fst b \<or> fst a = fst b \<and> snd a \<ge> snd b"

definition send :: "('v, 'w) rc_conf \<Rightarrow> 'v request \<Rightarrow> ('v, 'w, 'v reply) rc" where
  "send C q s =
     (case http C q (rc_world s) of
        (r, w) \<Rightarrow> (map_sum Ks id r, s\<lparr>rc_world := w, rc_sent := rc_sent s @ [q]\<rparr>))"

definition on_tree :: "('v provider_tree, pt_error, 'a) st \<Rightarrow> ('v, 'w, 'a) rc" where
  "on_tree m s = (case m (provider_tree s) of (r, t) \<Rightarrow> (map_sum PtError id r, s\<lparr>provider_tree := t\<rparr>))"

definition ask_tree :: "('v provider_tree \<Rightarrow> (pt_error, 'a) res) \<Rightarrow> ('v, 'w, 'a) rc" where
  "ask_tree f s = (map_sum PtError id (f (provider_tree s)), s)"

definition of_tree :: "(pt_error, 'a) res \<Rightarrow> ('v, 'w, 'a) rc" where
  \<comment> \<open>the result of a query of another tree\<close>
  "of_tree r s = (map_sum PtError id r, s)"

definition ignoring_value_error :: "('v, 'w, unit) rc \<Rightarrow> ('v, 'w, unit) rc" where
  "ignoring_value_error m =
     scatch m (\<lambda>e. case e of PtError (ValueError _) \<Rightarrow> sreturn () | _ \<Rightarrow> sraise e)"

definition forget_times :: "string list \<Rightarrow> ('v, 'w, unit) rc" where
  "forget_times us = smodify (\<lambda>s. s\<lparr>association_refresh_time := fold dict_del us (association_refresh_time s)\<rparr>)"

definition mark_refreshed :: "('v, 'w) rc_conf \<Rightarrow> string \<Rightarrow> ('v, 'w, unit) rc" where
  "mark_refreshed C u = smodify (\<lambda>s. s\<lparr>association_refresh_time :=
     dict_set u (clock C (rc_world s)) (association_refresh_time s)\<rparr>)"

definition warn_limit :: "('v, 'w, unit) rc" where
  "warn_limit = smodify (\<lambda>s. s\<lparr>warn_count := (if warn_count s \<noteq> 0 then warn_count s - 1 else WARN_EVERY)\<rparr>)"

fun retry_loop :: "nat \<Rightarrow> ('v, 'w, bool) rc \<Rightarrow> ('v, 'w, bool) rc" where
  "retry_loop 0 f = sreturn False"
| "retry_loop (Suc n) f = scatch f (\<lambda>e. case e of Retry _ \<Rightarrow> retry_loop n f | _ \<Rightarrow> sraise e)"

definition retries :: "('v, 'w, bool) rc \<Rightarrow> ('v, 'w, bool) rc" where
  "retries f = retry_loop 4 f"

definition move_operation_alloc_request :: "(string, rp_alloc) dict \<Rightarrow> consumer_allocs \<Rightarrow> consumer_allocs" where
  "move_operation_alloc_request source_allocs dest_alloc_req =
     \<lparr>ca_allocations =
        map (\<lambda>(u, a). (u, a\<lparr>ra_generation := None\<rparr>)) source_allocs @
        filter (\<lambda>(u, a). u \<notin> set (dict_keys source_allocs)) (ca_allocations dest_alloc_req),
      ca_project_id = None, ca_user_id = None, ca_consumer_generation = None\<rparr>"

section \<open>The cache\<close>

definition clear_provider_cache :: "('v, 'w, unit) rc" where
  "clear_provider_cache = smodify (\<lambda>s. s\<lparr>provider_tree := \<lparr>roots = []\<rparr>, association_refresh_time := []\<rparr>)"

definition report_client :: "'w \<Rightarrow> ('v, 'w) rc_state" where
  \<comment> \<open>a new client\<close>
  "report_client w =
     \<lparr>provider_tree = \<lparr>roots = []\<rparr>, association_refresh_time = [], warn_count = 0, rc_world = w, rc_sent = []\<rparr>"

definition clear_provider_cache_for_tree :: "string \<Rightarrow> ('v, 'w, unit) rc" where
  "clear_provider_cache_for_tree rp_uuid s =
     (case get_provider_uuids_in_tree rp_uuid (provider_tree s) of
        Inl (ValueError _) \<Rightarrow> (Inr (), s)
      | Inl e \<Rightarrow> (Inl (PtError e), s)
      | Inr uuids \<Rightarrow> sbind (on_tree (remove (hd uuids))) (\<lambda>_. forget_times uuids) s)"

definition associations_stale :: "('v, 'w) rc_conf \<Rightarrow> string \<Rightarrow> ('v, 'w) rc_state \<Rightarrow> bool" where
  "associations_stale C uuid s =
     (let refresh_time = (case dict_get (association_refresh_time s) uuid of None \<Rightarrow> 0 | Some t \<Rightarrow> t)
      in if refresh_interval C = 0 \<and> refresh_time \<noteq> 0 then False
         else clock C (rc_world s) - refresh_time > refresh_interval C)"

section \<open>Queries\<close>

definition get_allocation_candidates ::
    "('v, 'w) rc_conf \<Rightarrow> string \<Rightarrow> ('v, 'w, (consumer_allocs list \<times> (string, provider_summary) dict \<times> version) option) rc" where
  "get_allocation_candidates C querystring =
     sbind (send C (GetCandidates querystring)) (\<lambda>resp.
       if status_code resp = 200
       then (case resp_body resp of
               CandidatesBody reqs summaries \<Rightarrow> sreturn (Some (reqs, summaries, INTREE_AC_VERSION))
             | _ \<Rightarrow> sraise BadBody)
       else sreturn None)"

definition get_provider_aggregates :: "('v, 'w) rc_conf \<Rightarrow> string \<Rightarrow> ('v, 'w, string list \<times> int) rc" where
  "get_provider_aggregates C rp_uuid =
     sbind (send C (GetAggregates rp_uuid)) (\<lambda>resp.
       if status_code resp = 200
       then (case resp_body resp of AggregatesBody aggs g \<Rightarrow> sreturn (remdups aggs, g) | _ \<Rightarrow> sraise BadBody)
       else sraise (ResourceProviderAggregateRetrievalFailed rp_uuid))"

definition get_provider_traits :: "('v, 'w) rc_conf \<Rightarrow> string \<Rightarrow> ('v, 'w, string list \<times> int) rc" where
  "get_provider_traits C rp_uuid =
     sbind (send C (GetTraits rp_uuid)) (\<lambda>resp.
       if status_code resp = 200
       then (case resp_body resp of TraitsBody traits g \<Rightarrow> sreturn (remdups traits, g) | _ \<Rightarrow> sraise BadBody)
       else sraise (ResourceProviderTraitRetrievalFailed rp_uuid))"

definition get_resource_provider :: "('v, 'w) rc_conf \<Rightarrow> string \<Rightarrow> ('v, 'w, provider_dict option) rc" where
  "get_resource_provider C uuid =
     sbind (send C (GetProvider uuid)) (\<lambda>resp.
       if status_code resp = 200
       then (case resp_body resp of ProviderBody p \<Rightarrow> sreturn (Some p) | _ \<Rightarrow> sraise BadBody)
       else if status_code resp = 404 then sreturn None
       else sraise (ResourceProviderRetrievalFailed [uuid]))"

definition get_resource_provider_name :: "('v, 'w) rc_conf \<Rightarrow> string \<Rightarrow> ('v, 'w, string) rc" where
  "get_resource_provider_name C uuid s =
     (case data uuid (provider_tree s) of
        Inr d \<Rightarrow> (Inr (pd_name d), s)
      | Inl (ValueError _) \<Rightarrow>
          sbind (get_resource_provider C uuid) (\<lambda>rsp.
            case rsp of
              None \<Rightarrow> sraise (ResourceProviderNotFound uuid)
            | Some p \<Rightarrow> (case pdict_name p of None \<Rightarrow> sraise BadBody | Some n \<Rightarrow> sreturn n)) s
      | Inl e \<Rightarrow> (Inl (PtError e), s))"

definition get_sharing_providers :: "('v, 'w) rc_conf \<Rightarrow> string list \<Rightarrow> ('v, 'w, provider_dict list) rc" where
  "get_sharing_providers C agg_uuids =
     (if agg_uuids = [] then sreturn []
      else sbind (send C (GetSharing agg_uuids)) (\<lambda>resp.
        if status_code resp = 200
        then (case resp_body resp of ProvidersBody ps \<Rightarrow> sreturn ps | _ \<Rightarrow> sraise BadBody)
        else sraise (ResourceProviderRetrievalFailed agg_uuids)))"

definition get_providers_in_tree :: "('v, 'w) rc_conf \<Rightarrow> string \<Rightarrow> ('v, 'w, provider_dict list) rc" where
  "get_providers_in_tree C uuid =
     sbind (send C (GetTree uuid)) (\<lambda>resp.
       if status_code resp = 200
       then (case resp_body resp of ProvidersBody ps \<Rightarrow> sreturn ps | _ \<Rightarrow> sraise BadBody)
       else sraise (ResourceProviderRetrievalFailed [uuid]))"

section \<open>Providers\<close>

fun contains :: "string \<Rightarrow> string \<Rightarrow> bool" where
  \<comment> \<open>\<open>p in s\<close>\<close>
  "contains p [] \<longleftrightarrow> p = []"
| "contains p (c # s) \<longleftrightarrow> take (length p) (c # s) = p \<or> contains p s"

definition create_resource_provider ::
    "('v, 'w) rc_conf \<Rightarrow> string \<Rightarrow> string \<Rightarrow> string option \<Rightarrow> ('v, 'w, provider_dict option) rc" where
  "create_resource_provider C uuid name parent_provider_uuid =
     sbind (send C (PostProvider uuid name parent_provider_uuid)) (\<lambda>resp.
       if resp_ok resp
       then (case resp_body resp of ProviderBody p \<Rightarrow> sreturn (Some p) | _ \<Rightarrow> sraise BadBody)
       else if status_code resp = 409 \<and> \<not> contains ''Conflicting resource provider name:'' (resp_text resp)
       then get_resource_provider C uuid
       else sraise (ResourceProviderCreationFailed name))"

definition get_inventory :: "('v, 'w) rc_conf \<Rightarrow> string \<Rightarrow> ('v, 'w, ('v inventories \<times> int) option) rc" where
  "get_inventory C rp_uuid =
     sbind (send C (GetInventories rp_uuid)) (\<lambda>resp.
       if \<not> resp_ok resp then sreturn None
       else (case resp_body resp of InventoriesBody invs g \<Rightarrow> sreturn (Some (invs, g)) | _ \<Rightarrow> sraise BadBody))"

definition refresh_and_get_inventory :: "('v, 'w) rc_conf \<Rightarrow> string \<Rightarrow> ('v, 'w, ('v inventories \<times> int) option) rc" where
  "refresh_and_get_inventory C rp_uuid =
     sbind (get_inventory C rp_uuid) (\<lambda>curr.
       case curr of
         None \<Rightarrow> sreturn None
       | Some (invs, g) \<Rightarrow>
           sbind (on_tree (update_inventory rp_uuid invs (Some g))) (\<lambda>_. sreturn curr))"

text \<open>A refresh, with what it does for the providers that share by an aggregate.\<close>

definition refresh_with ::
    "('v, 'w) rc_conf \<Rightarrow> (string list \<Rightarrow> ('v, 'w, unit) rc) \<Rightarrow> string \<Rightarrow> bool \<Rightarrow> ('v, 'w, unit) rc" where
  "refresh_with C sharing rp_uuid force =
     sbind sget (\<lambda>s.
       if force \<or> associations_stale C rp_uuid s
       then sbind (refresh_and_get_inventory C rp_uuid) (\<lambda>_.
            sbind (get_provider_aggregates C rp_uuid) (\<lambda>(aggs, generation).
            sbind (on_tree (update_aggregates rp_uuid aggs (Some generation))) (\<lambda>_.
            sbind (get_provider_traits C rp_uuid) (\<lambda>(traits, generation).
            sbind (on_tree (update_traits rp_uuid traits (Some generation))) (\<lambda>_.
            sbind (sharing aggs) (\<lambda>_.
              mark_refreshed C rp_uuid))))))
       else sreturn ())"

definition add_sharing_root :: "provider_dict \<Rightarrow> ('v, 'w, string) rc" where
  "add_sharing_root rp =
     (case pdict_uuid rp of
        None \<Rightarrow> sraise BadBody
      | Some u \<Rightarrow>
          sbind sget (\<lambda>s.
            if exists u (provider_tree s) then sreturn u
            else (case (pdict_name rp, pdict_generation rp) of
                    (Some n, Some g) \<Rightarrow> sbind (on_tree (new_root n u (Some g))) (\<lambda>_. sreturn u)
                  | _ \<Rightarrow> sraise BadBody)))"

definition refresh_associations :: "('v, 'w) rc_conf \<Rightarrow> string \<Rightarrow> bool \<Rightarrow> bool \<Rightarrow> ('v, 'w, unit) rc" where
  "refresh_associations C rp_uuid force refresh_sharing =
     refresh_with C
       (\<lambda>aggs. if refresh_sharing
               then sbind (get_sharing_providers C aggs) (\<lambda>rps.
                      sforeach rps (\<lambda>rp. sbind (add_sharing_root rp) (\<lambda>u. refresh_with C (\<lambda>_. sreturn ()) u force)))
               else sreturn ())
       rp_uuid force"

definition cannot_connect :: "rc_error \<Rightarrow> bool" where
  "cannot_connect e \<longleftrightarrow> e \<in> Ks ` {EndpointNotFound, MissingAuthPlugin, Unauthorized, DiscoveryFailure, ConnectFailure}"

definition pull_or_create ::
    "('v, 'w) rc_conf \<Rightarrow> string \<Rightarrow> string option \<Rightarrow> string option \<Rightarrow> ('v, 'w, provider_dict list) rc" where
  \<comment> \<open>the branch for a provider that is not in the cache or is stale\<close>
  "pull_or_create C uuid name parent_provider_uuid =
     (let name = (if truthy name then the name else uuid)
      in sbind (get_providers_in_tree C uuid) (\<lambda>rps_to_refresh.
           if rps_to_refresh \<noteq> []
           then sbind (on_tree (populate_from_iterable rps_to_refresh)) (\<lambda>_. sreturn rps_to_refresh)
           else sbind (scatch (create_resource_provider C uuid name parent_provider_uuid)
                         (\<lambda>e. if cannot_connect e
                              then sbind warn_limit (\<lambda>_. sraise (ResourceProviderCreationFailed name))
                              else sraise e)) (\<lambda>created_rp.
                sbind (mark_refreshed C uuid) (\<lambda>_.
                  case created_rp of
                    None \<Rightarrow> sraise NoneType
                  | Some p \<Rightarrow> sbind (on_tree (populate_from_iterable [p])) (\<lambda>_. sreturn [])))))"

fun dict_uuids :: "provider_dict list \<Rightarrow> (rc_error, string list) res" where
  "dict_uuids [] = Inr []"
| "dict_uuids (p # ps) =
     (case pdict_uuid p of None \<Rightarrow> Inl BadBody | Some u \<Rightarrow> rbind (dict_uuids ps) (\<lambda>us. Inr (u # us)))"

definition ensure_resource_provider ::
    "('v, 'w) rc_conf \<Rightarrow> string \<Rightarrow> string option \<Rightarrow> string option \<Rightarrow> ('v, 'w, string) rc" where
  "ensure_resource_provider C uuid name parent_provider_uuid =
     sbind sget (\<lambda>s.
     sbind (if exists uuid (provider_tree s) \<and> \<not> associations_stale C uuid s
            then sbind (ask_tree (get_provider_uuids (Some uuid))) (\<lambda>us.
                   sreturn (filter (\<lambda>u. associations_stale C u s) us))
            else sbind (pull_or_create C uuid name parent_provider_uuid) (\<lambda>rps. slift (dict_uuids rps)))
       (\<lambda>uuids_to_refresh.
     sbind (sforeach uuids_to_refresh (\<lambda>u. refresh_associations C u True True)) (\<lambda>_. sreturn uuid)))"

definition delete_provider :: "('v, 'w) rc_conf \<Rightarrow> string \<Rightarrow> ('v, 'w, unit) rc" where
  "delete_provider C rp_uuid =
     sbind (send C (DeleteProvider rp_uuid)) (\<lambda>resp.
       if resp_ok resp \<or> status_code resp = 404
       then sbind (ignoring_value_error (on_tree (remove rp_uuid))) (\<lambda>_. forget_times [rp_uuid])
       else if status_code resp = 409 then sraise ResourceProviderInUse
       else sraise (ResourceProviderDeletionFailed rp_uuid))"

definition get_provider_tree_and_ensure_root ::
    "('v, 'w) rc_conf \<Rightarrow> string \<Rightarrow> string option \<Rightarrow> string option \<Rightarrow> ('v, 'w, 'v provider_tree) rc" where
  "get_provider_tree_and_ensure_root C rp_uuid name parent_provider_uuid =
     sbind (ensure_resource_provider C rp_uuid name parent_provider_uuid) (\<lambda>_.
     sbind sget (\<lambda>s. sreturn (provider_tree s)))"

section \<open>Flushing changes\<close>

definition is_custom :: "('v, 'w) rc_conf \<Rightarrow> string \<Rightarrow> bool" where
  "is_custom C n \<longleftrightarrow> take (length (custom_namespace C)) n = custom_namespace C"

definition ensure_resource_classes :: "('v, 'w) rc_conf \<Rightarrow> string list \<Rightarrow> ('v, 'w, unit) rc" where
  "ensure_resource_classes C names =
     sforeach (remdups (filter (is_custom C) names)) (\<lambda>name.
       sbind (send C (PutClass name)) (\<lambda>resp.
         if \<not> resp_ok resp then sraise (InvalidResourceClass name) else sreturn ()))"

definition first_error :: "'v reply \<Rightarrow> ('v, 'w, string \<times> string) rc" where
  \<comment> \<open>\<open>resp.json()['errors'][0]\<close>\<close>
  "first_error resp = (case resp_errors resp of [] \<Rightarrow> sraise BadBody | e # _ \<Rightarrow> sreturn e)"

definition inventory_reply :: "string \<Rightarrow> 'v reply \<Rightarrow> ('v, 'w, unit) rc" where
  "inventory_reply rp_uuid resp =
     (if status_code resp = 200
      then (case resp_body resp of
              InventoriesBody invs g \<Rightarrow> sbind (on_tree (update_inventory rp_uuid invs (Some g))) (\<lambda>_. sreturn ())
            | _ \<Rightarrow> sraise BadBody)
      else if status_code resp = 409
      then sbind (first_error resp) (\<lambda>(code, detail).
             if code = ''placement.inventory.inuse'' then sraise (InventoryInUse detail)
             else sraise (ResourceProviderUpdateConflict rp_uuid))
      else sraise (ResourceProviderUpdateFailed rp_uuid))"

definition set_inventory_for_provider :: "('v, 'w) rc_conf \<Rightarrow> string \<Rightarrow> 'v inventories \<Rightarrow> ('v, 'w, unit) rc" where
  "set_inventory_for_provider C rp_uuid inv_data =
     sbind (ask_tree (has_inventory_changed rp_uuid inv_data)) (\<lambda>changed.
       if \<not> changed then sreturn ()
       else sbind (ensure_resource_classes C (dict_keys inv_data)) (\<lambda>_.
            sbind (ask_tree (data rp_uuid)) (\<lambda>d.
            sbind (send C (PutInventories rp_uuid (pd_generation d) inv_data)) (inventory_reply rp_uuid))))"

definition ensure_traits :: "('v, 'w) rc_conf \<Rightarrow> string list \<Rightarrow> ('v, 'w, unit) rc" where
  "ensure_traits C traits =
     (if traits = [] then sreturn ()
      else sbind (send C (GetTraitNames traits)) (\<lambda>resp.
        if status_code resp = 200
        then (case resp_body resp of
                TraitNamesBody known \<Rightarrow>
                  sforeach (remdups (filter (\<lambda>t. t \<notin> set known) traits)) (\<lambda>trait.
                    sbind (send C (PutTrait trait)) (\<lambda>resp.
                      if \<not> resp_ok resp then sraise (TraitCreationFailed trait) else sreturn ()))
              | _ \<Rightarrow> sraise BadBody)
        else sraise TraitRetrievalFailed))"

definition traits_reply :: "string \<Rightarrow> 'v reply \<Rightarrow> ('v, 'w, unit) rc" where
  "traits_reply rp_uuid resp =
     (if status_code resp = 200
      then (case resp_body resp of
              TraitsBody traits g \<Rightarrow> sbind (on_tree (update_traits rp_uuid traits (Some g))) (\<lambda>_. sreturn ())
            | _ \<Rightarrow> sraise BadBody)
      else if status_code resp = 409 then sraise (ResourceProviderUpdateConflict rp_uuid)
      else sraise (ResourceProviderUpdateFailed rp_uuid))"

definition set_traits_for_provider :: "('v, 'w) rc_conf \<Rightarrow> string \<Rightarrow> string list \<Rightarrow> ('v, 'w, unit) rc" where
  "set_traits_for_provider C rp_uuid traits =
     sbind (ask_tree (have_traits_changed rp_uuid traits)) (\<lambda>changed.
       if \<not> changed then sreturn ()
       else sbind (ensure_traits C traits) (\<lambda>_.
            sbind (ask_tree (data rp_uuid)) (\<lambda>d.
            sbind (send C (PutTraits rp_uuid (pd_generation d) traits)) (traits_reply rp_uuid))))"

definition aggregates_reply :: "string \<Rightarrow> bool \<Rightarrow> 'v reply \<Rightarrow> ('v, 'w, unit) rc" where
  "aggregates_reply rp_uuid use_cache resp =
     (if status_code resp = 200
      then (case resp_body resp of
              AggregatesBody aggs g \<Rightarrow>
                (if use_cache then (\<lambda>m. m) else ignoring_value_error)
                  (sbind (on_tree (update_aggregates rp_uuid aggs (Some g))) (\<lambda>_. sreturn ()))
            | _ \<Rightarrow> sraise BadBody)
      else if status_code resp = 409
      then sbind (ignoring_value_error (on_tree (remove rp_uuid))) (\<lambda>_.
           sbind (forget_times [rp_uuid]) (\<lambda>_. sraise (ResourceProviderUpdateConflict rp_uuid)))
      else sraise (ResourceProviderUpdateFailed rp_uuid))"

definition set_aggregates_for_provider ::
    "('v, 'w) rc_conf \<Rightarrow> string \<Rightarrow> string list \<Rightarrow> bool \<Rightarrow> int option \<Rightarrow> ('v, 'w, unit) rc" where
  "set_aggregates_for_provider C rp_uuid aggregates use_cache generation =
     sbind (if generation \<noteq> None then sreturn generation
            else if use_cache then sbind (ask_tree (data rp_uuid)) (\<lambda>d. sreturn (pd_generation d))
            else sraise ArgumentMissing) (\<lambda>generation.
     sbind sget (\<lambda>s.
       if (case data rp_uuid (provider_tree s) of
             Inl _ \<Rightarrow> False
           | Inr d \<Rightarrow> pd_generation d = generation \<and> \<not> p_have_aggregates_changed aggregates d)
       then sreturn ()
       else sbind (send C (PutAggregates rp_uuid generation aggregates)) (aggregates_reply rp_uuid use_cache)))"

definition reshape ::
    "('v, 'w) rc_conf \<Rightarrow> (string, int option \<times> 'v inventories) dict \<Rightarrow> (string, consumer_allocs) dict \<Rightarrow> ('v, 'w, unit) rc" where
  "reshape C inventories allocations =
     sbind (sforeach (dict_values inventories) (\<lambda>(g, invs). ensure_resource_classes C (dict_keys invs))) (\<lambda>_.
     sbind (send C (PostReshaper inventories allocations)) (\<lambda>resp.
       if \<not> resp_ok resp then sraise ReshapeFailed else sreturn ()))"

fun reshape_inventories :: "('v provider_data \<Rightarrow> 'v inventories) \<Rightarrow> 'v provider_tree \<Rightarrow> string list \<Rightarrow>
    (pt_error, (string, int option \<times> 'v inventories) dict) res" where
  "reshape_inventories pick t [] = Inr []"
| "reshape_inventories pick t (u # us) =
     rbind (data u t) (\<lambda>d. rbind (reshape_inventories pick t us) (\<lambda>m. Inr ((u, pd_generation d, pick d) # m)))"

definition set_up_and_do_reshape ::
    "('v, 'w) rc_conf \<Rightarrow> 'v provider_tree \<Rightarrow> (string, consumer_allocs) dict \<Rightarrow> ('v, 'w, unit) rc" where
  \<comment> \<open>the old tree is the cache itself, with the providers added to it before\<close>
  "set_up_and_do_reshape C new_tree allocations =
     sbind (of_tree (get_provider_uuids None new_tree)) (\<lambda>new_uuids.
     sbind (of_tree (reshape_inventories pd_inventory new_tree new_uuids)) (\<lambda>changed.
     sbind (ask_tree (get_provider_uuids None)) (\<lambda>old_uuids.
     sbind (ask_tree (\<lambda>t. reshape_inventories (\<lambda>_. []) t (filter (\<lambda>u. u \<notin> set new_uuids) old_uuids))) (\<lambda>removed.
       scatch (reshape C (changed @ removed) allocations) (\<lambda>_. sraise ReshapeFailed)))))"

definition helper_exception :: "rc_error \<Rightarrow> bool" where
  "helper_exception e =
     (case e of
        InvalidResourceClass _ \<Rightarrow> True
      | InventoryInUse _ \<Rightarrow> True
      | ResourceProviderAggregateRetrievalFailed _ \<Rightarrow> True
      | ResourceProviderDeletionFailed _ \<Rightarrow> True
      | ResourceProviderInUse \<Rightarrow> True
      | ResourceProviderRetrievalFailed _ \<Rightarrow> True
      | ResourceProviderTraitRetrievalFailed _ \<Rightarrow> True
      | ResourceProviderUpdateFailed _ \<Rightarrow> True
      | TraitCreationFailed _ \<Rightarrow> True
      | TraitRetrievalFailed \<Rightarrow> True
      | _ \<Rightarrow> False)"

definition catch_all :: "string \<Rightarrow> ('v, 'w, 'a) rc \<Rightarrow> ('v, 'w, 'a) rc" where
  "catch_all rp_uuid m =
     scatch m (\<lambda>e.
       case e of
         ResourceProviderUpdateConflict _ \<Rightarrow> sbind (clear_provider_cache_for_tree rp_uuid) (\<lambda>_. sraise e)
       | _ \<Rightarrow> if helper_exception e
              then sbind (clear_provider_cache_for_tree rp_uuid) (\<lambda>_. sraise ResourceProviderSyncFailed)
              else sraise e)"

text \<open>The tree that is given gets the generations of the providers that are new; it is returned.\<close>

fun add_providers :: "('v, 'w) rc_conf \<Rightarrow> string list \<Rightarrow> string list \<Rightarrow> 'v provider_tree \<Rightarrow> ('v, 'w, 'v provider_tree) rc" where
  "add_providers C old_uuids [] new_tree = sreturn new_tree"
| "add_providers C old_uuids (u # us) new_tree =
     (if u \<in> set old_uuids then add_providers C old_uuids us new_tree
      else sbind (of_tree (data u new_tree)) (\<lambda>provider.
           sbind (catch_all u
                    (sbind (ensure_resource_provider C u (Some (pd_name provider)) (pd_parent_uuid provider)) (\<lambda>_.
                     sbind (ask_tree (data u)) (\<lambda>cached.
                       case update_inventory u (pd_inventory provider) (pd_generation cached) new_tree of
                         (r, t) \<Rightarrow> of_tree (rbind r (\<lambda>_. Inr t))))))
             (\<lambda>new_tree. add_providers C old_uuids us new_tree)))"

definition delete_providers :: "('v, 'w) rc_conf \<Rightarrow> string list \<Rightarrow> string list \<Rightarrow> ('v, 'w, unit) rc" where
  "delete_providers C old_uuids new_uuids =
     sforeach (filter (\<lambda>u. u \<notin> set new_uuids) (rev old_uuids)) (\<lambda>u. catch_all u (delete_provider C u))"

definition flush_provider :: "('v, 'w) rc_conf \<Rightarrow> 'v provider_tree \<Rightarrow> string \<Rightarrow> ('v, 'w, unit) rc" where
  "flush_provider C new_tree u =
     sbind (of_tree (data u new_tree)) (\<lambda>pd.
       catch_all (pd_uuid pd)
         (sbind (set_inventory_for_provider C (pd_uuid pd) (pd_inventory pd)) (\<lambda>_.
          sbind (set_aggregates_for_provider C (pd_uuid pd) (set_order C (pd_aggregates pd)) True None) (\<lambda>_.
                set_traits_for_provider C (pd_uuid pd) (set_order C (pd_traits pd))))))"

definition update_from_provider_tree ::
    "('v, 'w) rc_conf \<Rightarrow> 'v provider_tree \<Rightarrow> (string, consumer_allocs) dict option \<Rightarrow> ('v, 'w, 'v provider_tree) rc" where
  "update_from_provider_tree C new_tree allocations =
     sbind (ask_tree (get_provider_uuids None)) (\<lambda>old_uuids.
     sbind (of_tree (get_provider_uuids None new_tree)) (\<lambda>new_uuids.
     sbind (add_providers C old_uuids new_uuids new_tree) (\<lambda>new_tree.
     sbind (case allocations of
              None \<Rightarrow> sreturn ()
            | Some allocs \<Rightarrow>
                sbind (set_up_and_do_reshape C new_tree allocs) (\<lambda>_.
                  sforeach new_uuids (\<lambda>u. catch_all u (sbind (refresh_and_get_inventory C u) (\<lambda>_. sreturn ()))))) (\<lambda>_.
     sbind (delete_providers C old_uuids new_uuids) (\<lambda>_.
     sbind (sforeach (rev new_uuids) (flush_provider C new_tree)) (\<lambda>_.
       sreturn new_tree))))))"

section \<open>Allocations\<close>

definition get_allocs_for_consumer :: "('v, 'w) rc_conf \<Rightarrow> string \<Rightarrow> ('v, 'w, consumer_allocs) rc" where
  "get_allocs_for_consumer C consumer =
     sbind (send C (GetAllocations consumer)) (\<lambda>resp.
       if \<not> resp_ok resp then sraise (ConsumerAllocationRetrievalFailed consumer)
       else (case resp_body resp of AllocationsBody a \<Rightarrow> sreturn a | _ \<Rightarrow> sraise BadBody))"

definition get_allocations_for_consumer_by_provider :: "string \<Rightarrow> string \<Rightarrow> ('v, 'w, (string, int) dict) rc" where
  \<comment> \<open>the method it calls does not exist\<close>
  "get_allocations_for_consumer_by_provider rp_uuid consumer = sraise AttributeError"

definition the_key :: "'a option \<Rightarrow> ('v, 'w, 'a) rc" where
  "the_key x = (case x of None \<Rightarrow> sraise BadBody | Some y \<Rightarrow> sreturn y)"

abbreviation "concurrent_update \<equiv> ''placement.concurrent_update''"
abbreviation "generation_conflict \<equiv> ''consumer generation conflict''"

definition claim_payload ::
    "consumer_allocs \<Rightarrow> int option \<Rightarrow> 'v reply \<Rightarrow> ('v, 'w, consumer_allocs \<times> int option) rc" where
  \<comment> \<open>the allocation to ask for and the generation of the consumer, from the reply with the current one\<close>
  "claim_payload ar consumer_generation r =
     (if status_code r = 200
      then (case resp_body r of
              AllocationsBody body \<Rightarrow>
                (if ca_allocations body \<noteq> []
                 then sbind (the_key (if ca_consumer_generation ar = None
                                      then ca_consumer_generation body else ca_consumer_generation ar)) (\<lambda>g.
                        sreturn (move_operation_alloc_request (ca_allocations body) ar, g))
                 else sreturn (ar, consumer_generation))
            | _ \<Rightarrow> sraise BadBody)
      else sreturn (ar, consumer_generation))"

definition allocations_reply :: "string \<Rightarrow> string \<Rightarrow> 'v reply \<Rightarrow> ('v, 'w, bool) rc" where
  \<comment> \<open>what a claim and \<open>put_allocations\<close> make of the reply\<close>
  "allocations_reply operation consumer_uuid r =
     (if status_code r = 204 then sreturn True
      else sbind (first_error r) (\<lambda>(code, detail).
             if code = concurrent_update
             then if contains generation_conflict detail then sraise (AllocationUpdateFailed consumer_uuid)
                  else sraise (Retry operation)
             else sreturn False))"

definition claim_attempt ::
    "('v, 'w) rc_conf \<Rightarrow> string \<Rightarrow> consumer_allocs \<Rightarrow> string \<Rightarrow> string \<Rightarrow> version \<Rightarrow> int option \<Rightarrow> ('v, 'w, bool) rc" where
  "claim_attempt C consumer_uuid ar project_id user_id version consumer_generation =
     sbind (send C (GetAllocations consumer_uuid)) (\<lambda>r.
     sbind (claim_payload ar consumer_generation r) (\<lambda>(payload, g).
     let payload = payload\<lparr>ca_project_id := Some project_id, ca_user_id := Some user_id\<rparr>;
         payload = (if version_ge version CONSUMER_GENERATION_VERSION
                    then payload\<lparr>ca_consumer_generation := Some g\<rparr> else payload)
     in sbind (send C (PutAllocations version consumer_uuid payload)) (allocations_reply ''claim_resources'' consumer_uuid)))"

definition claim_resources ::
    "('v, 'w) rc_conf \<Rightarrow> string \<Rightarrow> consumer_allocs \<Rightarrow> string \<Rightarrow> string \<Rightarrow> version \<Rightarrow> int option \<Rightarrow> ('v, 'w, bool) rc" where
  "claim_resources C consumer_uuid alloc_request project_id user_id version consumer_generation =
     retries (claim_attempt C consumer_uuid alloc_request project_id user_id version consumer_generation)"

text \<open>Taking resources out of an allocation; None is a missing key or too small an amount, which
  raise the same exception.\<close>

fun take_classes :: "(string, int) dict \<Rightarrow> (string, int) dict \<Rightarrow> (string, int) dict option" where
  "take_classes [] res = Some res"
| "take_classes ((rc, v) # rest) res =
     (case dict_get res rc of
        None \<Rightarrow> None
      | Some a \<Rightarrow>
          if a - v < 0 then None
          else take_classes rest (if a - v = 0 then dict_del rc res else dict_set rc (a - v) res))"

fun take_providers :: "(string, (string, int) dict) dict \<Rightarrow> (string, rp_alloc) dict \<Rightarrow> (string, rp_alloc) dict option" where
  "take_providers [] allocs = Some allocs"
| "take_providers ((u, removed) # rest) allocs =
     (case dict_get allocs u of
        None \<Rightarrow> None
      | Some a \<Rightarrow>
          (case take_classes removed (ra_resources a) of
             None \<Rightarrow> None
           | Some res \<Rightarrow> take_providers rest (dict_set u (a\<lparr>ra_resources := res\<rparr>) allocs)))"

definition drop_empty :: "(string, rp_alloc) dict \<Rightarrow> (string, rp_alloc) dict" where
  "drop_empty allocs = filter (\<lambda>(u, a). ra_resources a \<noteq> []) allocs"

definition removal_reply :: "'v reply \<Rightarrow> ('v, 'w, bool) rc" where
  "removal_reply r =
     (if status_code r = 204 then sreturn True
      else sbind (first_error r) (\<lambda>(code, detail).
             if code = concurrent_update then sraise (Retry ''remove_resources_from_container_allocation'')
             else sreturn True))"

definition remove_attempt ::
    "('v, 'w) rc_conf \<Rightarrow> string \<Rightarrow> (string, (string, int) dict) dict \<Rightarrow> ('v, 'w, bool) rc" where
  "remove_attempt C consumer_uuid resources =
     (if resources = [] then sreturn True
      else sbind (get_allocs_for_consumer C consumer_uuid) (\<lambda>current.
        if ca_allocations current = [] then sraise (AllocationUpdateFailed consumer_uuid)
        else case take_providers resources (ca_allocations current) of
               None \<Rightarrow> sraise (AllocationUpdateFailed consumer_uuid)
             | Some allocs \<Rightarrow>
                 sbind (send C (PutAllocations CONSUMER_GENERATION_VERSION consumer_uuid
                                  (current\<lparr>ca_allocations := drop_empty allocs\<rparr>))) removal_reply))"

definition remove_resources_from_container_allocation ::
    "('v, 'w) rc_conf \<Rightarrow> string \<Rightarrow> (string, (string, int) dict) dict \<Rightarrow> ('v, 'w, unit) rc" where
  "remove_resources_from_container_allocation C consumer_uuid resources =
     sbind (retries (remove_attempt C consumer_uuid resources)) (\<lambda>done.
       if done then sreturn () else sraise (AllocationUpdateFailed consumer_uuid))"

definition remove_provider_tree_from_container_allocation ::
    "('v, 'w) rc_conf \<Rightarrow> string \<Rightarrow> string \<Rightarrow> ('v, 'w, bool) rc" where
  "remove_provider_tree_from_container_allocation C consumer_uuid root_rp_uuid =
     sbind (get_allocs_for_consumer C consumer_uuid) (\<lambda>current.
       if ca_allocations current = [] then sreturn False
       else sbind (get_providers_in_tree C root_rp_uuid) (\<lambda>rps.
            sbind (slift (dict_uuids rps)) (\<lambda>rp_uuids.
              if filter (\<lambda>u. u \<in> set rp_uuids) (dict_keys (ca_allocations current)) = [] then sreturn True
              else sbind (send C (PutAllocations CONSUMER_GENERATION_VERSION consumer_uuid
                                    (current\<lparr>ca_allocations := filter (\<lambda>(u, a). u \<notin> set rp_uuids) (ca_allocations current)\<rparr>)))
                     (\<lambda>r. sreturn (status_code r = 204)))))"

definition move_attempt :: "('v, 'w) rc_conf \<Rightarrow> string \<Rightarrow> string \<Rightarrow> ('v, 'w, bool) rc" where
  "move_attempt C source_consumer_uuid target_consumer_uuid =
     sbind (get_allocs_for_consumer C source_consumer_uuid) (\<lambda>source.
     sbind (get_allocs_for_consumer C target_consumer_uuid) (\<lambda>target.
       if ca_allocations target \<noteq> [] \<and> ca_allocations source = [] then sreturn True
       else
         sbind (the_key (ca_project_id source)) (\<lambda>project.
         sbind (the_key (ca_user_id source)) (\<lambda>user.
         sbind (the_key (ca_consumer_generation source)) (\<lambda>g.
         sbind (send C (PostAllocations
                  (dict_set target_consumer_uuid
                     \<lparr>ca_allocations = ca_allocations source, ca_project_id = Some project, ca_user_id = Some user,
                      ca_consumer_generation = Some (case ca_consumer_generation target of None \<Rightarrow> None | Some g \<Rightarrow> g)\<rparr>
                     [(source_consumer_uuid,
                       \<lparr>ca_allocations = [], ca_project_id = Some project, ca_user_id = Some user,
                        ca_consumer_generation = Some g\<rparr>)]))) (\<lambda>r.
           if status_code r = 204 then sreturn True
           else sbind (first_error r) (\<lambda>(code, detail).
                  if code = concurrent_update
                  then if contains generation_conflict detail
                       then sraise (AllocationMoveFailed source_consumer_uuid target_consumer_uuid)
                       else sraise (Retry ''move_allocations'')
                  else sreturn False)))))))"

definition move_allocations :: "('v, 'w) rc_conf \<Rightarrow> string \<Rightarrow> string \<Rightarrow> ('v, 'w, bool) rc" where
  "move_allocations C source_consumer_uuid target_consumer_uuid =
     retries (move_attempt C source_consumer_uuid target_consumer_uuid)"

definition put_attempt :: "('v, 'w) rc_conf \<Rightarrow> string \<Rightarrow> consumer_allocs \<Rightarrow> ('v, 'w, bool) rc" where
  "put_attempt C consumer_uuid payload =
     sbind (send C (PutAllocations CONSUMER_GENERATION_VERSION consumer_uuid payload))
       (allocations_reply ''put_allocations'' consumer_uuid)"

definition put_allocations :: "('v, 'w) rc_conf \<Rightarrow> string \<Rightarrow> consumer_allocs \<Rightarrow> ('v, 'w, bool) rc" where
  "put_allocations C consumer_uuid payload = retries (put_attempt C consumer_uuid payload)"

definition delete_allocation_for_container :: "('v, 'w) rc_conf \<Rightarrow> string \<Rightarrow> ('v, 'w, bool) rc" where
  "delete_allocation_for_container C uuid =
     sbind (send C (GetAllocations uuid)) (\<lambda>r.
       if \<not> resp_ok r then sraise (AllocationDeleteFailed uuid)
       else (case resp_body r of
               AllocationsBody allocations \<Rightarrow>
                 (if ca_allocations allocations = [] then sreturn False
                  else sbind (send C (PutAllocations CONSUMER_GENERATION_VERSION uuid (allocations\<lparr>ca_allocations := []\<rparr>))) (\<lambda>r.
                         if status_code r = 204 then sreturn True else sraise (AllocationDeleteFailed uuid)))
             | _ \<Rightarrow> sraise BadBody))"

definition get_allocations_for_resource_provider :: "('v, 'w) rc_conf \<Rightarrow> string \<Rightarrow> ('v, 'w, string list) rc" where
  \<comment> \<open>the consumers, which are the keys of the allocations\<close>
  "get_allocations_for_resource_provider C rp_uuid =
     sbind (send C (GetProviderAllocations rp_uuid)) (\<lambda>resp.
       if \<not> resp_ok resp then sraise (ResourceProviderAllocationRetrievalFailed rp_uuid)
       else (case resp_body resp of ConsumersBody cs \<Rightarrow> sreturn cs | _ \<Rightarrow> sraise BadBody))"

fun collect :: "'a list \<Rightarrow> ('a \<Rightarrow> ('v, 'w, 'b) rc) \<Rightarrow> ('v, 'w, 'b list) rc" where
  "collect [] f = sreturn []"
| "collect (x # xs) f = sbind (f x) (\<lambda>y. sbind (collect xs f) (\<lambda>ys. sreturn (y # ys)))"

definition get_allocations_for_provider_tree ::
    "('v, 'w) rc_conf \<Rightarrow> string \<Rightarrow> ('v, 'w, (string, consumer_allocs) dict) rc" where
  "get_allocations_for_provider_tree C nodename =
     sbind (ask_tree (get_provider_uuids (Some nodename))) (\<lambda>us.
     sbind (collect us (get_allocations_for_resource_provider C)) (\<lambda>css.
       collect (remdups (concat css)) (\<lambda>consumer.
         sbind (get_allocs_for_consumer C consumer) (\<lambda>a. sreturn (consumer, a)))))"

definition delete_resource_provider :: "('v, 'w) rc_conf \<Rightarrow> string \<Rightarrow> string list \<Rightarrow> bool \<Rightarrow> ('v, 'w, unit) rc" where
  \<comment> \<open>given the uuids of the containers of the host\<close>
  "delete_resource_provider C rp_uuid containers cascade =
     sbind (if cascade
            then sforeach containers (\<lambda>c. sbind (delete_allocation_for_container C c) (\<lambda>_. sreturn ()))
            else sreturn ()) (\<lambda>_.
       scatch (delete_provider C rp_uuid) (\<lambda>e.
         case e of
           ResourceProviderInUse \<Rightarrow> sreturn ()
         | ResourceProviderDeletionFailed _ \<Rightarrow> sreturn ()
         | _ \<Rightarrow> sraise e))"

definition get_provider_by_name :: "('v, 'w) rc_conf \<Rightarrow> string \<Rightarrow> ('v, 'w, provider_dict) rc" where
  "get_provider_by_name C name =
     sbind (scatch (send C (GetByName name)) (\<lambda>e. case e of Ks _ \<Rightarrow> sraise PlacementAPIConnectFailure | _ \<Rightarrow> sraise e)) (\<lambda>resp.
       if status_code resp = 200
       then (case resp_body resp of
               ProvidersBody records \<Rightarrow>
                 (case records of [r] \<Rightarrow> sreturn r | _ \<Rightarrow> sraise (ResourceProviderNotFound name))
             | _ \<Rightarrow> sraise BadBody)
       else sraise (ResourceProviderNotFound name))"

text \<open>One attempt of the changes of aggregates, which a decorator repeats on a conflict.\<close>

definition aggregate_add_host ::
    "('v, 'w) rc_conf \<Rightarrow> string \<Rightarrow> string option \<Rightarrow> string option \<Rightarrow> ('v, 'w, unit) rc" where
  "aggregate_add_host C agg_uuid host_name rp_uuid =
     (case (host_name, rp_uuid) of
        (None, None) \<Rightarrow> sraise ArgumentMissing
      | _ \<Rightarrow>
          sbind (case rp_uuid of
                   Some u \<Rightarrow> sreturn u
                 | None \<Rightarrow> sbind (get_provider_by_name C (the host_name)) (\<lambda>p. the_key (pdict_uuid p))) (\<lambda>u.
          sbind (get_provider_aggregates C u) (\<lambda>(existing_aggs, gen).
            if agg_uuid \<in> set existing_aggs then sreturn ()
            else set_aggregates_for_provider C u (existing_aggs @ [agg_uuid]) False (Some gen))))"

definition aggregate_remove_host :: "('v, 'w) rc_conf \<Rightarrow> string \<Rightarrow> string \<Rightarrow> ('v, 'w, unit) rc" where
  "aggregate_remove_host C agg_uuid host_name =
     sbind (get_provider_by_name C host_name) (\<lambda>p.
     sbind (the_key (pdict_uuid p)) (\<lambda>u.
     sbind (get_provider_aggregates C u) (\<lambda>(existing_aggs, gen).
       if agg_uuid \<notin> set existing_aggs then sreturn ()
       else set_aggregates_for_provider C u (filter (\<lambda>a. a \<noteq> agg_uuid) existing_aggs) False (Some gen))))"

definition usage_counts :: "('v, 'w) rc_conf \<Rightarrow> string \<Rightarrow> string option \<Rightarrow> ('v, 'w, int \<times> int) rc" where
  \<comment> \<open>cores and memory, where a missing class counts as zero\<close>
  "usage_counts C project_id user_id =
     sbind (send C (GetUsages project_id user_id)) (\<lambda>resp.
       if resp_ok resp
       then (case resp_body resp of
               UsagesBody usages \<Rightarrow>
                 (let count = (\<lambda>rc. case dict_get usages rc of None \<Rightarrow> 0 | Some n \<Rightarrow> n)
                  in sreturn (count ''VCPU'', count ''MEMORY_MB''))
             | _ \<Rightarrow> sraise BadBody)
       else sraise (UsagesRetrievalFailed project_id))"

definition get_usages_counts_for_quota ::
    "('v, 'w) rc_conf \<Rightarrow> string \<Rightarrow> string option \<Rightarrow> ('v, 'w, (int \<times> int) \<times> (int \<times> int) option) rc" where
  "get_usages_counts_for_quota C project_id user_id =
     sbind (usage_counts C project_id None) (\<lambda>project.
       if truthy user_id
       then sbind (usage_counts C project_id user_id) (\<lambda>user. sreturn (project, Some user))
       else sreturn (project, None))"

end
