(* ===== verification/Report_Sync.thy ===== *)
theory Report_Sync
  imports Report_Client
begin

text \<open>
  Correctness of the placement client: after a successful update the cache and the placement
  service hold what the given tree says, conflicts drop the cache of the tree concerned, and
  the requests on allocations are exactly the ones that the operations promise.
\<close>

section \<open>Running stateful code\<close>

lemma sforeach_Inr_rel:
  assumes "\<And>x s s'. x \<in> set xs \<Longrightarrow> f x s = (Inr (), s') \<Longrightarrow> R s s'"
    and "\<And>s. R s s" "\<And>a b c. R a b \<Longrightarrow> R b c \<Longrightarrow> R a c" "sforeach xs f s = (Inr (), s')"
  shows "R s s'"
  using assms(1,4)
proof (induction xs arbitrary: s)
  case Nil
  then show ?case using assms(2) by (simp add: sreturn_def)
next
  case (Cons x xs)
  then obtain s1 where s1: "f x s = (Inr (), s1)" "sforeach xs f s1 = (Inr (), s')" by (auto simp: sbind_Inr_iff)
  have "R s1 s'"
  proof (rule Cons.IH [OF _ s1(2)])
    show "R a b" if "y \<in> set xs" "f y a = (Inr (), b)" for y a b using Cons.prems(1) [of y a b] that by simp
  qed
  with Cons.prems(1) [OF _ s1(1)] show ?case using assms(3) by auto
qed

lemma send_eq:
  "send C q s = (Inr r, s') \<longleftrightarrow>
     (\<exists>w. http C q (rc_world s) = (Inr r, w) \<and> s' = s\<lparr>rc_world := w, rc_sent := rc_sent s @ [q]\<rparr>)"
  by (cases "http C q (rc_world s)"; cases "fst (http C q (rc_world s))") (auto simp: send_def)

lemma on_tree_eq:
  "on_tree m s = (Inr x, s') \<longleftrightarrow> (\<exists>t. m (provider_tree s) = (Inr x, t) \<and> s' = s\<lparr>provider_tree := t\<rparr>)"
  by (cases "m (provider_tree s)"; cases "fst (m (provider_tree s))") (auto simp: on_tree_def)

lemma ask_tree_eq: "ask_tree f s = (Inr x, s') \<longleftrightarrow> f (provider_tree s) = Inr x \<and> s' = s"
  by (cases "f (provider_tree s)") (auto simp: ask_tree_def)

lemma of_tree_eq: "of_tree r s = (Inr x, s') \<longleftrightarrow> r = Inr x \<and> s' = s"
  by (cases r) (auto simp: of_tree_def)

lemma sreturn_eq: "sreturn x s = (Inr y, s') \<longleftrightarrow> x = y \<and> s' = s"
  by (auto simp: sreturn_def)

lemma sraise_neq [simp]: "sraise e s \<noteq> (Inr x, s')"
  by (simp add: sraise_def)

lemma sget_eq: "sget s = (Inr x, s') \<longleftrightarrow> x = s \<and> s' = s"
  by (auto simp: sget_def)

lemmas run_eqs = sbind_Inr_iff send_eq on_tree_eq ask_tree_eq of_tree_eq sreturn_eq sget_eq

lemma catch_all_Inr: "catch_all u m s = (Inr x, s') \<Longrightarrow> m s = (Inr x, s')"
proof (cases "m s")
  case (Pair r s1)
  assume run: "catch_all u m s = (Inr x, s')"
  show ?thesis
  proof (cases r)
    case (Inl e)
    with run Pair show ?thesis
      by (simp add: catch_all_def scatch_def sbind_Inr_iff split: rc_error.splits if_splits)
  next
    case (Inr y)
    with run Pair show ?thesis by (simp add: catch_all_def scatch_def)
  qed
qed

section \<open>The cache as a table\<close>

text \<open>A tree whose names are clear of a set of uuids that holds its own.\<close>

definition clear_for :: "string set \<Rightarrow> 'v provider_tree \<Rightarrow> bool" where
  "clear_for D t \<longleftrightarrow> wf_tree t \<and> dom (flat t) \<subseteq> D \<and> (\<forall>u d. flat t u = Some d \<longrightarrow> pd_name d = u \<or> pd_name d \<notin> D)"

lemma clear_for_names: "clear_for D t \<Longrightarrow> names_clear t"
  unfolding clear_for_def by (subst names_clear_flat) auto

lemma clear_for_start: "wf_tree t \<Longrightarrow> names_clear t \<Longrightarrow> clear_for (dom (flat t)) t"
  unfolding clear_for_def using names_clear_flat by blast

lemma clear_for_absent:
  assumes "clear_for D t" "u \<in> D" "flat t u = None"
  shows "find_with_lock u False t = Inl (ValueError (NoSuchProvider u))"
proof (cases "find_with_lock u False t")
  case (Inl e)
  then show ?thesis using find_error by blast
next
  case (Inr r)
  have wf: "wf_tree t" using assms(1) by (simp add: clear_for_def)
  obtain q where q: "deref r t = Some q" "name_of q = u \<or> uuid_of q = u" using find_Inr [OF wf Inr] by metis
  then have "flat t (uuid_of q) = Some (pinfo q)" using deref_flat [OF wf] by blast
  then have "name_of q = uuid_of q \<or> name_of q \<notin> D" using assms(1) by (auto simp: clear_for_def)
  then show ?thesis using q(2) assms(2,3) \<open>flat t (uuid_of q) = Some (pinfo q)\<close> by auto
qed

lemma clear_for_data:
  assumes "clear_for D t" "u \<in> D"
  shows "data u t = Inr d \<longleftrightarrow> flat t u = Some d"
proof (cases "flat t u")
  case None
  then show ?thesis using clear_for_absent [OF assms] by (simp add: data_def get_provider_def)
next
  case (Some d')
  then show ?thesis using data_by_uuid [OF _ clear_for_names [OF assms(1)]] assms(1) by (auto simp: clear_for_def)
qed

lemma clear_for_update:
  assumes "clear_for D t" "flat t' = (flat t)(u \<mapsto> d')" "wf_tree t'" "flat t u = Some d" "pd_name d' = pd_name d"
  shows "clear_for D t'"
  using assms unfolding clear_for_def by (auto split: if_splits)

lemma clear_for_update_found:
  assumes upd: "info_update (\<lambda>d. snd (f d))" and t: "clear_for D t" "u \<in> D" and run: "update_found u f t = (Inr b, t')"
  shows "clear_for D t' \<and> (\<exists>d. flat t u = Some d \<and> flat t' = (flat t)(u \<mapsto> snd (f d)))"
proof -
  have wf: "wf_tree t" using t(1) by (simp add: clear_for_def)
  obtain u' d where d: "wf_tree t'" "flat t u' = Some d" "pd_name d = u \<or> u' = u" "flat t' = (flat t)(u' \<mapsto> snd (f d))"
    using update_found_Inr [OF upd wf run] by blast
  have "u' = u" using d(2,3) t unfolding clear_for_def by blast
  moreover have "pd_name (snd (f d)) = pd_name d" using info_update.keeps(2) [OF upd] by blast
  ultimately show ?thesis using d clear_for_update [OF t(1) d(4,1,2)] by auto
qed

lemma clear_for_remove:
  assumes "clear_for D t" "u \<in> D"
  shows "\<exists>r t'. remove u t = (r, t') \<and> clear_for D t' \<and> flat t' u = None \<and> (\<forall>v d. flat t' v = Some d \<longrightarrow> flat t v = Some d) \<and>
    (r = Inr () \<or> (\<exists>x. r = Inl (ValueError x)))"
proof (cases "flat t u")
  case None
  then show ?thesis using clear_for_absent [OF assms] assms(1) by (simp add: remove_def remove_with_lock_def)
next
  case (Some d)
  then obtain t' where t': "remove u t = (Inr (), t')" "wf_tree t'" "flat t' = flat t |` (- descendants (flat t) u)"
    using remove_flat [OF _ clear_for_names [OF assms(1)], of u] assms(1) by (auto simp: clear_for_def)
  have sub: "\<forall>v d. flat t' v = Some d \<longrightarrow> flat t v = Some d" using t'(3) by (auto simp: restrict_map_def split: if_splits)
  moreover have "flat t' u = None" using Some t'(3) by (auto simp: restrict_map_def descendants_def)
  moreover have "clear_for D t'" using assms(1) t'(2) sub unfolding clear_for_def by blast
  ultimately show ?thesis using t'(1) by blast
qed

section \<open>The placement service\<close>

record 'v provider_view =
  pv_generation :: "int option"
  pv_inventory :: "'v inventories"
  pv_aggregates :: "string set"
  pv_traits :: "string set"

definition shown :: "'v provider_data \<Rightarrow> 'v provider_view" where
  "shown d = \<lparr>pv_generation = pd_generation d, pv_inventory = pd_inventory d,
     pv_aggregates = pd_aggregates d, pv_traits = pd_traits d\<rparr>"

text \<open>
  What the service documents: an accepted \<open>PUT\<close> replaces the inventories, traits or aggregates
  of a provider and answers with them and the new generation, an accepted \<open>DELETE\<close> removes the
  provider, and the requests on resource classes and traits leave the providers alone.
\<close>

definition serves :: "('v, 'w) rc_conf \<Rightarrow> ('w \<Rightarrow> string \<Rightarrow> 'v provider_view option) \<Rightarrow> bool" where
  "serves C view \<longleftrightarrow> (\<forall>q w r w'. http C q w = (Inr r, w') \<longrightarrow>
     (case q of
        PutInventories u g invs \<Rightarrow> status_code r = 200 \<longrightarrow>
          (\<exists>v g'. view w u = Some v \<and> resp_body r = InventoriesBody invs g' \<and>
             view w' = (view w)(u \<mapsto> v\<lparr>pv_generation := Some g', pv_inventory := invs\<rparr>))
      | PutAggregates u g aggs \<Rightarrow> status_code r = 200 \<longrightarrow>
          (\<exists>v g' aggs'. view w u = Some v \<and> resp_body r = AggregatesBody aggs' g' \<and> set aggs' = set aggs \<and>
             view w' = (view w)(u \<mapsto> v\<lparr>pv_generation := Some g', pv_aggregates := set aggs\<rparr>))
      | PutTraits u g traits \<Rightarrow> status_code r = 200 \<longrightarrow>
          (\<exists>v g' traits'. view w u = Some v \<and> resp_body r = TraitsBody traits' g' \<and> set traits' = set traits \<and>
             view w' = (view w)(u \<mapsto> v\<lparr>pv_generation := Some g', pv_traits := set traits\<rparr>))
      | DeleteProvider u \<Rightarrow> resp_ok r \<or> status_code r = 404 \<longrightarrow> view w' = (view w)(u := None)
      | PutClass _ \<Rightarrow> view w' = view w
      | PutTrait _ \<Rightarrow> view w' = view w
      | GetTraitNames _ \<Rightarrow> view w' = view w
      | _ \<Rightarrow> True))"

lemmas servesD = serves_def [THEN iffD1, rule_format]

lemma serves_class: "serves C view \<Longrightarrow> http C (PutClass n) w = (Inr r, w') \<Longrightarrow> view w' = view w"
  by (drule (1) servesD) simp

lemma serves_trait: "serves C view \<Longrightarrow> http C (PutTrait n) w = (Inr r, w') \<Longrightarrow> view w' = view w"
  by (drule (1) servesD) simp

lemma serves_trait_names: "serves C view \<Longrightarrow> http C (GetTraitNames n) w = (Inr r, w') \<Longrightarrow> view w' = view w"
  by (drule (1) servesD) simp

lemma serves_delete:
  "serves C view \<Longrightarrow> http C (DeleteProvider u) w = (Inr r, w') \<Longrightarrow> resp_ok r \<or> status_code r = 404 \<Longrightarrow> view w' = (view w)(u := None)"
  by (drule (1) servesD) simp

definition untouched :: "('w \<Rightarrow> string \<Rightarrow> 'v provider_view option) \<Rightarrow> ('v, 'w) rc_state \<Rightarrow> ('v, 'w) rc_state \<Rightarrow> bool" where
  "untouched view s s' \<longleftrightarrow> provider_tree s' = provider_tree s \<and> view (rc_world s') = view (rc_world s)"

lemma ensure_resource_classes_untouched:
  assumes "serves C view" "ensure_resource_classes C names s = (Inr (), s')"
  shows "untouched view s s'"
  using assms(2) unfolding ensure_resource_classes_def
  by (rule sforeach_Inr_rel [rotated -1])
    (auto simp: run_eqs untouched_def serves_class [OF assms(1)] split: if_splits)

lemma ensure_traits_untouched:
  assumes "serves C view" "ensure_traits C traits s = (Inr (), s')"
  shows "untouched view s s'"
proof (cases "traits = []")
  case True
  then show ?thesis using assms(2) by (simp add: ensure_traits_def sreturn_eq untouched_def)
next
  case False
  then obtain r s1 known where r: "send C (GetTraitNames traits) s = (Inr r, s1)" and
    run: "sforeach (remdups (filter (\<lambda>t. t \<notin> set known) traits)) (\<lambda>trait.
       sbind (send C (PutTrait trait)) (\<lambda>resp. if \<not> resp_ok resp then sraise (TraitCreationFailed trait) else sreturn ())) s1 = (Inr (), s')"
    using assms(2) by (auto simp: ensure_traits_def sbind_Inr_iff split: if_splits body.splits)
  have "untouched view s1 s'"
    using run by (rule sforeach_Inr_rel [rotated -1])
      (auto simp: run_eqs untouched_def serves_trait [OF assms(1)] split: if_splits)
  then show ?thesis using r by (auto simp: send_eq untouched_def serves_trait_names [OF assms(1)])
qed

text \<open>The cache holds what the service shows.\<close>

definition coherent :: "('w \<Rightarrow> string \<Rightarrow> 'v provider_view option) \<Rightarrow> ('v, 'w) rc_state \<Rightarrow> bool" where
  "coherent view s \<longleftrightarrow> (\<forall>u d. flat (provider_tree s) u = Some d \<longrightarrow> view (rc_world s) u = Some (shown d))"

text \<open>The provider is changed in the cache and in the service, to the same data.\<close>

definition stepped :: "string set \<Rightarrow> ('w \<Rightarrow> string \<Rightarrow> 'v provider_view option) \<Rightarrow> string \<Rightarrow> ('v provider_data \<Rightarrow> 'v provider_data \<Rightarrow> bool) \<Rightarrow>
    ('v, 'w) rc_state \<Rightarrow> ('v, 'w) rc_state \<Rightarrow> bool" where
  "stepped D view u P s s' \<longleftrightarrow> clear_for D (provider_tree s') \<and> coherent view s' \<and>
     (\<exists>d d'. flat (provider_tree s) u = Some d \<and> flat (provider_tree s') = (flat (provider_tree s))(u \<mapsto> d') \<and> P d d') \<and>
     (\<forall>v. v \<noteq> u \<longrightarrow> view (rc_world s') v = view (rc_world s) v)"

lemma stepped_refl:
  assumes "clear_for D (provider_tree s)" "coherent view s" "flat (provider_tree s) u = Some d" "P d d"
  shows "stepped D view u P s s"
  using assms fun_upd_triv [of "flat (provider_tree s)" u] unfolding stepped_def by metis

lemma put_step:
  assumes s: "clear_for D (provider_tree s)" "coherent view s" "u \<in> D" and s1: "untouched view s s1"
    and w: "view w = (view (rc_world s1))(u \<mapsto> v')"
    and upd: "info_update (\<lambda>d. snd (f d))" "update_found u f (provider_tree s1) = (Inr b, t')"
    and v: "\<And>d. flat (provider_tree s) u = Some d \<Longrightarrow> v' = shown (snd (f d)) \<and> P d (snd (f d))"
  shows "stepped D view u P s (s1\<lparr>rc_world := w, rc_sent := sent, provider_tree := t'\<rparr>)"
proof -
  have t: "provider_tree s1 = provider_tree s" "view (rc_world s1) = view (rc_world s)" using s1 by (simp_all add: untouched_def)
  obtain d where d: "clear_for D t'" "flat (provider_tree s) u = Some d" "flat t' = (flat (provider_tree s))(u \<mapsto> snd (f d))"
    using clear_for_update_found [OF upd(1) _ s(3) upd(2)] s(1) t(1) by auto
  have "coherent view (s1\<lparr>rc_world := w, rc_sent := sent, provider_tree := t'\<rparr>)"
    using s(2) v [OF d(2)] by (auto simp: coherent_def d(3) w t split: if_splits)
  then show ?thesis using d v [OF d(2)] unfolding stepped_def by (auto simp: w t)
qed

lemma first_error_Inr: "first_error r s = (Inr x, s') \<Longrightarrow> s' = s"
  by (auto simp: first_error_def sreturn_eq split: list.splits)

lemma inventory_reply_Inr:
  assumes "inventory_reply u r s = (Inr (), s')"
  shows "\<exists>invs g b t'. status_code r = 200 \<and> resp_body r = InventoriesBody invs g \<and>
    update_inventory u invs (Some g) (provider_tree s) = (Inr b, t') \<and> s' = s\<lparr>provider_tree := t'\<rparr>"
  using assms by (auto simp: inventory_reply_def run_eqs split: if_splits body.splits)

lemma inventory_set:
  "p_has_inventory_changed invs d \<Longrightarrow> snd (p_update_inventory invs (Some g) d) = d\<lparr>pd_generation := Some g, pd_inventory := invs\<rparr>"
  by (auto simp: p_update_inventory_def update_generation_def p_has_inventory_changed_def Let_def)

lemma set_inventory_step:
  assumes C: "serves C view" and s: "clear_for D (provider_tree s)" "coherent view s" "u \<in> D"
    and invs: "dict_wf invs" "\<forall>(k, r) \<in> set invs. dict_wf r"
    and run: "set_inventory_for_provider C u invs s = (Inr (), s')"
  shows "stepped D view u (\<lambda>d d'. \<not> p_has_inventory_changed invs d' \<and> pd_aggregates d' = pd_aggregates d \<and> pd_traits d' = pd_traits d) s s'"
proof -
  obtain changed where "has_inventory_changed u invs (provider_tree s) = Inr changed"
    using run by (auto simp: set_inventory_for_provider_def run_eqs)
  then obtain d where d: "data u (provider_tree s) = Inr d" "changed = p_has_inventory_changed invs d"
    by (auto simp: has_inventory_changed_def rbind_Inr_iff)
  have flat: "flat (provider_tree s) u = Some d" using clear_for_data [OF s(1,3)] d(1) by blast
  show ?thesis
  proof (cases "p_has_inventory_changed invs d")
    case False
    then have "s' = s" using run d by (auto simp: set_inventory_for_provider_def run_eqs has_inventory_changed_def)
    then show ?thesis using stepped_refl [OF s(1,2) flat] False by simp
  next
    case True
    then obtain s1 where s1: "ensure_resource_classes C (dict_keys invs) s = (Inr (), s1)"
      using run d by (auto simp: set_inventory_for_provider_def run_eqs has_inventory_changed_def)
    have un: "untouched view s s1" by (rule ensure_resource_classes_untouched [OF C s1])
    then have d1: "data u (provider_tree s1) = Inr d" using d(1) by (simp add: untouched_def)
    obtain r s2 where s2: "send C (PutInventories u (pd_generation d) invs) s1 = (Inr r, s2)"
      and reply: "inventory_reply u r s2 = (Inr (), s')"
      using run d True s1 d1
      by (auto simp: set_inventory_for_provider_def sbind_Inr_iff ask_tree_eq has_inventory_changed_def)
    obtain w t' b invs' g where
      r: "http C (PutInventories u (pd_generation d) invs) (rc_world s1) = (Inr r, w)" "status_code r = 200" "resp_body r = InventoriesBody invs' g"
      and t': "update_inventory u invs' (Some g) (provider_tree s1) = (Inr b, t')"
      "s' = s1\<lparr>rc_world := w, rc_sent := rc_sent s1 @ [PutInventories u (pd_generation d) invs], provider_tree := t'\<rparr>"
      using inventory_reply_Inr [OF reply] s2 by (auto simp: send_eq)
    obtain v where v: "view (rc_world s1) u = Some v" "invs' = invs" "view w = (view (rc_world s1))(u \<mapsto> v\<lparr>pv_generation := Some g, pv_inventory := invs\<rparr>)"
      using servesD [OF C r(1)] r(2,3) by auto
    have "v = shown d" using s(2) flat v(1) un by (auto simp: coherent_def untouched_def)
    moreover have "snd (p_update_inventory invs (Some g) d) = d\<lparr>pd_generation := Some g, pd_inventory := invs\<rparr>"
      by (rule inventory_set [OF True])
    ultimately show ?thesis unfolding t'(2)
      using flat p_has_inventory_changed_self [OF invs]
      by (intro put_step [OF s un v(3) upd_inventory.info_update_axioms t'(1) [unfolded v(2) update_inventory_def]])
        (auto simp: shown_def)
  qed
qed

lemma traits_reply_Inr:
  assumes "traits_reply u r s = (Inr (), s')"
  shows "\<exists>traits g b t'. status_code r = 200 \<and> resp_body r = TraitsBody traits g \<and>
    update_traits u traits (Some g) (provider_tree s) = (Inr b, t') \<and> s' = s\<lparr>provider_tree := t'\<rparr>"
  using assms by (auto simp: traits_reply_def run_eqs split: if_splits body.splits)

lemma aggregates_reply_Inr:
  assumes "aggregates_reply u True r s = (Inr (), s')"
  shows "\<exists>aggs g b t'. status_code r = 200 \<and> resp_body r = AggregatesBody aggs g \<and>
    update_aggregates u aggs (Some g) (provider_tree s) = (Inr b, t') \<and> s' = s\<lparr>provider_tree := t'\<rparr>"
  using assms by (auto simp: aggregates_reply_def run_eqs split: if_splits body.splits)

lemma traits_set: "snd (p_update_traits new (Some g) d) = d\<lparr>pd_generation := Some g, pd_traits := new\<rparr>"
  by (cases d) (auto simp: p_update_traits_def update_generation_def Let_def)

lemma aggregates_set: "snd (p_update_aggregates new (Some g) d) = d\<lparr>pd_generation := Some g, pd_aggregates := new\<rparr>"
  by (cases d) (auto simp: p_update_aggregates_def update_generation_def Let_def)

lemma set_traits_step:
  assumes C: "serves C view" and s: "clear_for D (provider_tree s)" "coherent view s" "u \<in> D"
    and run: "set_traits_for_provider C u traits s = (Inr (), s')"
  shows "stepped D view u (\<lambda>d d'. pd_traits d' = set traits \<and> pd_inventory d' = pd_inventory d \<and> pd_aggregates d' = pd_aggregates d) s s'"
proof -
  obtain d where d: "data u (provider_tree s) = Inr d"
    using run by (auto simp: set_traits_for_provider_def run_eqs have_traits_changed_def rbind_Inr_iff)
  have flat: "flat (provider_tree s) u = Some d" using clear_for_data [OF s(1,3)] d by blast
  show ?thesis
  proof (cases "p_have_traits_changed traits d")
    case False
    then have "s' = s" using run d by (auto simp: set_traits_for_provider_def run_eqs have_traits_changed_def)
    then show ?thesis using stepped_refl [OF s(1,2) flat] False by (simp add: p_have_traits_changed_def)
  next
    case True
    then obtain s1 where s1: "ensure_traits C traits s = (Inr (), s1)"
      using run d by (auto simp: set_traits_for_provider_def run_eqs have_traits_changed_def)
    have un: "untouched view s s1" by (rule ensure_traits_untouched [OF C s1])
    then have d1: "data u (provider_tree s1) = Inr d" using d by (simp add: untouched_def)
    obtain r s2 where s2: "send C (PutTraits u (pd_generation d) traits) s1 = (Inr r, s2)" and reply: "traits_reply u r s2 = (Inr (), s')"
      using run d True s1 d1
      by (auto simp: set_traits_for_provider_def sbind_Inr_iff ask_tree_eq have_traits_changed_def)
    obtain w t' b traits' g where
      r: "http C (PutTraits u (pd_generation d) traits) (rc_world s1) = (Inr r, w)" "status_code r = 200" "resp_body r = TraitsBody traits' g"
      and t': "update_traits u traits' (Some g) (provider_tree s1) = (Inr b, t')"
      "s' = s1\<lparr>rc_world := w, rc_sent := rc_sent s1 @ [PutTraits u (pd_generation d) traits], provider_tree := t'\<rparr>"
      using traits_reply_Inr [OF reply] s2 by (auto simp: send_eq)
    obtain v where v: "view (rc_world s1) u = Some v" "set traits' = set traits"
      "view w = (view (rc_world s1))(u \<mapsto> v\<lparr>pv_generation := Some g, pv_traits := set traits\<rparr>)"
      using servesD [OF C r(1)] r(2,3) by auto
    have "v = shown d" using s(2) flat v(1) un by (auto simp: coherent_def untouched_def)
    then show ?thesis unfolding t'(2) using flat
      by (intro put_step [OF s un v(3) upd_traits.info_update_axioms t'(1) [unfolded v(2) update_traits_def]])
        (auto simp: shown_def traits_set)
  qed
qed

lemma set_aggregates_step:
  assumes C: "serves C view" and s: "clear_for D (provider_tree s)" "coherent view s" "u \<in> D"
    and run: "set_aggregates_for_provider C u aggs True None s = (Inr (), s')"
  shows "stepped D view u (\<lambda>d d'. pd_aggregates d' = set aggs \<and> pd_inventory d' = pd_inventory d \<and> pd_traits d' = pd_traits d) s s'"
proof -
  obtain d where d: "data u (provider_tree s) = Inr d"
    using run by (auto simp: set_aggregates_for_provider_def run_eqs)
  have flat: "flat (provider_tree s) u = Some d" using clear_for_data [OF s(1,3)] d by blast
  show ?thesis
  proof (cases "p_have_aggregates_changed aggs d")
    case False
    then have "s' = s" using run d by (auto simp: set_aggregates_for_provider_def run_eqs)
    then show ?thesis using stepped_refl [OF s(1,2) flat] False by (simp add: p_have_aggregates_changed_def)
  next
    case True
    have un: "untouched view s s" by (simp add: untouched_def)
    obtain r s2 where s2: "send C (PutAggregates u (pd_generation d) aggs) s = (Inr r, s2)" and reply: "aggregates_reply u True r s2 = (Inr (), s')"
      using run d True by (auto simp: set_aggregates_for_provider_def sbind_Inr_iff ask_tree_eq sreturn_eq sget_eq)
    obtain w t' b aggs' g where
      r: "http C (PutAggregates u (pd_generation d) aggs) (rc_world s) = (Inr r, w)" "status_code r = 200" "resp_body r = AggregatesBody aggs' g"
      and t': "update_aggregates u aggs' (Some g) (provider_tree s) = (Inr b, t')"
      "s' = s\<lparr>rc_world := w, rc_sent := rc_sent s @ [PutAggregates u (pd_generation d) aggs], provider_tree := t'\<rparr>"
      using aggregates_reply_Inr [OF reply] s2 by (auto simp: send_eq)
    obtain v where v: "view (rc_world s) u = Some v" "set aggs' = set aggs"
      "view w = (view (rc_world s))(u \<mapsto> v\<lparr>pv_generation := Some g, pv_aggregates := set aggs\<rparr>)"
      using servesD [OF C r(1)] r(2,3) by auto
    have "v = shown d" using s(2) flat v(1) by (auto simp: coherent_def)
    then show ?thesis unfolding t'(2) using flat
      by (intro put_step [OF s un v(3) upd_aggregates.info_update_axioms t'(1) [unfolded v(2) update_aggregates_def]])
        (auto simp: shown_def aggregates_set)
  qed
qed

section \<open>Flushing a tree\<close>

lemma stepped_trans:
  assumes "stepped D view u P s s1" "stepped D view u Q s1 s2"
  shows "stepped D view u (\<lambda>d d''. \<exists>d'. P d d' \<and> Q d' d'') s s2"
  using assms unfolding stepped_def by (fastforce simp: fun_upd_upd)

lemma stepped_mono: "stepped D view u P s s' \<Longrightarrow> (\<And>d d'. P d d' \<Longrightarrow> Q d d') \<Longrightarrow> stepped D view u Q s s'"
  unfolding stepped_def by blast

lemma steppedD: "stepped D view u P s s' \<Longrightarrow> clear_for D (provider_tree s') \<and> coherent view s'"
  unfolding stepped_def by blast

text \<open>A provider of the cache has the contents of a provider of the given tree, by the comparisons
  that the tree itself makes.\<close>

definition same_content :: "'v provider_data \<Rightarrow> 'v provider_data \<Rightarrow> bool" where
  "same_content pd d \<longleftrightarrow> \<not> p_has_inventory_changed (pd_inventory pd) d \<and>
     pd_aggregates d = pd_aggregates pd \<and> pd_traits d = pd_traits pd"

text \<open>The given tree: dictionaries have one value per key, and the iteration of a set gives its
  elements.\<close>

definition given_ok :: "('v, 'w) rc_conf \<Rightarrow> 'v provider_tree \<Rightarrow> bool" where
  "given_ok C t \<longleftrightarrow> wf_tree t \<and> names_clear t \<and>
     (\<forall>u d. flat t u = Some d \<longrightarrow> dict_wf (pd_inventory d) \<and> (\<forall>(k, r) \<in> set (pd_inventory d). dict_wf r) \<and>
        set (set_order C (pd_aggregates d)) = pd_aggregates d \<and> set (set_order C (pd_traits d)) = pd_traits d)"

lemma entries_uuid: "(u, d) \<in> set (entries p) \<Longrightarrow> pd_uuid d = u"
  by (induction p rule: entries.induct) auto

lemma flat_uuid: "flat t u = Some d \<Longrightarrow> pd_uuid d = u"
  unfolding flat_def tree_entries_def by (drule map_of_SomeD) (auto dest: entries_uuid)

lemma inventory_changed_cong:
  "pd_inventory d = pd_inventory d' \<Longrightarrow> p_has_inventory_changed invs d = p_has_inventory_changed invs d'"
  by (simp add: p_has_inventory_changed_def)

lemma flush_provider_step:
  assumes C: "serves C view" and given: "given_ok C new" "flat new u = Some pd"
    and s: "clear_for D (provider_tree s)" "coherent view s" "u \<in> D" and run: "flush_provider C new u s = (Inr (), s')"
  shows "stepped D view u (\<lambda>d d'. same_content pd d') s s'"
proof -
  have "data u new = Inr pd" using given data_by_uuid by (auto simp: given_ok_def)
  moreover have "pd_uuid pd = u" by (rule flat_uuid [OF given(2)])
  ultimately obtain s1 s2 where
    s1: "set_inventory_for_provider C u (pd_inventory pd) s = (Inr (), s1)" and
    s2: "set_aggregates_for_provider C u (set_order C (pd_aggregates pd)) True None s1 = (Inr (), s2)" and
    s3: "set_traits_for_provider C u (set_order C (pd_traits pd)) s2 = (Inr (), s')"
    using run by (auto simp: flush_provider_def sbind_Inr_iff of_tree_eq dest!: catch_all_Inr)
  have ok: "dict_wf (pd_inventory pd)" "\<forall>(k, r) \<in> set (pd_inventory pd). dict_wf r"
    "set (set_order C (pd_aggregates pd)) = pd_aggregates pd" "set (set_order C (pd_traits pd)) = pd_traits pd"
    using given by (auto simp: given_ok_def)
  note st1 = set_inventory_step [OF C s ok(1,2) s1]
  note st2 = set_aggregates_step [OF C steppedD [OF st1, THEN conjunct1] steppedD [OF st1, THEN conjunct2] s(3) s2]
  note st3 = set_traits_step [OF C steppedD [OF st2, THEN conjunct1] steppedD [OF st2, THEN conjunct2] s(3) s3]
  show ?thesis
    by (rule stepped_mono [OF stepped_trans [OF stepped_trans [OF st1 st2] st3]])
      (auto simp: same_content_def ok dest: inventory_changed_cong [where invs = "pd_inventory pd"])
qed

lemma flush_all:
  assumes C: "serves C view" and given: "given_ok C new"
  shows "clear_for D (provider_tree s) \<Longrightarrow> coherent view s \<Longrightarrow> distinct us \<Longrightarrow> set us \<subseteq> D \<inter> dom (flat new) \<Longrightarrow>
    sforeach us (flush_provider C new) s = (Inr (), s') \<Longrightarrow>
    clear_for D (provider_tree s') \<and> coherent view s' \<and>
    (\<forall>u\<in>set us. \<exists>d. flat (provider_tree s') u = Some d \<and> same_content (the (flat new u)) d) \<and>
    set us \<subseteq> dom (flat (provider_tree s)) \<and>
    (\<forall>v. v \<notin> set us \<longrightarrow> flat (provider_tree s') v = flat (provider_tree s) v \<and> view (rc_world s') v = view (rc_world s) v)"
proof (induction us arbitrary: s)
  case Nil
  then show ?case by (simp add: sreturn_eq)
next
  case (Cons u us)
  obtain s1 where s1: "flush_provider C new u s = (Inr (), s1)" "sforeach us (flush_provider C new) s1 = (Inr (), s')"
    using Cons.prems(5) by (auto simp: sbind_Inr_iff)
  obtain pd where pd: "flat new u = Some pd" "u \<in> D" using Cons.prems(4) by auto
  have st: "stepped D view u (\<lambda>d d'. same_content pd d') s s1"
    by (rule flush_provider_step [OF C given pd(1) Cons.prems(1,2) pd(2) s1(1)])
  obtain d d' where d: "flat (provider_tree s) u = Some d" "flat (provider_tree s1) = (flat (provider_tree s))(u \<mapsto> d')" "same_content pd d'"
    "\<forall>v. v \<noteq> u \<longrightarrow> view (rc_world s1) v = view (rc_world s) v"
    using st unfolding stepped_def by blast
  have IH: "clear_for D (provider_tree s')" "coherent view s'"
    "\<forall>u\<in>set us. \<exists>d. flat (provider_tree s') u = Some d \<and> same_content (the (flat new u)) d" "set us \<subseteq> dom (flat (provider_tree s1))"
    "\<forall>v. v \<notin> set us \<longrightarrow> flat (provider_tree s') v = flat (provider_tree s1) v \<and> view (rc_world s') v = view (rc_world s1) v"
    using Cons.IH [OF _ _ _ _ s1(2)] steppedD [OF st] Cons.prems(3,4) by auto
  have "flat (provider_tree s') u = Some d'" using IH(5) Cons.prems(3) d(2) by simp
  then have "\<forall>w\<in>set (u # us). \<exists>d. flat (provider_tree s') w = Some d \<and> same_content (the (flat new w)) d"
    using IH(3) d(3) pd(1) by simp
  moreover have "set (u # us) \<subseteq> dom (flat (provider_tree s))" using IH(4) d(1,2) by auto
  moreover have "\<forall>v. v \<notin> set (u # us) \<longrightarrow> flat (provider_tree s') v = flat (provider_tree s) v \<and> view (rc_world s') v = view (rc_world s) v"
    using IH(5) d(2,4) by simp
  ultimately show ?case using IH(1,2) by blast
qed

lemma delete_provider_step:
  assumes C: "serves C view" and s: "clear_for D (provider_tree s)" "coherent view s" "u \<in> D"
    and run: "delete_provider C u s = (Inr (), s')"
  shows "clear_for D (provider_tree s') \<and> coherent view s' \<and> flat (provider_tree s') u = None \<and> view (rc_world s') = (view (rc_world s))(u := None) \<and>
    (\<forall>v d. flat (provider_tree s') v = Some d \<longrightarrow> flat (provider_tree s) v = Some d)"
proof -
  obtain r t where t: "remove u (provider_tree s) = (r, t)" "clear_for D t" "flat t u = None"
    "\<forall>v d. flat t v = Some d \<longrightarrow> flat (provider_tree s) v = Some d" "r = Inr () \<or> (\<exists>x. r = Inl (ValueError x))"
    using clear_for_remove [OF s(1,3)] by blast
  obtain resp w where resp: "http C (DeleteProvider u) (rc_world s) = (Inr resp, w)" "resp_ok resp \<or> status_code resp = 404"
    and s': "sbind (ignoring_value_error (on_tree (remove u))) (\<lambda>_. forget_times [u]) (s\<lparr>rc_world := w, rc_sent := rc_sent s @ [DeleteProvider u]\<rparr>) = (Inr (), s')"
    using run by (auto simp: delete_provider_def sbind_Inr_iff send_eq split: if_splits)
  have w: "view w = (view (rc_world s))(u := None)" using serves_delete [OF C resp] .
  have "provider_tree s' = t" "rc_world s' = w"
    using s' t(1,5) by (auto simp: ignoring_value_error_def scatch_def on_tree_def sbind_def sreturn_def forget_times_def smodify_def)
  then show ?thesis using t s(2) by (auto simp: w coherent_def)
qed

lemma delete_all:
  assumes C: "serves C view"
  shows "clear_for D (provider_tree s) \<Longrightarrow> coherent view s \<Longrightarrow> set us \<subseteq> D \<Longrightarrow>
    sforeach us (\<lambda>u. catch_all u (delete_provider C u)) s = (Inr (), s') \<Longrightarrow>
    clear_for D (provider_tree s') \<and> coherent view s' \<and>
    (\<forall>v d. flat (provider_tree s') v = Some d \<longrightarrow> v \<notin> set us \<and> flat (provider_tree s) v = Some d) \<and>
    view (rc_world s') = (\<lambda>v. if v \<in> set us then None else view (rc_world s) v)"
proof (induction us arbitrary: s)
  case Nil
  then show ?case by (simp add: sreturn_eq)
next
  case (Cons u us)
  obtain s1 where s1: "delete_provider C u s = (Inr (), s1)" "sforeach us (\<lambda>u. catch_all u (delete_provider C u)) s1 = (Inr (), s')"
    using Cons.prems(4) by (auto simp: sbind_Inr_iff dest: catch_all_Inr)
  have "u \<in> D" using Cons.prems(3) by simp
  note step = delete_provider_step [OF C Cons.prems(1,2) this s1(1)]
  have "clear_for D (provider_tree s') \<and> coherent view s' \<and>
    (\<forall>v d. flat (provider_tree s') v = Some d \<longrightarrow> v \<notin> set us \<and> flat (provider_tree s1) v = Some d) \<and>
    view (rc_world s') = (\<lambda>v. if v \<in> set us then None else view (rc_world s1) v)"
    using Cons.IH [OF _ _ _ s1(2)] step Cons.prems(3) by simp
  then show ?case using step by (auto simp: fun_eq_iff)
qed

lemma add_providers_none: "set us \<subseteq> set olds \<Longrightarrow> add_providers C olds us t = sreturn t"
  by (induction us) simp_all

lemma all_uuids: "get_provider_uuids None (t :: 'a provider_tree) = Inr (map fst (tree_entries t))"
proof -
  have "p_get_provider_uuids = (\<lambda>p :: 'a provider. map fst (entries p))" by (rule ext) (rule uuids_entries)
  then show ?thesis by (simp add: get_provider_uuids_def tree_entries_def map_concat comp_def)
qed

lemma update_sync:
  assumes C: "serves C view" and cache: "wf_tree (provider_tree s)" "names_clear (provider_tree s)" "coherent view s"
    and given: "given_ok C new" "dom (flat new) \<subseteq> dom (flat (provider_tree s))"
    and run: "update_from_provider_tree C new None s = (Inr t, s')"
  shows "t = new \<and> wf_tree (provider_tree s') \<and> dom (flat (provider_tree s')) = dom (flat new) \<and>
    (\<forall>u pd. flat new u = Some pd \<longrightarrow>
       (\<exists>d. flat (provider_tree s') u = Some d \<and> same_content pd d \<and> view (rc_world s') u = Some (shown d))) \<and>
    (\<forall>u. u \<notin> dom (flat new) \<longrightarrow>
       view (rc_world s') u = (if u \<in> dom (flat (provider_tree s)) then None else view (rc_world s) u))"
proof -
  let ?D = "dom (flat (provider_tree s))" and ?N = "map fst (tree_entries new)" and ?O = "map fst (tree_entries (provider_tree s))"
  have dom: "set ?N = dom (flat new)" "set ?O = ?D" using dom_flat by metis+
  have N: "distinct (rev ?N)" "set (rev ?N) \<subseteq> ?D \<inter> dom (flat new)"
    using given dom by (auto simp: given_ok_def wf_tree_def)
  have setN: "set (rev ?N) = dom (flat new)" using dom by simp
  have "add_providers C ?O ?N new = sreturn new" by (rule add_providers_none) (use given dom in simp)
  then obtain s1 where t: "t = new" and s1: "delete_providers C ?O ?N s = (Inr (), s1)"
    and s': "sforeach (rev ?N) (flush_provider C new) s1 = (Inr (), s')"
    using run by (auto simp: update_from_provider_tree_def sbind_Inr_iff ask_tree_eq of_tree_eq sreturn_eq all_uuids)
  have gone: "set (filter (\<lambda>u. u \<notin> set ?N) (rev ?O)) = ?D - dom (flat new)" using dom by auto
  have del: "clear_for ?D (provider_tree s1) \<and> coherent view s1 \<and>
    (\<forall>v d. flat (provider_tree s1) v = Some d \<longrightarrow> v \<notin> ?D - dom (flat new) \<and> flat (provider_tree s) v = Some d) \<and>
    view (rc_world s1) = (\<lambda>v. if v \<in> ?D - dom (flat new) then None else view (rc_world s) v)"
    using delete_all [OF C clear_for_start [OF cache(1,2)] cache(3) _ s1 [unfolded delete_providers_def]]
    unfolding gone by simp
  have fl: "clear_for ?D (provider_tree s') \<and> coherent view s' \<and>
    (\<forall>u\<in>dom (flat new). \<exists>d. flat (provider_tree s') u = Some d \<and> same_content (the (flat new u)) d) \<and>
    (\<forall>v. v \<notin> dom (flat new) \<longrightarrow> flat (provider_tree s') v = flat (provider_tree s1) v \<and> view (rc_world s') v = view (rc_world s1) v)"
    using flush_all [OF C given(1) _ _ N s'] del unfolding setN by blast
  have none: "flat (provider_tree s') v = None" if "v \<notin> dom (flat new)" for v
  proof -
    have "flat (provider_tree s1) v \<noteq> Some d" for d
      using del that domI [of "flat (provider_tree s)" v d] by auto
    then show ?thesis using fl that by (cases "flat (provider_tree s1) v") auto
  qed
  have "dom (flat (provider_tree s')) = dom (flat new)"
  proof
    show "dom (flat (provider_tree s')) \<subseteq> dom (flat new)" using none by (metis domIff subsetI)
    show "dom (flat new) \<subseteq> dom (flat (provider_tree s'))" using fl by blast
  qed
  moreover have "wf_tree (provider_tree s')" using fl by (simp add: clear_for_def)
  moreover have "\<exists>d. flat (provider_tree s') u = Some d \<and> same_content pd d \<and> view (rc_world s') u = Some (shown d)"
    if "flat new u = Some pd" for u pd
  proof -
    from that fl obtain d where d: "flat (provider_tree s') u = Some d" "same_content (the (flat new u)) d" by blast
    moreover have "view (rc_world s') u = Some (shown d)" using fl d(1) by (simp add: coherent_def)
    ultimately show ?thesis using that by simp
  qed
  moreover have "view (rc_world s') u = (if u \<in> ?D then None else view (rc_world s) u)" if "u \<notin> dom (flat new)" for u
    using fl del that by simp
  ultimately show ?thesis using t by blast
qed

section \<open>Properties\<close>

text \<open>
  C6. A successful update without a reshape, from a cache that agrees with the placement service
  and knows the providers of the given tree: afterwards the cache is a well-formed tree of exactly
  these providers, each with the inventories, aggregates and traits of the given tree, and the
  service shows the same data; the providers that are not in the given tree are gone from the
  service, and providers outside the cache are left alone.
\<close>

theorem update_synchronises:
  assumes C: "serves C view" and cache: "wf_tree (provider_tree s)" "names_clear (provider_tree s)" "coherent view s"
    and given: "given_ok C new" "dom (flat new) \<subseteq> dom (flat (provider_tree s))"
    and run: "update_from_provider_tree C new None s = (Inr t, s')"
  shows "t = new \<and> wf_tree (provider_tree s') \<and> dom (flat (provider_tree s')) = dom (flat new) \<and>
    (\<forall>u pd. flat new u = Some pd \<longrightarrow>
       (\<exists>d. flat (provider_tree s') u = Some d \<and> same_content pd d \<and> view (rc_world s') u = Some (shown d))) \<and>
    (\<forall>u. u \<notin> dom (flat new) \<longrightarrow>
       view (rc_world s') u = (if u \<in> dom (flat (provider_tree s)) then None else view (rc_world s) u))"
  using assms by (rule update_sync)

text \<open>A service that keeps a table of providers and refuses writes with an old generation.\<close>

definition plain_reply :: "nat \<Rightarrow> 'v body \<Rightarrow> 'v reply" where
  "plain_reply c b = \<lparr>status_code = c, resp_text = [], resp_body = b, resp_errors = []\<rparr>"

definition conflict_reply :: "string \<Rightarrow> 'v reply" where
  "conflict_reply detail = \<lparr>status_code = 409, resp_text = [], resp_body = NoBody, resp_errors = [(concurrent_update, detail)]\<rparr>"

definition table_put :: "string \<Rightarrow> int option \<Rightarrow> ('v provider_view \<Rightarrow> 'v provider_view) \<Rightarrow> (int \<Rightarrow> 'v body) \<Rightarrow>
    (string \<Rightarrow> 'v provider_view option) \<Rightarrow> (ks_error + 'v reply) \<times> (string \<Rightarrow> 'v provider_view option)" where
  "table_put u g f b w =
     (case w u of
        None \<Rightarrow> (Inr (plain_reply 404 NoBody), w)
      | Some v \<Rightarrow>
          if pv_generation v \<noteq> g then (Inr (conflict_reply ''generation''), w)
          else (let g' = (case g of None \<Rightarrow> 1 | Some n \<Rightarrow> n + 1)
                in (Inr (plain_reply 200 (b g')), w(u \<mapsto> (f v)\<lparr>pv_generation := Some g'\<rparr>))))"

definition table_http :: "'v request \<Rightarrow> (string \<Rightarrow> 'v provider_view option) \<Rightarrow> (ks_error + 'v reply) \<times> (string \<Rightarrow> 'v provider_view option)" where
  "table_http q w =
     (case q of
        PutInventories u g invs \<Rightarrow> table_put u g (\<lambda>v. v\<lparr>pv_inventory := invs\<rparr>) (InventoriesBody invs) w
      | PutAggregates u g aggs \<Rightarrow> table_put u g (\<lambda>v. v\<lparr>pv_aggregates := set aggs\<rparr>) (AggregatesBody aggs) w
      | PutTraits u g traits \<Rightarrow> table_put u g (\<lambda>v. v\<lparr>pv_traits := set traits\<rparr>) (TraitsBody traits) w
      | DeleteProvider u \<Rightarrow> (Inr (plain_reply 204 NoBody), w(u := None))
      | GetTraitNames _ \<Rightarrow> (Inr (plain_reply 200 (TraitNamesBody [])), w)
      | _ \<Rightarrow> (Inr (plain_reply 201 NoBody), w))"

definition table_conf :: "('v, string \<Rightarrow> 'v provider_view option) rc_conf" where
  "table_conf = \<lparr>http = table_http, clock = (\<lambda>_. 0), refresh_interval = 300, custom_namespace = ''CUSTOM_'',
     set_order = (\<lambda>S. if ''T'' \<in> S then [''T''] else [])\<rparr>"

lemma table_serves: "serves table_conf (\<lambda>w. w)"
  unfolding serves_def table_conf_def table_http_def
  by (auto simp: table_put_def plain_reply_def conflict_reply_def Let_def resp_ok_def split: request.splits option.splits if_splits)

definition ex_given :: "int provider_tree" where
  "ex_given = \<lparr>roots = [Provider ((pinfo (hd (roots ex_root_tree)))
     \<lparr>pd_inventory := [(''VCPU'', [(''total'', 4)])], pd_traits := {''T''}\<rparr>) []]\<rparr>"

definition ex_client :: "(int, string \<Rightarrow> int provider_view option) rc_state" where
  "ex_client = (report_client ((\<lambda>_. None)(''r'' \<mapsto> shown (pinfo (hd (roots ex_root_tree))))))\<lparr>provider_tree := ex_root_tree\<rparr>"

theorem update_synchronises_witness:
  "\<exists>s' d. update_from_provider_tree table_conf ex_given None ex_client = (Inr ex_given, s') \<and>
     flat (provider_tree s') ''r'' = Some d \<and> pd_traits d = {''T''} \<and> rc_world s' ''r'' = Some (shown d)"
proof -
  have run: "case fst (update_from_provider_tree table_conf ex_given None ex_client) of Inl _ \<Rightarrow> False | Inr _ \<Rightarrow> True"
    by code_simp
  have tree: "provider_tree ex_client = ex_root_tree" "rc_world ex_client ''r'' = Some (shown (pinfo (hd (roots ex_root_tree))))"
    by (simp_all add: ex_client_def report_client_def)
  have given: "given_ok table_conf ex_given" "dom (flat ex_given) \<subseteq> dom (flat (provider_tree ex_client))" "flat ex_given ''r'' \<noteq> None"
    by (auto simp: given_ok_def tree ex_given_def ex_root_tree_def new_provider_def wf_tree_def names_clear_def flat_def tree_entries_def table_conf_def split: if_splits)
  have "coherent (\<lambda>w. w) ex_client"
    unfolding coherent_def tree by (auto simp: tree(2) ex_root_tree_def new_provider_def flat_def tree_entries_def ex_client_def report_client_def split: if_splits)
  moreover obtain pd where pd: "flat ex_given ''r'' = Some pd" "pd_traits pd = {''T''}"
    by (simp add: ex_given_def ex_root_tree_def new_provider_def flat_def tree_entries_def)
  moreover obtain t s' where s': "update_from_provider_tree table_conf ex_given None ex_client = (Inr t, s')"
    using run by (cases "update_from_provider_tree table_conf ex_given None ex_client") (auto split: sum.splits)
  ultimately have "t = ex_given" "\<exists>d. flat (provider_tree s') ''r'' = Some d \<and> same_content pd d \<and> rc_world s' ''r'' = Some (shown d)"
    using update_synchronises [OF table_serves _ _ _ given(1,2) s'] ex_root_tree_wf tree(1) by simp_all
  then show ?thesis using s' pd(2) by (auto simp: same_content_def)
qed

section \<open>Errors and the cache\<close>

lemma clear_tree_table:
  assumes wf: "wf_tree (provider_tree s)" "names_clear (provider_tree s)" and u: "flat (provider_tree s) u = Some d"
  shows "\<exists>s' root. clear_provider_cache_for_tree u s = (Inr (), s') \<and> u \<in> descendants (flat (provider_tree s)) root \<and>
    map_option pd_parent_uuid (flat (provider_tree s) root) = Some None \<and>
    flat (provider_tree s') = flat (provider_tree s) |` (- descendants (flat (provider_tree s)) root) \<and>
    (\<forall>v \<in> descendants (flat (provider_tree s)) root. dict_get (association_refresh_time s') v = None)"
proof -
  let ?t = "provider_tree s"
  have clear: "uuid_clear u ?t" using names_clearD [OF wf(2)] u dom_flat [of ?t] by blast
  obtain r q where r: "find_with_lock u False ?t = Inr r" "deref r ?t = Some q" "uuid_of q = u"
    using find_by_uuid [OF wf(1) clear u] by metis
  then have i: "fst r < length (roots ?t)" "node_at (snd r) (roots ?t ! fst r) = Some q"
    by (auto simp: deref_def split: if_splits)
  let ?R = "roots ?t ! fst r"
  have R: "deref (fst r, []) ?t = Some ?R" using i by (simp add: deref_def)
  have fR: "flat ?t (uuid_of ?R) = Some (pinfo ?R)" by (rule deref_flat [OF wf(1) R])
  have find: "find_with_lock u True ?t = Inr (fst r, [])" using r(1) by (auto simp: find_with_lock_def split: option.splits)
  have us: "get_provider_uuids_in_tree u ?t = Inr (map fst (entries ?R))" "hd (map fst (entries ?R)) = uuid_of ?R"
    using R find by (simp_all add: get_provider_uuids_in_tree_def get_provider_def uuids_entries) (cases ?R, simp)
  have desc: "descendants (flat ?t) (uuid_of ?R) = set (map fst (entries ?R))" by (rule descendants_entries [OF wf(1) R])
  have "u \<in> descendants (flat ?t) (uuid_of ?R)" unfolding desc using node_at_uuid [OF i(2)] r(3) by simp
  moreover have "pd_parent_uuid (pinfo ?R) = None" using wf_treeD [OF wf(1)] i(1) by (meson nth_mem)
  moreover obtain t' where t': "remove (uuid_of ?R) ?t = (Inr (), t')" "flat t' = flat ?t |` (- descendants (flat ?t) (uuid_of ?R))"
    using remove_flat [OF wf] fR by blast
  moreover have del: "dict_get (fold dict_del us m) v = (if v \<in> set us then None else dict_get m v)" for us v and m :: "(string, rat) dict"
    by (induction us arbitrary: m) auto
  let ?s = "s\<lparr>provider_tree := t', association_refresh_time := fold dict_del (map fst (entries ?R)) (association_refresh_time s)\<rparr>"
  have "clear_provider_cache_for_tree u s = (Inr (), ?s)"
    using us t'(1) by (simp add: clear_provider_cache_for_tree_def sbind_def on_tree_def forget_times_def smodify_def)
  moreover have "\<forall>v \<in> descendants (flat ?t) (uuid_of ?R). dict_get (association_refresh_time ?s) v = None"
    unfolding desc by (simp add: del)
  ultimately show ?thesis using fR t'(2) by (intro exI [of _ ?s] exI [of _ "uuid_of ?R"]) simp
qed


lemma parent_not_below:
  assumes "wf_tree t" "flat t u = Some d" "pd_parent_uuid d = Some p" "names_clear t"
  shows "p \<notin> descendants (flat t) u" "flat t p \<noteq> None"
proof -
  have "uuid_clear u t" using names_clearD [OF assms(4)] assms(2) dom_flat [of t] by blast
  then obtain r q where r: "deref r t = Some q" "uuid_of q = u" "pinfo q = d" "wf_provider q" using find_by_uuid [OF assms(1) _ assms(2)] by metis
  then obtain ks w where w: "snd r = ks @ [uuid_of q]" "deref (fst r, ks) t = Some w" "p = uuid_of w"
    using deref_parent [OF assms(1) r(1)] assms(3) by auto
  show "flat t p \<noteq> None" using deref_flat [OF assms(1) w(2)] w(3) by simp
  show "p \<notin> descendants (flat t) u"
  proof
    assume "p \<in> descendants (flat t) u"
    then obtain dp where "(p, dp) \<in> set (entries q)" using descendants_entries [OF assms(1) r(1)] r(2) by auto
    then obtain path n where n: "node_at path q = Some n" "uuid_of n = p" using entries_node [OF r(4)] by metis
    have "deref (fst r, snd r @ path) t = Some n" using r(1) n(1) by (auto simp: deref_def node_at_append split: if_splits)
    from deref_unique [OF assms(1) this w(2)] n(2) w show False by simp
  qed
qed

text \<open>
  A conflict on the aggregates of a provider that is not a root leaves the rest of its tree in
  the cache: the provider has been dropped before the tree around it is looked up, so that the
  lookup finds nothing to clear.
\<close>

theorem aggregate_conflict_keeps_tree:
  assumes s: "wf_tree (provider_tree s)" "names_clear (provider_tree s)"
    and d: "flat (provider_tree s) u = Some d" "pd_parent_uuid d = Some p"
    and pd: "data u new = Inr pd" "pd_uuid pd = u" "\<not> p_has_inventory_changed (pd_inventory pd) d"
      "p_have_aggregates_changed (set_order C (pd_aggregates pd)) d"
    and reply: "http C (PutAggregates u (pd_generation d) (set_order C (pd_aggregates pd))) (rc_world s) = (Inr r, w)" "status_code r = 409"
  shows "\<exists>s'. flush_provider C new u s = (Inl (ResourceProviderUpdateConflict u), s') \<and>
    flat (provider_tree s') u = None \<and> flat (provider_tree s) p \<noteq> None \<and> flat (provider_tree s') p = flat (provider_tree s) p"
proof -
  let ?t = "provider_tree s" and ?aggs = "set_order C (pd_aggregates pd)"
  let ?q = "PutAggregates u (pd_generation d) ?aggs :: 'a request"
  have du: "data u ?t = Inr d" by (rule data_by_uuid [OF s d(1)])
  obtain t' where t': "remove u ?t = (Inr (), t')" "flat t' = flat ?t |` (- descendants (flat ?t) u)" "wf_tree t'"
    using remove_flat [OF s] d(1) by blast
  have u: "u \<in> descendants (flat ?t) u" using d(1) by (auto simp: descendants_def)
  then have gone: "flat t' u = None" using t'(2) by (simp add: restrict_map_def)
  have "clear_for (dom (flat ?t)) t'"
    using clear_for_start [OF s] t'(2,3) by (auto simp: clear_for_def restrict_map_def split: if_splits)
  from clear_for_absent [OF this domI [of "flat ?t", OF d(1)] gone] have "find_with_lock u True t' = Inl (ValueError (NoSuchProvider u))"
    by (auto simp: find_with_lock_def split: option.splits)
  then have none: "get_provider_uuids_in_tree u t' = Inl (ValueError (NoSuchProvider u))"
    by (simp add: get_provider_uuids_in_tree_def get_provider_def)
  define s1 where "s1 = s\<lparr>rc_world := w, rc_sent := rc_sent s @ [?q]\<rparr>"
  define s2 where "s2 = s1\<lparr>provider_tree := t', association_refresh_time := dict_del u (association_refresh_time s1)\<rparr>"
  have inv: "set_inventory_for_provider C u (pd_inventory pd) s = (Inr (), s)"
    using pd(3) du by (simp add: set_inventory_for_provider_def sbind_def ask_tree_def has_inventory_changed_def sreturn_def)
  have sent: "send C ?q s = (Inr r, s1)" using reply(1) by (simp add: send_def s1_def)
  have "aggregates_reply u True r s1 = (Inl (ResourceProviderUpdateConflict u), s2)"
    using reply(2) t'(1) by (simp add: aggregates_reply_def ignoring_value_error_def s1_def s2_def forget_times_def on_tree_def st_defs)
  then have aggs: "set_aggregates_for_provider C u ?aggs True None s = (Inl (ResourceProviderUpdateConflict u), s2)"
    using du pd(4) sent by (simp add: set_aggregates_for_provider_def sbind_def ask_tree_def sreturn_def sget_def)
  have "clear_provider_cache_for_tree u s2 = (Inr (), s2)"
    using none by (simp add: clear_provider_cache_for_tree_def s2_def)
  then have "flush_provider C new u s = (Inl (ResourceProviderUpdateConflict u), s2)"
    using inv aggs pd(1,2) by (simp add: flush_provider_def catch_all_def of_tree_def st_defs)
  moreover have "provider_tree s2 = t'" by (simp add: s2_def)
  ultimately show ?thesis using gone parent_not_below [OF s(1) d s(2)] t'(2) by (auto simp: restrict_map_def)
qed

text \<open>The witnesses: a root with a child, and a service that has moved on.\<close>

definition ex_pair :: "int provider_tree" where
  "ex_pair = \<lparr>roots = [Provider (pinfo (hd (roots ex_root_tree)))
     [(''c'', new_provider [] ''pf'' (Some ''c'') (Some 7) (Some ''r''))]]\<rparr>"

definition ex_pair_given :: "int provider_tree" where
  "ex_pair_given = \<lparr>roots = [Provider (pinfo (hd (roots ex_root_tree)))
     [(''c'', map_info (\<lambda>d. d\<lparr>pd_aggregates := {''T''}\<rparr>) (new_provider [] ''pf'' (Some ''c'') (Some 7) (Some ''r'')))]]\<rparr>"

definition ex_stale :: "(int, string \<Rightarrow> int provider_view option) rc_state" where
  "ex_stale = (report_client (\<lambda>u. Some \<lparr>pv_generation = Some 9, pv_inventory = [], pv_aggregates = {}, pv_traits = {}\<rparr>))
     \<lparr>provider_tree := ex_pair, association_refresh_time := [(''r'', 1), (''c'', 1)]\<rparr>"

lemma ex_pair_ok: "wf_tree (provider_tree ex_stale)" "names_clear (provider_tree ex_stale)"
  "flat (provider_tree ex_stale) ''c'' = Some (pinfo (new_provider [] ''pf'' (Some ''c'') (Some 7) (Some ''r'')))"
  by (simp_all add: ex_stale_def ex_pair_def report_client_def ex_root_tree_def wf_tree_def names_clear_def flat_def tree_entries_def new_provider_def)


theorem aggregate_conflict_keeps_tree_witness:
  "\<exists>s'. flush_provider table_conf ex_pair_given ''c'' ex_stale = (Inl (ResourceProviderUpdateConflict ''c''), s') \<and>
     flat (provider_tree s') ''c'' = None \<and> flat (provider_tree s') ''r'' \<noteq> None"
proof -
  let ?d = "pinfo (new_provider [] ''pf'' (Some ''c'') (Some 7) (Some ''r'') :: int provider)"
  let ?pd = "?d\<lparr>pd_aggregates := {''T''}\<rparr>"
  have "http table_conf (PutAggregates ''c'' (pd_generation ?d) (set_order table_conf (pd_aggregates ?pd))) (rc_world ex_stale) =
      (Inr (conflict_reply ''generation''), rc_world ex_stale)"
    by (simp add: table_conf_def table_http_def table_put_def ex_stale_def report_client_def new_provider_def)
  moreover have "data ''c'' ex_pair_given = Inr ?pd"
    by (simp add: ex_pair_given_def ex_root_tree_def new_provider_def data_def get_provider_def find_with_lock_def deref_def map_info_def)
  ultimately show ?thesis
    using aggregate_conflict_keeps_tree [OF ex_pair_ok(1,2,3), of "''r''" ex_pair_given ?pd table_conf "conflict_reply ''generation''" "rc_world ex_stale"]
    by (fastforce simp: new_provider_def p_has_inventory_changed_def p_have_aggregates_changed_def table_conf_def conflict_reply_def)
qed

end
