(* ===== verification/Report_Alloc.thy ===== *)
theory Report_Alloc
  imports Report_Sync
begin

text \<open>
  The requests on allocations: a claim sends a bounded number of requests and asks for what it
  was given, resources are taken out of an allocation exactly, and deleting an allocation
  empties it.
\<close>

section \<open>Retrying\<close>

text \<open>Code that only talks to the service: the cache is left alone and the requests, at most a given
  number, satisfy a condition.\<close>

definition sends :: "nat \<Rightarrow> ('v request \<Rightarrow> bool) \<Rightarrow> ('v, 'w, 'a) rc \<Rightarrow> bool" where
  "sends n P m \<longleftrightarrow> (\<forall>s r s'. m s = (r, s') \<longrightarrow>
     (\<exists>qs. rc_sent s' = rc_sent s @ qs \<and> length qs \<le> n \<and> (\<forall>q\<in>set qs. P q)) \<and>
     provider_tree s' = provider_tree s \<and> association_refresh_time s' = association_refresh_time s)"

lemma sends_return [intro, simp]: "sends n P (sreturn x)" "sends n P (sraise e)" "sends n P (\<lambda>s. (r, s))"
  by (auto simp: sends_def sreturn_def sraise_def)

lemma sends_the_key [intro, simp]: "sends n P (the_key x)"
  by (cases x) (auto simp: the_key_def)

lemma sends_first_error [intro, simp]: "sends n P (first_error r)"
  by (cases "resp_errors r") (auto simp: first_error_def)

lemma sends_send: "P q \<Longrightarrow> sends 1 P (send C q)"
  by (auto simp: sends_def send_def split: prod.splits)

lemma sendsD:
  assumes "sends n P m" "m s = (r, s')"
  obtains qs where "rc_sent s' = rc_sent s @ qs" "length qs \<le> n" "\<forall>q\<in>set qs. P q"
    "provider_tree s' = provider_tree s" "association_refresh_time s' = association_refresh_time s"
  using assms unfolding sends_def by blast

lemma sends_join:
  assumes "sends k P m" "m s = (r, s1)"
    "\<exists>qs. rc_sent s' = rc_sent s1 @ qs \<and> length qs \<le> n \<and> (\<forall>q\<in>set qs. P q)"
    "provider_tree s' = provider_tree s1" "association_refresh_time s' = association_refresh_time s1"
  shows "(\<exists>qs. rc_sent s' = rc_sent s @ qs \<and> length qs \<le> k + n \<and> (\<forall>q\<in>set qs. P q)) \<and>
     provider_tree s' = provider_tree s \<and> association_refresh_time s' = association_refresh_time s"
proof -
  obtain qs where qs: "rc_sent s1 = rc_sent s @ qs" "length qs \<le> k" "\<forall>q\<in>set qs. P q"
    "provider_tree s1 = provider_tree s" "association_refresh_time s1 = association_refresh_time s"
    using sendsD [OF assms(1,2)] by blast
  obtain ps where "rc_sent s' = rc_sent s1 @ ps" "length ps \<le> n" "\<forall>q\<in>set ps. P q" using assms(3) by blast
  then have "rc_sent s' = rc_sent s @ (qs @ ps) \<and> length (qs @ ps) \<le> k + n \<and> (\<forall>q\<in>set (qs @ ps). P q)" using qs by auto
  then show ?thesis using qs assms(4,5) by metis
qed

lemma sends_bind:
  assumes m: "sends k P m" and f: "\<And>x s s'. m s = (Inr x, s') \<Longrightarrow> sends n P (f x)"
  shows "sends (k + n) P (sbind m f)"
  unfolding sends_def
proof (intro allI impI)
  fix s r s'
  assume run: "sbind m f s = (r, s')"
  obtain r1 s1 where m1: "m s = (r1, s1)" by fastforce
  have "\<exists>qs. rc_sent s' = rc_sent s1 @ qs \<and> length qs \<le> n \<and> (\<forall>q\<in>set qs. P q)"
    "provider_tree s' = provider_tree s1" "association_refresh_time s' = association_refresh_time s1"
    using run m1 f [of s _ s1] unfolding sbind_def sends_def by (auto split: sum.splits)
  from sends_join [OF m m1 this]
  show "(\<exists>qs. rc_sent s' = rc_sent s @ qs \<and> length qs \<le> k + n \<and> (\<forall>q\<in>set qs. P q)) \<and>
     provider_tree s' = provider_tree s \<and> association_refresh_time s' = association_refresh_time s" .
qed

lemma sends_catch:
  assumes m: "sends k P m" and f: "\<And>e. sends n P (f e)"
  shows "sends (k + n) P (scatch m f)"
  unfolding sends_def
proof (intro allI impI)
  fix s r s'
  assume run: "scatch m f s = (r, s')"
  obtain r1 s1 where m1: "m s = (r1, s1)" by fastforce
  have "\<exists>qs. rc_sent s' = rc_sent s1 @ qs \<and> length qs \<le> n \<and> (\<forall>q\<in>set qs. P q)"
    "provider_tree s' = provider_tree s1" "association_refresh_time s' = association_refresh_time s1"
    using run m1 f unfolding scatch_def sends_def by (auto split: sum.splits)
  from sends_join [OF m m1 this]
  show "(\<exists>qs. rc_sent s' = rc_sent s @ qs \<and> length qs \<le> k + n \<and> (\<forall>q\<in>set qs. P q)) \<and>
     provider_tree s' = provider_tree s \<and> association_refresh_time s' = association_refresh_time s" .
qed

lemma sends_mono: "sends k P m \<Longrightarrow> k \<le> n \<Longrightarrow> (\<And>q. P q \<Longrightarrow> Q q) \<Longrightarrow> sends n Q m"
  unfolding sends_def by (meson order_trans)

lemma sends_retry:
  assumes "sends k P m"
  shows "sends (n * k) P (retry_loop n m)"
proof (induction n)
  case (Suc n)
  have "sends (n * k) P (case e of Retry _ \<Rightarrow> retry_loop n m | _ \<Rightarrow> sraise e)" for e
    using Suc by (cases e) auto
  from sends_catch [OF assms this] show ?case by simp
qed simp

lemma retry_Inr:
  assumes "retry_loop n m s = (Inr True, s')"
  shows "\<exists>s1. m s1 = (Inr True, s')"
  using assms
proof (induction n arbitrary: s)
  case (Suc n)
  obtain r s1 where r: "m s = (r, s1)" by fastforce
  then show ?case using Suc.prems Suc.IH [of s1]
    by (cases r) (auto simp: scatch_def sraise_def split: rc_error.splits)
qed (simp add: sreturn_def)

section \<open>Claims\<close>

text \<open>What a claim may ask for: the given allocation, or the current one of the consumer extended by
  what the given one has on other providers.\<close>

definition claim_request :: "consumer_allocs \<Rightarrow> string \<Rightarrow> string \<Rightarrow> consumer_allocs \<Rightarrow> bool" where
  "claim_request ar project_id user_id p \<longleftrightarrow> ca_project_id p = Some project_id \<and> ca_user_id p = Some user_id \<and>
     (ca_allocations p = ca_allocations ar \<or>
      (\<exists>cur. cur \<noteq> [] \<and>
         (\<forall>u. dict_get (ca_allocations p) u =
            (case dict_get cur u of
               Some a \<Rightarrow> Some (a\<lparr>ra_generation := None\<rparr>)
             | None \<Rightarrow> dict_get (ca_allocations ar) u))))"

lemma map_of_map_snd: "map_of (map (\<lambda>(k, v). (k, f v)) m) x = map_option f (map_of m x)"
  by (induction m) auto

lemma move_lookup:
  "dict_get (ca_allocations (move_operation_alloc_request cur ar)) u =
     (case dict_get cur u of Some a \<Rightarrow> Some (a\<lparr>ra_generation := None\<rparr>) | None \<Rightarrow> dict_get (ca_allocations ar) u)"
proof -
  have "dict_get (filter (\<lambda>(u, a). u \<notin> K) m) u = (if u \<in> K then None else dict_get m u)" for K and m :: "(string, rp_alloc) dict"
    by (induction m) auto
  from this [of "set (dict_keys cur)" "ca_allocations ar"] dict_get_None [of cur u] show ?thesis
    by (cases "dict_get cur u") (auto simp: move_operation_alloc_request_def map_of_map_snd map_add_def)
qed

lemma claim_payload_request:
  assumes "claim_payload ar g r s = (Inr (p, g'), s')"
  shows "claim_request ar project user (p\<lparr>ca_project_id := Some project, ca_user_id := Some user\<rparr>)" "s' = s"
proof -
  have "ca_allocations p = ca_allocations ar \<or> (\<exists>cur. cur \<noteq> [] \<and> p = move_operation_alloc_request cur ar)" "s' = s"
    using assms by (auto simp: claim_payload_def the_key_def run_eqs split: if_splits body.splits option.splits)
  then show "claim_request ar project user (p\<lparr>ca_project_id := Some project, ca_user_id := Some user\<rparr>)" "s' = s"
    using move_lookup by (auto simp: claim_request_def)
qed

lemma sends_if [intro]: "(b \<Longrightarrow> sends n P m) \<Longrightarrow> (\<not> b \<Longrightarrow> sends n P m') \<Longrightarrow> sends n P (if b then m else m')"
  by simp

lemma sends_allocations_reply: "sends n P (allocations_reply op u r)"
  by (auto simp: allocations_reply_def sends_def first_error_def sbind_def sreturn_def sraise_def split: list.splits)

lemma allocations_reply_True: "allocations_reply op u r s = (Inr True, s') \<longleftrightarrow> status_code r = 204 \<and> s' = s"
  by (auto simp: allocations_reply_def first_error_def sbind_def sreturn_def sraise_def split: list.splits if_splits)

definition stamped :: "version \<Rightarrow> string \<Rightarrow> string \<Rightarrow> consumer_allocs \<times> int option \<Rightarrow> consumer_allocs" where
  \<comment> \<open>the payload with the owner and, for newer versions, the generation of the consumer\<close>
  "stamped ver project user x =
     (let p = (fst x)\<lparr>ca_project_id := Some project, ca_user_id := Some user\<rparr>
      in if version_ge ver CONSUMER_GENERATION_VERSION then p\<lparr>ca_consumer_generation := Some (snd x)\<rparr> else p)"

lemma claim_attempt_alt:
  "claim_attempt C u ar project user ver g =
     sbind (send C (GetAllocations u)) (\<lambda>r. sbind (claim_payload ar g r) (\<lambda>x.
     sbind (send C (PutAllocations ver u (stamped ver project user x))) (allocations_reply ''claim_resources'' u)))"
  unfolding claim_attempt_def stamped_def Let_def case_prod_unfold ..

lemma stamped_request:
  "claim_payload ar g r s = (Inr x, s') \<Longrightarrow> claim_request ar project user (stamped ver project user x)"
  using claim_payload_request(1) [of ar g r s "fst x" "snd x" s' project user]
  by (simp add: stamped_def claim_request_def Let_def)

lemma sends_claim_payload: "sends 0 P (claim_payload ar g r)"
  by (auto simp: claim_payload_def sends_def the_key_def sbind_def sreturn_def sraise_def split: body.splits option.splits)

lemma claim_attempt_sends:
  "sends 2 (\<lambda>q. q = GetAllocations u \<or> (\<exists>p. q = PutAllocations ver u p \<and> claim_request ar project user p))
     (claim_attempt C u ar project user ver g)" (is "sends 2 ?P _")
proof -
  have "sends (1 + (0 + (1 + 0))) ?P (claim_attempt C u ar project user ver g)"
    unfolding claim_attempt_alt
    by (intro sends_bind sends_send sends_claim_payload sends_allocations_reply) (auto dest: stamped_request)
  then show ?thesis by (simp add: numeral_2_eq_2)
qed

lemma retry_no_Retry: "retry_loop n m s \<noteq> (Inl (Retry x), s')"
proof (induction n arbitrary: s)
  case (Suc n)
  obtain r s1 where "m s = (r, s1)" by fastforce
  then show ?case using Suc by (cases r) (auto simp: scatch_def sraise_def split: rc_error.splits)
qed (simp add: sreturn_def)


section \<open>Taking resources out of an allocation\<close>

definition class_amount :: "(string, int) dict \<Rightarrow> string \<Rightarrow> int" where
  "class_amount m rc = (case dict_get m rc of None \<Rightarrow> 0 | Some n \<Rightarrow> n)"

definition alloc_amount :: "(string, rp_alloc) dict \<Rightarrow> string \<Rightarrow> string \<Rightarrow> int" where
  "alloc_amount m u rc = (case dict_get m u of None \<Rightarrow> 0 | Some a \<Rightarrow> class_amount (ra_resources a) rc)"

definition removed_amount :: "(string, (string, int) dict) dict \<Rightarrow> string \<Rightarrow> string \<Rightarrow> int" where
  "removed_amount m u rc = (case dict_get m u of None \<Rightarrow> 0 | Some r \<Rightarrow> class_amount r rc)"

definition positive :: "(string, int) dict \<Rightarrow> bool" where
  "positive m \<longleftrightarrow> (\<forall>rc n. dict_get m rc = Some n \<longrightarrow> 0 < n)"

definition nonneg :: "(string, int) dict \<Rightarrow> bool" where
  "nonneg m \<longleftrightarrow> (\<forall>rc n. dict_get m rc = Some n \<longrightarrow> 0 \<le> n)"

lemma all_dict_Cons:
  assumes all: "\<forall>u r. dict_get ((k, v) # m) u = Some r \<longrightarrow> P u r" and fresh: "dict_get m k = None"
  shows "P k v \<and> (\<forall>u r. dict_get m u = Some r \<longrightarrow> P u r)"
proof (intro conjI allI impI)
  show "P k v" using all [rule_format, of k v] by simp
  show "P u r" if "dict_get m u = Some r" for u r using all [rule_format, of u r] fresh that by (cases "u = k") auto
qed

lemma nonneg_Cons: "nonneg ((k, v) # m) \<Longrightarrow> dict_get m k = None \<Longrightarrow> nonneg m"
  unfolding nonneg_def by (rule conjunct2 [OF all_dict_Cons [where P = "\<lambda>_ n. 0 \<le> n"]])

lemma class_amount_Cons: "class_amount ((k, v) # m) rc = (if rc = k then v else class_amount m rc)"
  by (simp add: class_amount_def)

lemma take_classes_exact:
  assumes "dict_wf r" "positive res" "take_classes r res = Some out" "nonneg r"
  shows "positive out \<and> (\<forall>rc. class_amount out rc = class_amount res rc - class_amount r rc)"
  using assms
proof (induction r res rule: take_classes.induct)
  case (1 res)
  then show ?case by (simp add: class_amount_def)
next
  case (2 k v r res)
  obtain a where a: "dict_get res k = Some a" "0 \<le> a - v" using "2.prems"(3) by (auto split: option.splits if_splits)
  let ?res = "if a - v = 0 then dict_del k res else dict_set k (a - v) res"
  have fresh: "dict_get r k = None" using "2.prems"(1) by (simp add: dict_get_None)
  have pos: "positive ?res" using "2.prems"(2) a by (auto simp: positive_def split: if_splits)
  have rest: "nonneg r" by (rule nonneg_Cons [OF "2.prems"(4) fresh])
  have "\<not> a - v < 0" using a(2) by simp
  from "2.IH" [OF a(1) this _ pos _ rest] "2.prems"(1,3) a
  have IH: "positive out" "\<forall>rc. class_amount out rc = class_amount ?res rc - class_amount r rc" by (auto split: if_splits)
  have upd: "class_amount ?res rc = (if rc = k then a - v else class_amount res rc)" for rc
    by (simp add: class_amount_def)
  have "class_amount out rc = class_amount res rc - class_amount ((k, v) # r) rc" for rc
    using IH(2) fresh a(1) unfolding upd class_amount_Cons by (simp add: class_amount_def)
  then show ?case using IH(1) by blast
qed

lemma take_classes_possible:
  assumes "dict_wf r" "nonneg r"
  shows "take_classes r res \<noteq> None \<longleftrightarrow> (\<forall>rc n. dict_get r rc = Some n \<longrightarrow> (\<exists>a. dict_get res rc = Some a \<and> n \<le> a))"
  using assms
proof (induction r res rule: take_classes.induct)
  case (1 res)
  then show ?case by simp
next
  case (2 k v r res)
  have fresh: "dict_get r k = None" using "2.prems"(1) by (simp add: dict_get_None)
  have rest: "nonneg r" by (rule nonneg_Cons [OF "2.prems"(2) fresh])
  show ?case
  proof (cases "\<exists>a. dict_get res k = Some a \<and> v \<le> a")
    case True
    then obtain a where a: "dict_get res k = Some a" "v \<le> a" by blast
    then have "\<not> a - v < 0" by simp
    from "2.IH" [OF a(1) this _ rest] "2.prems"(1) a fresh show ?thesis by (auto split: if_splits)
  next
    case False
    then show ?thesis by (auto split: option.splits)
  qed
qed

lemma take_providers_exact:
  assumes "dict_wf m" "\<forall>u r. dict_get m u = Some r \<longrightarrow> dict_wf r \<and> nonneg r" "\<forall>u a. dict_get allocs u = Some a \<longrightarrow> positive (ra_resources a)"
    and "take_providers m allocs = Some out"
  shows "(\<forall>u a. dict_get out u = Some a \<longrightarrow> positive (ra_resources a)) \<and>
    (\<forall>u rc. alloc_amount out u rc = alloc_amount allocs u rc - removed_amount m u rc)"
  using assms
proof (induction m allocs rule: take_providers.induct)
  case (1 allocs)
  then show ?case by (simp add: alloc_amount_def removed_amount_def)
next
  case (2 u r m allocs)
  obtain a res where a: "dict_get allocs u = Some a" "take_classes r (ra_resources a) = Some res"
    using "2.prems"(4) by (auto split: option.splits)
  have fresh: "dict_get m u = None" using "2.prems"(1) by (simp add: dict_get_None)
  note all = all_dict_Cons [where P = "\<lambda>_ r. dict_wf r \<and> nonneg r", OF "2.prems"(2) fresh]
  have r: "dict_wf r" "nonneg r" "positive (ra_resources a)" using all "2.prems"(3) a(1) by auto
  have res: "positive res" "\<forall>rc. class_amount res rc = class_amount (ra_resources a) rc - class_amount r rc"
    using take_classes_exact [OF r(1,3) a(2) r(2)] by auto
  let ?allocs = "dict_set u (a\<lparr>ra_resources := res\<rparr>) allocs"
  have wf: "dict_wf m" "\<forall>u r. dict_get m u = Some r \<longrightarrow> dict_wf r \<and> nonneg r"
    using "2.prems"(1) all by simp_all
  have pos: "\<forall>u a. dict_get ?allocs u = Some a \<longrightarrow> positive (ra_resources a)" using "2.prems"(3) res(1) by auto
  have IH: "\<forall>u a. dict_get out u = Some a \<longrightarrow> positive (ra_resources a)"
    "\<forall>v rc. alloc_amount out v rc = alloc_amount ?allocs v rc - removed_amount m v rc"
    using "2.IH" [OF a wf pos] "2.prems"(4) a by auto
  have "alloc_amount out v rc = alloc_amount allocs v rc - removed_amount ((u, r) # m) v rc" for v rc
    using IH(2) [rule_format, of v rc] res(2) a(1) fresh by (auto simp: alloc_amount_def removed_amount_def)
  then show ?case using IH(1) by blast
qed

lemma take_providers_possible:
  assumes "dict_wf m" "\<forall>u r. dict_get m u = Some r \<longrightarrow> dict_wf r \<and> nonneg r"
  shows "take_providers m allocs \<noteq> None \<longleftrightarrow>
    (\<forall>u r. dict_get m u = Some r \<longrightarrow> (\<exists>a. dict_get allocs u = Some a \<and>
       (\<forall>rc n. dict_get r rc = Some n \<longrightarrow> (\<exists>k. dict_get (ra_resources a) rc = Some k \<and> n \<le> k))))"
  using assms
proof (induction m allocs rule: take_providers.induct)
  case (1 allocs)
  then show ?case by simp
next
  case (2 u r m allocs)
  have fresh: "dict_get m u = None" using "2.prems"(1) by (simp add: dict_get_None)
  have wf: "dict_wf m" "\<forall>u r. dict_get m u = Some r \<longrightarrow> dict_wf r \<and> nonneg r" "dict_wf r" "nonneg r"
    using "2.prems"(1) all_dict_Cons [where P = "\<lambda>_ r. dict_wf r \<and> nonneg r", OF "2.prems"(2) fresh] by simp_all
  show ?case
  proof (cases "\<exists>a. dict_get allocs u = Some a \<and> take_classes r (ra_resources a) \<noteq> None")
    case True
    then obtain a res where a: "dict_get allocs u = Some a" "take_classes r (ra_resources a) = Some res" by blast
    have "take_classes r (ra_resources a) \<noteq> None" using a(2) by simp
    from this [unfolded take_classes_possible [OF wf(3,4)]] "2.IH" [OF a wf(1,2)] a fresh show ?thesis
      by (simp split: if_splits)
  next
    case False
    then have "take_providers ((u, r) # m) allocs = None" by (auto split: option.splits)
    moreover have "\<not> (\<exists>a. dict_get allocs u = Some a \<and>
       (\<forall>rc n. dict_get r rc = Some n \<longrightarrow> (\<exists>k. dict_get (ra_resources a) rc = Some k \<and> n \<le> k)))"
      using False take_classes_possible [OF wf(3,4)] by blast
    moreover have "dict_get ((u, r) # m) u = Some r" by simp
    ultimately show ?thesis by blast
  qed
qed

lemma drop_empty_lookup: "dict_wf m \<Longrightarrow> dict_get (drop_empty m) u =
    (case dict_get m u of None \<Rightarrow> None | Some a \<Rightarrow> if ra_resources a = [] then None else Some a)"
  by (induction m) (auto simp: drop_empty_def dict_get_None dict_get_None [symmetric] split: option.splits if_splits)

lemma take_providers_wf: "take_providers m allocs = Some out \<Longrightarrow> dict_wf allocs \<Longrightarrow> dict_wf out"
  by (induction m allocs rule: take_providers.induct) (auto split: option.splits)

lemma removal_reply_sent: "rc_sent (snd (removal_reply r s)) = rc_sent s"
  by (auto simp: removal_reply_def first_error_def sbind_def sreturn_def sraise_def split: list.splits)

text \<open>The documented resources to remove and the allocation of a consumer: dictionaries without
  negative amounts, and without empty ones in the allocation.\<close>

definition removal_ok :: "(string, (string, int) dict) dict \<Rightarrow> consumer_allocs \<Rightarrow> bool" where
  "removal_ok resources cur \<longleftrightarrow> resources \<noteq> [] \<and> ca_allocations cur \<noteq> [] \<and> dict_wf resources \<and> dict_wf (ca_allocations cur) \<and>
     (\<forall>u r. dict_get resources u = Some r \<longrightarrow> dict_wf r \<and> nonneg r) \<and>
     (\<forall>u a. dict_get (ca_allocations cur) u = Some a \<longrightarrow> positive (ra_resources a))"

definition removal_possible :: "(string, (string, int) dict) dict \<Rightarrow> consumer_allocs \<Rightarrow> bool" where
  "removal_possible resources cur \<longleftrightarrow> (\<forall>u r. dict_get resources u = Some r \<longrightarrow>
     (\<exists>a. dict_get (ca_allocations cur) u = Some a \<and>
        (\<forall>rc n. dict_get r rc = Some n \<longrightarrow> (\<exists>k. dict_get (ra_resources a) rc = Some k \<and> n \<le> k))))"

text \<open>
  C25. Removing resources from the allocation of a consumer that the service answers with: when a
  provider, a class or the amount is missing, it raises \<open>AllocationUpdateFailed\<close> without writing;
  otherwise it asks for the allocation with exactly the amounts subtracted, without empty amounts
  or providers and with the owner and generation that were read.
\<close>

theorem remove_resources_exact:
  assumes read: "http C (GetAllocations u) (rc_world s) = (Inr r, w)" "resp_ok r" "resp_body r = AllocationsBody cur"
    and ok: "removal_ok resources cur"
  shows "if removal_possible resources cur
    then (\<exists>p. rc_sent (snd (remove_attempt C u resources s)) = rc_sent s @ [GetAllocations u, PutAllocations CONSUMER_GENERATION_VERSION u p] \<and>
            p = cur\<lparr>ca_allocations := ca_allocations p\<rparr> \<and>
            (\<forall>v rc. alloc_amount (ca_allocations p) v rc = alloc_amount (ca_allocations cur) v rc - removed_amount resources v rc) \<and>
            (\<forall>v a. dict_get (ca_allocations p) v = Some a \<longrightarrow> ra_resources a \<noteq> [] \<and> positive (ra_resources a)))
    else remove_attempt C u resources s =
           (Inl (AllocationUpdateFailed u), s\<lparr>rc_world := w, rc_sent := rc_sent s @ [GetAllocations u]\<rparr>)"
proof -
  let ?s = "s\<lparr>rc_world := w, rc_sent := rc_sent s @ [GetAllocations u]\<rparr>"
  have get: "get_allocs_for_consumer C u s = (Inr cur, ?s)" using read by (simp add: get_allocs_for_consumer_def sbind_def send_def sreturn_def)
  have m: "dict_wf resources" "\<forall>u r. dict_get resources u = Some r \<longrightarrow> dict_wf r \<and> nonneg r"
    "\<forall>u a. dict_get (ca_allocations cur) u = Some a \<longrightarrow> positive (ra_resources a)" "dict_wf (ca_allocations cur)"
    "resources \<noteq> []" "ca_allocations cur \<noteq> []" using ok by (auto simp: removal_ok_def)
  have possible: "removal_possible resources cur \<longleftrightarrow> take_providers resources (ca_allocations cur) \<noteq> None"
    unfolding removal_possible_def take_providers_possible [OF m(1,2)] ..
  show ?thesis
  proof (cases "take_providers resources (ca_allocations cur)")
    case None
    then show ?thesis using possible m(5,6) get by (simp add: remove_attempt_def sbind_def sraise_def)
  next
    case (Some out)
    note exact = take_providers_exact [OF m(1,2,3) Some] and wf = take_providers_wf [OF Some m(4)]
    let ?p = "cur\<lparr>ca_allocations := drop_empty out\<rparr>"
    have "rc_sent (snd (remove_attempt C u resources s)) = rc_sent s @ [GetAllocations u, PutAllocations CONSUMER_GENERATION_VERSION u ?p]"
      using Some m(5,6) get
      by (cases "http C (PutAllocations CONSUMER_GENERATION_VERSION u ?p) w"; cases "fst (http C (PutAllocations CONSUMER_GENERATION_VERSION u ?p) w)")
        (simp_all add: remove_attempt_def sbind_def send_def removal_reply_sent)
    moreover have "alloc_amount (drop_empty out) v rc = alloc_amount out v rc" for v rc
      by (auto simp: alloc_amount_def class_amount_def drop_empty_lookup [OF wf] split: option.splits)
    moreover have "ra_resources a \<noteq> [] \<and> positive (ra_resources a)" if "dict_get (drop_empty out) v = Some a" for v a
      using that exact by (auto simp: drop_empty_lookup [OF wf] split: option.splits if_splits)
    ultimately show ?thesis using possible Some exact by (intro if_split [THEN iffD2]) (auto intro!: exI [of _ ?p])
  qed
qed

text \<open>
  A removal that the service refuses for any reason but a concurrent update is reported as
  done: the wrapper returns normally although nothing was removed.
\<close>

theorem refused_removal_unnoticed:
  assumes read: "http C (GetAllocations u) (rc_world s) = (Inr r, w)" "resp_ok r" "resp_body r = AllocationsBody cur"
    and ok: "removal_ok resources cur" "removal_possible resources cur"
    and refused: "\<forall>p. \<exists>reply. http C (PutAllocations CONSUMER_GENERATION_VERSION u p) w = (Inr reply, w) \<and> status_code reply \<noteq> 204 \<and>
      (\<exists>code detail es. resp_errors reply = (code, detail) # es \<and> code \<noteq> concurrent_update)"
  shows "\<exists>s'. remove_resources_from_container_allocation C u resources s = (Inr (), s') \<and> rc_world s' = w"
proof -
  let ?s = "s\<lparr>rc_world := w, rc_sent := rc_sent s @ [GetAllocations u]\<rparr>"
  have get: "get_allocs_for_consumer C u s = (Inr cur, ?s)" using read by (simp add: get_allocs_for_consumer_def sbind_def send_def sreturn_def)
  obtain out where out: "take_providers resources (ca_allocations cur) = Some out"
    using ok take_providers_possible [of resources "ca_allocations cur"] by (auto simp: removal_ok_def removal_possible_def)
  let ?p = "cur\<lparr>ca_allocations := drop_empty out\<rparr>"
  obtain reply code detail es where reply: "http C (PutAllocations CONSUMER_GENERATION_VERSION u ?p) w = (Inr reply, w)"
    "status_code reply \<noteq> 204" "resp_errors reply = (code, detail) # es" "code \<noteq> concurrent_update" using refused by metis
  let ?s' = "?s\<lparr>rc_sent := rc_sent ?s @ [PutAllocations CONSUMER_GENERATION_VERSION u ?p]\<rparr>"
  have "removal_reply reply ?s' = (Inr True, ?s')" using reply by (simp add: removal_reply_def first_error_def sbind_def sreturn_def)
  then have "remove_attempt C u resources s = (Inr True, ?s')"
    using get out reply(1) ok(1) by (simp add: remove_attempt_def sbind_def send_def removal_ok_def)
  then have "remove_resources_from_container_allocation C u resources s = (Inr (), ?s')"
    by (simp add: remove_resources_from_container_allocation_def retries_def eval_nat_numeral scatch_def sbind_def sreturn_def)
  then show ?thesis by simp
qed

text \<open>The witnesses: a service that answers with an allocation and accepts or refuses writes.\<close>

definition ex_allocation :: consumer_allocs where
  "ex_allocation = \<lparr>ca_allocations = [(''r'', \<lparr>ra_generation = Some 1, ra_resources = [(''VCPU'', 4), (''MEMORY_MB'', 512)]\<rparr>)],
     ca_project_id = Some ''p'', ca_user_id = Some ''u'', ca_consumer_generation = Some (Some 3)\<rparr>"

definition alloc_conf :: "int reply \<Rightarrow> (int, unit) rc_conf" where
  "alloc_conf answer = \<lparr>http = (\<lambda>q w. case q of
       GetAllocations _ \<Rightarrow> (Inr (plain_reply 200 (AllocationsBody ex_allocation)), w)
     | _ \<Rightarrow> (Inr answer, w)), clock = (\<lambda>_. 0), refresh_interval = 300, custom_namespace = ''CUSTOM_'', set_order = (\<lambda>_. [])\<rparr>"

definition ex_idle :: "(int, unit) rc_state" where
  "ex_idle = report_client ()"

definition ex_request :: consumer_allocs where
  "ex_request = \<lparr>ca_allocations = [(''d'', \<lparr>ra_generation = None, ra_resources = [(''VCPU'', 4)]\<rparr>)],
     ca_project_id = None, ca_user_id = None, ca_consumer_generation = None\<rparr>"


lemma ex_removal: "removal_ok [(''r'', [(''VCPU'', 3)])] ex_allocation" "removal_possible [(''r'', [(''VCPU'', 3)])] ex_allocation"
  by (auto simp: removal_ok_def removal_possible_def ex_allocation_def positive_def nonneg_def split: if_splits)

theorem remove_resources_exact_witness:
  "\<exists>p. rc_sent (snd (remove_attempt (alloc_conf (plain_reply 204 NoBody)) ''c'' [(''r'', [(''VCPU'', 3)])] ex_idle)) =
       [GetAllocations ''c'', PutAllocations CONSUMER_GENERATION_VERSION ''c'' p] \<and>
     alloc_amount (ca_allocations p) ''r'' ''VCPU'' = 1 \<and> alloc_amount (ca_allocations p) ''r'' ''MEMORY_MB'' = 512"
proof -
  have "http (alloc_conf (plain_reply 204 NoBody)) (GetAllocations ''c'') (rc_world ex_idle) = (Inr (plain_reply 200 (AllocationsBody ex_allocation)), ())"
    by (simp add: alloc_conf_def)
  from remove_resources_exact [OF this _ _ ex_removal(1)] ex_removal(2)
  show ?thesis
    by (auto simp: resp_ok_def plain_reply_def ex_idle_def report_client_def alloc_amount_def class_amount_def removed_amount_def ex_allocation_def)
qed

theorem refused_removal_unnoticed_witness:
  "\<exists>s'. remove_resources_from_container_allocation
     (alloc_conf \<lparr>status_code = 400, resp_text = [], resp_body = NoBody, resp_errors = [(''placement.undefined_code'', [])]\<rparr>)
     ''c'' [(''r'', [(''VCPU'', 3)])] ex_idle = (Inr (), s')"
proof -
  let ?C = "alloc_conf \<lparr>status_code = 400, resp_text = [], resp_body = NoBody, resp_errors = [(''placement.undefined_code'', [])]\<rparr>"
  have "http ?C (GetAllocations ''c'') (rc_world ex_idle) = (Inr (plain_reply 200 (AllocationsBody ex_allocation)), ())"
    by (simp add: alloc_conf_def)
  from refused_removal_unnoticed [OF this _ _ ex_removal] show ?thesis
    by (auto simp: resp_ok_def plain_reply_def alloc_conf_def)
qed

end
