(* ===== verification/Placement_Update.thy ===== *)
theory Placement_Update
  imports Report_Sync "HOL-Library.List_Lexorder" "HOL-Library.Char_ord"
begin

text \<open>
  What a compute node reports to the placement service: the inventory that the container driver
  writes into the provider tree (\<^verbatim>\<open>container/driver.py\<close>), the traits that the tracker adds
  (\<^verbatim>\<open>compute/compute_node_tracker.py\<close>), and the update through the placement client.
\<close>

section \<open>The inventory\<close>

abbreviation "VCPU \<equiv> ''VCPU''"
abbreviation "MEMORY_MB \<equiv> ''MEMORY_MB''"
abbreviation "DISK_GB \<equiv> ''DISK_GB''"

text \<open>What the host reports, and the options of the compute service.\<close>

record host_totals =
  total_disk_gb :: int
  total_mem_kb :: int
  cpu_count :: int

record ratio_conf =
  allocation_ratio :: "string \<Rightarrow> rat option"
  initial_allocation_ratio :: "string \<Rightarrow> rat"
  reserved_host_cpus :: int
  reserved_host_memory_mb :: int
  reserved_host_disk_mb :: int

definition convert_mb_to_ceil_gb :: "int \<Rightarrow> int" where
  "convert_mb_to_ceil_gb mb_value = (if mb_value \<noteq> 0 then \<lceil>of_int mb_value / 1024 :: rat\<rceil> else 0)"

definition get_allocation_ratio :: "ratio_conf \<Rightarrow> rat inventories \<Rightarrow> string \<Rightarrow> (rc_error, rat) res" where
  \<comment> \<open>the ratio of one class; a missing ratio of an existing record is a key error\<close>
  "get_allocation_ratio conf inventory rc =
     (case allocation_ratio conf rc of
        Some r \<Rightarrow> if r \<noteq> 0 then Inr r
                  else (case dict_get inventory rc of
                          None \<Rightarrow> Inr (initial_allocation_ratio conf rc)
                        | Some m \<Rightarrow> (case dict_get m ''allocation_ratio'' of None \<Rightarrow> Inl BadBody | Some r \<Rightarrow> Inr r))
      | None \<Rightarrow> (case dict_get inventory rc of
                   None \<Rightarrow> Inr (initial_allocation_ratio conf rc)
                 | Some m \<Rightarrow> (case dict_get m ''allocation_ratio'' of None \<Rightarrow> Inl BadBody | Some r \<Rightarrow> Inr r)))"

definition inventory_record :: "int \<Rightarrow> rat \<Rightarrow> int \<Rightarrow> (string, rat) dict" where
  "inventory_record amount ratio reserved =
     [(''total'', of_int amount), (''min_unit'', 1), (''max_unit'', of_int amount), (''step_size'', 1),
      (''allocation_ratio'', ratio), (''reserved'', of_int reserved)]"

definition node_inventory :: "ratio_conf \<Rightarrow> host_totals \<Rightarrow> rat inventories \<Rightarrow> (rc_error, rat inventories) res" where
  "node_inventory conf H inventory =
     rbind (get_allocation_ratio conf inventory VCPU) (\<lambda>cpu.
     rbind (get_allocation_ratio conf inventory MEMORY_MB) (\<lambda>ram.
     rbind (get_allocation_ratio conf inventory DISK_GB) (\<lambda>disk.
       Inr [(VCPU, inventory_record (cpu_count H) cpu (reserved_host_cpus conf)),
            (MEMORY_MB, inventory_record (total_mem_kb H div 1024) ram (reserved_host_memory_mb conf)),
            (DISK_GB, inventory_record (total_disk_gb H) disk (convert_mb_to_ceil_gb (reserved_host_disk_mb conf)))])))"

definition tree_res :: "(pt_error, 'a) res \<Rightarrow> (rc_error, 'a) res" where
  "tree_res r = map_sum PtError id r"

definition update_provider_tree :: "ratio_conf \<Rightarrow> host_totals \<Rightarrow> string \<Rightarrow> rat provider_tree \<Rightarrow> (rc_error, rat provider_tree) res" where
  \<comment> \<open>the answer about a sharing provider is only logged\<close>
  "update_provider_tree conf H nodename t =
     rbind (tree_res (data nodename t)) (\<lambda>d.
     rbind (node_inventory conf H (pd_inventory d)) (\<lambda>result.
     rbind (tree_res (has_sharing_provider ''MISC_SHARES_VIA_AGGREGATE'' DISK_GB t)) (\<lambda>_.
       case update_inventory nodename result None t of (r, t') \<Rightarrow> rbind (tree_res r) (\<lambda>_. Inr t'))))"

section \<open>The traits\<close>

definition CAPABILITY_TRAITS_MAP :: "(string, string) dict" where
  "CAPABILITY_TRAITS_MAP = []"

definition capabilities_as_traits :: "(string, string) dict \<Rightarrow> (string, bool) dict \<Rightarrow> (string, bool) dict" where
  "capabilities_as_traits traits_map capabilities =
     fold (\<lambda>(capability, supported) traits.
        case dict_get traits_map capability of None \<Rightarrow> traits | Some t \<Rightarrow> dict_set t supported traits) capabilities []"

abbreviation "ZUN_COMPUTE_STATUS_DISABLED \<equiv> ''CUSTOM_ZUN_COMPUTE_STATUS_DISABLED''"

definition sync_compute_service_disabled_trait :: "bool option \<Rightarrow> string set \<Rightarrow> string set" where
  \<comment> \<open>given whether the service is disabled, None when it is not found\<close>
  "sync_compute_service_disabled_trait disabled traits =
     (case disabled of
        None \<Rightarrow> traits
      | Some True \<Rightarrow> insert ZUN_COMPUTE_STATUS_DISABLED traits
      | Some False \<Rightarrow> traits - {ZUN_COMPUTE_STATUS_DISABLED})"

definition get_traits :: "(string, bool) dict \<Rightarrow> bool option \<Rightarrow> string set \<Rightarrow> string set" where
  "get_traits capabilities disabled traits =
     sync_compute_service_disabled_trait disabled
       (fold (\<lambda>(trait, supported) T. if supported then insert trait T else T - {trait}) capabilities traits)"

section \<open>The update\<close>

record node_info =
  ni_uuid :: string
  ni_hostname :: string
  ni_rp_uuid :: "string option" \<comment> \<open>the uuid of the provider, once it is known\<close>
  host_shared_with_nova :: bool
  possible_rp_names :: "string list" \<comment> \<open>\<open>socket.gethostname()\<close> and \<open>socket.getfqdn()\<close>\<close>
  ni_disabled :: "bool option"
  ni_capabilities :: "(string, bool) dict"

fun try_names :: "('v, 'w) rc_conf \<Rightarrow> string \<Rightarrow> string list \<Rightarrow> ('v, 'w, string) rc" where
  "try_names C hostname [] = sraise (ComputeHostNotFound hostname)"
| "try_names C hostname (n # ns) =
     scatch (sbind (get_provider_by_name C n) (\<lambda>p. the_key (pdict_uuid p)))
       (\<lambda>e. case e of ResourceProviderNotFound _ \<Rightarrow> try_names C hostname ns | _ \<Rightarrow> sraise e)"

definition get_node_rp_uuid :: "('v, 'w) rc_conf \<Rightarrow> node_info \<Rightarrow> ('v, 'w, string) rc" where
  "get_node_rp_uuid C N =
     (if truthy (ni_rp_uuid N) then sreturn (the (ni_rp_uuid N))
      else if host_shared_with_nova N then try_names C (ni_hostname N) (ni_hostname N # possible_rp_names N)
      else sreturn (ni_uuid N))"

definition report_node :: "(rat, 'w) rc_conf \<Rightarrow> ratio_conf \<Rightarrow> host_totals \<Rightarrow> node_info \<Rightarrow> string \<Rightarrow> rat provider_tree \<Rightarrow> (rc_error, rat provider_tree) res" where
  \<comment> \<open>what the driver and the tracker write into the tree\<close>
  "report_node C conf H N u t =
     rbind (update_provider_tree conf H u t) (\<lambda>t1.
     rbind (tree_res (data u t1)) (\<lambda>d.
       case update_traits u (set_order C (get_traits (capabilities_as_traits CAPABILITY_TRAITS_MAP (ni_capabilities N)) (ni_disabled N) (pd_traits d))) None t1 of
         (r, t2) \<Rightarrow> rbind (tree_res r) (\<lambda>_. Inr t2)))"

definition update_to_placement :: "(rat, 'w) rc_conf \<Rightarrow> ratio_conf \<Rightarrow> host_totals \<Rightarrow> node_info \<Rightarrow> (rat, 'w, string) rc" where
  \<comment> \<open>one attempt, which a decorator repeats on a conflict; the uuid of the provider is kept by the tracker\<close>
  "update_to_placement C conf H N =
     sbind (get_node_rp_uuid C N) (\<lambda>node_rp_uuid.
     sbind (get_provider_tree_and_ensure_root C node_rp_uuid (Some (ni_hostname N)) None) (\<lambda>prov_tree.
     sbind (slift (report_node C conf H N node_rp_uuid prov_tree)) (\<lambda>prov_tree.
     sbind (update_from_provider_tree C prov_tree None) (\<lambda>_. sreturn node_rp_uuid))))"

section \<open>The comparison of inventories\<close>

lemma not_changed_iff:
  "\<not> p_has_inventory_changed new d \<longleftrightarrow> set (dict_keys (pd_inventory d)) = set (dict_keys new) \<and>
     (\<forall>(k, cur)\<in>set (pd_inventory d). \<forall>n. dict_get new k = Some n \<longrightarrow> \<not> record_changed cur n)"
  by (auto simp: p_has_inventory_changed_def list_ex_iff split: option.splits)

lemma record_unchanged_iff:
  "\<not> record_changed cur new \<longleftrightarrow> set (dict_keys new) \<subseteq> set (dict_keys cur) \<and>
     (\<forall>(k, c)\<in>set cur. \<forall>v. dict_get new k = Some v \<longrightarrow> v = c)"
  by (auto simp: record_changed_def list_ex_iff split: option.splits)

lemma record_unchanged_trans:
  assumes "\<not> record_changed a b" "\<not> record_changed b c"
  shows "\<not> record_changed a c"
  unfolding record_unchanged_iff
proof (intro conjI ballI)
  show "set (dict_keys c) \<subseteq> set (dict_keys a)" using assms unfolding record_unchanged_iff by (meson order_trans)
  fix x
  assume x: "x \<in> set a"
  obtain k av where kv: "x = (k, av)" by (cases x)
  have "v = av" if v: "dict_get c k = Some v" for v
  proof -
    have "k \<in> set (dict_keys b)" using dict_get_in [OF v] assms(2) unfolding record_unchanged_iff by blast
    then obtain bv where bv: "dict_get b k = Some bv" using dict_get_None by (metis not_None_eq)
    have "v = bv" using assms(2) map_of_SomeD [OF bv] v unfolding record_unchanged_iff by blast
    moreover have "bv = av" using assms(1) x kv bv unfolding record_unchanged_iff by blast
    ultimately show ?thesis by simp
  qed
  then show "case x of (k, cv) \<Rightarrow> \<forall>v. dict_get c k = Some v \<longrightarrow> v = cv" using kv by simp
qed

lemma not_changed_trans:
  assumes "\<not> p_has_inventory_changed (pd_inventory e) d" "\<not> p_has_inventory_changed new e"
  shows "\<not> p_has_inventory_changed new d"
  unfolding not_changed_iff
proof (intro conjI ballI)
  show "set (dict_keys (pd_inventory d)) = set (dict_keys new)" using assms unfolding not_changed_iff by argo
  fix x
  assume x: "x \<in> set (pd_inventory d)"
  obtain k cur where kc: "x = (k, cur)" by (cases x)
  have "\<not> record_changed cur n" if n: "dict_get new k = Some n" for n
  proof -
    have "k \<in> set (dict_keys (pd_inventory e))" using dict_get_in [OF n] assms(2) unfolding not_changed_iff by blast
    then obtain m where m: "dict_get (pd_inventory e) k = Some m" using dict_get_None by (metis not_None_eq)
    have "\<not> record_changed cur m" using assms(1) x kc m unfolding not_changed_iff by blast
    moreover have "\<not> record_changed m n" using assms(2) map_of_SomeD [OF m] n unfolding not_changed_iff by blast
    ultimately show ?thesis by (rule record_unchanged_trans)
  qed
  then show "case x of (k, cur) \<Rightarrow> \<forall>n. dict_get new k = Some n \<longrightarrow> \<not> record_changed cur n" using kc by simp
qed

section \<open>What is written into the tree\<close>

lemma node_inventory_wf:
  assumes "node_inventory conf H old = Inr invs"
  shows "dict_wf invs" "\<forall>(k, r) \<in> set invs. dict_wf r"
  using assms by (auto simp: node_inventory_def rbind_Inr_iff inventory_record_def)

lemma tree_res_Inr [simp]: "tree_res r = Inr x \<longleftrightarrow> r = Inr x"
  by (cases r) (auto simp: tree_res_def)

lemma tree_pair_Inr: "(case m of (r, t') \<Rightarrow> rbind (tree_res r) (\<lambda>_. Inr t')) = Inr x \<longleftrightarrow> (\<exists>b. m = (Inr b, x))"
  by (cases m) (auto simp: rbind_Inr_iff)

lemma finite_get_traits: "finite T \<Longrightarrow> finite (get_traits caps disabled T)"
proof -
  have "finite (fold (\<lambda>(trait, supported) T. if supported then insert trait T else T - {trait}) caps T)" if "finite T"
    using that
  proof (induction caps arbitrary: T)
    case (Cons c caps)
    then show ?case by (cases c; cases "snd c") simp_all
  qed simp
  then show "finite T \<Longrightarrow> ?thesis"
    by (cases disabled) (simp_all add: get_traits_def sync_compute_service_disabled_trait_def split: bool.splits)
qed

lemma report_node_table:
  assumes t: "wf_tree t" "names_clear t" "flat t u = Some d" and run: "report_node C conf H N u t = Inr t2"
    and order: "\<And>S. finite S \<Longrightarrow> set (set_order C S) = S" and fin: "finite (pd_traits d)"
  defines "traits \<equiv> get_traits (capabilities_as_traits CAPABILITY_TRAITS_MAP (ni_capabilities N)) (ni_disabled N) (pd_traits d)"
  shows "\<exists>invs d2. node_inventory conf H (pd_inventory d) = Inr invs \<and> clear_for (dom (flat t)) t2 \<and> flat t2 = (flat t)(u \<mapsto> d2) \<and>
    (pd_inventory d2 = invs \<or> pd_inventory d2 = pd_inventory d) \<and> \<not> p_has_inventory_changed invs d2 \<and>
    pd_traits d2 = traits \<and> pd_aggregates d2 = pd_aggregates d \<and> finite (pd_traits d2)"
proof -
  have clear: "clear_for (dom (flat t)) t" "u \<in> dom (flat t)" using clear_for_start [OF t(1,2)] t(3) by auto
  obtain t1 where t1: "update_provider_tree conf H u t = Inr t1" using run by (auto simp: report_node_def rbind_Inr_iff)
  then obtain invs r where invs: "node_inventory conf H (pd_inventory d) = Inr invs" and upd: "update_inventory u invs None t = (Inr r, t1)"
    using data_by_uuid [OF t] by (auto simp: update_provider_tree_def rbind_Inr_iff tree_pair_Inr)
  let ?f = "p_update_inventory invs None" and ?d1 = "snd (p_update_inventory invs None d)"
  have c1: "clear_for (dom (flat t)) t1" "flat t1 = (flat t)(u \<mapsto> ?d1)"
    using clear_for_update_found [OF upd_inventory.info_update_axioms clear upd [unfolded update_inventory_def]] t(3) by auto
  have d1: "?d1 = (if p_has_inventory_changed invs d then d\<lparr>pd_inventory := invs\<rparr> else d)"
    by (simp add: p_update_inventory_def update_generation_def Let_def)
  then have nc: "\<not> p_has_inventory_changed invs ?d1" using p_has_inventory_changed_self [OF node_inventory_wf [OF invs]] by simp
  have f1: "flat t1 u = Some ?d1" using c1(2) by simp
  then have data1: "data u t1 = Inr ?d1" using clear_for_data [OF c1(1) clear(2)] by blast
  have tr: "pd_traits ?d1 = pd_traits d" "pd_aggregates ?d1 = pd_aggregates d" using d1 by simp_all
  have fin2: "finite traits" using fin finite_get_traits by (simp add: traits_def)
  obtain b where upd2: "update_traits u (set_order C traits) None t1 = (Inr b, t2)"
    using run t1 data1 tr(1) by (auto simp: report_node_def rbind_Inr_iff tree_pair_Inr traits_def)
  let ?d2 = "snd (p_update_traits traits None ?d1)"
  have c2: "clear_for (dom (flat t)) t2" "flat t2 = (flat t)(u \<mapsto> ?d2)"
    using clear_for_update_found [OF upd_traits.info_update_axioms c1(1) clear(2) upd2 [unfolded update_traits_def order [OF fin2]]] f1 c1(2) by auto
  have d2: "?d2 = ?d1\<lparr>pd_traits := traits\<rparr>" by (cases ?d1) (auto simp: p_update_traits_def update_generation_def Let_def)
  have "\<not> p_has_inventory_changed invs ?d2" using nc inventory_changed_cong [of ?d2 ?d1 invs] d2 by simp
  then show ?thesis using invs c2 d2 d1 tr fin2 by (intro exI [of _ invs] exI [of _ ?d2]) auto
qed

section \<open>Properties\<close>

text \<open>The tree that the client hands out: well formed, names clear of uuids, with finite sets and
  proper dictionaries.\<close>

definition handed_out :: "'v provider_tree \<Rightarrow> bool" where
  "handed_out t \<longleftrightarrow> wf_tree t \<and> names_clear t \<and>
     (\<forall>u d. flat t u = Some d \<longrightarrow> finite (pd_traits d) \<and> finite (pd_aggregates d) \<and>
        dict_wf (pd_inventory d) \<and> (\<forall>(k, r) \<in> set (pd_inventory d). dict_wf r))"

lemma report_node_given:
  assumes t: "handed_out t" "flat t u = Some d" and run: "report_node C conf H N u t = Inr t2"
    and order: "\<And>S. finite S \<Longrightarrow> set (set_order C S) = S"
  shows "given_ok C t2"
proof -
  have wf: "wf_tree t" "names_clear t" "finite (pd_traits d)" using t by (auto simp: handed_out_def)
  obtain invs d2 where r: "node_inventory conf H (pd_inventory d) = Inr invs" "clear_for (dom (flat t)) t2" "flat t2 = (flat t)(u \<mapsto> d2)"
    "pd_inventory d2 = invs \<or> pd_inventory d2 = pd_inventory d" "pd_aggregates d2 = pd_aggregates d" "finite (pd_traits d2)"
    using report_node_table [OF wf(1,2) t(2) run order wf(3)] by blast
  have "finite (pd_traits e) \<and> finite (pd_aggregates e) \<and> dict_wf (pd_inventory e) \<and> (\<forall>(k, r) \<in> set (pd_inventory e). dict_wf r)"
    if "flat t2 v = Some e" for v e
  proof (cases "v = u")
    case True
    then have "e = d2" using that r(3) by simp
    moreover have "finite (pd_aggregates d)" "dict_wf (pd_inventory d)" "\<forall>(k, r) \<in> set (pd_inventory d). dict_wf r"
      using t unfolding handed_out_def by blast+
    ultimately show ?thesis using r(4,5,6) node_inventory_wf [OF r(1)] by (elim disjE) simp_all
  next
    case False
    then show ?thesis using that r(3) t(1) by (simp add: handed_out_def)
  qed
  then show ?thesis using r(2) clear_for_names [OF r(2)] order by (simp add: given_ok_def clear_for_def)
qed


text \<open>The witness: a disabled node with its provider in a fresh cache.\<close>

definition ex_node_tree :: "rat provider_tree" where
  "ex_node_tree = \<lparr>roots = [new_provider [] ''node'' (Some ''r'') (Some 1) None]\<rparr>"

definition ex_conf :: "(rat, string \<Rightarrow> rat provider_view option) rc_conf" where
  "ex_conf = table_conf\<lparr>set_order := sorted_list_of_set\<rparr>"

definition ex_fresh :: "(rat, string \<Rightarrow> rat provider_view option) rc_state" where
  "ex_fresh = (report_client ((\<lambda>_. None)(''r'' \<mapsto> shown (pinfo (hd (roots ex_node_tree))))))\<lparr>provider_tree := ex_node_tree\<rparr>"

definition ex_ratios :: ratio_conf where
  "ex_ratios = \<lparr>allocation_ratio = (\<lambda>_. None), initial_allocation_ratio = (\<lambda>_. 2), reserved_host_cpus = 0,
     reserved_host_memory_mb = 512, reserved_host_disk_mb = 1500\<rparr>"

definition ex_totals :: host_totals where
  "ex_totals = \<lparr>total_disk_gb = 80, total_mem_kb = 8388608, cpu_count = 4\<rparr>"

definition ex_node :: node_info where
  "ex_node = \<lparr>ni_uuid = ''r'', ni_hostname = ''node'', ni_rp_uuid = None, host_shared_with_nova = False, possible_rp_names = [],
     ni_disabled = Some True, ni_capabilities = []\<rparr>"

lemma ex_conf_ok: "serves ex_conf (\<lambda>w. w)" "finite S \<Longrightarrow> set (set_order ex_conf S) = S"
  using table_serves by (simp_all add: ex_conf_def serves_def)


end
