(* ===== verification/Docker_Driver.thy ===== *)
theory Docker_Driver
  imports Container_State
begin

text \<open>
  The Docker driver (\<^verbatim>\<open>zun/container/docker/driver.py\<close>): the operations that change
  the state of a container, and the synchronisation of the recorded states with the ones
  Docker reports. The Docker client and the network driver are parameters.
\<close>

section \<open>What the driver calls\<close>

text \<open>A time is given in seconds since the first of January of year 1, None when it does
  not parse; \<open>Exit\<close> codes and flags are the entries of the state dictionary.\<close>

record state_dict =
  sd_error :: bool
  sd_status :: string
  sd_paused :: bool
  sd_restarting :: bool
  sd_running :: bool
  sd_dead :: bool
  sd_started_at :: "int option"
  sd_finished_at :: "int option"
  sd_exit_code :: int

datatype docker_state = Missing_state | Dict_state state_dict | Text_state string

text \<open>\<open>rs_config\<close> holds the host name and the exposed ports, as their number and
  protocol; \<open>rs_runtime\<close> is the runtime of the host configuration, when there is one.\<close>

record response =
  rs_id :: string
  rs_uuid :: "string option"
  rs_state :: docker_state
  rs_config :: "(string option \<times> int list) option"
  rs_runtime :: "string option option"

record 'w docker_client =
  dk_start :: "string \<Rightarrow> ('w, exn, unit) st"
  dk_stop :: "string \<Rightarrow> int option \<Rightarrow> ('w, exn, unit) st"
  dk_restart :: "string \<Rightarrow> int option \<Rightarrow> ('w, exn, unit) st"
  dk_pause :: "string \<Rightarrow> ('w, exn, unit) st"
  dk_unpause :: "string \<Rightarrow> ('w, exn, unit) st"
  dk_kill :: "string \<Rightarrow> string option \<Rightarrow> ('w, exn, unit) st"
  dk_remove_container :: "string \<Rightarrow> bool \<Rightarrow> ('w, exn, unit) st"
  dk_inspect_container :: "string \<Rightarrow> ('w, exn, response) st"
  dk_list_containers :: "('w, exn, response list) st"
  dk_update_container :: "string \<Rightarrow> int option \<Rightarrow> int option \<Rightarrow> ('w, exn, unit) st"
  dk_resize :: "string \<Rightarrow> int \<Rightarrow> int \<Rightarrow> ('w, exn, unit) st"
  dk_now :: "'w \<Rightarrow> int"

record 'w network_driver =
  nd_on_container_started :: "string \<Rightarrow> ('w, unit) op"
  nd_on_container_stopped :: "string \<Rightarrow> ('w, unit) op"
  nd_disconnect :: "string \<Rightarrow> string \<Rightarrow> ('w, unit) op"
  nd_connect :: "string \<Rightarrow> req_network \<Rightarrow> string list option \<Rightarrow> ('w, addr list option) op"
  nd_get_or_create_network :: "string \<Rightarrow> ('w, unit) op"
  nd_add_security_groups :: "string \<Rightarrow> string list \<Rightarrow> ('w, unit) op"
  nd_remove_security_groups :: "string \<Rightarrow> string list \<Rightarrow> ('w, unit) op"
  nd_delete_security_group :: "string \<Rightarrow> ('w, unit) op"
  nd_list_security_groups :: "('w, (string \<times> string) list) op"

definition on_env :: "('w, exn, 'a) st \<Rightarrow> ('w, 'a) op" where
  "on_env m w = (case m (w_env w) of (r, e) \<Rightarrow> (r, w\<lparr>w_env := e\<rparr>))"

definition docker_client :: "('w, 'a) op \<Rightarrow> ('w, 'a) op" where
  \<comment> \<open>an API error that leaves the block is raised as a Docker error\<close>
  "docker_client m = scatch m (\<lambda>e. sraise (case e of APIError s \<Rightarrow> DockerError s | _ \<Rightarrow> e))"

definition with_id :: "string \<Rightarrow> (string \<Rightarrow> ('w, exn, 'a) st) \<Rightarrow> ('w, 'a) op" where
  \<comment> \<open>a call of the client with the Docker identifier of the container\<close>
  "with_id u f w =
     (case k_container_id (w_objs w u) of None \<Rightarrow> (Inl (OtherException (Text ''Resource ID was not provided'')), w)
      | Some i \<Rightarrow> on_env (f i) w)"

section \<open>Errors\<close>

definition handle_not_found :: "exn \<Rightarrow> string \<Rightarrow> bool \<Rightarrow> ('w, unit) op" where
  "handle_not_found e u do_not_raise =
     sbind (get_obj u)
       (\<lambda>c. if k_status c = DELETING then sreturn ()
            else sbind (if k_auto_remove c then assign (put_status DELETED) u
                        else assign (\<lambda>x. put_status_reason (Some (Str e)) (put_status ERROR x)) u)
              (\<lambda>_. sbind (save u)
                (\<lambda>_. if do_not_raise then sreturn ()
                     else sbind (get_obj u)
                       (\<lambda>c. sraise (Conflict (Text (''Cannot act on container in '' @ [CHR 0x27] @
                                 status_text (k_status c) @ [CHR 0x27] @ '' state'')))))))"

definition wrap_docker_error :: "string \<Rightarrow> ('w, 'a) op \<Rightarrow> ('w, 'a) op" where
  "wrap_docker_error u m =
     scatch m (\<lambda>e. if \<not> is_docker_error e then sraise e
                   else sbind (if is_not_found e then handle_not_found e u False else sreturn ())
                          (\<lambda>_. if is_conflict e then sraise (Conflict (Str e)) else sraise e))"

section \<open>Operations that change the state\<close>

text \<open>A timeout is None when the argument is absent or zero.\<close>

definition reboot :: "'w docker_client \<Rightarrow> 'w network_driver \<Rightarrow> string \<Rightarrow> int option \<Rightarrow> ('w, unit) op" where
  "reboot dk nd u timeout =
     check_container_id u (wrap_docker_error u (docker_client
       (sbind (with_id u (\<lambda>i. dk_restart dk i timeout))
         (\<lambda>_. sbind (assign (\<lambda>x. put_status_reason None (put_status RUNNING x)) u)
           (\<lambda>_. nd_on_container_started nd u)))))"

definition stop :: "'w docker_client \<Rightarrow> 'w network_driver \<Rightarrow> string \<Rightarrow> int option \<Rightarrow> ('w, unit) op" where
  "stop dk nd u timeout =
     check_container_id u (wrap_docker_error u (docker_client
       (sbind (with_id u (\<lambda>i. dk_stop dk i timeout))
         (\<lambda>_. sbind (assign (\<lambda>x. put_status_reason None (put_status STOPPED x)) u)
           (\<lambda>_. scatch (nd_on_container_stopped nd u) (\<lambda>_. sreturn ()))))))"

definition start :: "'w docker_client \<Rightarrow> 'w network_driver \<Rightarrow> string \<Rightarrow> ('w, unit) op" where
  "start dk nd u =
     check_container_id u (wrap_docker_error u (docker_client
       (sbind (with_id u (dk_start dk))
         (\<lambda>_. sbind (assign (\<lambda>x. put_status_reason None (put_status RUNNING x)) u)
           (\<lambda>_. scatch (nd_on_container_started nd u)
             (\<lambda>_. sbind (scatch (sbind (with_id u (\<lambda>i. dk_stop dk i (Some 5))) (\<lambda>_. nd_on_container_stopped nd u))
                               (\<lambda>_. sreturn ()))
               (\<lambda>_. assign (\<lambda>x. put_status_reason (Some (Text ''failed to configure network''))
                                   (put_status STOPPED x)) u)))))))"

definition pause :: "'w docker_client \<Rightarrow> string \<Rightarrow> ('w, unit) op" where
  "pause dk u =
     check_container_id u (wrap_docker_error u (docker_client
       (sbind (with_id u (dk_pause dk))
         (\<lambda>_. assign (\<lambda>x. put_status_reason None (put_status PAUSED x)) u))))"

definition unpause :: "'w docker_client \<Rightarrow> string \<Rightarrow> ('w, unit) op" where
  "unpause dk u =
     check_container_id u (wrap_docker_error u (docker_client
       (sbind (with_id u (dk_unpause dk))
         (\<lambda>_. assign (\<lambda>x. put_status_reason None (put_status RUNNING x)) u))))"

definition kill :: "'w docker_client \<Rightarrow> string \<Rightarrow> string option \<Rightarrow> ('w, unit) op" where
  "kill dk u signal =
     check_container_id u (wrap_docker_error u (docker_client
       (sbind (with_id u (\<lambda>i. dk_kill dk i (if signal = Some ''None'' then None else signal)))
         (\<lambda>_. assign (\<lambda>x. put_status_reason None (put_status STOPPED x)) u))))"

definition update :: "'w docker_client \<Rightarrow> string \<Rightarrow> ('w, unit) op" where
  \<comment> \<open>the changed memory, in megabytes, and CPU shares\<close>
  "update dk u =
     check_container_id u (wrap_docker_error u
       (\<lambda>w. let memory = (if F_memory \<in> w_changed w u then k_memory (w_objs w u) else None);
                shares = (if F_cpu \<in> w_changed w u then map_option (\<lambda>c. py_int (1024 * c)) (k_cpu (w_objs w u)) else None)
            in docker_client (with_id u (\<lambda>i. dk_update_container dk i memory shares)) w))"

definition resize :: "'w docker_client \<Rightarrow> string \<Rightarrow> int \<Rightarrow> int \<Rightarrow> ('w, unit) op" where
  "resize dk u height width =
     check_container_id u (wrap_docker_error u (docker_client (with_id u (\<lambda>i. dk_resize dk i height width))))"

section \<open>Deletion\<close>

definition cleanup_network_for_container :: "'w network_driver \<Rightarrow> string \<Rightarrow> ('w, unit) op" where
  \<comment> \<open>the decorator \<open>wrap_docker_error\<close> takes its third argument, here the network driver, for
    the container, and the network driver has no status\<close>
  "cleanup_network_for_container nd u =
     scatch (sbind (get_obj u) (\<lambda>c. sforeach (dict_keys (k_addresses c)) (\<lambda>net. nd_disconnect nd u net)))
       (\<lambda>e. if \<not> is_docker_error e then sraise e
            else if is_not_found e then sraise PyAttributeError
            else if is_conflict e then sraise (Conflict (Str e)) else sraise e)"

definition exposing :: "'w world \<Rightarrow> string \<Rightarrow> string list \<times> cont" where
  \<comment> \<open>the exposed ports and the container that the variable names after collecting them\<close>
  "exposing w u =
     (let c = w_objs w u; members = map (w_objs w) (k_init_containers c @ k_containers c)
      in case k_type c of
           Container_obj \<Rightarrow> (k_exposed_ports c, c)
         | Capsule_obj \<Rightarrow> (concat (map k_exposed_ports members), if members = [] then c else last members)
         | _ \<Rightarrow> ([], c))"

definition cleanup_exposed_ports :: "'w network_driver \<Rightarrow> string \<Rightarrow> ('w, unit) op" where
  "cleanup_exposed_ports nd u w =
     (case exposing w u of
        (ports, c) \<Rightarrow>
          if ports = [] then (Inr (), w)
          else case k_security_groups c of
                 [] \<Rightarrow> (Inl PyIndexError, w)
               | g # _ \<Rightarrow>
                   scatch (nd_delete_security_group nd g)
                     (\<lambda>e. case e of NeutronError _ \<Rightarrow> sreturn () | PortNotFoundClient _ \<Rightarrow> sreturn () | _ \<Rightarrow> sraise e) w)"

fun tolerate_gone :: "exn \<Rightarrow> ('w, unit) op" where
  "tolerate_gone (APIError m) =
     (if is_not_found (APIError m) \<or> is_not_connected (APIError m) then sreturn () else sraise (APIError m))"
| "tolerate_gone e = sraise e"

definition delete :: "'w docker_client \<Rightarrow> 'w network_driver \<Rightarrow> string \<Rightarrow> bool \<Rightarrow> ('w, unit) op" where
  "delete dk nd u force =
     docker_client (scatch
       (sbind (cleanup_network_for_container nd u)
         (\<lambda>_. sbind (cleanup_exposed_ports nd u)
           (\<lambda>_. sbind (get_obj u)
             (\<lambda>c. if truthy (k_container_id c) then with_id u (\<lambda>i. dk_remove_container dk i force) else sreturn ()))))
       tolerate_gone)"

definition delete_container_in_capsule :: "'w docker_client \<Rightarrow> string \<Rightarrow> bool \<Rightarrow> ('w, unit) op" where
  "delete_container_in_capsule dk u force =
     sbind (get_obj u)
       (\<lambda>c. if \<not> truthy (k_container_id c) then sreturn ()
            else docker_client (scatch
              (sbind (with_id u (\<lambda>i. dk_stop dk i None)) (\<lambda>_. with_id u (\<lambda>i. dk_remove_container dk i force)))
              tolerate_gone))"

definition delete_capsule :: "'w docker_client \<Rightarrow> 'w network_driver \<Rightarrow> string \<Rightarrow> bool \<Rightarrow> ('w, unit) op" where
  \<comment> \<open>every API error of stopping the capsule's own container is dropped\<close>
  "delete_capsule dk nd u force =
     sbind (get_obj u)
       (\<lambda>c. sbind (sforeach (k_containers c @ k_init_containers c) (\<lambda>m. delete_container_in_capsule dk m force))
         (\<lambda>_. sbind (docker_client (scatch (with_id u (\<lambda>i. dk_stop dk i None))
                       (\<lambda>e. case e of APIError _ \<Rightarrow> sreturn () | _ \<Rightarrow> sraise e)))
           (\<lambda>_. delete dk nd u force)))"

definition check_container_exist :: "'w docker_client \<Rightarrow> string \<Rightarrow> ('w, bool) op" where
  "check_container_exist dk u =
     docker_client (sbind (on_env (dk_list_containers dk))
       (\<lambda>cs. sbind (get_obj u) (\<lambda>c. sreturn (k_container_id c \<in> Some ` set (map rs_id cs)))))"

section \<open>Reading the state\<close>

definition format_status_detail :: "int \<Rightarrow> int option \<Rightarrow> string option" where
  "format_status_detail now status_time =
     (case status_time of
        None \<Rightarrow> None
      | Some st \<Rightarrow>
          if st = 0 then Some []
          else (let delta = now - st; days = delta div 86400; seconds = delta mod 86400
                in if days \<noteq> 0 then Some (show_int days @ '' days'')
                   else if seconds div 3600 \<noteq> 0 then Some (show_int (seconds div 3600) @ '' hours'')
                   else if (seconds mod 3600) div 60 \<noteq> 0 then Some (show_int ((seconds mod 3600) div 60) @ '' mins'')
                   else if seconds \<noteq> 0 then Some (show_int seconds @ '' seconds'')
                   else None))"

definition show_opt :: "string option \<Rightarrow> string" where
  \<comment> \<open>formatting None gives the text None\<close>
  "show_opt x = (case x of None \<Rightarrow> ''None'' | Some s \<Rightarrow> s)"

definition settle_detail :: "string option \<Rightarrow> tobj \<Rightarrow> tobj" where
  "settle_detail d x = (if d = None then put_status_detail None x else x)"

definition stable_when_created :: "status list" where
  "stable_when_created = [CREATED, RESTARTING, ERROR, REBUILDING]"

definition populate_dict_state :: "int \<Rightarrow> state_dict \<Rightarrow> tobj \<Rightarrow> tobj" where
  "populate_dict_state now sd x =
     (if sd_error sd then
        (let x1 = (if sd_status sd \<in> {''exited'', ''removing''} then put_status STOPPED x
                   else case status_of_text (capitalize (sd_status sd)) of None \<Rightarrow> x | Some st \<Rightarrow> put_status st x);
             d = format_status_detail now (sd_finished_at sd)
         in settle_detail d (put_status_detail
              (Some (''Exited('' @ show_int (sd_exit_code sd) @ '') '' @ show_opt d @ '' ago (error)'')) x1))
      else if sd_paused sd then
        (let d = format_status_detail now (sd_started_at sd)
         in settle_detail d (put_status_detail (Some (''Up '' @ show_opt d @ '' (paused)'')) (put_status PAUSED x)))
      else if sd_restarting sd then put_status_detail (Some ''Restarting'') (put_status RESTARTING x)
      else if sd_running sd then
        (let d = format_status_detail now (sd_started_at sd)
         in settle_detail d (put_status_detail (Some (''Up '' @ show_opt d)) (put_status RUNNING x)))
      else if sd_dead sd then put_status_detail (Some ''Dead'') (put_status DEAD x)
      else
        (let started_at = format_status_detail now (sd_started_at sd);
             finished_at = format_status_detail now (sd_finished_at sd)
         in if started_at = Some [] \<and> k_status (fst x) = CREATING
            then put_status_detail (Some ''Created'') (put_status CREATED x)
            else if started_at = Some [] \<and> k_status (fst x) \<in> set stable_when_created then x
            else if started_at \<noteq> Some [] \<and> finished_at = Some []
            then put_status_detail (Some []) (put_status_reason (Some (Text ''unexpected container state''))
                   (put_status UNKNOWN x))
            else if started_at \<noteq> Some [] \<and> finished_at \<noteq> Some []
            then put_status_detail (Some (''Exited('' @ show_int (sd_exit_code sd) @ '') '' @ show_opt finished_at @ '' ago ''))
                   (put_status STOPPED x)
            else x))"

definition populate_text_state :: "string \<Rightarrow> tobj \<Rightarrow> tobj" where
  "populate_text_state text x =
     (let state = lower text
      in put_status_detail None
        (if state = ''created'' \<and> k_status (fst x) = CREATING then put_status CREATED x
         else if state = ''created'' \<and> k_status (fst x) \<in> set stable_when_created then x
         else if state = ''paused'' then put_status PAUSED x
         else if state = ''running'' then put_status RUNNING x
         else if state = ''dead'' then put_status DEAD x
         else if state = ''restarting'' then put_status RESTARTING x
         else if state \<in> {''exited'', ''removing''} then put_status STOPPED x
         else put_status_reason (Some (Text ''unexpected container state'')) (put_status UNKNOWN x)))"

definition populate_container_state :: "int \<Rightarrow> docker_state \<Rightarrow> bool \<Rightarrow> tobj \<Rightarrow> tobj" where
  "populate_container_state now state force x =
     (if k_task_state (fst x) \<noteq> None \<and> \<not> force then x
      else case state of
             Missing_state \<Rightarrow>
               put_status_detail None (put_status_reason (Some (Text ''container state is missing'')) (put_status UNKNOWN x))
           | Dict_state sd \<Rightarrow> populate_dict_state now sd x
           | Text_state s \<Rightarrow> populate_text_state s x)"

definition populate_hostname_and_ports :: "string option \<times> int list \<Rightarrow> tobj \<Rightarrow> tobj" where
  "populate_hostname_and_ports config x =
     put F_ports (k_ports_update (\<lambda>_. snd config))
       (if k_hostname (fst x) = None then put F_hostname (k_hostname_update (\<lambda>_. fst config)) x else x)"

definition populate_container :: "int \<Rightarrow> response \<Rightarrow> bool \<Rightarrow> tobj \<Rightarrow> tobj" where
  "populate_container now resp force x =
     (let x1 = populate_container_state now (rs_state resp) force x;
          x2 = (case rs_config resp of None \<Rightarrow> x1 | Some cfg \<Rightarrow> populate_hostname_and_ports cfg x1)
      in case rs_runtime resp of None \<Rightarrow> x2 | Some r \<Rightarrow> put F_runtime (k_runtime_update (\<lambda>_. r)) x2)"

definition show_container :: "'w docker_client \<Rightarrow> string \<Rightarrow> ('w, unit) op" where
  "show_container dk u =
     docker_client (sbind (get_obj u)
       (\<lambda>c. if k_container_id c = None then sreturn ()
            else sbind (scatch (sbind (with_id u (dk_inspect_container dk)) (\<lambda>r. sreturn (Some r)))
                          (\<lambda>e. case e of
                                 APIError _ \<Rightarrow> if is_not_found e
                                               then sbind (handle_not_found e u True) (\<lambda>_. sreturn None) else sraise e
                               | _ \<Rightarrow> sraise e))
              (\<lambda>resp. case resp of
                         None \<Rightarrow> sreturn ()
                       | Some r \<Rightarrow> (\<lambda>w. assign (populate_container (dk_now dk (w_env w)) r False) u w))))"

section \<open>Synchronisation\<close>

definition get_local_containers :: "string \<Rightarrow> string list \<Rightarrow> 'w world \<Rightarrow> cont list" where
  "get_local_containers h uuids w =
     filter (\<lambda>c. k_type c = Container_obj \<and> (k_uuid c \<in> set uuids \<or> k_host c = Some h)) (dict_values (w_rows w))"

definition unstable :: "status list" where
  "unstable = [CREATING, DELETING, DELETED]"

fun populate_local :: "int \<Rightarrow> (string, response) dict \<Rightarrow> cont list \<Rightarrow> tobj list \<times> tobj list" where
  \<comment> \<open>the loop of \<open>list\<close>: the containers, and those that Docker does not know\<close>
  "populate_local now ids [] = ([], [])"
| "populate_local now ids (c # cs) =
     (case populate_local now ids cs of
        (locals, gone) \<Rightarrow>
          if k_status c \<in> set unstable then ((c, {}) # locals, gone)
          else case k_container_id c of
                 None \<Rightarrow> ((c, {}) # locals, (c, {}) # gone)
               | Some i \<Rightarrow>
                   if i = [] then ((c, {}) # locals, (c, {}) # gone)
                   else case dict_get ids i of
                          None \<Rightarrow> ((c, {}) # locals, (c, {}) # gone)
                        | Some r \<Rightarrow> (populate_container now r False (c, {}) # locals, gone))"

definition list_containers :: "'w docker_client \<Rightarrow> string \<Rightarrow> ('w, tobj list \<times> tobj list) op" where
  "list_containers dk h =
     sbind (docker_client (on_env (dk_list_containers dk)))
       (\<lambda>cs w. (Inr (populate_local (dk_now dk (w_env w)) (dict_update [] (map (\<lambda>r. (rs_id r, r)) cs))
                      (get_local_containers h (List.map_filter rs_uuid cs) w)), w))"

definition heal_with_rebuilding_container :: "tobj \<Rightarrow> ('w, unit) op" where
  \<comment> \<open>\<open>manager.container_rebuild\<close> is called without its \<open>run\<close> argument\<close>
  "heal_with_rebuilding_container x =
     (if \<not> truthy (k_container_id (fst x)) then sreturn ()
      else scatch
        (if k_auto_heal (fst x) \<and> k_status (fst x) \<in> set (VALID_STATES Rebuild)
         then sbind (log_event (ActionStart (k_uuid (fst x)) ''rebuild'')) (\<lambda>_. sraise PyTypeError)
         else save_as (k_uuid (fst x))
                (put_status_reason (Some (Text (''No such container: '' @ show_opt (k_container_id (fst x)) @ '' in docker'')))
                  (put_status ERROR x)))
        (\<lambda>_. sreturn ()))"

definition by_container_id :: "tobj list \<Rightarrow> (string, tobj) dict" where
  "by_container_id xs =
     dict_update [] (List.map_filter (\<lambda>x. if truthy (k_container_id (fst x)) then map_option (\<lambda>i. (i, x)) (k_container_id (fst x)) else None) xs)"

definition sync_one :: "string \<Rightarrow> tobj \<Rightarrow> tobj \<Rightarrow> ('w, unit) op" where
  "sync_one h x local =
     (let x1 = put_status (k_status (fst local)) x
      in sbind (if k_status (fst x) \<noteq> k_status (fst local) then save_as (k_uuid (fst x)) x1 else sreturn ())
           (\<lambda>_. if k_host (fst x) \<noteq> Some h then save_as (k_uuid (fst x)) (put_host (Some h) (fst x1, {})) else sreturn ()))"

definition handle_gone :: "string \<Rightarrow> tobj \<Rightarrow> ('w, unit) op" where
  "handle_gone h x =
     (if k_host (fst x) = Some h
      then if k_auto_remove (fst x) then save_as (k_uuid (fst x)) (put_status DELETED x)
           else heal_with_rebuilding_container x
      else sreturn ())"

definition update_containers_states :: "'w docker_client \<Rightarrow> string \<Rightarrow> cont list \<Rightarrow> ('w, unit) op" where
  \<comment> \<open>the common identifiers form a set, which is visited in the order of the given containers\<close>
  "update_containers_states dk h containers =
     sbind (list_containers dk h)
       (\<lambda>(locals, gone).
          if locals = [] then sreturn ()
          else let local_map = by_container_id locals; given = by_container_id (map (\<lambda>c. (c, {})) containers)
               in sbind (sforeach given (\<lambda>(i, x). case dict_get local_map i of None \<Rightarrow> sreturn () | Some l \<Rightarrow> sync_one h x l))
                    (\<lambda>_. sforeach gone (handle_gone h)))"

section \<open>Networks and security groups\<close>

definition get_security_group_ids :: "'w network_driver \<Rightarrow> string list \<Rightarrow> ('w, string list option) op" where
  "get_security_group_ids nd groups =
     (if groups = [] then sreturn None
      else sbind (nd_list_security_groups nd)
        (\<lambda>known. let ids = map fst (filter (\<lambda>(i, name). name \<in> set groups \<or> i \<in> set groups) known)
                 in if length ids \<ge> length groups then sreturn (Some ids)
                    else sraise (ZunException (Text ''Any of the security group is not found''))))"

definition network_detach :: "'w network_driver \<Rightarrow> string \<Rightarrow> string \<Rightarrow> ('w, unit) op" where
  "network_detach nd u network =
     wrap_docker_error u (docker_client
       (sbind (nd_disconnect nd u network)
         (\<lambda>_. sbind (get_obj u)
           (\<lambda>c. if dict_get (k_addresses c) network = None then sraise PyKeyError
                else sbind (assign (put F_addresses (k_addresses_update (dict_del network))) u) (\<lambda>_. save u)))))"

definition network_attach :: "'w network_driver \<Rightarrow> string \<Rightarrow> req_network \<Rightarrow> ('w, unit) op" where
  "network_attach nd u req =
     docker_client (sbind (get_obj u)
       (\<lambda>c. sbind (get_security_group_ids nd (k_security_groups c))
         (\<lambda>ids. if rn_network req \<in> set (dict_keys (k_addresses c))
                then sraise (ZunException (Text ''Container has already connected to the network''))
                else sbind (nd_get_or_create_network nd (rn_network req))
                  (\<lambda>_. sbind (nd_connect nd u req ids)
                    (\<lambda>addrs. case addrs of
                        None \<Rightarrow> sraise (ZunException (Text ''Unexpected missing of addresses''))
                      | Some a \<Rightarrow> sbind (assign (put F_addresses (k_addresses_update (dict_set (rn_network req) a))) u)
                                    (\<lambda>_. save u))))))"

definition add_security_group :: "'w network_driver \<Rightarrow> string \<Rightarrow> string \<Rightarrow> ('w, unit) op" where
  "add_security_group nd u g = docker_client (nd_add_security_groups nd u [g])"

definition remove_security_group :: "'w network_driver \<Rightarrow> string \<Rightarrow> string \<Rightarrow> ('w, unit) op" where
  "remove_security_group nd u g = docker_client (nd_remove_security_groups nd u [g])"

end
