(* ===== verification/Container_Manager.thy ===== *)
theory Container_Manager
  imports Docker_Driver
begin

text \<open>
  The compute manager (\<^verbatim>\<open>zun/compute/manager.py\<close>): the life of a container on its
  host, from the claim of its resources to its removal, with the volumes that are attached to
  it. The container driver and the volume drivers are chosen at run time, and are parameters.
\<close>

section \<open>What the manager calls\<close>

record image =
  im_repo :: string
  im_tag :: string
  im_path :: "string option"
  im_driver :: string

record 'w volume_driver =
  vd_attach :: "volmap \<Rightarrow> ('w, exn, unit) st"
  vd_detach :: "volmap \<Rightarrow> ('w, exn, unit) st"
  vd_delete :: "volmap \<Rightarrow> ('w, exn, unit) st"
  vd_is_volume_available :: "volmap \<Rightarrow> ('w, exn, bool \<times> bool) st"
  vd_is_volume_deleted :: "volmap \<Rightarrow> ('w, exn, bool \<times> bool) st"

record 'w driver =
  d_create :: "string \<Rightarrow> image \<Rightarrow> req_network list \<Rightarrow> (string, volmap list) dict \<Rightarrow> ('w, unit) op"
  d_create_capsule :: "string \<Rightarrow> image \<Rightarrow> req_network list \<Rightarrow> (string, volmap list) dict \<Rightarrow> ('w, unit) op"
  d_delete :: "string \<Rightarrow> bool \<Rightarrow> ('w, unit) op"
  d_delete_capsule :: "string \<Rightarrow> bool \<Rightarrow> ('w, unit) op"
  d_start :: "string \<Rightarrow> ('w, unit) op"
  d_stop :: "string \<Rightarrow> int option \<Rightarrow> ('w, unit) op"
  d_reboot :: "string \<Rightarrow> int option \<Rightarrow> ('w, unit) op"
  d_pause :: "string \<Rightarrow> ('w, unit) op"
  d_unpause :: "string \<Rightarrow> ('w, unit) op"
  d_kill :: "string \<Rightarrow> string option \<Rightarrow> ('w, unit) op"
  d_show :: "string \<Rightarrow> ('w, unit) op"
  d_update :: "string \<Rightarrow> ('w, unit) op"
  d_resize :: "string \<Rightarrow> int \<Rightarrow> int \<Rightarrow> ('w, unit) op"
  d_check_container_exist :: "string \<Rightarrow> ('w, bool) op"
  d_pull_image :: "string \<Rightarrow> string \<Rightarrow> string \<Rightarrow> string option \<Rightarrow> ('w, exn, image \<times> bool) st"
  d_load_image :: "string option \<Rightarrow> ('w, exn, unit) st"
  d_read_tar_image :: "image \<Rightarrow> ('w, exn, image) st"
  d_network_attach :: "string \<Rightarrow> req_network \<Rightarrow> ('w, unit) op"
  d_network_detach :: "string \<Rightarrow> string \<Rightarrow> ('w, unit) op"
  d_add_security_group :: "string \<Rightarrow> string \<Rightarrow> ('w, unit) op"
  d_remove_security_group :: "string \<Rightarrow> string \<Rightarrow> ('w, unit) op"
  d_list :: "('w, tobj list \<times> tobj list) op"
  d_update_containers_states :: "cont list \<Rightarrow> ('w, unit) op"
  d_base_size :: "rat option"
  d_disk_quota :: bool
  d_cpu_ratio :: rat
  d_ram_ratio :: rat

text \<open>
  The rest of the manager's environment. \<open>m_polls\<close> is the number of times that a volume is
  polled before the wait for it times out, \<open>m_parse_image\<close> the parser of image names,
  \<open>m_delete_allocation\<close> the exchange with the placement service.
\<close>

record 'w manager =
  m_host :: string
  m_driver :: "'w driver"
  m_volume_drivers :: "(string, 'w volume_driver) dict"
  m_publisher :: publisher
  m_polls :: nat
  m_default_disk :: int
  m_parse_image :: "cont \<Rightarrow> (exn, string \<times> string) res"
  m_pull_policy :: "cont \<Rightarrow> string"
  m_delete_allocation :: "string \<Rightarrow> ('w, exn, unit) st"
  m_get_port :: "string \<Rightarrow> ('w, exn, unit) st"
  m_get_network :: "string \<Rightarrow> ('w, exn, unit) st"
  m_now :: "'w \<Rightarrow> int"
  m_remount :: bool
  m_resume :: bool
  m_default_timeout :: int

definition sfinally :: "('s, 'e, 'a) st \<Rightarrow> ('s, 'e, unit) st \<Rightarrow> ('s, 'e, 'a) st" where
  "sfinally m f s =
     (case m s of (r, s1) \<Rightarrow> (case f s1 of (Inl e, s2) \<Rightarrow> (Inl e, s2) | (Inr _, s2) \<Rightarrow> (r, s2)))"

definition reraising :: "'e \<Rightarrow> ('s, 'e, unit) st \<Rightarrow> ('s, 'e, 'a) st" where
  \<comment> \<open>\<open>with excutils.save_and_reraise_exception()\<close>\<close>
  "reraising e m = sbind m (\<lambda>_. sraise e)"

definition spawn_n :: "task \<Rightarrow> ('w, unit) op" where
  "spawn_n t = smodify (\<lambda>w. w\<lparr>w_tasks := w_tasks w @ [t]\<rparr>)"

definition update_task_state :: "string \<Rightarrow> task_state \<Rightarrow> ('w, 'a) op \<Rightarrow> ('w, 'a) op" where
  "update_task_state u ts m =
     sbind (get_obj u)
       (\<lambda>c. if k_task_state c \<noteq> None then m
            else sbind (assign (put_task_state (Some ts)) u)
              (\<lambda>_. sbind (save u)
                (\<lambda>_. sfinally m (sbind (assign (put_task_state None) u) (\<lambda>_. save u)))))"

section \<open>Volumes\<close>

definition volume_call ::
    "'w manager \<Rightarrow> ('w volume_driver \<Rightarrow> volmap \<Rightarrow> ('w, exn, 'a) st) \<Rightarrow> volmap \<Rightarrow> ('w, 'a) op" where
  \<comment> \<open>\<open>_get_volume_driver\<close> and a call of the driver found\<close>
  "volume_call M f v =
     (case dict_get (m_volume_drivers M) (v_provider v) of
        None \<Rightarrow> sraise (ZunException (Text (''The volume provider '' @ v_provider v @ '' is not supported'')))
      | Some d \<Rightarrow> on_env (f d v))"

text \<open>A mapping carries the identifier of its volume, which \<open>create\<close> makes when there is none.
  A volume goes with its last mapping.\<close>

definition create_volmap :: "volmap \<Rightarrow> ('w, unit) op" where
  "create_volmap v = smodify (\<lambda>w. w\<lparr>w_volmaps := w_volmaps w @ [v]\<rparr>)"

definition destroy_volmap :: "volmap \<Rightarrow> ('w, unit) op" where
  "destroy_volmap v w =
     (if v_uuid v \<notin> set (map v_uuid (w_volmaps w)) then (Inl (ZunException (Text ''Volume mapping could not be found.'')), w)
      else let rest = filter (\<lambda>v'. v_uuid v' \<noteq> v_uuid v) (w_volmaps w)
           in (Inr (), w\<lparr>w_volmaps := rest,
                w_connected := (if list_ex (\<lambda>v'. v_volume_id v' = v_volume_id v) rest then w_connected w
                                else removeAll (v_volume_id v) (w_connected w))\<rparr>))"

definition list_by_container :: "string \<Rightarrow> 'w world \<Rightarrow> volmap list" where
  "list_by_container u w = filter (\<lambda>v. v_container v = u) (w_volmaps w)"

definition detach_volume :: "'w manager \<Rightarrow> bool \<Rightarrow> volmap \<Rightarrow> ('w, unit) op" where
  "detach_volume M reraise v =
     sbind sget
       (\<lambda>w. sbind (if length (filter (\<lambda>v'. v_volume_id v' = v_volume_id v) (w_volmaps w)) = 1
                   then scatch (volume_call M vd_detach v) (\<lambda>e. if reraise then sraise e else sreturn ())
                   else sreturn ())
         (\<lambda>_. destroy_volmap v))"

fun poll_deleted :: "'w manager \<Rightarrow> nat \<Rightarrow> volmap \<Rightarrow> volmap list \<Rightarrow> ('w, bool) op" where
  \<comment> \<open>the loop of \<open>_wait_for_volumes_deleted\<close>: whether the iterator ran out\<close>
  "poll_deleted M 0 v vs = sreturn False"
| "poll_deleted M (Suc n) v vs =
     (let poll = (\<lambda>v vs. sbind (volume_call M vd_is_volume_deleted v)
                    (\<lambda>(is_deleted, is_error).
                       if is_deleted
                       then (case vs of [] \<Rightarrow> sreturn True
                             | v' # vs' \<Rightarrow> if is_error then sreturn False else poll_deleted M n v' vs')
                       else if is_error then sreturn False else poll_deleted M n v vs))
      in if \<not> v_auto_remove v then (case vs of [] \<Rightarrow> sreturn True | v' # vs' \<Rightarrow> poll v' vs') else poll v vs)"

definition timed_out :: "string \<Rightarrow> msg" where
  "timed_out what = Text (''Volumes '' @ what)"

definition wait_for_volumes_deleted ::
    "'w manager \<Rightarrow> (string \<Rightarrow> msg \<Rightarrow> bool \<Rightarrow> ('w, unit) op) \<Rightarrow> volmap list \<Rightarrow> string \<Rightarrow> ('w, unit) op" where
  "wait_for_volumes_deleted M fail vs u =
     (case vs of
        [] \<Rightarrow> sreturn ()
      | v # vs' \<Rightarrow>
          sbind (poll_deleted M (m_polls M) v vs')
            (\<lambda>done. if done then sreturn ()
                    else sbind (fail u (timed_out ''cannot be successfully deleted'') True)
                      (\<lambda>_. sraise (Conflict (timed_out ''cannot be successfully deleted'')))))"

fun detach_each :: "'w manager \<Rightarrow> bool \<Rightarrow> volmap list \<Rightarrow> ('w, volmap list) op" where
  \<comment> \<open>the loop of \<open>_detach_volumes\<close>; returns the volumes that it removed\<close>
  "detach_each M reraise [] = sreturn []"
| "detach_each M reraise (v # vs) =
     sbind sget
       (\<lambda>w. let db_volmaps = filter (\<lambda>v'. v_cinder_volume_id v' = v_cinder_volume_id v) (w_volmaps w)
            in sbind (detach_volume M reraise v)
                 (\<lambda>_. if v_auto_remove v \<and> length db_volmaps = 1
                      then sbind (volume_call M vd_delete v)
                             (\<lambda>_. sbind (detach_each M reraise vs) (\<lambda>removed. sreturn (v # removed)))
                      else detach_each M reraise vs))"

definition detach_own_volumes ::
    "'w manager \<Rightarrow> (string \<Rightarrow> msg \<Rightarrow> bool \<Rightarrow> ('w, unit) op) \<Rightarrow> string \<Rightarrow> bool \<Rightarrow> ('w, unit) op" where
  "detach_own_volumes M fail u reraise =
     sbind sget
       (\<lambda>w. sbind (detach_each M reraise (list_by_container u w))
         (\<lambda>removed. wait_for_volumes_deleted M fail removed u))"

definition detach_volumes_with ::
    "'w manager \<Rightarrow> (string \<Rightarrow> msg \<Rightarrow> bool \<Rightarrow> ('w, unit) op) \<Rightarrow> string \<Rightarrow> bool \<Rightarrow> ('w, unit) op" where
  \<comment> \<open>\<open>_detach_volumes\<close>, for a capsule over its containers\<close>
  "detach_volumes_with M fail u reraise =
     sbind (get_obj u)
       (\<lambda>c. if k_type c = Capsule_obj
            then sforeach (k_init_containers c @ k_containers c) (\<lambda>m. detach_own_volumes M fail m reraise)
            else detach_own_volumes M fail u reraise)"

section \<open>Failing a container\<close>

text \<open>
  \<open>_fail_container\<close> detaches the volumes, which may wait for their removal, and a wait that
  times out fails the container again. The fuel bounds the depth of this recursion; two
  levels are enough, since the second finds no volume.
\<close>

fun fail_fuel :: "nat \<Rightarrow> 'w manager \<Rightarrow> string \<Rightarrow> msg \<Rightarrow> bool \<Rightarrow> ('w, unit) op" where
  "fail_fuel 0 M u err unset_host = sraise RecursionError"
| "fail_fuel (Suc n) M u err unset_host =
     sbind (scatch (detach_volumes_with M (fail_fuel n M) u True)
              (\<lambda>_. sreturn ()))
       (\<lambda>_. sbind (assign (\<lambda>x. put_status_reason (Some err) (put_status ERROR x)) u)
         (\<lambda>_. sbind (if unset_host then assign (put_host None) u else sreturn ())
           (\<lambda>_. save u)))"

definition fail_container :: "'w manager \<Rightarrow> string \<Rightarrow> msg \<Rightarrow> bool \<Rightarrow> ('w, unit) op" where
  "fail_container M = fail_fuel 2 M"

definition detach_volumes :: "'w manager \<Rightarrow> string \<Rightarrow> bool \<Rightarrow> ('w, unit) op" where
  "detach_volumes M = detach_volumes_with M (fail_container M)"

definition failing :: "'w manager \<Rightarrow> string \<Rightarrow> bool \<Rightarrow> ('w, 'a) op \<Rightarrow> ('w, 'a) op" where
  \<comment> \<open>the handlers that fail the container with the exception's text and raise it again\<close>
  "failing M u unset_host m = scatch m (\<lambda>e. reraising e (fail_container M u (Str e) unset_host))"

section \<open>Creation\<close>

fun poll_available :: "'w manager \<Rightarrow> nat \<Rightarrow> volmap \<Rightarrow> volmap list \<Rightarrow> ('w, bool) op" where
  "poll_available M 0 v vs = sreturn False"
| "poll_available M (Suc n) v vs =
     sbind (volume_call M vd_is_volume_available v)
       (\<lambda>(is_available, is_error).
          if is_available
          then (case vs of [] \<Rightarrow> sreturn True
                | v' # vs' \<Rightarrow> if is_error then sreturn False else poll_available M n v' vs')
          else if is_error then sreturn False else poll_available M n v vs)"

definition wait_for_volumes_available :: "'w manager \<Rightarrow> (string, volmap list) dict \<Rightarrow> string \<Rightarrow> ('w, unit) op" where
  "wait_for_volumes_available M requested u =
     (case concat (dict_values requested) of
        [] \<Rightarrow> sreturn ()
      | v # vs \<Rightarrow>
          sbind (poll_available M (m_polls M) v vs)
            (\<lambda>done. if done then sreturn ()
               else sbind (sforeach (v # vs)
                       (\<lambda>v. if v_auto_remove v then scatch (volume_call M vd_delete v) (\<lambda>_. sreturn ()) else sreturn ()))
                 (\<lambda>_. sbind (fail_container M u (timed_out ''did not reach available status'') True)
                   (\<lambda>_. sraise (Conflict (timed_out ''did not reach available status''))))))"

definition attach_volume :: "'w manager \<Rightarrow> volmap \<Rightarrow> ('w, unit) op" where
  "attach_volume M v =
     scatch (sbind (volume_call M vd_attach v)
               (\<lambda>_. smodify (\<lambda>w. w\<lparr>w_connected := List.insert (v_volume_id v) (w_connected w)\<rparr>)))
       (\<lambda>e. reraising e
          (sbind (if v_auto_remove v then scatch (volume_call M vd_delete v) (\<lambda>_. sreturn ()) else sreturn ())
             (\<lambda>_. destroy_volmap v)))"

definition attach_own_volumes :: "'w manager \<Rightarrow> (string, volmap list) dict \<Rightarrow> string \<Rightarrow> ('w, unit) op" where
  "attach_own_volumes M requested u =
     failing M u True
       (sforeach (case dict_get requested u of None \<Rightarrow> [] | Some vs \<Rightarrow> vs)
          (\<lambda>v. let v1 = v\<lparr>v_container := u\<rparr>
               in sbind (create_volmap v1)
                    (\<lambda>_. sbind sget
                      (\<lambda>w. if v_volume_id v1 \<in> set (w_connected w) \<and>
                               k_type (w_objs w u) \<in> {CapsuleContainer_obj, CapsuleInitContainer_obj}
                            then sreturn () else attach_volume M v1))))"

definition attach_volumes :: "'w manager \<Rightarrow> (string, volmap list) dict \<Rightarrow> string \<Rightarrow> ('w, unit) op" where
  "attach_volumes M requested u =
     sbind (get_obj u)
       (\<lambda>c. if k_type c = Capsule_obj
            then sforeach (k_init_containers c @ k_containers c) (attach_own_volumes M requested)
            else attach_own_volumes M requested u)"

definition set_disk :: "int \<Rightarrow> string \<Rightarrow> ('w, unit) op" where
  "set_disk n = assign (put F_disk (k_disk_update (\<lambda>_. Some n)))"

definition check_support_disk_quota :: "'w manager \<Rightarrow> string \<Rightarrow> ('w, unit) op" where
  "check_support_disk_quota M u =
     sbind (get_obj u)
       (\<lambda>c. let disk = int_or_0 (k_disk c);
                refuse = (\<lambda>text. sbind (fail_container M u (Text text) True) (\<lambda>_. sraise (Invalid (Text text))));
                by_quota = (if \<not> d_disk_quota (m_driver M)
                            then if disk \<noteq> 0 then refuse ''Your host does not support disk quota feature.'' else sreturn ()
                            else if disk = 0 then set_disk (m_default_disk M) u else sreturn ())
            in case d_base_size (m_driver M) of
                 None \<Rightarrow> by_quota
               | Some b \<Rightarrow>
                   if b = 0 then by_quota
                   else if disk = 0 then set_disk \<lceil>max b (of_int (m_default_disk M))\<rceil> u
                   else if of_int disk < b then refuse ''Disk size cannot be smaller than the base device size.''
                   else by_quota)"

definition do_container_create_base ::
    "'w manager \<Rightarrow> string \<Rightarrow> req_network list \<Rightarrow> (string, volmap list) dict \<Rightarrow> ('w, unit) op" where
  "do_container_create_base M u nets vols =
     update_task_state u CONTAINER_CREATING
       (sbind (get_obj u)
         (\<lambda>c. sbind (slift (m_parse_image M c))
           (\<lambda>(repo, tag). sbind (failing M u False
                (sbind (on_env (d_pull_image (m_driver M) repo tag (m_pull_policy M c) (k_image_driver c)))
                  (\<lambda>(img, loaded). sbind (if loaded then sreturn () else on_env (d_load_image (m_driver M) (im_path img)))
                     (\<lambda>_. sreturn (img\<lparr>im_repo := repo, im_tag := tag\<rparr>)))))
             (\<lambda>img. sbind (assign (put F_image_driver (k_image_driver_update (\<lambda>_. Some (im_driver img)))) u)
               (\<lambda>_. sbind (save u)
                 (\<lambda>_. failing M u True
                    (sbind (if im_driver img = ''glance'' then on_env (d_read_tar_image (m_driver M) img) else sreturn img)
                      (\<lambda>img. if k_type c = Capsule_obj then d_create_capsule (m_driver M) u img nets vols
                             else if k_type c = Container_obj then d_create (m_driver M) u img nets vols
                             else sreturn ()))))))))"

text \<open>The container as the resource tracker sees it, and its calls on the world.\<close>

definition to_claim :: "cont \<Rightarrow> container" where
  "to_claim c = \<lparr>c_uuid = k_uuid c, c_memory = k_memory c, c_cpu = k_cpu c, c_disk = k_disk c,
     c_cpu_policy = k_cpu_policy c, c_cpuset_cpus = map_option fst (sp_cpuset (k_spec c)), c_host = k_host c\<rparr>"

definition on_tracker :: "(cn_tracker, trk_error, 'a) st \<Rightarrow> ('w, 'a) op" where
  "on_tracker m w =
     (case m (w_tracker w) of
        (Inl e, t) \<Rightarrow> (Inl (TrackerError e), w\<lparr>w_tracker := t\<rparr>)
      | (Inr x, t) \<Rightarrow> (Inr x, w\<lparr>w_tracker := t\<rparr>))"

definition claim_resources ::
    "'w manager \<Rightarrow> string \<Rightarrow> pci_request list option \<Rightarrow> limits option \<Rightarrow> ('w, ticket) op" where
  \<comment> \<open>\<open>rt.container_claim\<close>, which also sets and saves the host of the container; the save of
    the tracker's model is replayed on the object\<close>
  "claim_resources M u reqs lims w =
     (let w1 = w\<lparr>w_tracker := (w_tracker w)\<lparr>saved_host := []\<rparr>\<rparr>
      in case on_tracker (container_claim (m_publisher M) (to_claim (w_objs w1 u)) reqs lims) w1 of
           (r, w2) \<Rightarrow>
             if saved_host (w_tracker w2) = [] then (r, w2)
             else sbind (assign (put_host (Some (m_host M))) u) (\<lambda>_. sbind (save u) (\<lambda>_. slift r)) w2)"

definition claiming ::
    "'w manager \<Rightarrow> ticket \<Rightarrow> ('w, 'a) op \<Rightarrow> ('w, 'a) op" where
  \<comment> \<open>the body of a \<open>with claim\<close> statement\<close>
  "claiming M tk m = scatch m (\<lambda>e. reraising e (on_tracker (abort_ticket (m_publisher M) tk)))"

definition delete_allocation :: "'w manager \<Rightarrow> string \<Rightarrow> ('w, unit) op" where
  "delete_allocation M u =
     sbind (on_env (m_delete_allocation M u))
       (\<lambda>_. smodify (\<lambda>w. w\<lparr>w_allocations := removeAll u (w_allocations w)\<rparr>))"

fun is_unavailable :: "exn \<Rightarrow> bool" where
  "is_unavailable (TrackerError (ResourcesUnavailable _)) = True"
| "is_unavailable _ = False"

definition do_container_create ::
    "'w manager \<Rightarrow> string \<Rightarrow> req_network list \<Rightarrow> (string, volmap list) dict \<Rightarrow> pci_request list option \<Rightarrow>
     limits option \<Rightarrow> ('w, unit) op" where
  "do_container_create M u nets vols reqs lims =
     wrap_container_event ''_do_container_create'' None u
       (scatch (sbind (claim_resources M u reqs lims)
                  (\<lambda>tk. claiming M tk (do_container_create_base M u nets vols)))
          (\<lambda>e. if is_unavailable e
               then reraising e (sbind (fail_container M u (Str e) True) (\<lambda>_. delete_allocation M u))
               else sraise e))"

definition do_container_start :: "'w manager \<Rightarrow> string \<Rightarrow> ('w, unit) op" where
  "do_container_start M u =
     wrap_container_event ''_do_container_start'' None u
       (update_task_state u CONTAINER_STARTING
         (failing M u False
           (sbind (d_start (m_driver M) u)
             (\<lambda>_. sbind sget
               (\<lambda>w. sbind (assign (put F_started_at (k_started_at_update (\<lambda>_. Some (m_now M (w_env w))))) u)
                 (\<lambda>_. save u))))))"

definition create_thread ::
    "'w manager \<Rightarrow> string \<Rightarrow> limits option \<Rightarrow> req_network list \<Rightarrow> (string, volmap list) dict \<Rightarrow> bool \<Rightarrow>
     pci_request list option \<Rightarrow> ('w, unit) op" where
  "create_thread M u lims nets vols run reqs =
     finishing (ActionFinish u ''create'')
       (sbind (wait_for_volumes_available M vols u)
         (\<lambda>_. sbind (attach_volumes M vols u)
           (\<lambda>_. sbind (check_support_disk_quota M u)
             (\<lambda>_. sbind (do_container_create M u nets vols reqs lims)
               (\<lambda>_. if run then do_container_start M u else sreturn ())))))"

section \<open>Deletion\<close>

definition swallowing :: "'w manager \<Rightarrow> string \<Rightarrow> bool \<Rightarrow> ('w, unit) op \<Rightarrow> ('w, unit) op" where
  \<comment> \<open>the handlers of a deletion: the container fails, and the exception is raised again
    unless the deletion is forced\<close>
  "swallowing M u reraise m =
     scatch m (\<lambda>e. sbind (fail_container M u (Str e) False) (\<lambda>_. if reraise then sraise e else sreturn ()))"

definition do_container_delete :: "'w manager \<Rightarrow> string \<Rightarrow> bool \<Rightarrow> ('w, unit) op" where
  "do_container_delete M u force =
     sbind (update_task_state u CONTAINER_DELETING
         (sbind (get_obj u)
           (\<lambda>c. sbind (swallowing M u (\<not> force)
                   (if k_type c = Capsule_obj then d_delete_capsule (m_driver M) u force
                    else if k_type c = Container_obj then d_delete (m_driver M) u force
                    else sreturn ()))
             (\<lambda>_. detach_volumes M u (\<not> force)))))
       (\<lambda>_. sbind (get_obj u)
         (\<lambda>c. sbind (on_tracker (remove_usage_from_container (m_publisher M) (to_claim c) True))
           (\<lambda>_. sbind (delete_allocation M u) (\<lambda>_. destroy u))))"

section \<open>Operations on a created container\<close>

definition container_task ::
    "string \<Rightarrow> string \<Rightarrow> task_state \<Rightarrow> string \<Rightarrow> ('w, unit) op \<Rightarrow> ('w, unit option) op" where
  \<comment> \<open>the decorators and the task state that these operations share\<close>
  "container_task name a ts u m =
     wrap_exception (wrap_container_event name (Some a) u (update_task_state u ts m))"

definition do_container_reboot :: "'w manager \<Rightarrow> string \<Rightarrow> int option \<Rightarrow> ('w, unit option) op" where
  "do_container_reboot M u timeout =
     container_task ''_do_container_reboot'' ''reboot'' CONTAINER_REBOOTING u (d_reboot (m_driver M) u timeout)"

definition do_container_stop :: "'w manager \<Rightarrow> string \<Rightarrow> int option \<Rightarrow> ('w, unit option) op" where
  "do_container_stop M u timeout =
     container_task ''_do_container_stop'' ''stop'' CONTAINER_STOPPING u (d_stop (m_driver M) u timeout)"

definition do_container_pause :: "'w manager \<Rightarrow> string \<Rightarrow> ('w, unit option) op" where
  "do_container_pause M u =
     container_task ''_do_container_pause'' ''pause'' CONTAINER_PAUSING u (d_pause (m_driver M) u)"

definition do_container_unpause :: "'w manager \<Rightarrow> string \<Rightarrow> ('w, unit option) op" where
  "do_container_unpause M u =
     container_task ''_do_container_unpause'' ''unpause'' CONTAINER_UNPAUSING u (d_unpause (m_driver M) u)"

definition do_container_kill :: "'w manager \<Rightarrow> string \<Rightarrow> string option \<Rightarrow> ('w, unit option) op" where
  "do_container_kill M u signal =
     container_task ''_do_container_kill'' ''kill'' CONTAINER_KILLING u (d_kill (m_driver M) u signal)"

definition do_add_security_group :: "'w manager \<Rightarrow> string \<Rightarrow> string \<Rightarrow> ('w, unit option) op" where
  "do_add_security_group M u g =
     container_task ''_add_security_group'' ''add_security_group'' SG_ADDING u
       (sbind (d_add_security_group (m_driver M) u g)
         (\<lambda>_. sbind (assign (put F_security_groups (k_security_groups_update (\<lambda>gs. gs @ [g]))) u) (\<lambda>_. save u)))"

definition do_remove_security_group :: "'w manager \<Rightarrow> string \<Rightarrow> string \<Rightarrow> ('w, unit option) op" where
  \<comment> \<open>the list of a set difference; its order is not specified\<close>
  "do_remove_security_group M u g =
     container_task ''_remove_security_group'' ''remove_security_group'' SG_REMOVING u
       (sbind (d_remove_security_group (m_driver M) u g)
         (\<lambda>_. sbind (assign (put F_security_groups (k_security_groups_update (\<lambda>gs. filter (\<lambda>x. x \<noteq> g) (remdups gs)))) u)
           (\<lambda>_. save u)))"

definition do_network_attach :: "'w manager \<Rightarrow> string \<Rightarrow> req_network \<Rightarrow> ('w, unit option) op" where
  "do_network_attach M u req =
     container_task ''_do_network_attach'' ''network_attach'' NETWORK_ATTACHING u (d_network_attach (m_driver M) u req)"

definition do_network_detach :: "'w manager \<Rightarrow> string \<Rightarrow> string \<Rightarrow> ('w, unit option) op" where
  "do_network_detach M u net =
     container_task ''_do_network_detach'' ''network_detach'' NETWORK_DETACHING u (d_network_detach (m_driver M) u net)"

definition container_show :: "'w manager \<Rightarrow> string \<Rightarrow> ('w, unit) op" where
  "container_show M u =
     translate_exception (sbind (d_show (m_driver M) u)
       (\<lambda>_. sbind sget (\<lambda>w. if w_changed w u \<noteq> {} then save u else sreturn ())))"

definition container_resize :: "'w manager \<Rightarrow> string \<Rightarrow> int \<Rightarrow> int \<Rightarrow> ('w, unit) op" where
  "container_resize M u height width = translate_exception (d_resize (m_driver M) u height width)"

section \<open>Rebuilding\<close>

fun get_network_info :: "'w manager \<Rightarrow> (string, addr list) dict \<Rightarrow> ('w, req_network list) op" where
  "get_network_info M [] = sreturn []"
| "get_network_info M ((net, addrs) # rest) =
     (case addrs of
        [] \<Rightarrow> sraise PyIndexError
      | a # _ \<Rightarrow>
          sbind (on_env (m_get_port M (a_port a)))
            (\<lambda>_. sbind (on_env (m_get_network M net))
              (\<lambda>_. sbind (get_network_info M rest)
                (\<lambda>infos. sreturn (\<lparr>rn_network = net, rn_port = a_port a, rn_preserve = a_preserve_on_delete a\<rparr> # infos)))))"

definition preserve_ports :: "string \<Rightarrow> ('w, unit) op" where
  \<comment> \<open>the address dictionaries are changed in place, which records no changed field\<close>
  "preserve_ports u = smodify (\<lambda>w. w\<lparr>w_objs := (w_objs w)(u := (w_objs w u)\<lparr>k_addresses :=
     map (\<lambda>(n, addrs). (n, map (\<lambda>a. a\<lparr>a_preserve_on_delete := True\<rparr>) addrs)) (k_addresses (w_objs w u))\<rparr>)\<rparr>)"

definition do_container_rebuild :: "'w manager \<Rightarrow> string \<Rightarrow> bool \<Rightarrow> ('w, unit) op" where
  "do_container_rebuild M u run =
     wrap_container_event ''_do_container_rebuild'' (Some ''rebuild'') u
       (update_task_state u CONTAINER_REBUILDING
         (sbind sget (\<lambda>w. let vols = [(u, list_by_container u w)]
              in sbind (failing M u False (sbind (get_obj u) (\<lambda>c. get_network_info M (k_addresses c))))
                (\<lambda>nets. sbind (d_check_container_exist (m_driver M) u)
                  (\<lambda>present. sbind (if present
                        then sbind (preserve_ports u) (\<lambda>_. failing M u False (d_delete (m_driver M) u True))
                        else sreturn ())
                    (\<lambda>_. sbind (failing M u False
                           (sbind (do_container_create_base M u nets vols)
                             (\<lambda>_. sbind (assign (\<lambda>x. put_status_reason None (put_status CREATED x)) u) (\<lambda>_. save u))))
                      (\<lambda>_. if run then do_container_start M u else sreturn ())))))))"

section \<open>Updating resources\<close>

definition get_cpuset_limits :: "compute_node \<Rightarrow> cont \<Rightarrow> (exn, cpuset_limit) res" where
  \<comment> \<open>the memory of a container is a string, which Python does not compare with the memory of
    a node; it is compared once a node has enough CPUs\<close>
  "get_cpuset_limits cn c =
     (if numa_nodes cn = [] then Inl (ZunException (Text ''No valid host was found.''))
      else case k_cpu c of
             None \<Rightarrow> Inl PyTypeError
           | Some cpu \<Rightarrow>
               if \<exists>n \<in> set (numa_nodes cn). of_int (int (card (cpuset n)) - int (card (pinned_cpus n))) \<ge> cpu
               then Inl PyTypeError
               else Inl (ZunException (Text ''No valid host was found.'')))"

record patch =
  pt_memory :: "int option"
  pt_cpu :: "rat option"

definition apply_patch :: "patch \<Rightarrow> tobj \<Rightarrow> tobj" where
  \<comment> \<open>only the fields that differ are set\<close>
  "apply_patch p x =
     (let x1 = (case pt_memory p of None \<Rightarrow> x
                | Some m \<Rightarrow> if k_memory (fst x) \<noteq> Some m then put F_memory (k_memory_update (\<lambda>_. Some m)) x else x)
      in case pt_cpu p of None \<Rightarrow> x1
         | Some c \<Rightarrow> if k_cpu (fst x1) \<noteq> Some c then put F_cpu (k_cpu_update (\<lambda>_. Some c)) x1 else x1)"

definition update_limits :: "'w manager \<Rightarrow> compute_node \<Rightarrow> cont \<Rightarrow> (exn, limits) res" where
  "update_limits M cn c =
     (let l = \<lparr>lim_memory = Some (py_int (of_int (mem_total cn) * d_ram_ratio (m_driver M))),
               lim_cpu = Some (cpus cn * d_cpu_ratio (m_driver M)), lim_disk = None, lim_cpuset = None\<rparr>
      in if k_cpu_policy c = Some ''dedicated''
         then rbind (get_cpuset_limits cn c) (\<lambda>cl. Inr (l\<lparr>lim_cpuset := Some cl\<rparr>))
         else Inr l)"

definition container_update :: "'w manager \<Rightarrow> string \<Rightarrow> patch \<Rightarrow> ('w, unit) op" where
  "container_update M u p =
     translate_exception (sbind (get_obj u)
       (\<lambda>old. sbind (assign (apply_patch p) u)
         (\<lambda>_. sbind (get_obj u)
           (\<lambda>c. sbind sget (\<lambda>w. case compute_node (w_tracker w) of
                     None \<Rightarrow> sraise PyAttributeError
                   | Some cn \<Rightarrow>
                       sbind (slift (update_limits M cn c))
                         (\<lambda>lims. sbind (on_tracker (container_update_claim (m_publisher M) (to_claim c) (to_claim old) (Some lims)))
                           (\<lambda>tk. claiming M tk (sbind (d_update (m_driver M) u) (\<lambda>_. save u)))))))))"

section \<open>Handlers\<close>

text \<open>The handlers leave their work to a green thread.\<close>

definition container_create ::
    "string \<Rightarrow> limits option \<Rightarrow> req_network list \<Rightarrow> (string, volmap list) dict \<Rightarrow> bool \<Rightarrow> pci_request list option \<Rightarrow>
     ('w, unit) op" where
  "container_create u lims nets vols run reqs = spawn_n (Create_task u lims nets vols run reqs)"

definition container_delete :: "string \<Rightarrow> bool \<Rightarrow> ('w, unit) op" where
  "container_delete u force = translate_exception (spawn_n (Delete_task u force))"

definition container_start :: "string \<Rightarrow> ('w, unit) op" where
  "container_start u = spawn_n (Start_task u)"

definition container_stop :: "string \<Rightarrow> int option \<Rightarrow> ('w, unit) op" where
  "container_stop u timeout = spawn_n (Stop_task u timeout)"

definition container_reboot :: "string \<Rightarrow> int option \<Rightarrow> ('w, unit) op" where
  "container_reboot u timeout = spawn_n (Reboot_task u timeout)"

definition container_rebuild :: "string \<Rightarrow> bool \<Rightarrow> ('w, unit) op" where
  "container_rebuild u run = spawn_n (Rebuild_task u run)"

definition container_pause :: "string \<Rightarrow> ('w, unit) op" where
  "container_pause u = spawn_n (Pause_task u)"

definition container_unpause :: "string \<Rightarrow> ('w, unit) op" where
  "container_unpause u = spawn_n (Unpause_task u)"

definition container_kill :: "string \<Rightarrow> string option \<Rightarrow> ('w, unit) op" where
  "container_kill u signal = spawn_n (Kill_task u signal)"

definition manager_add_security_group :: "string \<Rightarrow> string \<Rightarrow> ('w, unit) op" where
  "manager_add_security_group u g = spawn_n (Add_security_group_task u g)"

definition manager_remove_security_group :: "string \<Rightarrow> string \<Rightarrow> ('w, unit) op" where
  "manager_remove_security_group u g = spawn_n (Remove_security_group_task u g)"

definition manager_network_attach :: "string \<Rightarrow> req_network \<Rightarrow> ('w, unit) op" where
  "manager_network_attach u req = spawn_n (Network_attach_task u req)"

definition manager_network_detach :: "string \<Rightarrow> string \<Rightarrow> ('w, unit) op" where
  "manager_network_detach u net = spawn_n (Network_detach_task u net)"

section \<open>Start of the service\<close>

definition init_container :: "'w manager \<Rightarrow> string \<Rightarrow> ('w, unit) op" where
  \<comment> \<open>\<open>container_kill\<close> is called without its \<open>signal\<close> argument\<close>
  "init_container M u =
     sbind (get_obj u)
       (\<lambda>c. let resume = (\<lambda>m. sbind (assign (put_task_state None) u) (\<lambda>_. m));
                ts = k_task_state c
            in if k_status c = CREATING \<or> ts \<in> Some ` {CONTAINER_CREATING, IMAGE_PULLING, NETWORK_ATTACHING,
                   NETWORK_DETACHING, SG_ADDING, SG_REMOVING}
               then sbind (assign (\<lambda>x. put_status_reason (Some (Text ''Container failed to create correctly''))
                              (put_status ERROR (put_task_state None x))) u)
                      (\<lambda>_. save u)
               else if k_status c = DELETING \<or> ts = Some CONTAINER_DELETING then resume (container_delete u True)
               else if ts = Some CONTAINER_REBOOTING then resume (container_reboot u (Some (m_default_timeout M)))
               else if ts = Some CONTAINER_STOPPING then resume (container_stop u (Some (m_default_timeout M)))
               else if ts = Some CONTAINER_STARTING then resume (container_start u)
               else if ts = Some CONTAINER_PAUSING then resume (container_pause u)
               else if ts = Some CONTAINER_UNPAUSING then resume (container_unpause u)
               else if ts = Some CONTAINER_KILLING
               then sbind (assign (put_task_state None) u) (\<lambda>_. sraise PyTypeError)
               else sreturn ())"

definition remount_volume :: "'w manager \<Rightarrow> string \<Rightarrow> ('w, unit) op" where
  "remount_volume M u =
     sbind sget (\<lambda>w. sforeach (list_by_container u w)
       (\<lambda>v. scatch (volume_call M vd_attach v)
          (\<lambda>_. fail_container M u (Text ''Internal error on recovering container volume'') False)))"

definition restore_running_container :: "string \<Rightarrow> status \<Rightarrow> ('w, unit) op" where
  "restore_running_container u current =
     sbind (get_obj u)
       (\<lambda>c. if k_status c = RUNNING \<and> current = STOPPED then container_start u else sreturn ())"

definition init_containers :: "'w manager \<Rightarrow> ('w, unit) op" where
  \<comment> \<open>the objects of \<open>list_by_host\<close> are loaded into the store\<close>
  "init_containers M w =
     (let containers = filter (\<lambda>c. k_type c = Container_obj \<and> k_host c = Some (m_host M)) (dict_values (w_rows w));
          load = (\<lambda>w. w\<lparr>w_objs := fold (\<lambda>c f. f(k_uuid c := c)) containers (w_objs w),
                        w_changed := fold (\<lambda>c f. f(k_uuid c := {})) containers (w_changed w)\<rparr>)
      in sbind (smodify load)
           (\<lambda>_. sbind (d_list (m_driver M))
             (\<lambda>(locals, _). sforeach (map k_uuid containers)
               (\<lambda>u. case dict_get (dict_update [] (map (\<lambda>x. (k_uuid (fst x), k_status (fst x))) locals)) u of
                      None \<Rightarrow> sraise PyKeyError
                    | Some current \<Rightarrow>
                        sbind (init_container M u)
                          (\<lambda>_. sbind (if m_remount M then remount_volume M u else sreturn ())
                            (\<lambda>_. if m_resume M then restore_running_container u current else sreturn ()))))) w)"

section \<open>Green threads and periodic tasks\<close>

definition unit_task :: "('w, 'a) op \<Rightarrow> 'w world \<Rightarrow> 'w world" where
  \<comment> \<open>an exception ends the thread\<close>
  "unit_task m w = snd (m w)"

fun run_task :: "'w manager \<Rightarrow> task \<Rightarrow> 'w world \<Rightarrow> 'w world" where
  "run_task M (Create_task u lims nets vols run reqs) = unit_task (create_thread M u lims nets vols run reqs)"
| "run_task M (Delete_task u force) = unit_task (do_container_delete M u force)"
| "run_task M (Start_task u) = unit_task (finishing (ActionFinish u ''start'') (do_container_start M u))"
| "run_task M (Stop_task u timeout) = unit_task (do_container_stop M u timeout)"
| "run_task M (Reboot_task u timeout) = unit_task (do_container_reboot M u timeout)"
| "run_task M (Rebuild_task u run) = unit_task (do_container_rebuild M u run)"
| "run_task M (Pause_task u) = unit_task (do_container_pause M u)"
| "run_task M (Unpause_task u) = unit_task (do_container_unpause M u)"
| "run_task M (Kill_task u signal) = unit_task (do_container_kill M u signal)"
| "run_task M (Add_security_group_task u g) = unit_task (do_add_security_group M u g)"
| "run_task M (Remove_security_group_task u g) = unit_task (do_remove_security_group M u g)"
| "run_task M (Network_attach_task u req) = unit_task (do_network_attach M u req)"
| "run_task M (Network_detach_task u net) = unit_task (do_network_detach M u net)"

definition delete_unused_containers :: "('w, unit) op" where
  "delete_unused_containers w =
     sforeach (filter (\<lambda>c. k_type c = Container_obj \<and> k_auto_remove c \<and> k_status c = DELETED \<and> k_task_state c = None)
                 (dict_values (w_rows w)))
       (\<lambda>c. sbind (smodify (\<lambda>w. w\<lparr>w_objs := (w_objs w)(k_uuid c := c), w_changed := (w_changed w)(k_uuid c := {})\<rparr>))
              (\<lambda>_. container_delete (k_uuid c) True)) w"

definition sync_container_state :: "'w manager \<Rightarrow> ('w, unit) op" where
  "sync_container_state M =
     sbind (\<lambda>w. d_update_containers_states (m_driver M) (filter (\<lambda>c. k_type c = Container_obj) (dict_values (w_rows w))) w)
       (\<lambda>_ w. d_update_containers_states (m_driver M) (filter (\<lambda>c. k_type c = Capsule_obj) (dict_values (w_rows w))) w)"

section \<open>The Docker driver as the manager's driver\<close>

definition docker_driver ::
    "'w docker_client \<Rightarrow> 'w network_driver \<Rightarrow> string \<Rightarrow> 'w driver \<Rightarrow> 'w driver" where
  \<comment> \<open>the operations that are not modelled are those of the last argument\<close>
  "docker_driver dk nd h d = d\<lparr>
     d_delete := delete dk nd, d_delete_capsule := delete_capsule dk nd, d_start := start dk nd,
     d_stop := stop dk nd, d_reboot := reboot dk nd, d_pause := pause dk, d_unpause := unpause dk,
     d_kill := kill dk, d_show := show_container dk, d_update := update dk, d_resize := resize dk,
     d_check_container_exist := check_container_exist dk, d_network_attach := network_attach nd,
     d_network_detach := network_detach nd, d_add_security_group := add_security_group nd,
     d_remove_security_group := remove_security_group nd, d_list := list_containers dk h,
     d_update_containers_states := update_containers_states dk h\<rparr>"

end
