(* ===== verification/Kuryr_Network.thy ===== *)
theory Kuryr_Network
  imports Docker_Driver
begin

text \<open>
  The default network driver (\<^verbatim>\<open>zun/network/kuryr_network.py\<close>) and the port operations
  of \<^verbatim>\<open>zun/network/neutron.py\<close> it uses, and the contract of a network driver that the
  container operations rely on. The Neutron and Docker clients are parameters.
\<close>

section \<open>Clients\<close>

record neutron_port =
  np_id :: string
  np_fixed_ips :: "(string \<times> int) list"
  np_security_groups :: "string list option"

record 'w neutron_client =
  nc_create_port :: "string \<Rightarrow> string \<Rightarrow> string option option \<Rightarrow> string list option \<Rightarrow> ('w, exn, neutron_port) st"
  nc_update_device :: "string \<Rightarrow> string \<Rightarrow> string option option \<Rightarrow> ('w, exn, neutron_port) st"
  nc_release_port :: "string \<Rightarrow> ('w, exn, unit) st"
  nc_delete_port :: "string \<Rightarrow> ('w, exn, unit) st"
  nc_unbind_port :: "string \<Rightarrow> ('w, exn, unit) st"
  nc_list_ports :: "('w, exn, neutron_port list) st"
  nc_update_groups :: "string \<Rightarrow> string list \<Rightarrow> ('w, exn, unit) st"
  nc_delete_security_group :: "string \<Rightarrow> ('w, exn, unit) st"
  nc_list_security_groups :: "('w, exn, (string \<times> string) list) st"

record 'w docker_networks =
  dn_networks :: "string \<Rightarrow> ('w, exn, bool) st"
  dn_create_network :: "string \<Rightarrow> ('w, exn, unit) st"
  dn_connect :: "string option \<Rightarrow> string \<Rightarrow> string option \<Rightarrow> string option \<Rightarrow> ('w, exn, unit) st"
  dn_disconnect :: "string \<Rightarrow> string \<Rightarrow> ('w, exn, unit) st"

section \<open>Ports\<close>

definition create_or_update_port ::
    "'w neutron_client \<Rightarrow> cont \<Rightarrow> string \<Rightarrow> req_network \<Rightarrow> string list option \<Rightarrow> bool \<Rightarrow>
     ('w, exn, addr list \<times> neutron_port) st" where
  \<comment> \<open>the port of an SR-IOV request is not modelled\<close>
  "create_or_update_port nc c net req groups set_binding_host =
     (let binding = (if set_binding_host then Some (k_host c) else None)
      in sbind (if rn_port req \<noteq> [] then nc_update_device nc (rn_port req) (k_uuid c) binding
                else nc_create_port nc net (k_uuid c) binding groups)
           (\<lambda>p. sreturn (map (\<lambda>(ip, version). \<lparr>a_port = np_id p, a_preserve_on_delete = rn_preserve req, a_addr = ip,
                                a_version = (if version = 4 then 4 else 6)\<rparr>) (np_fixed_ips p), p)))"

definition delete_or_unbind_ports :: "'w neutron_client \<Rightarrow> string list \<Rightarrow> string list \<Rightarrow> ('w, exn, unit) st" where
  "delete_or_unbind_ports nc ports to_delete =
     sforeach ports (\<lambda>p. scatch (if p \<in> set to_delete then nc_delete_port nc p else nc_unbind_port nc p)
       (\<lambda>e. case e of PortNotFoundClient _ \<Rightarrow> sreturn () | _ \<Rightarrow> sraise e))"

definition do_port_cleanup :: "'w neutron_client \<Rightarrow> addr list \<Rightarrow> neutron_port \<Rightarrow> ('w, exn, unit) st" where
  "do_port_cleanup nc addrs p =
     (case addrs of
        [] \<Rightarrow> sraise PyIndexError
      | a # _ \<Rightarrow>
          if a_preserve_on_delete a then scatch (nc_release_port nc (np_id p)) (\<lambda>_. sreturn ())
          else scatch (nc_delete_port nc (np_id p)) (\<lambda>e. case e of PortNotFound _ \<Rightarrow> sreturn () | _ \<Rightarrow> sraise e))"

definition last_address :: "int \<Rightarrow> addr list \<Rightarrow> string option" where
  "last_address version addrs = map_option a_addr (List.find (\<lambda>a. a_version a = version) (rev addrs))"

section \<open>The driver\<close>

definition kuryr_connect ::
    "'w neutron_client \<Rightarrow> 'w docker_networks \<Rightarrow> string \<Rightarrow> req_network \<Rightarrow> string list option \<Rightarrow> ('w, addr list option) op" where
  \<comment> \<open>only a Docker error releases the port again\<close>
  "kuryr_connect nc dn u req groups =
     sbind (get_obj u)
       (\<lambda>c. sbind (on_env (create_or_update_port nc c (rn_network req) req groups False))
         (\<lambda>(addrs, p).
            sbind (scatch (on_env (dn_connect dn (k_container_id c) (rn_network req) (last_address 4 addrs) (last_address 6 addrs)))
                     (\<lambda>e. if is_docker_error e then sbind (on_env (do_port_cleanup nc addrs p)) (\<lambda>_. sraise e) else sraise e))
              (\<lambda>_. sreturn (Some addrs))))"

definition kuryr_disconnect :: "'w neutron_client \<Rightarrow> 'w docker_networks \<Rightarrow> string \<Rightarrow> string \<Rightarrow> ('w, unit) op" where
  "kuryr_disconnect nc dn u net =
     sbind (get_obj u)
       (\<lambda>c. let addrs = (case dict_get (k_addresses c) net of None \<Rightarrow> [] | Some a \<Rightarrow> a);
                ports = remdups (map a_port addrs);
                to_delete = map a_port (filter (\<lambda>a. \<not> a_preserve_on_delete a) addrs)
            in on_env (\<lambda>e. case (if truthy (k_container_id c)
                                 then (case k_container_id c of None \<Rightarrow> sreturn () | Some i \<Rightarrow> dn_disconnect dn i net)
                                 else sreturn ()) e of
                 (r, e1) \<Rightarrow> (case delete_or_unbind_ports nc ports to_delete e1 of
                              (Inl x, e2) \<Rightarrow> (Inl x, e2) | (Inr _, e2) \<Rightarrow> (r, e2))))"

definition kuryr_update_groups ::
    "'w neutron_client \<Rightarrow> (string list option \<Rightarrow> (exn, string list) res) \<Rightarrow> string \<Rightarrow> ('w, unit) op" where
  \<comment> \<open>the ports of the container get the groups that \<open>f\<close> computes; Neutron's status 400 is
    raised as a Zun exception\<close>
  "kuryr_update_groups nc f u =
     sbind (get_obj u)
       (\<lambda>c. let ids = map a_port (concat (dict_values (k_addresses c)))
            in sbind (on_env (nc_list_ports nc))
                 (\<lambda>ports. sforeach (filter (\<lambda>p. np_id p \<in> set ids) ports)
                    (\<lambda>p. sbind (slift (f (np_security_groups p))) (\<lambda>gs. scatch (on_env (nc_update_groups nc (np_id p) gs))
                       (\<lambda>e. sraise (if e = NeutronError 400 then ZunException (Str e) else e))))))"

definition kuryr_add_groups :: "'w neutron_client \<Rightarrow> string \<Rightarrow> string list \<Rightarrow> ('w, unit) op" where
  "kuryr_add_groups nc u new =
     kuryr_update_groups nc (\<lambda>gs. Inr ((case gs of None \<Rightarrow> [] | Some l \<Rightarrow> l) @ new)) u"

definition kuryr_remove_groups :: "'w neutron_client \<Rightarrow> string \<Rightarrow> string list \<Rightarrow> ('w, unit) op" where
  \<comment> \<open>a port without the group makes \<open>list.remove\<close> raise\<close>
  "kuryr_remove_groups nc u old =
     kuryr_update_groups nc
       (\<lambda>gs. case gs of None \<Rightarrow> Inl PyKeyError
             | Some l \<Rightarrow> (case old of [] \<Rightarrow> Inl PyIndexError
                          | g # _ \<Rightarrow> if g \<in> set l then Inr (remove1 g l) else Inl (OtherException (Text ''x not in list'')))) u"

definition kuryr :: "'w neutron_client \<Rightarrow> 'w docker_networks \<Rightarrow> 'w network_driver" where
  "kuryr nc dn = \<lparr>
     nd_on_container_started = (\<lambda>u. sreturn ()),
     nd_on_container_stopped = (\<lambda>u. sreturn ()),
     nd_disconnect = kuryr_disconnect nc dn,
     nd_connect = kuryr_connect nc dn,
     nd_get_or_create_network = (\<lambda>net. on_env (sbind (dn_networks dn net)
        (\<lambda>present. if present then sreturn () else dn_create_network dn net))),
     nd_add_security_groups = kuryr_add_groups nc,
     nd_remove_security_groups = kuryr_remove_groups nc,
     nd_delete_security_group = (\<lambda>g. on_env (nc_delete_security_group nc g)),
     nd_list_security_groups = on_env (nc_list_security_groups nc)\<rparr>"

section \<open>The contract of a network driver\<close>

text \<open>
  The recorded status is in step with the object when it is equal to it, or the next save
  will write it.
\<close>

definition synced :: "string \<Rightarrow> 'w world \<Rightarrow> bool" where
  "synced u w \<longleftrightarrow> (\<exists>row. dict_get (w_rows w) u = Some row \<and>
     (F_status \<in> w_changed w u \<or> k_status row = k_status (w_objs w u)))"

definition quiet :: "string \<Rightarrow> ('w, 'a) op \<Rightarrow> bool" where
  "quiet u m \<longleftrightarrow> (\<forall>w r w'. m w = (r, w') \<longrightarrow> w_objs w' = w_objs w \<and> w_events w' = w_events w \<and> (synced u w \<longrightarrow> synced u w'))"

locale network_contract =
  fixes nd :: "'w network_driver"
  assumes started: "quiet u (nd_on_container_started nd u)"
    and stopped: "quiet u (nd_on_container_stopped nd u)"

interpretation kuryr: network_contract "kuryr nc dn" for nc dn
  by unfold_locales (auto simp: quiet_def kuryr_def sreturn_def)

end
