(* ===== verification/Container_Life.thy ===== *)
theory Container_Life
  imports Container_Manager Kuryr_Network
begin

text \<open>
  The life of a container under the compute manager: what the operations keep, that failing
  a container ends and records the error, that no operation leaves a task state behind, and
  the state machine that the operations refine.
\<close>

section \<open>What operations keep\<close>

named_theorems keeps_intros \<open>how operations are composed of operations that keep a property\<close>

definition keeps :: "('s \<Rightarrow> bool) \<Rightarrow> ('s, 'e, 'a) st \<Rightarrow> bool" where
  "keeps P m \<longleftrightarrow> (\<forall>s r s'. P s \<longrightarrow> m s = (r, s') \<longrightarrow> P s')"

lemma keepsI: "(\<And>s r s'. P s \<Longrightarrow> m s = (r, s') \<Longrightarrow> P s') \<Longrightarrow> keeps P m"
  by (auto simp: keeps_def)

lemma keepsD: "keeps P m \<Longrightarrow> P s \<Longrightarrow> m s = (r, s') \<Longrightarrow> P s'"
  by (auto simp: keeps_def)

lemma keeps_snd: "keeps P m \<Longrightarrow> P s \<Longrightarrow> P (snd (m s))"
  by (cases "m s") (auto simp: keeps_def)

lemma keeps_pure [keeps_intros]: "keeps P (sreturn x)" "keeps P (sraise e)" "keeps P (slift r)"
  by (auto simp: keeps_def st_defs)

lemma keeps_sbind [keeps_intros]:
  assumes "keeps P m" "\<And>x. keeps P (f x)"
  shows "keeps P (sbind m f)"
proof (rule keepsI)
  fix s r s'
  assume P: "P s" and run: "sbind m f s = (r, s')"
  obtain r1 s1 where m: "m s = (r1, s1)" by fastforce
  then have "P s1" using assms(1) P by (blast dest: keepsD)
  then show "P s'" using run m assms(2) by (cases r1) (auto simp: sbind_def dest: keepsD)
qed

lemma keeps_scatch [keeps_intros]:
  assumes "keeps P m" "\<And>e. keeps P (h e)"
  shows "keeps P (scatch m h)"
proof (rule keepsI)
  fix s r s'
  assume P: "P s" and run: "scatch m h s = (r, s')"
  obtain r1 s1 where m: "m s = (r1, s1)" by fastforce
  then have "P s1" using assms(1) P by (blast dest: keepsD)
  then show "P s'" using run m assms(2) by (cases r1) (auto simp: scatch_def dest: keepsD)
qed

lemma keeps_sfinally [keeps_intros]:
  assumes "keeps P m" "keeps P f"
  shows "keeps P (sfinally m f)"
proof (rule keepsI)
  fix s r s'
  assume P: "P s" and run: "sfinally m f s = (r, s')"
  obtain r1 s1 where m: "m s = (r1, s1)" by fastforce
  obtain r2 s2 where f: "f s1 = (r2, s2)" by fastforce
  from m f assms P have "P s2" by (blast dest: keepsD)
  then show "P s'" using run m f by (cases r2) (auto simp: sfinally_def)
qed

lemma keeps_sforeach [keeps_intros]: "(\<And>x. keeps P (f x)) \<Longrightarrow> keeps P (sforeach xs f)"
  by (induction xs) (auto intro: keeps_intros)

lemma keeps_reraising [keeps_intros]: "keeps P m \<Longrightarrow> keeps P (reraising e m)"
  unfolding reraising_def by (intro keeps_intros)

lemma keeps_sget [keeps_intros]: "keeps P sget"
  by (auto simp: keeps_def sget_def)

lemma keeps_smodify [keeps_intros]: "(\<And>s. P s \<Longrightarrow> P (f s)) \<Longrightarrow> keeps P (smodify f)"
  by (auto simp: keeps_def smodify_def)

lemma keeps_if [keeps_intros]: "keeps P m \<Longrightarrow> keeps P m' \<Longrightarrow> keeps P (if b then m else m')"
  by simp

lemma keeps_get_obj [keeps_intros]: "keeps P (get_obj u)"
  by (auto simp: keeps_def get_obj_def)

text \<open>
  A property that the compute manager keeps: it does not depend on the outside world, on the
  volume mappings or the events, on the recorded changes, on the contents of objects other
  than their type and uuid, or on the contents of rows.
\<close>

locale kept =
  fixes P :: "'w world \<Rightarrow> bool"
  assumes env: "P w \<Longrightarrow> P (w\<lparr>w_env := e\<rparr>)"
    and volmaps: "P w \<Longrightarrow> P (w\<lparr>w_volmaps := vs\<rparr>)"
    and connected: "P w \<Longrightarrow> P (w\<lparr>w_connected := cs\<rparr>)"
    and events: "P w \<Longrightarrow> P (w\<lparr>w_events := es\<rparr>)"
    and changed: "P w \<Longrightarrow> P (w\<lparr>w_changed := ch\<rparr>)"
    and objs: "P w \<Longrightarrow> k_type c = k_type (w_objs w v) \<Longrightarrow> k_uuid c = k_uuid (w_objs w v) \<Longrightarrow> P (w\<lparr>w_objs := (w_objs w)(v := c)\<rparr>)"
    and rows: "P w \<Longrightarrow> dict_get (w_rows w) v = Some row \<Longrightarrow> P (w\<lparr>w_rows := dict_set v row' (w_rows w)\<rparr>)"
begin

lemma keeps_assign [keeps_intros]:
  "(\<And>x. k_type (fst (f x)) = k_type (fst x)) \<Longrightarrow> (\<And>x. k_uuid (fst (f x)) = k_uuid (fst x)) \<Longrightarrow> keeps P (assign f u)"
  by (rule keepsI) (auto simp: assign_def smodify_def Let_def intro!: changed objs)

lemma keeps_save_as [keeps_intros]: "keeps P (save_as u x)"
  by (rule keepsI) (auto simp: save_as_def split: option.splits intro!: rows)

lemma keeps_save [keeps_intros]: "keeps P (save u)"
  unfolding save_def by (intro keeps_intros changed)

lemma keeps_on_env [keeps_intros]: "keeps P (on_env m)"
  by (rule keepsI) (auto simp: on_env_def split: prod.splits intro!: env)

lemma keeps_volume_call [keeps_intros]: "keeps P (volume_call M f v)"
  by (auto simp: volume_call_def split: option.splits intro: keeps_intros)

lemma keeps_destroy_volmap [keeps_intros]: "keeps P (destroy_volmap v)"
  by (rule keepsI) (auto simp: destroy_volmap_def Let_def split: if_splits intro: volmaps connected)

lemma keeps_detach_volume [keeps_intros]: "keeps P (detach_volume M r v)"
  unfolding detach_volume_def by (intro keeps_intros)

lemma keeps_poll_deleted [keeps_intros]: "keeps P (poll_deleted M n v vs)"
  by (induction n arbitrary: v vs) (auto simp: Let_def split: list.splits prod.splits intro!: keeps_intros)

lemma keeps_detach_each [keeps_intros]: "keeps P (detach_each M r vs)"
  by (induction vs) (auto simp: Let_def intro!: keeps_intros)

lemma keeps_detach_own_volumes [keeps_intros]:
  assumes "\<And>u e b. keeps P (fail u e b)"
  shows "keeps P (detach_own_volumes M fail v r)"
  unfolding detach_own_volumes_def wait_for_volumes_deleted_def
  using assms by (auto split: list.splits intro!: keeps_intros)

lemma keeps_detach_volumes_with [keeps_intros]:
  assumes "\<And>u e b. keeps P (fail u e b)"
  shows "keeps P (detach_volumes_with M fail u r)"
  unfolding detach_volumes_with_def by (intro keeps_intros assms)

lemma keeps_fail_fuel [keeps_intros]: "keeps P (fail_fuel n M u err b)"
  by (induction n arbitrary: u err b) (auto simp: put_defs intro!: keeps_intros)

end

definition has_row :: "string \<Rightarrow> 'w world \<Rightarrow> bool" where
  "has_row u w \<longleftrightarrow> u \<in> set (dict_keys (w_rows w))"

interpretation has_row: kept "has_row u" for u
  by unfold_locales (auto simp: has_row_def dict_keys_set simp del: set_map)

interpretation types: kept "\<lambda>w. \<forall>v. k_type (w_objs w v) = T v" for T
  by unfold_locales auto

section \<open>Failing a container\<close>

lemma save_row:
  "dict_get (w_rows w) u = Some row \<Longrightarrow>
   save u w = (Inr (), w\<lparr>w_rows := dict_set u (merge (w_changed w u) (w_objs w u) row) (w_rows w),
                         w_changed := (w_changed w)(u := {})\<rparr>)"
  by (simp add: save_def save_as_def st_defs)

lemma has_row_Some: "has_row u w \<Longrightarrow> \<exists>row. dict_get (w_rows w) u = Some row"
  unfolding has_row_def using dict_get_None [of "w_rows w" u] by auto

lemma volume_call_env: "volume_call M f v w = (r, w') \<Longrightarrow> \<exists>e. w' = w\<lparr>w_env := e\<rparr>"
  by (auto simp: volume_call_def on_env_def sraise_def split: option.splits prod.splits)
    (metis world.surjective world.update_convs(10))

lemma keeps_env: "keeps (\<lambda>w'. \<exists>e. w' = w\<lparr>w_env := e\<rparr>) (volume_call M f v)"
  by (rule keepsI) (fastforce dest!: volume_call_env)

lemma poll_deleted_env: "poll_deleted M n v vs w = (r, w') \<Longrightarrow> \<exists>e. w' = w\<lparr>w_env := e\<rparr>"
proof -
  have "keeps (\<lambda>w'. \<exists>e. w' = w\<lparr>w_env := e\<rparr>) (poll_deleted M n v vs)"
    by (induction n arbitrary: v vs) (auto simp: Let_def split: list.splits prod.splits intro!: keeps_intros keeps_env)
  then show "poll_deleted M n v vs w = (r, w') \<Longrightarrow> \<exists>e. w' = w\<lparr>w_env := e\<rparr>"
    by (rule keepsD) (auto intro: exI [of _ "w_env w"])
qed

lemma detach_volume_Inr:
  assumes "detach_volume M r v w = (Inr x, w')"
  shows "\<exists>e cs. w' = w\<lparr>w_env := e, w_volmaps := filter (\<lambda>v'. v_uuid v' \<noteq> v_uuid v) (w_volmaps w), w_connected := cs\<rparr>"
proof -
  let ?m = "if length (filter (\<lambda>v'. v_volume_id v' = v_volume_id v) (w_volmaps w)) = 1
            then scatch (volume_call M vd_detach v) (\<lambda>e. if r then sraise e else sreturn ()) else sreturn ()"
  obtain w1 where m: "?m w = (Inr (), w1)" and d: "destroy_volmap v w1 = (Inr x, w')"
    using assms by (auto simp: detach_volume_def sbind_Inr_iff sget_def)
  have "keeps (\<lambda>w'. \<exists>e. w' = w\<lparr>w_env := e\<rparr>) ?m" by (intro keeps_intros keeps_env)
  then obtain e where "w1 = w\<lparr>w_env := e\<rparr>" using m by (fastforce dest!: keepsD intro: exI [of _ "w_env w"])
  then have "w' = w\<lparr>w_env := e, w_volmaps := filter (\<lambda>v'. v_uuid v' \<noteq> v_uuid v) (w_volmaps w), w_connected := w_connected w'\<rparr>"
    using d by (auto simp: destroy_volmap_def Let_def split: if_splits)
  then show ?thesis by blast
qed

lemma detach_each_Inr:
  assumes "detach_each M r vs w = (Inr removed, w')"
  shows "w_objs w' = w_objs w \<and> w_volmaps w' = filter (\<lambda>v. v_uuid v \<notin> v_uuid ` set vs) (w_volmaps w)"
  using assms
proof (induction vs arbitrary: w removed)
  case (Cons v vs)
  obtain w1 where d: "detach_volume M r v w = (Inr (), w1)"
    and rest: "\<exists>w2 rem. w_objs w2 = w_objs w1 \<and> w_volmaps w2 = w_volmaps w1 \<and> detach_each M r vs w2 = (Inr rem, w')"
    using Cons.prems
    by (auto simp: sbind_Inr_iff sget_def Let_def sreturn_def split: if_splits dest!: volume_call_env) fastforce+
  from rest Cons.IH detach_volume_Inr [OF d] show ?case by fastforce
qed (simp add: sreturn_def)

lemma detached: "detach_each M r (list_by_container u w) w = (Inr removed, w') \<Longrightarrow> list_by_container u w' = []"
  by (auto dest!: detach_each_Inr simp: list_by_container_def filter_empty_conv)

lemma detach_nothing:
  "list_by_container u w = [] \<Longrightarrow> k_type (w_objs w u) \<noteq> Capsule_obj \<Longrightarrow> detach_volumes_with M fail u r w = (Inr (), w)"
  by (simp add: detach_volumes_with_def detach_own_volumes_def wait_for_volumes_deleted_def get_obj_def st_defs)

lemma fail_no_volumes:
  assumes "list_by_container u w = []" "k_type (w_objs w u) \<noteq> Capsule_obj"
  shows "fail_fuel (Suc n) M u err b w = fail_fuel 1 M u err b w"
  using detach_nothing [OF assms] by (simp add: sbind_def scatch_def)

lemma wait_cong:
  assumes "\<And>k v vs d w' err b. poll_deleted M k v vs w = (d, w') \<Longrightarrow> f u err b w' = g u err b w'"
  shows "wait_for_volumes_deleted M f vs u w = wait_for_volumes_deleted M g vs u w"
proof (cases vs)
  case (Cons v vs')
  obtain d w' where p: "poll_deleted M (m_polls M) v vs' w = (d, w')" by fastforce
  show ?thesis
    by (simp add: wait_for_volumes_deleted_def sbind_def Cons p assms [OF p] split: sum.split)
qed (simp add: wait_for_volumes_deleted_def)

lemma detach_own_fuel:
  assumes "k_type (w_objs w u) \<noteq> Capsule_obj"
  shows "detach_own_volumes M (fail_fuel (Suc n) M) u r w = detach_own_volumes M (fail_fuel 1 M) u r w"
proof (cases "detach_each M r (list_by_container u w) w")
  case (Pair res w1)
  show ?thesis
  proof (cases res)
    case (Inr removed)
    have none: "list_by_container u w1 = []" "k_type (w_objs w1 u) \<noteq> Capsule_obj"
      using detached Pair Inr detach_each_Inr assms by (blast, metis)
    have "fail_fuel (Suc n) M u err b w2 = fail_fuel 1 M u err b w2"
      if "poll_deleted M k v vs w1 = (d, w2)" for k v vs d w2 err b
      using poll_deleted_env [OF that] none by (intro fail_no_volumes) (auto simp: list_by_container_def)
    then have "wait_for_volumes_deleted M (fail_fuel (Suc n) M) removed u w1 =
        wait_for_volumes_deleted M (fail_fuel 1 M) removed u w1"
      by (intro wait_cong)
    then show ?thesis using Pair Inr by (simp add: detach_own_volumes_def sbind_def sget_def)
  qed (simp add: detach_own_volumes_def sbind_def sget_def Pair)
qed

lemma sforeach_cong_keeps:
  assumes "\<And>x s. x \<in> set xs \<Longrightarrow> P s \<Longrightarrow> f x s = g x s" "\<And>x. keeps P (g x)" "P s"
  shows "sforeach xs f s = sforeach xs g s"
  using assms
proof (induction xs arbitrary: s)
  case (Cons x xs)
  obtain r s1 where g: "g x s = (r, s1)" by fastforce
  then have "P s1" using Cons.prems(2,3) by (blast dest: keepsD)
  then have "sforeach xs f s1 = sforeach xs g s1" using Cons by simp
  then show ?case using g Cons.prems(1,3) by (simp add: sbind_def split: sum.splits)
qed simp

definition flat :: "'w world \<Rightarrow> string \<Rightarrow> bool" where
  \<comment> \<open>the containers of a capsule are not capsules\<close>
  "flat w u \<longleftrightarrow> k_type (w_objs w u) = Capsule_obj \<longrightarrow>
     (\<forall>v \<in> set (k_init_containers (w_objs w u) @ k_containers (w_objs w u)). k_type (w_objs w v) \<noteq> Capsule_obj)"

lemma detach_fuel:
  assumes "flat w u"
  shows "detach_volumes_with M (fail_fuel (Suc n) M) u r w = detach_volumes_with M (fail_fuel 1 M) u r w"
proof (cases "k_type (w_objs w u) = Capsule_obj")
  case True
  let ?P = "\<lambda>w'. \<forall>v. k_type (w_objs w' v) = k_type (w_objs w v)"
  let ?members = "k_init_containers (w_objs w u) @ k_containers (w_objs w u)"
  have "keeps ?P (detach_own_volumes M (fail_fuel 1 M) v r)" for v
    by (rule types.keeps_detach_own_volumes) (rule types.keeps_fail_fuel)
  then have "sforeach ?members (\<lambda>m. detach_own_volumes M (fail_fuel (Suc n) M) m r) w =
      sforeach ?members (\<lambda>m. detach_own_volumes M (fail_fuel 1 M) m r) w"
    using True assms by (intro sforeach_cong_keeps [where P = ?P] detach_own_fuel) (auto simp: flat_def)
  then show ?thesis using True by (simp add: detach_volumes_with_def sbind_def get_obj_def)
next
  case False
  then show ?thesis using detach_own_fuel [OF False] by (simp add: detach_volumes_with_def sbind_def get_obj_def)
qed

lemma fail_fuel_cong:
  assumes "detach_volumes_with M (fail_fuel n M) u True w = detach_volumes_with M (fail_fuel m M) u True w"
  shows "fail_fuel (Suc n) M u err b w = fail_fuel (Suc m) M u err b w"
  unfolding fail_fuel.simps scatch_def sbind_def assms ..

lemma fail_fuel_enough:
  assumes "flat w u"
  shows "fail_fuel (n + 2) M u err b w = fail_container M u err b w"
proof -
  have "fail_fuel (Suc (Suc n)) M u err b w = fail_fuel (Suc 1) M u err b w"
    by (rule fail_fuel_cong) (rule detach_fuel [OF assms])
  then show ?thesis by (simp only: fail_container_def numeral_2_eq_2 add_Suc_right add_0_right One_nat_def)
qed

lemma fail_container_records:
  assumes "has_row u w"
  shows "\<exists>w' row. fail_container M u err b w = (Inr (), w') \<and> dict_get (w_rows w') u = Some row \<and>
    k_status row = ERROR \<and> k_status_reason row = Some err \<and> k_status (w_objs w' u) = ERROR \<and> (b \<longrightarrow> k_host row = None)"
proof -
  let ?d = "scatch (detach_volumes_with M (fail_fuel 1 M) u True) (\<lambda>_. sreturn ())"
  obtain r w1 where d: "?d w = (r, w1)" by fastforce
  then have r: "r = Inr ()" by (auto simp: scatch_def sreturn_def split: prod.splits sum.splits)
  have "keeps (has_row u) ?d" by (intro keeps_intros has_row.keeps_detach_volumes_with has_row.keeps_fail_fuel)
  then obtain row where row: "dict_get (w_rows w1) u = Some row" using d assms has_row_Some by (blast dest: keepsD)
  show ?thesis
    using d r row
    by (simp add: fail_container_def numeral_2_eq_2 sbind_def assign_def smodify_def put_defs save_row sreturn_def merge_def)
qed

section \<open>The state machine of a container\<close>

text \<open>
  The states an operation is to reach, and the steps it may make: it reaches one, it fails
  and leaves the status alone, or Docker no longer knows the container, which is then in
  error, or deleted when it removes itself.
\<close>

fun targets :: "action \<Rightarrow> status set" where
  "targets Stop = {STOPPED}"
| "targets Kill = {STOPPED}"
| "targets Pause = {PAUSED}"
| "targets Unpause = {RUNNING}"
| "targets Reboot = {RUNNING}"
| "targets Start = {RUNNING, STOPPED}"
| "targets _ = {}"

inductive life_step :: "bool \<Rightarrow> action \<Rightarrow> status \<Rightarrow> status \<Rightarrow> bool" for auto_remove a where
  reached: "s' \<in> targets a \<Longrightarrow> life_step auto_remove a s s'"
| refused: "life_step auto_remove a s s"
| missing: "life_step auto_remove a s (if auto_remove then DELETED else ERROR)"

definition absent :: "bool \<Rightarrow> status" where
  "absent auto_remove = (if auto_remove then DELETED else ERROR)"

lemma life_step_iff: "life_step b a s s' \<longleftrightarrow> s' \<in> targets a \<or> s' = s \<or> s' = absent b"
proof
  assume "life_step b a s s'"
  then show "s' \<in> targets a \<or> s' = s \<or> s' = absent b" by cases (simp_all add: absent_def)
next
  assume "s' \<in> targets a \<or> s' = s \<or> s' = absent b"
  then show "life_step b a s s'"
    using life_step.reached [of s' a b s] life_step.refused [of b a s] life_step.missing [of b a s]
    unfolding absent_def by blast
qed

lemma life_step_trans: "life_step b a s t \<Longrightarrow> life_step b a t t' \<Longrightarrow> life_step b a s t'"
  unfolding life_step_iff by (elim disjE) simp_all

text \<open>An operation that moves the object along these steps, and what composes them.\<close>

definition moved :: "string \<Rightarrow> action \<Rightarrow> 'w world \<Rightarrow> 'w world \<Rightarrow> bool" where
  "moved u a w w' \<longleftrightarrow> synced u w' \<and> k_auto_remove (w_objs w' u) = k_auto_remove (w_objs w u) \<and> w_events w' = w_events w \<and>
     life_step (k_auto_remove (w_objs w u)) a (k_status (w_objs w u)) (k_status (w_objs w' u))"

lemma moved_refl: "synced u w \<Longrightarrow> moved u a w w"
  by (simp add: moved_def life_step.refused)

lemma moved_trans: "moved u a w w1 \<Longrightarrow> moved u a w1 w' \<Longrightarrow> moved u a w w'"
  unfolding moved_def by (auto intro: life_step_trans)

lemma moved_synced: "moved u a w w' \<Longrightarrow> synced u w'"
  by (simp add: moved_def)

definition moves :: "string \<Rightarrow> action \<Rightarrow> ('w, 'a) op \<Rightarrow> bool" where
  "moves u a m \<longleftrightarrow> (\<forall>w r w'. synced u w \<longrightarrow> m w = (r, w') \<longrightarrow> moved u a w w')"

named_theorems moves_intros \<open>how operations are composed of operations that make a step\<close>

lemma movesI: "(\<And>w r w'. synced u w \<Longrightarrow> m w = (r, w') \<Longrightarrow> moved u a w w') \<Longrightarrow> moves u a m"
  unfolding moves_def by blast

lemma movesD: "moves u a m \<Longrightarrow> synced u w \<Longrightarrow> m w = (r, w') \<Longrightarrow> moved u a w w'"
  unfolding moves_def by blast

lemma moves_then:
  assumes "moves u a m" "synced u w" "m w = (r, w1)" "moves u a m'" "m' w1 = (r', w')"
  shows "moved u a w w'"
  using movesD [OF assms(1-3)] movesD [OF assms(4) _ assms(5)] moved_trans moved_synced by blast

lemma moves_pure [moves_intros]: "moves u a (sreturn x)" "moves u a (sraise e)" "moves u a (slift r)"
  by (auto intro!: movesI simp: st_defs moved_refl)

lemma moves_sbind [moves_intros]:
  assumes "moves u a m" "\<And>x. moves u a (f x)"
  shows "moves u a (sbind m f)"
proof (rule movesI)
  fix w r w'
  assume s: "synced u w" and run: "sbind m f w = (r, w')"
  obtain r1 w1 where m: "m w = (r1, w1)" by fastforce
  show "moved u a w w'"
    using run m movesD [OF assms(1) s m] moves_then [OF assms(1) s m assms(2)] by (cases r1) (auto simp: sbind_def)
qed

lemma moves_scatch [moves_intros]:
  assumes "moves u a m" "\<And>e. moves u a (h e)"
  shows "moves u a (scatch m h)"
proof (rule movesI)
  fix w r w'
  assume s: "synced u w" and run: "scatch m h w = (r, w')"
  obtain r1 w1 where m: "m w = (r1, w1)" by fastforce
  show "moved u a w w'"
    using run m movesD [OF assms(1) s m] moves_then [OF assms(1) s m assms(2)] by (cases r1) (auto simp: scatch_def)
qed

lemma moves_quiet: "quiet u m \<Longrightarrow> moves u a m"
  by (rule movesI) (simp add: quiet_def moved_def life_step.refused)

lemma moves_on_env [moves_intros]: "moves u a (on_env m)"
  by (rule movesI) (auto simp: on_env_def synced_def moved_def life_step.refused split: prod.splits)

lemma moves_with_id [moves_intros]: "moves u a (with_id u f)"
  by (rule movesI)
    (auto simp: with_id_def on_env_def synced_def moved_def life_step.refused split: option.splits prod.splits)

lemma moves_get_obj [moves_intros]: "moves u a (get_obj v)"
  by (rule movesI) (simp add: get_obj_def moved_refl)

lemma moves_assign [moves_intros]:
  "s' \<in> targets a \<Longrightarrow> moves u a (assign (\<lambda>x. put_status_reason e (put_status s' x)) u)"
  by (rule movesI) (auto simp: assign_def smodify_def Let_def put_defs synced_def moved_def life_step.reached)

lemma moves_save [moves_intros]: "moves u a (save u)"
  by (rule movesI) (auto simp: synced_def save_row merge_def moved_def life_step.refused)

lemma moves_if [moves_intros]: "moves u a m \<Longrightarrow> moves u a m' \<Longrightarrow> moves u a (if b then m else m')"
  by simp

lemma moves_handle_not_found [moves_intros]: "moves u a (handle_not_found e u b)"
proof (rule movesI)
  fix w :: "'a world" and r w'
  assume s: "synced u w" and run: "handle_not_found e u b w = (r, w')"
  then obtain row where row: "dict_get (w_rows w) u = Some row" by (auto simp: synced_def)
  show "moved u a w w'"
  proof (cases "k_status (w_objs w u) = DELETING")
    case True
    then show ?thesis using run s by (simp add: handle_not_found_def sbind_def get_obj_def sreturn_def moved_refl)
  next
    case False
    define w1 where "w1 = w\<lparr>w_objs := (w_objs w)(u := if k_auto_remove (w_objs w u) then (w_objs w u)\<lparr>k_status := DELETED\<rparr>
         else (w_objs w u)\<lparr>k_status := ERROR, k_status_reason := Some (Str e)\<rparr>),
       w_changed := (w_changed w)(u := if k_auto_remove (w_objs w u) then insert F_status (w_changed w u)
         else insert F_status_reason (insert F_status (w_changed w u)))\<rparr>"
    have "w' = snd (save u w1)"
      using run False row
      by (cases "k_auto_remove (w_objs w u)"; cases b)
        (auto simp: handle_not_found_def sbind_def get_obj_def assign_def smodify_def put_defs w1_def sreturn_def sraise_def
          save_row)
    moreover have "moved u a w w1"
      using row life_step.missing [of "k_auto_remove (w_objs w u)" a "k_status (w_objs w u)"]
      by (auto simp: moved_def w1_def synced_def split: if_splits)
    ultimately show ?thesis
      using movesD [OF moves_save, of u w1] moved_trans moved_synced by (metis prod.collapse)
  qed
qed

lemma moves_check_container_id [moves_intros]: "moves u a m \<Longrightarrow> moves u a (check_container_id u m)"
  by (rule movesI) (auto simp: check_container_id_def moved_refl split: if_splits dest: movesD)

lemma moves_docker_client [moves_intros]: "moves u a m \<Longrightarrow> moves u a (docker_client m)"
  unfolding docker_client_def by (intro moves_intros) auto

lemma moves_wrap_docker_error [moves_intros]: "moves u a m \<Longrightarrow> moves u a (wrap_docker_error u m)"
  unfolding wrap_docker_error_def by (intro moves_intros) auto

context network_contract
begin

lemma lifecycle_moves:
  "moves u Stop (stop dk nd u t)" "moves u Reboot (reboot dk nd u t)" "moves u Start (start dk nd u)"
  unfolding stop_def reboot_def start_def
  by (intro moves_intros moves_quiet [OF started] moves_quiet [OF stopped]; simp)+

end

lemma simple_moves: "moves u Pause (pause dk u)" "moves u Unpause (unpause dk u)" "moves u Kill (kill dk u g)"
  unfolding pause_def unpause_def kill_def by (intro moves_intros; simp)+

text \<open>An operation that returns has reached a state it is to reach.\<close>

definition reaches :: "string \<Rightarrow> action \<Rightarrow> ('w, 'a) op \<Rightarrow> bool" where
  "reaches u a m \<longleftrightarrow> (\<forall>w x w'. synced u w \<longrightarrow> m w = (Inr x, w') \<longrightarrow> k_status (w_objs w' u) \<in> targets a)"

lemma reachesD: "reaches u a m \<Longrightarrow> synced u w \<Longrightarrow> m w = (Inr x, w') \<Longrightarrow> k_status (w_objs w' u) \<in> targets a"
  by (auto simp: reaches_def)

lemma reaches_after:
  assumes "moves u a m" "\<And>x. reaches u a (f x)"
  shows "reaches u a (sbind m f)"
  unfolding reaches_def sbind_Inr_iff using assms movesD moved_synced reachesD by metis

lemma reaches_decorated:
  assumes "reaches u a m"
  shows "reaches u a (check_container_id u (wrap_docker_error u (docker_client m)))"
proof -
  have handler: "fst (sbind n (\<lambda>_. sraise e) w1) \<noteq> Inr x" for n :: "('a, unit) op" and e w1 and x :: 'b
    by (auto simp: sbind_def sraise_def split: prod.splits sum.splits)
  have "m w = (Inr x, w')" if "check_container_id u (wrap_docker_error u (docker_client m)) w = (Inr x, w')" for w x w'
    using that
    by (auto simp: check_container_id_def wrap_docker_error_def docker_client_def scatch_def sraise_def [of "case _ of _ \<Rightarrow> _"]
        split: if_splits prod.splits sum.splits dest!: arg_cong [where f = fst] simp: handler)
  then show ?thesis using assms unfolding reaches_def by blast
qed

lemma reaches_assign: "s' \<in> targets a \<Longrightarrow> reaches u a (assign (\<lambda>x. put_status_reason e (put_status s' x)) u)"
  by (auto simp: reaches_def assign_def smodify_def Let_def put_defs)

lemma reaches_sbind_quiet:
  assumes "reaches u a m" "moves u a m" "\<And>x. quiet u (f x)"
  shows "reaches u a (sbind m f)"
  unfolding reaches_def sbind_Inr_iff using assms reachesD unfolding quiet_def by metis

lemma quiet_pure: "quiet u (sreturn x)" "quiet u (sraise e)"
  by (simp_all add: quiet_def st_defs)

lemma quiet_scatch: "quiet u m \<Longrightarrow> (\<And>e. quiet u (h e)) \<Longrightarrow> quiet u (scatch m h)"
  unfolding quiet_def scatch_def by (auto split: prod.splits sum.splits)

lemma reaches_recover:
  assumes "reaches u a m" "moves u a m" "quiet u q" "\<And>e. reaches u a (h e)"
  shows "reaches u a (sbind m (\<lambda>_. scatch q h))"
  unfolding reaches_def
proof (intro allI impI)
  fix w x w'
  assume s: "synced u w" and run: "sbind m (\<lambda>_. scatch q h) w = (Inr x, w')"
  then obtain y w1 where m: "m w = (Inr y, w1)" and q: "scatch q h w1 = (Inr x, w')" by (auto simp: sbind_Inr_iff)
  have s1: "synced u w1" using movesD [OF assms(2) s m] by (rule moved_synced)
  obtain r w2 where q1: "q w1 = (r, w2)" by fastforce
  then have frame: "w_objs w2 = w_objs w1" "synced u w2" using assms(3) s1 by (simp_all add: quiet_def)
  show "k_status (w_objs w' u) \<in> targets a"
  proof (cases r)
    case (Inl e)
    then show ?thesis using q q1 frame reachesD [OF assms(4)] by (auto simp: scatch_def)
  next
    case (Inr z)
    then show ?thesis using q q1 frame reachesD [OF assms(1) s m] by (auto simp: scatch_def)
  qed
qed

lemma simple_reaches: "reaches u Pause (pause dk u)" "reaches u Unpause (unpause dk u)" "reaches u Kill (kill dk u g)"
  unfolding pause_def unpause_def kill_def
  by (intro reaches_decorated reaches_after reaches_assign moves_intros; simp)+

context network_contract
begin

lemma lifecycle_reaches:
  "reaches u Stop (stop dk nd u t)" "reaches u Reboot (reboot dk nd u t)" "reaches u Start (start dk nd u)"
proof -
  show "reaches u Stop (stop dk nd u t)" unfolding stop_def
    by (intro reaches_decorated reaches_after reaches_sbind_quiet reaches_assign moves_intros quiet_scatch quiet_pure stopped; simp)
  show "reaches u Reboot (reboot dk nd u t)" unfolding reboot_def
    by (intro reaches_decorated reaches_after reaches_sbind_quiet reaches_assign moves_intros started; simp)
  have cleanup: "moves u Start (scatch (sbind (with_id u f) (\<lambda>_. nd_on_container_stopped nd u)) (\<lambda>_. sreturn ()))" for f
    by (intro moves_intros moves_quiet [OF stopped])
  show "reaches u Start (start dk nd u)" unfolding start_def
    by (intro reaches_decorated reaches_after [OF moves_with_id] reaches_recover started moves_assign reaches_assign
        reaches_after [OF cleanup]; simp)
qed

end

section \<open>Tasks\<close>

lemma moves_assign_task: "moves u a (assign (put_task_state x) u)"
  by (rule movesI) (auto simp: assign_def smodify_def Let_def put_defs synced_def moved_def life_step.refused)

lemma moves_set_task: "moves u a (sbind (assign (put_task_state x) u) (\<lambda>_. save u))"
  by (intro moves_intros moves_assign_task)

definition at_rest :: "string \<Rightarrow> 'w world \<Rightarrow> bool" where
  \<comment> \<open>no task is running or recorded, and the recorded status is that of the object\<close>
  "at_rest u w \<longleftrightarrow> k_task_state (w_objs w u) = None \<and>
     (\<exists>row. dict_get (w_rows w) u = Some row \<and> k_task_state row = None \<and> k_status row = k_status (w_objs w u))"

lemma at_rest_synced: "at_rest u w \<Longrightarrow> synced u w"
  by (auto simp: at_rest_def synced_def)

lemma end_task:
  assumes "synced u w"
  shows "\<exists>w'. sbind (assign (put_task_state None) u) (\<lambda>_. save u) w = (Inr (), w') \<and> at_rest u w' \<and>
    k_status (w_objs w' u) = k_status (w_objs w u) \<and> moved u a w w'"
proof -
  obtain row where row: "dict_get (w_rows w) u = Some row"
    "F_status \<in> w_changed w u \<or> k_status row = k_status (w_objs w u)" using assms by (auto simp: synced_def)
  let ?run = "sbind (assign (put_task_state None) u) (\<lambda>_. save u) w"
  have ok: "?run = (Inr (), snd ?run)"
    using row(1) by (simp add: sbind_def assign_def smodify_def put_defs save_row)
  have "at_rest u (snd ?run)" "k_status (w_objs (snd ?run) u) = k_status (w_objs w u)"
    using row by (auto simp: sbind_def assign_def smodify_def put_defs save_row at_rest_def merge_def)
  moreover have "moved u a w (snd ?run)"
    by (rule movesD [OF moves_set_task assms ok])
  ultimately show ?thesis using ok by blast
qed

lemma task_outcome:
  assumes m: "moves u a m" and s: "synced u w" and idle: "k_task_state (w_objs w u) = None"
    and run: "update_task_state u ts m w = (r, w')"
  shows "at_rest u w' \<and> moved u a w w' \<and>
    (\<exists>w0 w1. synced u w0 \<and> m w0 = (r, w1) \<and> k_status (w_objs w' u) = k_status (w_objs w1 u))"
proof -
  obtain row where row: "dict_get (w_rows w) u = Some row" using s by (auto simp: synced_def)
  let ?b = "sbind (assign (put_task_state (Some ts)) u) (\<lambda>_. save u) w"
  obtain w0 where b: "?b = (Inr (), w0)"
    using row by (simp add: sbind_def assign_def smodify_def put_defs save_row)
  have m0: "moved u a w w0" by (rule movesD [OF moves_set_task s b])
  obtain r1 w1 where m1: "m w0 = (r1, w1)" by fastforce
  have m01: "moved u a w0 w1" by (rule movesD [OF m moved_synced [OF m0] m1])
  obtain w2 where w2: "sbind (assign (put_task_state None) u) (\<lambda>_. save u) w1 = (Inr (), w2)" "at_rest u w2"
    "k_status (w_objs w2 u) = k_status (w_objs w1 u)" "moved u a w1 w2"
    using end_task [OF moved_synced [OF m01], of a] by blast
  have "update_task_state u ts m w = (r1, w2)"
    using b m1 w2(1) idle unfolding update_task_state_def
    by (simp add: sbind_def get_obj_def sfinally_def assign_def smodify_def split: prod.splits sum.splits)
  then have eq: "r1 = r" "w2 = w'" using run by simp_all
  have "moved u a w w'" using moved_trans [OF m0 moved_trans [OF m01 w2(4)]] eq by simp
  then show ?thesis using eq w2 m1 moved_synced [OF m0] by auto
qed

lemma container_task_outcome:
  assumes m: "moves u a m" "reaches u a m" and s: "at_rest u w"
  shows "\<exists>r w' exc. container_task name act ts u m w = (Inr r, w') \<and> at_rest u w' \<and>
    last (w_events w') = ActionFinish u act exc \<and>
    k_auto_remove (w_objs w' u) = k_auto_remove (w_objs w u) \<and>
    life_step (k_auto_remove (w_objs w u)) a (k_status (w_objs w u)) (k_status (w_objs w' u)) \<and>
    (exc = None \<longrightarrow> k_status (w_objs w' u) \<in> targets a)"
proof -
  define w0 where "w0 = w\<lparr>w_events := w_events w @ [EventStart u (''compute_'' @ name)]\<rparr>"
  have s0: "synced u w0" "k_task_state (w_objs w0 u) = None" using s at_rest_synced [OF s] by (auto simp: w0_def synced_def at_rest_def)
  obtain r1 w1 where run: "update_task_state u ts m w0 = (r1, w1)" by fastforce
  note out = task_outcome [OF m(1) s0 run]
  define exc where "exc = (case r1 of Inl e \<Rightarrow> Some e | Inr _ \<Rightarrow> None)"
  define w' where "w' = w1\<lparr>w_events := (w_events w1 @ [EventFinish u (''compute_'' @ name) exc]) @ [ActionFinish u act exc]\<rparr>"
  have "\<exists>r. container_task name act ts u m w = (Inr r, w')"
    unfolding container_task_def wrap_container_event_def event_reporter_def
    using run by (cases r1) (auto simp: wrap_exception_def finishing_def sbind_def log_event_def smodify_def w0_def w'_def exc_def)
  moreover have "at_rest u w'" using out by (simp add: at_rest_def w'_def)
  moreover have "exc = None \<longrightarrow> k_status (w_objs w' u) \<in> targets a"
    using out reachesD [OF m(2)] by (auto simp: exc_def w'_def split: sum.splits)
  moreover have "k_auto_remove (w_objs w' u) = k_auto_remove (w_objs w u)"
    "life_step (k_auto_remove (w_objs w u)) a (k_status (w_objs w u)) (k_status (w_objs w' u))"
    using out by (auto simp: moved_def w0_def w'_def)
  moreover have "last (w_events w') = ActionFinish u act exc" by (simp add: w'_def)
  ultimately show ?thesis by blast
qed

text \<open>The tasks that refine the state machine, with the action that each performs.\<close>

fun life_task :: "task \<Rightarrow> (string \<times> action \<times> string) option" where
  "life_task (Stop_task u t) = Some (u, Stop, ''stop'')"
| "life_task (Reboot_task u t) = Some (u, Reboot, ''reboot'')"
| "life_task (Pause_task u) = Some (u, Pause, ''pause'')"
| "life_task (Unpause_task u) = Some (u, Unpause, ''unpause'')"
| "life_task (Kill_task u g) = Some (u, Kill, ''kill'')"
| "life_task _ = None"

context network_contract
begin

lemma task_refines:
  assumes M: "m_driver M = docker_driver dk nd h d" and tk: "life_task tk = Some (u, a, name)" and s: "at_rest u w"
  shows "\<exists>exc. at_rest u (run_task M tk w) \<and> last (w_events (run_task M tk w)) = ActionFinish u name exc \<and>
    k_auto_remove (w_objs (run_task M tk w) u) = k_auto_remove (w_objs w u) \<and>
    life_step (k_auto_remove (w_objs w u)) a (k_status (w_objs w u)) (k_status (w_objs (run_task M tk w) u)) \<and>
    (exc = None \<longrightarrow> k_status (w_objs (run_task M tk w) u) \<in> targets a)"
proof -
  note ops = do_container_stop_def do_container_reboot_def do_container_pause_def do_container_unpause_def
    do_container_kill_def docker_driver_def unit_task_def M
  have "\<exists>n ts m. run_task M tk w = snd (container_task n name ts u m w) \<and> moves u a m \<and> reaches u a m"
  proof (cases tk)
    case (Stop_task v t)
    then show ?thesis using tk by (simp add: ops) (blast intro: lifecycle_moves(1) lifecycle_reaches(1))
  next
    case (Reboot_task v t)
    then show ?thesis using tk by (simp add: ops) (blast intro: lifecycle_moves(2) lifecycle_reaches(2))
  next
    case (Pause_task v)
    then show ?thesis using tk by (simp add: ops) (blast intro: simple_moves(1) simple_reaches(1))
  next
    case (Unpause_task v)
    then show ?thesis using tk by (simp add: ops) (blast intro: simple_moves(2) simple_reaches(2))
  next
    case (Kill_task v g)
    then show ?thesis using tk by (simp add: ops) (blast intro: simple_moves(3) simple_reaches(3))
  qed (use tk in simp_all)
  then obtain n ts m where m: "run_task M tk w = snd (container_task n name ts u m w)" "moves u a m" "reaches u a m"
    by blast
  from container_task_outcome [OF m(2,3) s, of n name ts] show ?thesis unfolding m(1) by fastforce
qed

end

section \<open>Deletion\<close>

lemma kuryr_ops_env:
  "(nd_disconnect (kuryr nc dn) v net :: ('w, unit) op) w = (r, w') \<Longrightarrow> \<exists>e. w' = w\<lparr>w_env := e\<rparr>"
  "(nd_delete_security_group (kuryr nc dn) g :: ('w, unit) op) w = (s, w'') \<Longrightarrow> \<exists>e. w'' = w\<lparr>w_env := e\<rparr>"
  by (auto simp: kuryr_def kuryr_disconnect_def sbind_def get_obj_def Let_def on_env_def split: prod.splits)

context kept
begin

lemma keeps_env_op: "(\<And>w r w'. m w = (r, w') \<Longrightarrow> \<exists>e. w' = w\<lparr>w_env := e\<rparr>) \<Longrightarrow> keeps P m"
  by (rule keepsI) (blast intro: env)

lemma keeps_with_id [keeps_intros]: "keeps P (with_id u f)"
  by (rule keepsI) (auto simp: with_id_def on_env_def split: option.splits prod.splits intro!: env)

lemma keeps_docker_client [keeps_intros]: "keeps P m \<Longrightarrow> keeps P (docker_client m)"
  unfolding docker_client_def by (intro keeps_intros)

lemma keeps_tolerate_gone [keeps_intros]: "keeps P (tolerate_gone e)"
  by (cases e) (auto intro: keeps_intros)

lemma keeps_cleanup_exposed_ports [keeps_intros]: "keeps P (cleanup_exposed_ports (kuryr nc dn) u)"
proof -
  have "keeps P (scatch (nd_delete_security_group (kuryr nc dn) g)
      (\<lambda>e. case e of NeutronError _ \<Rightarrow> sreturn () | PortNotFoundClient _ \<Rightarrow> sreturn () | _ \<Rightarrow> sraise e))" for g
    by (rule keeps_scatch, rule keeps_env_op, erule kuryr_ops_env(2)) (auto split: exn.split intro: keeps_intros)
  then show ?thesis
    by (auto simp: cleanup_exposed_ports_def keeps_def split: prod.splits if_splits list.splits)
qed

lemma keeps_delete [keeps_intros]: "keeps P (delete dk (kuryr nc dn) u force)"
  unfolding delete_def cleanup_network_for_container_def
  by (intro keeps_intros keeps_env_op [OF kuryr_ops_env(1)])

lemma keeps_delete_capsule [keeps_intros]: "keeps P (delete_capsule dk (kuryr nc dn) u force)"
  unfolding delete_capsule_def delete_container_in_capsule_def
  by (intro keeps_intros) (auto split: exn.split intro: keeps_intros)

lemma keeps_update_task_state [keeps_intros]: "keeps P m \<Longrightarrow> keeps P (update_task_state u ts m)"
  unfolding update_task_state_def by (intro keeps_intros) (auto simp: put_defs)

lemma keeps_delete_driver:
  assumes "m_driver M = docker_driver dk (kuryr nc dn) h d"
  shows "keeps P (update_task_state u CONTAINER_DELETING
         (sbind (get_obj u)
           (\<lambda>c. sbind (swallowing M u (\<not> force)
                   (if k_type c = Capsule_obj then d_delete_capsule (m_driver M) u force
                    else if k_type c = Container_obj then d_delete (m_driver M) u force
                    else sreturn ()))
             (\<lambda>_. detach_volumes M u (\<not> force)))))"
proof -
  have ops: "d_delete (m_driver M) = delete dk (kuryr nc dn)" "d_delete_capsule (m_driver M) = delete_capsule dk (kuryr nc dn)"
    by (simp_all add: assms docker_driver_def)
  show ?thesis unfolding ops swallowing_def detach_volumes_def fail_container_def by (intro keeps_intros)
qed

end

interpretation tracker: kept "\<lambda>w. w_tracker w = t" for t
  by unfold_locales auto

interpretation uuids: kept "\<lambda>w. \<forall>v. k_uuid (w_objs w v) = U v" for U
  by unfold_locales auto

text \<open>What is left when the deletion comes to the claimed resources.\<close>

lemma delete_tail:
  assumes M: "m_driver M = docker_driver dk (kuryr nc dn) h d"
    and run: "do_container_delete M u force w = (r, w')"
  shows "\<exists>w1 r1. w_tracker w1 = w_tracker w \<and> k_uuid (w_objs w1 u) = k_uuid (w_objs w u) \<and> (has_row u w \<longrightarrow> has_row u w1) \<and>
    ((r = r1 \<and> (\<exists>e. r1 = Inl e) \<and> w' = w1) \<or>
     sbind (on_tracker (remove_usage_from_container (m_publisher M) (to_claim (w_objs w1 u)) True))
           (\<lambda>_. sbind (delete_allocation M u) (\<lambda>_. destroy u)) w1 = (r, w'))"
proof -
  let ?m = "update_task_state u CONTAINER_DELETING
         (sbind (get_obj u)
           (\<lambda>c. sbind (swallowing M u (\<not> force)
                   (if k_type c = Capsule_obj then d_delete_capsule (m_driver M) u force
                    else if k_type c = Container_obj then d_delete (m_driver M) u force
                    else sreturn ()))
             (\<lambda>_. detach_volumes M u (\<not> force))))"
  obtain r1 w1 where m: "?m w = (r1, w1)" by fastforce
  have "w_tracker w1 = w_tracker w" using keepsD [OF tracker.keeps_delete_driver [OF M] _ m] by blast
  moreover have "\<forall>v. k_uuid (w_objs w1 v) = k_uuid (w_objs w v)"
    using keepsD [OF uuids.keeps_delete_driver [OF M, where U = "\<lambda>v. k_uuid (w_objs w v)"] _ m] by blast
  moreover have "has_row u w \<longrightarrow> has_row u w1" using keepsD [OF has_row.keeps_delete_driver [OF M] _ m] by blast
  moreover have "(r = r1 \<and> (\<exists>e. r1 = Inl e) \<and> w' = w1) \<or>
     sbind (on_tracker (remove_usage_from_container (m_publisher M) (to_claim (w_objs w1 u)) True))
           (\<lambda>_. sbind (delete_allocation M u) (\<lambda>_. destroy u)) w1 = (r, w')"
    using run m unfolding do_container_delete_def by (cases r1) (auto simp: sbind_def get_obj_def)
  ultimately show ?thesis by blast
qed

lemma remove_usage_untracks:
  assumes "dict_get (tracked_containers t) (c_uuid c) \<noteq> None"
    and "remove_usage_from_container pub c True t = (Inr (), t')"
  shows "dict_get (tracked_containers t') (c_uuid c) = None"
proof -
  let ?t = "reload t"
  obtain t1 where use: "update_usage_from_container c True ?t = (Inr (), t1)" and upd: "Compute_Tracker.update pub t1 = (Inr (), t')"
    using assms(2) by (auto simp: remove_usage_from_container_def sbind_Inr_iff)
  have old: "c_uuid c \<in> set (dict_keys (tracked_containers ?t))"
    using assms(1) dict_get_None [of "tracked_containers t" "c_uuid c"] by (simp add: reload_def del: set_map)
  from untrack [OF old use] have "dict_get (tracked_containers t1) (c_uuid c) = None" by auto
  then show ?thesis using update_Inr [OF upd] by auto
qed

section \<open>Properties\<close>

text \<open>
  C1. Stopping, restarting, pausing, unpausing and killing a container refine the state
  machine of container states: with the Docker driver and the Kuryr network, whatever Docker
  answers, the task raises nothing, records how it ended as the last event, ends with no task
  state left on the container or in the database, and makes one step of the machine; when it
  reports success the recorded status is the state the action is to reach.
\<close>

theorem lifecycle_refines:
  assumes "m_driver M = docker_driver dk (kuryr nc dn) h d" "life_task tk = Some (u, a, name)" "at_rest u w"
  shows "\<exists>exc. at_rest u (run_task M tk w) \<and> last (w_events (run_task M tk w)) = ActionFinish u name exc \<and>
    life_step (k_auto_remove (w_objs w u)) a (k_status (w_objs w u)) (k_status (w_objs (run_task M tk w) u)) \<and>
    (exc = None \<longrightarrow> k_status (w_objs (run_task M tk w) u) \<in> targets a)"
  using kuryr.task_refines [OF assms] by blast

text \<open>
  C17. Failing a container ends, whatever the volume drivers do: two levels of the recursion
  through the detaching of volumes give the result that any greater depth gives, and the
  result is that the error is recorded in the database, with the host cleared when asked.
\<close>

theorem fail_container_ends:
  assumes "flat w u" "has_row u w"
  shows "\<exists>w' row. (\<forall>n. fail_fuel (n + 2) M u err unset_host w = (Inr (), w')) \<and>
    dict_get (w_rows w') u = Some row \<and> k_status row = ERROR \<and> k_status_reason row = Some err \<and>
    (unset_host \<longrightarrow> k_host row = None)"
  using fail_container_records [OF assms(2), of M err unset_host] fail_fuel_enough [OF assms(1), of _ M err unset_host]
  by fastforce



text \<open>
  Healing a container that is to be rebuilt when it is missing does nothing but start an
  action that never finishes: the rebuild is called without its last argument, and the error
  is dropped.
\<close>

theorem heal_never_rebuilds:
  assumes "k_auto_heal c" "k_status c \<in> set (VALID_STATES Rebuild)" "truthy (k_container_id c)"
  shows "heal_with_rebuilding_container (c, ch) w =
    (Inr (), w\<lparr>w_events := w_events w @ [ActionStart (k_uuid c) ''rebuild'']\<rparr>)"
  using assms by (simp add: heal_with_rebuilding_container_def scatch_def sbind_def log_event_def smodify_def sraise_def sreturn_def)

section \<open>Witnesses\<close>

definition ex_cont :: cont where
  "ex_cont = \<lparr>k_uuid = ''c'', k_type = Container_obj, k_status = RUNNING, k_status_reason = None, k_status_detail = None,
     k_task_state = None, k_container_id = Some ''d1'', k_host = Some ''h'', k_auto_remove = False, k_auto_heal = True,
     k_disk = None, k_cpu = Some 1, k_memory = Some 512, k_cpu_policy = None, k_image_driver = None,
     k_security_groups = [], k_addresses = [], k_hostname = None, k_ports = [], k_runtime = None,
     k_started_at = None, k_websocket = None, k_entrypoint = [], k_command = [], k_exposed_ports = [],
     k_spec = \<lparr>sp_environment = [], sp_workdir = None, sp_labels = [], sp_tty = False, sp_interactive = False,
       sp_privileged = False, sp_restart_policy = None, sp_healthcheck = None, sp_cpuset = None\<rparr>,
     k_init_containers = [], k_containers = []\<rparr>"

definition ex_client :: "unit docker_client" where
  "ex_client = \<lparr>dk_start = (\<lambda>_. sreturn ()), dk_stop = (\<lambda>_ _. sreturn ()), dk_restart = (\<lambda>_ _. sreturn ()),
     dk_pause = (\<lambda>_. sreturn ()), dk_unpause = (\<lambda>_. sreturn ()), dk_kill = (\<lambda>_ _. sreturn ()),
     dk_remove_container = (\<lambda>_ _. sreturn ()),
     dk_inspect_container = (\<lambda>i. sreturn \<lparr>rs_id = i, rs_uuid = None, rs_state = Missing_state, rs_config = None, rs_runtime = None\<rparr>),
     dk_list_containers = sreturn [], dk_update_container = (\<lambda>_ _ _. sreturn ()), dk_resize = (\<lambda>_ _ _. sreturn ()),
     dk_now = (\<lambda>_. 0)\<rparr>"

definition ex_neutron :: "unit neutron_client" where
  "ex_neutron = \<lparr>nc_create_port = (\<lambda>_ _ _ _. sraise (NeutronError 503)), nc_update_device = (\<lambda>_ _ _. sraise (NeutronError 503)),
     nc_release_port = (\<lambda>_. sreturn ()), nc_delete_port = (\<lambda>_. sreturn ()), nc_unbind_port = (\<lambda>_. sreturn ()),
     nc_list_ports = sreturn [], nc_update_groups = (\<lambda>_ _. sreturn ()), nc_delete_security_group = (\<lambda>_. sreturn ()),
     nc_list_security_groups = sreturn []\<rparr>"

definition ex_networks :: "unit docker_networks" where
  "ex_networks = \<lparr>dn_networks = (\<lambda>_. sreturn True), dn_create_network = (\<lambda>_. sreturn ()),
     dn_connect = (\<lambda>_ _ _ _. sreturn ()), dn_disconnect = (\<lambda>_ _. sreturn ())\<rparr>"

definition ex_base_driver :: "unit driver" where
  "ex_base_driver = \<lparr>d_create = (\<lambda>_ _ _ _. sreturn ()), d_create_capsule = (\<lambda>_ _ _ _. sreturn ()),
     d_delete = (\<lambda>_ _. sreturn ()), d_delete_capsule = (\<lambda>_ _. sreturn ()), d_start = (\<lambda>_. sreturn ()),
     d_stop = (\<lambda>_ _. sreturn ()), d_reboot = (\<lambda>_ _. sreturn ()), d_pause = (\<lambda>_. sreturn ()), d_unpause = (\<lambda>_. sreturn ()),
     d_kill = (\<lambda>_ _. sreturn ()), d_show = (\<lambda>_. sreturn ()), d_update = (\<lambda>_. sreturn ()), d_resize = (\<lambda>_ _ _. sreturn ()),
     d_check_container_exist = (\<lambda>_. sreturn True),
     d_pull_image = (\<lambda>r t _ _. sreturn (\<lparr>im_repo = r, im_tag = t, im_path = None, im_driver = ''docker''\<rparr>, True)),
     d_load_image = (\<lambda>_. sreturn ()), d_read_tar_image = sreturn, d_network_attach = (\<lambda>_ _. sreturn ()),
     d_network_detach = (\<lambda>_ _. sreturn ()), d_add_security_group = (\<lambda>_ _. sreturn ()),
     d_remove_security_group = (\<lambda>_ _. sreturn ()), d_list = sreturn ([], []), d_update_containers_states = (\<lambda>_. sreturn ()),
     d_base_size = None, d_disk_quota = False, d_cpu_ratio = 1, d_ram_ratio = 1\<rparr>"

definition ex_manager :: "unit manager" where
  "ex_manager = \<lparr>m_host = ''h'', m_driver = docker_driver ex_client (kuryr ex_neutron ex_networks) ''h'' ex_base_driver,
     m_volume_drivers = [], m_publisher = ex_pub, m_polls = 3, m_default_disk = 10,
     m_parse_image = (\<lambda>_. Inr (''cirros'', ''latest'')), m_pull_policy = (\<lambda>_. ''always''),
     m_delete_allocation = (\<lambda>_. sreturn ()), m_get_port = (\<lambda>_. sreturn ()), m_get_network = (\<lambda>_. sreturn ()),
     m_now = (\<lambda>_. 0), m_remount = False, m_resume = True, m_default_timeout = 60\<rparr>"

definition ex_used_tracker :: cn_tracker where
  "ex_used_tracker = snd (container_claim ex_pub (to_claim ex_cont) None None ex_cn_tracker)"

definition ex_world :: "unit world" where
  "ex_world = \<lparr>w_objs = (\<lambda>_. ex_cont), w_changed = (\<lambda>_. {}), w_rows = [(''c'', ex_cont)], w_volmaps = [], w_connected = [],
     w_allocations = [''c''], w_events = [], w_tracker = ex_used_tracker, w_tasks = [], w_env = ()\<rparr>"

lemma ex_rest: "at_rest ''c'' ex_world" "has_row ''c'' ex_world" "flat ex_world ''c''" "k_uuid (w_objs ex_world ''c'') = ''c''"
  by (simp_all add: at_rest_def has_row_def flat_def ex_world_def ex_cont_def)

lemma ex_driver: "m_driver ex_manager = docker_driver ex_client (kuryr ex_neutron ex_networks) ''h'' ex_base_driver"
  by (simp add: ex_manager_def)

theorem lifecycle_refines_witness:
  "at_rest ''c'' (run_task ex_manager (Stop_task ''c'' None) ex_world) \<and>
   life_step False Stop RUNNING (k_status (w_objs (run_task ex_manager (Stop_task ''c'' None) ex_world) ''c''))"
  using lifecycle_refines [OF ex_driver _ ex_rest(1), of "Stop_task ''c'' None" Stop "''stop''"]
  by (auto simp: ex_world_def ex_cont_def)

theorem fail_container_ends_witness:
  "\<exists>w' row. fail_fuel 5 ex_manager ''c'' (Text ''broken'') True ex_world = (Inr (), w') \<and>
    dict_get (w_rows w') ''c'' = Some row \<and> k_status row = ERROR \<and> k_host row = None"
proof -
  from fail_container_ends [OF ex_rest(3,2), of ex_manager "Text ''broken''" True] obtain w' row where
    w': "\<forall>n. fail_fuel (n + 2) ex_manager ''c'' (Text ''broken'') True ex_world = (Inr (), w')"
    "dict_get (w_rows w') ''c'' = Some row" "k_status row = ERROR" "k_host row = None" by auto
  from w'(1) have "fail_fuel (3 + 2) ex_manager ''c'' (Text ''broken'') True ex_world = (Inr (), w')" by blast
  then show ?thesis using w'(2-4) by auto
qed

lemma ex_tracked: "dict_get (tracked_containers (w_tracker ex_world)) ''c'' \<noteq> None"
  unfolding ex_world_def ex_used_tracker_def by code_simp

lemma ex_delete: "fst (do_container_delete ex_manager ''c'' True ex_world) = Inr ()"
  by code_simp



theorem heal_never_rebuilds_witness:
  "k_auto_heal ex_cont \<and> w_rows (snd (heal_with_rebuilding_container (ex_cont, {}) ex_world)) = [(''c'', ex_cont)]"
  using heal_never_rebuilds [of ex_cont "{}" ex_world] by (simp add: ex_cont_def ex_world_def)

end
