(* ===== verification/Quota.thy ===== *)
theory Quota
  imports Complex_Main Py_Numbers "HOL-Library.List_Lexorder" "HOL-Library.Char_ord"
begin

text \<open>
  Quotas (\<^verbatim>\<open>zun/common/quota.py\<close>): the tables of limits (\<^verbatim>\<open>zun/db/sqlalchemy/api.py\<close>,
  \<^verbatim>\<open>zun/objects/quota.py\<close>, \<^verbatim>\<open>zun/objects/quota_class.py\<close>), the two quota drivers and the
  engine, the requests that change limits (\<^verbatim>\<open>zun/api/controllers/v1/quotas.py\<close>,
  \<^verbatim>\<open>quota_classes.py\<close>), and the check before a container is created or updated
  (\<^verbatim>\<open>zun/api/controllers/v1/containers.py\<close>).
\<close>

section \<open>Python numbers\<close>

text \<open>
  A count is an int or another number (a float; some databases give a decimal for a sum, which
  the code turns into a float before it computes). Floats are exact.
\<close>

datatype pynum = PInt int | PFloat rat

fun num_value :: "pynum \<Rightarrow> rat" where
  "num_value (PInt i) = of_int i"
| "num_value (PFloat x) = x"

text \<open>A value of a JSON document, as far as amounts of resources are concerned.\<close>

datatype pyval = VNone | VInt int | VFloat rat | VText string

definition is_close :: "rat \<Rightarrow> rat \<Rightarrow> bool" where
  "is_close x y \<longleftrightarrow> \<bar>x - y\<bar> \<le> max (1 / 10 ^ 6 * max \<bar>x\<bar> \<bar>y\<bar>) 0"

fun is_less_than :: "pynum \<Rightarrow> pynum \<Rightarrow> bool" where
  "is_less_than (PInt i) (PInt j) = (i < j)"
| "is_less_than x y = (\<not> (num_value x - num_value y \<ge> 0 \<or> is_close (num_value x) (num_value y)))"

definition half_even :: "rat \<Rightarrow> int" where
  "half_even y =
     (let f = \<lfloor>y\<rfloor>; d = y - of_int f
      in if d < 1 / 2 then f else if 1 / 2 < d then f + 1 else if even f then f else f + 1)"

fun round3 :: "pynum \<Rightarrow> pynum" where
  \<comment> \<open>\<open>round(x, 3)\<close>\<close>
  "round3 (PInt i) = PInt i"
| "round3 (PFloat x) = PFloat (of_int (half_even (1000 * x)) / 1000)"

definition float_exponent :: "string \<Rightarrow> int option" where
  "float_exponent ex =
     (if ex = [] then Some 0
      else signed (\<lambda>t. map_option (digits_value 10) (digit_groups is_digit t)) (tl ex))"

definition float_digits :: "string \<Rightarrow> string option" where
  "float_digits s = (if s = [] then Some [] else digit_groups is_digit s)"

definition float_body :: "string \<Rightarrow> rat option" where
  "float_body t =
     (let mant = takeWhile (\<lambda>c. c \<notin> {CHR ''e'', CHR ''E''}) t;
          ex = dropWhile (\<lambda>c. c \<notin> {CHR ''e'', CHR ''E''}) t;
          ip = takeWhile (\<lambda>c. c \<noteq> CHR ''.'') mant;
          fp = drop 1 (dropWhile (\<lambda>c. c \<noteq> CHR ''.'') mant)
      in case (float_digits ip, float_digits fp, float_exponent ex) of
           (Some i, Some f, Some e) \<Rightarrow>
             if i = [] \<and> f = [] then None
             else Some (of_nat (digits_value 10 (i @ f)) / 10 ^ length f
                        * (if e \<ge> 0 then 10 ^ nat e else 1 / 10 ^ nat (- e)))
         | _ \<Rightarrow> None)"

definition py_float :: "string \<Rightarrow> rat option" where
  \<comment> \<open>\<open>float(s)\<close>; the names of infinities and of no number, which no schema of the service
      lets through, are not numbers here\<close>
  "py_float s =
     (let t = strip s
      in if t \<noteq> [] \<and> hd t \<in> {CHR ''-'', CHR ''+''}
         then map_option (\<lambda>x. if hd t = CHR ''-'' then - x else x) (float_body (tl t))
         else float_body t)"

section \<open>Limits and errors\<close>

text \<open>What a dictionary of limits holds: a limit, \<open>None\<close>, or the name of its owner.\<close>

datatype qvalue = QNone | QInt int | QText string

datatype quota_error =
    QuotaAlreadyExists string string
  | ProjectQuotaNotFound string
  | QuotaClassNotFound string
  | QuotaResourceUnknown "string list"
  | InvalidQuotaMethodUsage string string
  | InvalidQuotaValue "string list"
  | OverQuota "string list" "(string, qvalue) dict" "(string, int) dict"
  | PolicyNotAuthorized string
  | SchemaValidationError string
  | PyTypeError
  | PyValueError
  | PyKeyError
  | PyAttributeError
  | UnboundLocalError

fun as_int :: "pyval \<Rightarrow> (quota_error, int) res" where
  "as_int VNone = Inl PyTypeError"
| "as_int (VInt i) = Inr i"
| "as_int (VFloat x) = Inr (if x \<ge> 0 then \<lfloor>x\<rfloor> else \<lceil>x\<rceil>)"
| "as_int (VText s) = (case Py_Numbers.py_int s of None \<Rightarrow> Inl PyValueError | Some i \<Rightarrow> Inr i)"

fun as_float :: "pyval \<Rightarrow> (quota_error, rat) res" where
  "as_float VNone = Inl PyTypeError"
| "as_float (VInt i) = Inr (of_int i)"
| "as_float (VFloat x) = Inr x"
| "as_float (VText s) = (case py_float s of None \<Rightarrow> Inl PyValueError | Some x \<Rightarrow> Inr x)"

section \<open>Tables\<close>

record quota_row =
  qr_project_id :: string
  qr_resource :: string
  qr_hard_limit :: "int option"

record class_row =
  qc_class_name :: string
  qc_resource :: string
  qc_hard_limit :: "int option"

record usage_row =
  qu_project_id :: string
  qu_resource :: string
  qu_in_use :: int
  qu_reserved :: int

text \<open>The columns of the table of containers that are counted.\<close>

record cont_row =
  cr_project_id :: string
  cr_container_type :: int
  cr_cpu :: "rat option"
  cr_memory :: "string option"
  cr_disk :: "int option"

text \<open>Tables are lists of rows in the order of their generated ids.\<close>

record quota_db =
  db_quotas :: "quota_row list"
  db_classes :: "class_row list"
  db_usages :: "usage_row list"
  db_containers :: "cont_row list"

type_synonym 'a qop = "(quota_db, quota_error, 'a) st"

text \<open>
  A unique constraint names columns; \<^verbatim>\<open>models.Quota\<close> has none, and neither has the migration
  that creates the table.
\<close>

definition quota_table_args :: "(quota_row \<Rightarrow> string list) list" where
  "quota_table_args = []"

definition duplicate_entry :: "('r \<Rightarrow> string list) list \<Rightarrow> 'r list \<Rightarrow> 'r \<Rightarrow> bool" where
  "duplicate_entry cs rows r \<longleftrightarrow> list_ex (\<lambda>key. list_ex (\<lambda>r'. key r' = key r) rows) cs"

definition limit_value :: "int option \<Rightarrow> qvalue" where
  "limit_value l = (case l of None \<Rightarrow> QNone | Some i \<Rightarrow> QInt i)"

definition quota_create :: "string \<Rightarrow> string \<Rightarrow> int option \<Rightarrow> quota_row qop" where
  "quota_create project_id resource l db =
     (let row = \<lparr>qr_project_id = project_id, qr_resource = resource, qr_hard_limit = l\<rparr>
      in if duplicate_entry quota_table_args (db_quotas db) row
         then (Inl (QuotaAlreadyExists project_id resource), db)
         else (Inr row, db\<lparr>db_quotas := db_quotas db @ [row]\<rparr>))"

definition quota_match :: "string \<Rightarrow> string \<Rightarrow> quota_row \<Rightarrow> bool" where
  "quota_match project_id resource row \<longleftrightarrow> qr_project_id row = project_id \<and> qr_resource row = resource"

definition quota_get :: "string \<Rightarrow> string \<Rightarrow> quota_row qop" where
  "quota_get project_id resource db =
     (case List.find (quota_match project_id resource) (db_quotas db) of
        None \<Rightarrow> (Inl (ProjectQuotaNotFound project_id), db)
      | Some row \<Rightarrow> (Inr row, db))"

definition quota_get_all_by_project :: "string \<Rightarrow> (string, qvalue) dict qop" where
  "quota_get_all_by_project project_id db =
     (Inr (dict_update [(''project_id'', QText project_id)]
        (map (\<lambda>row. (qr_resource row, limit_value (qr_hard_limit row)))
           (filter (\<lambda>row. qr_project_id row = project_id) (db_quotas db)))), db)"

definition quota_update :: "string \<Rightarrow> string \<Rightarrow> int option \<Rightarrow> unit qop" where
  "quota_update project_id resource l db =
     (if list_ex (quota_match project_id resource) (db_quotas db)
      then (Inr (), db\<lparr>db_quotas := map (\<lambda>row. if quota_match project_id resource row
                                     then row\<lparr>qr_hard_limit := l\<rparr> else row) (db_quotas db)\<rparr>)
      else (Inl (ProjectQuotaNotFound project_id), db))"

definition quota_destroy :: "string \<Rightarrow> string \<Rightarrow> unit qop" where
  "quota_destroy project_id resource =
     smodify (\<lambda>db. db\<lparr>db_quotas := filter (\<lambda>row. \<not> quota_match project_id resource row) (db_quotas db)\<rparr>)"

definition quota_destroy_all_by_project :: "string \<Rightarrow> unit qop" where
  "quota_destroy_all_by_project project_id =
     smodify (\<lambda>db. db\<lparr>db_quotas := filter (\<lambda>row. qr_project_id row \<noteq> project_id) (db_quotas db),
                    db_usages := filter (\<lambda>row. qu_project_id row \<noteq> project_id) (db_usages db)\<rparr>)"

definition quota_class_create :: "string \<Rightarrow> string \<Rightarrow> int option \<Rightarrow> class_row qop" where
  "quota_class_create class_name resource l db =
     (let row = \<lparr>qc_class_name = class_name, qc_resource = resource, qc_hard_limit = l\<rparr>
      in (Inr row, db\<lparr>db_classes := db_classes db @ [row]\<rparr>))"

definition class_match :: "string \<Rightarrow> string \<Rightarrow> class_row \<Rightarrow> bool" where
  "class_match class_name resource row \<longleftrightarrow> qc_class_name row = class_name \<and> qc_resource row = resource"

definition quota_class_get :: "string \<Rightarrow> string \<Rightarrow> class_row qop" where
  "quota_class_get class_name resource db =
     (case List.find (class_match class_name resource) (db_classes db) of
        None \<Rightarrow> (Inl (QuotaClassNotFound class_name), db)
      | Some row \<Rightarrow> (Inr row, db))"

definition quota_class_get_all_by_name :: "string \<Rightarrow> (string, qvalue) dict qop" where
  "quota_class_get_all_by_name class_name db =
     (Inr (dict_update [(''class_name'', QText class_name)]
        (map (\<lambda>row. (qc_resource row, limit_value (qc_hard_limit row)))
           (filter (\<lambda>row. qc_class_name row = class_name) (db_classes db)))), db)"

definition DEFAULT_QUOTA_CLASS_NAME :: string where
  "DEFAULT_QUOTA_CLASS_NAME = ''default''"

definition quota_class_get_default :: "(string, qvalue) dict qop" where
  "quota_class_get_default db =
     (Inr (dict_update [(''class_name'', QText DEFAULT_QUOTA_CLASS_NAME)]
        (map (\<lambda>row. (qc_resource row, limit_value (qc_hard_limit row)))
           (filter (\<lambda>row. qc_class_name row = DEFAULT_QUOTA_CLASS_NAME) (db_classes db)))), db)"

definition quota_class_update :: "string \<Rightarrow> string \<Rightarrow> int option \<Rightarrow> unit qop" where
  "quota_class_update class_name resource l db =
     (if list_ex (class_match class_name resource) (db_classes db)
      then (Inr (), db\<lparr>db_classes := map (\<lambda>row. if class_match class_name resource row
                                     then row\<lparr>qc_hard_limit := l\<rparr> else row) (db_classes db)\<rparr>)
      else (Inl (QuotaClassNotFound class_name), db))"

definition quota_usage_get_all_by_project :: "string \<Rightarrow> (string, int \<times> int) dict qop" where
  \<comment> \<open>without the entry that names the project\<close>
  "quota_usage_get_all_by_project project_id db =
     (Inr (dict_update [] (map (\<lambda>row. (qu_resource row, (qu_in_use row, qu_reserved row)))
        (filter (\<lambda>row. qu_project_id row = project_id) (db_usages db)))), db)"

section \<open>Objects\<close>

definition Quota_get_all :: "string \<Rightarrow> (string, qvalue) dict qop" where
  "Quota_get_all project_id = quota_get_all_by_project project_id"

definition QuotaClass_get_all :: "string option \<Rightarrow> (string, qvalue) dict qop" where
  "QuotaClass_get_all class_name =
     (case class_name of None \<Rightarrow> quota_class_get_default | Some c \<Rightarrow> quota_class_get_all_by_name c)"

definition Quota_create :: "quota_row \<Rightarrow> unit qop" where
  "Quota_create q = sbind (quota_create (qr_project_id q) (qr_resource q) (qr_hard_limit q)) (\<lambda>_. sreturn ())"

definition Quota_update :: "quota_row \<Rightarrow> unit qop" where
  "Quota_update q = quota_update (qr_project_id q) (qr_resource q) (qr_hard_limit q)"

definition QuotaClass_create :: "class_row \<Rightarrow> unit qop" where
  "QuotaClass_create q = sbind (quota_class_create (qc_class_name q) (qc_resource q) (qc_hard_limit q)) (\<lambda>_. sreturn ())"

definition QuotaClass_update :: "class_row \<Rightarrow> unit qop" where
  "QuotaClass_update q = quota_class_update (qc_class_name q) (qc_resource q) (qc_hard_limit q)"

text \<open>
  The configuration, and the sum that the database computes over a column: its type is the
  choice of the database driver. \<open>None\<close> is the sum of no values.
\<close>

record quota_conf =
  conf_quota :: "string \<Rightarrow> int"
  conf_default_memory :: int
  conf_default_cpu :: rat
  sql_sum :: "pyval list \<Rightarrow> pynum option"

definition TYPE_CONTAINER :: int where
  "TYPE_CONTAINER = 0"

definition column :: "string \<Rightarrow> cont_row \<Rightarrow> pyval" where
  "column flag row =
     (if flag = ''disk'' then (case cr_disk row of None \<Rightarrow> VNone | Some i \<Rightarrow> VInt i)
      else if flag = ''cpu'' then (case cr_cpu row of None \<Rightarrow> VNone | Some x \<Rightarrow> VFloat x)
      else (case cr_memory row of None \<Rightarrow> VNone | Some s \<Rightarrow> VText s))"

definition project_rows :: "int \<Rightarrow> string \<Rightarrow> quota_db \<Rightarrow> cont_row list" where
  "project_rows container_type project_id db =
     filter (\<lambda>row. cr_project_id row = project_id \<and> cr_container_type row = container_type) (db_containers db)"

definition count_usage :: "quota_conf \<Rightarrow> int \<Rightarrow> string \<Rightarrow> string \<Rightarrow> pynum option qop" where
  "count_usage C container_type project_id flag db =
     (let rows = project_rows container_type project_id db
      in if flag = ''containers'' then (Inr (Some (PInt (int (length rows)))), db)
         else if flag \<in> {''disk'', ''cpu'', ''memory''} then (Inr (sql_sum C (map (column flag) rows)), db)
         else (Inl UnboundLocalError, db))"

definition or_zero :: "pynum option \<Rightarrow> pynum" where
  \<comment> \<open>\<open>x or 0.0\<close>\<close>
  "or_zero x = (case x of None \<Rightarrow> PFloat 0 | Some n \<Rightarrow> if num_value n = 0 then PFloat 0 else n)"

definition get_count :: "quota_conf \<Rightarrow> string \<Rightarrow> string \<Rightarrow> pynum qop" where
  "get_count C project_id flag =
     sbind (count_usage C TYPE_CONTAINER project_id flag) (\<lambda>u. sreturn (or_zero u))"

section \<open>Resources\<close>

datatype counter = Containers_count | Cpu_count | Disk_count | Memory_count

record quota_resource =
  rs_name :: string
  rs_flag :: "string option"
  rs_count :: "counter option"

type_synonym resources = "(string, quota_resource) dict"

definition containers_count :: "quota_conf \<Rightarrow> string \<Rightarrow> pynum qop" where
  "containers_count C project_id = get_count C project_id ''containers''"

definition cpu_count :: "quota_conf \<Rightarrow> string \<Rightarrow> pynum qop" where
  "cpu_count C project_id = sbind (get_count C project_id ''cpu'') (\<lambda>n. sreturn (round3 n))"

definition disk_count :: "quota_conf \<Rightarrow> string \<Rightarrow> pynum qop" where
  "disk_count C project_id = get_count C project_id ''disk''"

definition memory_count :: "quota_conf \<Rightarrow> string \<Rightarrow> pynum qop" where
  "memory_count C project_id = get_count C project_id ''memory''"

fun call_counter :: "counter \<Rightarrow> quota_conf \<Rightarrow> string \<Rightarrow> pynum qop" where
  "call_counter Containers_count = containers_count"
| "call_counter Cpu_count = cpu_count"
| "call_counter Disk_count = disk_count"
| "call_counter Memory_count = memory_count"

definition resource_count :: "quota_conf \<Rightarrow> quota_resource \<Rightarrow> string \<Rightarrow> pynum qop" where
  \<comment> \<open>only a \<^verbatim>\<open>CountableResource\<close> has the method\<close>
  "resource_count C r project_id =
     (case rs_count r of None \<Rightarrow> sraise PyAttributeError | Some c \<Rightarrow> call_counter c C project_id)"

definition resource_default :: "quota_conf \<Rightarrow> quota_resource \<Rightarrow> int" where
  "resource_default C r = (case rs_flag r of None \<Rightarrow> -1 | Some f \<Rightarrow> if f = [] then -1 else conf_quota C f)"

text \<open>What the look-up of a quota returns: what the driver found, or the default.\<close>

datatype ('p, 'c) quota_answer = OfProject 'p | OfClass 'c | OfDefault int

definition quota_of_class ::
    "quota_conf \<Rightarrow> (string \<Rightarrow> string \<Rightarrow> 'c qop) \<Rightarrow> string option \<Rightarrow> quota_resource \<Rightarrow> ('p, 'c) quota_answer qop" where
  "quota_of_class C by_class quota_class r =
     (let default = sreturn (OfDefault (resource_default C r))
      in case quota_class of
           None \<Rightarrow> default
         | Some c \<Rightarrow> if c = [] then default
             else scatch (sbind (by_class c (rs_name r)) (\<lambda>q. sreturn (OfClass q)))
               (\<lambda>e. case e of QuotaClassNotFound _ \<Rightarrow> default | _ \<Rightarrow> sraise e))"

definition BaseResource_quota ::
    "quota_conf \<Rightarrow> (string \<Rightarrow> string \<Rightarrow> 'p qop) \<Rightarrow> (string \<Rightarrow> string \<Rightarrow> 'c qop)
     \<Rightarrow> string option \<Rightarrow> string option \<Rightarrow> quota_resource \<Rightarrow> ('p, 'c) quota_answer qop" where
  \<comment> \<open>with the two look-ups of the driver\<close>
  "BaseResource_quota C by_project by_class project_id quota_class r =
     (case project_id of
        None \<Rightarrow> quota_of_class C by_class quota_class r
      | Some p \<Rightarrow> if p = [] then quota_of_class C by_class quota_class r
          else scatch (sbind (by_project p (rs_name r)) (\<lambda>q. sreturn (OfProject q)))
            (\<lambda>e. case e of ProjectQuotaNotFound _ \<Rightarrow> quota_of_class C by_class quota_class r | _ \<Rightarrow> sraise e))"

section \<open>The database driver\<close>

definition get_or :: "(string, qvalue) dict \<Rightarrow> string \<Rightarrow> qvalue \<Rightarrow> qvalue" where
  "get_or m k d = (case dict_get m k of None \<Rightarrow> d | Some v \<Rightarrow> v)"

definition get_by_project :: "string \<Rightarrow> string \<Rightarrow> quota_row qop" where
  "get_by_project project_id resource = quota_get project_id resource"

definition get_by_class :: "string \<Rightarrow> string \<Rightarrow> class_row qop" where
  "get_by_class quota_class resource = quota_class_get quota_class resource"

definition get_defaults :: "quota_conf \<Rightarrow> resources \<Rightarrow> (string, qvalue) dict qop" where
  "get_defaults C rs =
     sbind (QuotaClass_get_all None) (\<lambda>default_quotas.
       sreturn (dict_update [] (map (\<lambda>r. (rs_name r, get_or default_quotas (rs_name r) (QInt (resource_default C r))))
                                  (dict_values rs))))"

definition get_class_quotas :: "quota_conf \<Rightarrow> resources \<Rightarrow> string \<Rightarrow> bool \<Rightarrow> (string, qvalue) dict qop" where
  "get_class_quotas C rs quota_class defaults =
     sbind (QuotaClass_get_all (Some quota_class)) (\<lambda>class_quotas.
       sreturn (dict_update []
         (map (\<lambda>r. (rs_name r, get_or class_quotas (rs_name r) (QInt (resource_default C r))))
            (filter (\<lambda>r. defaults \<or> rs_name r \<in> set (dict_keys class_quotas)) (dict_values rs)))))"

record quota_entry =
  qe_limit :: qvalue
  qe_in_use :: "pynum option"

definition process_quotas ::
    "quota_conf \<Rightarrow> resources \<Rightarrow> (string, qvalue) dict \<Rightarrow> string option \<Rightarrow> bool \<Rightarrow> (string, pynum) dict
     \<Rightarrow> (string, quota_entry) dict qop" where
  "process_quotas C rs quotas quota_class defaults usages =
     sbind (case quota_class of
              None \<Rightarrow> sreturn []
            | Some c \<Rightarrow> if c = [] then sreturn [] else QuotaClass_get_all (Some c)) (\<lambda>class_quotas.
     sbind (get_defaults C rs) (\<lambda>default_quotas.
     sbind (slift (if list_all (\<lambda>r. rs_name r \<in> set (dict_keys default_quotas)) (dict_values rs)
                   then Inr () else Inl PyKeyError)) (\<lambda>_.
       sreturn (dict_update []
         (map (\<lambda>r. (rs_name r,
              \<lparr>qe_limit = get_or quotas (rs_name r)
                 (get_or class_quotas (rs_name r) (get_or default_quotas (rs_name r) QNone)),
               qe_in_use = (if usages = [] then None
                            else Some (case dict_get usages (rs_name r) of None \<Rightarrow> PInt 0 | Some n \<Rightarrow> n))\<rparr>))
            (filter (\<lambda>r. defaults \<or> rs_name r \<in> set (dict_keys quotas)) (dict_values rs)))))))"

fun count_each :: "quota_conf \<Rightarrow> string \<Rightarrow> quota_resource list \<Rightarrow> (string, pynum) dict \<Rightarrow> (string, pynum) dict qop" where
  "count_each C project_id [] m = sreturn m"
| "count_each C project_id (r # rs) m =
     sbind (resource_count C r project_id) (\<lambda>n. count_each C project_id rs (dict_set (rs_name r) n m))"

definition get_project_quotas ::
    "quota_conf \<Rightarrow> resources \<Rightarrow> string \<Rightarrow> string option \<Rightarrow> bool \<Rightarrow> bool \<Rightarrow> (string, qvalue) dict option
     \<Rightarrow> (string, quota_entry) dict qop" where
  "get_project_quotas C rs project_id quota_class defaults usages project_quotas =
     sbind (case project_quotas of
              None \<Rightarrow> Quota_get_all project_id
            | Some [] \<Rightarrow> Quota_get_all project_id
            | Some m \<Rightarrow> sreturn m) (\<lambda>quotas.
     sbind (if usages then count_each C project_id (dict_values rs) [] else sreturn []) (\<lambda>project_usages.
       process_quotas C rs quotas quota_class defaults project_usages))"

definition get_quotas ::
    "quota_conf \<Rightarrow> resources \<Rightarrow> string list \<Rightarrow> string \<Rightarrow> (string, qvalue) dict \<Rightarrow> (string, qvalue) dict qop" where
  "get_quotas C rs keys project_id project_quotas =
     (let sub_resources = filter (\<lambda>(k, _). k \<in> set keys) rs
      in sbind (get_project_quotas C sub_resources project_id None True False (Some project_quotas))
           (\<lambda>quotas. sreturn (map (\<lambda>(k, v). (k, qe_limit v)) quotas)))"

definition valid_method_call_check_resource :: "string \<Rightarrow> string \<Rightarrow> resources \<Rightarrow> (quota_error, unit) res" where
  "valid_method_call_check_resource name method rs =
     (if name \<notin> set (dict_keys rs) then Inl (InvalidQuotaMethodUsage method name) else Inr ())"

fun valid_method_call_check_resources :: "string list \<Rightarrow> string \<Rightarrow> resources \<Rightarrow> (quota_error, unit) res" where
  "valid_method_call_check_resources [] method rs = Inr ()"
| "valid_method_call_check_resources (n # ns) method rs =
     rbind (valid_method_call_check_resource n method rs) (\<lambda>_. valid_method_call_check_resources ns method rs)"

fun over_limit :: "qvalue option \<Rightarrow> pynum \<Rightarrow> (quota_error, bool) res" where
  "over_limit None v = Inl PyKeyError"
| "over_limit (Some (QInt l)) v = Inr (l \<ge> 0 \<and> is_less_than (PInt l) v)"
| "over_limit (Some _) v = Inl PyTypeError"

fun find_overs :: "(string, qvalue) dict \<Rightarrow> (string \<times> pynum) list \<Rightarrow> (quota_error, string list) res" where
  "find_overs quotas [] = Inr []"
| "find_overs quotas ((k, v) # vs) =
     rbind (over_limit (dict_get quotas k) v) (\<lambda>b. rbind (find_overs quotas vs) (\<lambda>ks. Inr (if b then k # ks else ks)))"

definition given_limits :: "qvalue option list \<Rightarrow> qvalue list" where
  "given_limits ls = filter (\<lambda>v. v \<noteq> QNone) (concat (map (\<lambda>v. case v of None \<Rightarrow> [] | Some x \<Rightarrow> [x]) ls))"

definition headroom_of :: "(string, qvalue) dict \<Rightarrow> (string, qvalue) dict \<Rightarrow> string \<Rightarrow> (quota_error, int) res" where
  "headroom_of quotas project_quotas k =
     (case given_limits [dict_get quotas k, dict_get project_quotas k] of
        [QInt a] \<Rightarrow> Inr a
      | [QInt a, QInt b] \<Rightarrow> Inr (min a b)
      | [] \<Rightarrow> Inl PyValueError
      | _ \<Rightarrow> Inl PyTypeError)"

fun headrooms :: "(string, qvalue) dict \<Rightarrow> (string, qvalue) dict \<Rightarrow> string list \<Rightarrow> (string, int) dict
    \<Rightarrow> (quota_error, (string, int) dict) res" where
  "headrooms quotas project_quotas [] m = Inr m"
| "headrooms quotas project_quotas (k # ks) m =
     rbind (headroom_of quotas project_quotas k) (\<lambda>h. headrooms quotas project_quotas ks (dict_set k h m))"

definition limit_check :: "quota_conf \<Rightarrow> string \<Rightarrow> resources \<Rightarrow> (string, pynum) dict \<Rightarrow> string option \<Rightarrow> unit qop" where
  \<comment> \<open>\<open>ctx_project\<close> is the project of the request\<close>
  "limit_check C ctx_project rs vals project_id =
     sbind (slift (valid_method_call_check_resources (dict_keys vals) ''check'' rs)) (\<lambda>_.
     let unders = dict_keys (filter (\<lambda>(_, v). num_value v < 0) vals)
     in if unders \<noteq> [] then sraise (InvalidQuotaValue (sort unders))
        else let p = (case project_id of None \<Rightarrow> ctx_project | Some p \<Rightarrow> p)
        in sbind (Quota_get_all p) (\<lambda>project_quotas.
           sbind (get_quotas C rs (dict_keys vals) p project_quotas) (\<lambda>quotas.
           sbind (slift (find_overs quotas vals)) (\<lambda>overs.
             if overs = [] then sreturn ()
             else sbind (slift (headrooms quotas project_quotas overs []))
               (\<lambda>h. sraise (OverQuota (sort overs) quotas h))))))"

definition destroy_all_by_project :: "string \<Rightarrow> unit qop" where
  "destroy_all_by_project project_id = quota_destroy_all_by_project project_id"

section \<open>The driver that checks nothing\<close>

definition noop_get_by_project :: "string \<Rightarrow> string \<Rightarrow> int qop" where
  "noop_get_by_project project_id resource = sreturn (-1)"

definition noop_get_by_class :: "string \<Rightarrow> string \<Rightarrow> int qop" where
  "noop_get_by_class quota_class resource = sreturn (-1)"

definition noop_get_defaults :: "resources \<Rightarrow> (string, qvalue) dict qop" where
  "noop_get_defaults rs = sreturn (dict_update [] (map (\<lambda>r. (rs_name r, QInt (-1))) (dict_values rs)))"

definition noop_get_class_quotas :: "resources \<Rightarrow> string \<Rightarrow> bool \<Rightarrow> (string, qvalue) dict qop" where
  "noop_get_class_quotas rs quota_class defaults =
     sreturn (dict_update [] (map (\<lambda>r. (rs_name r, QInt (-1))) (dict_values rs)))"

definition noop_get_project_quotas :: "resources \<Rightarrow> bool \<Rightarrow> (string, quota_entry) dict qop" where
  "noop_get_project_quotas rs usages =
     sreturn (dict_update [] (map (\<lambda>r. (rs_name r,
        \<lparr>qe_limit = QInt (-1), qe_in_use = (if usages then Some (PInt (-1)) else None)\<rparr>)) (dict_values rs)))"

definition noop_limit_check :: "resources \<Rightarrow> (string, pynum) dict \<Rightarrow> unit qop" where
  "noop_limit_check rs vals = sreturn ()"

definition noop_destroy_all_by_project :: "string \<Rightarrow> unit qop" where
  "noop_destroy_all_by_project project_id = sreturn ()"

section \<open>The engine\<close>

datatype quota_driver = DbQuotaDriver | NoopQuotaDriver

record quota_engine =
  en_resources :: resources
  en_driver :: quota_driver

definition new_engine :: "quota_driver \<Rightarrow> quota_engine" where
  "new_engine d = \<lparr>en_resources = [], en_driver = d\<rparr>"

definition register_resource :: "quota_resource \<Rightarrow> quota_engine \<Rightarrow> quota_engine" where
  "register_resource r E = E\<lparr>en_resources := dict_set (rs_name r) r (en_resources E)\<rparr>"

definition register_resources :: "quota_resource list \<Rightarrow> quota_engine \<Rightarrow> quota_engine" where
  "register_resources rs E = fold register_resource rs E"

definition zun_resources :: "quota_resource list" where
  "zun_resources =
     [\<lparr>rs_name = ''containers'', rs_flag = Some ''containers'', rs_count = Some Containers_count\<rparr>,
      \<lparr>rs_name = ''memory'', rs_flag = Some ''memory'', rs_count = Some Memory_count\<rparr>,
      \<lparr>rs_name = ''disk'', rs_flag = Some ''disk'', rs_count = Some Disk_count\<rparr>,
      \<lparr>rs_name = ''cpu'', rs_flag = Some ''cpu'', rs_count = Some Cpu_count\<rparr>]"

definition QUOTAS :: "quota_driver \<Rightarrow> quota_engine" where
  "QUOTAS d = register_resources zun_resources (new_engine d)"

definition engine_get_by_project :: "quota_engine \<Rightarrow> string \<Rightarrow> string \<Rightarrow> (quota_row + int) qop" where
  "engine_get_by_project E project_id resource =
     (case en_driver E of
        DbQuotaDriver \<Rightarrow> sbind (get_by_project project_id resource) (\<lambda>q. sreturn (Inl q))
      | NoopQuotaDriver \<Rightarrow> sbind (noop_get_by_project project_id resource) (\<lambda>i. sreturn (Inr i)))"

definition engine_get_by_class :: "quota_engine \<Rightarrow> string \<Rightarrow> string \<Rightarrow> (class_row + int) qop" where
  "engine_get_by_class E quota_class resource =
     (case en_driver E of
        DbQuotaDriver \<Rightarrow> sbind (get_by_class quota_class resource) (\<lambda>q. sreturn (Inl q))
      | NoopQuotaDriver \<Rightarrow> sbind (noop_get_by_class quota_class resource) (\<lambda>i. sreturn (Inr i)))"

definition engine_get_defaults :: "quota_conf \<Rightarrow> quota_engine \<Rightarrow> (string, qvalue) dict qop" where
  "engine_get_defaults C E =
     (case en_driver E of
        DbQuotaDriver \<Rightarrow> get_defaults C (en_resources E)
      | NoopQuotaDriver \<Rightarrow> noop_get_defaults (en_resources E))"

definition engine_get_class_quotas :: "quota_conf \<Rightarrow> quota_engine \<Rightarrow> string \<Rightarrow> bool \<Rightarrow> (string, qvalue) dict qop" where
  "engine_get_class_quotas C E quota_class defaults =
     (case en_driver E of
        DbQuotaDriver \<Rightarrow> get_class_quotas C (en_resources E) quota_class defaults
      | NoopQuotaDriver \<Rightarrow> noop_get_class_quotas (en_resources E) quota_class defaults)"

definition engine_get_project_quotas ::
    "quota_conf \<Rightarrow> quota_engine \<Rightarrow> string \<Rightarrow> string option \<Rightarrow> bool \<Rightarrow> bool \<Rightarrow> (string, quota_entry) dict qop" where
  "engine_get_project_quotas C E project_id quota_class defaults usages =
     (case en_driver E of
        DbQuotaDriver \<Rightarrow> get_project_quotas C (en_resources E) project_id quota_class defaults usages None
      | NoopQuotaDriver \<Rightarrow> noop_get_project_quotas (en_resources E) usages)"

definition engine_count :: "quota_conf \<Rightarrow> quota_engine \<Rightarrow> string \<Rightarrow> string \<Rightarrow> pynum qop" where
  "engine_count C E resource project_id =
     (case dict_get (en_resources E) resource of
        None \<Rightarrow> sraise (QuotaResourceUnknown [resource])
      | Some r \<Rightarrow> if rs_count r = None then sraise (QuotaResourceUnknown [resource])
                  else resource_count C r project_id)"

definition engine_limit_check ::
    "quota_conf \<Rightarrow> quota_engine \<Rightarrow> string \<Rightarrow> string option \<Rightarrow> (string, pynum) dict \<Rightarrow> unit qop" where
  "engine_limit_check C E ctx_project project_id vals =
     (case en_driver E of
        DbQuotaDriver \<Rightarrow> limit_check C ctx_project (en_resources E) vals project_id
      | NoopQuotaDriver \<Rightarrow> noop_limit_check (en_resources E) vals)"

definition engine_destroy_all_by_project :: "quota_engine \<Rightarrow> string \<Rightarrow> unit qop" where
  "engine_destroy_all_by_project E project_id =
     (case en_driver E of
        DbQuotaDriver \<Rightarrow> destroy_all_by_project project_id
      | NoopQuotaDriver \<Rightarrow> noop_destroy_all_by_project project_id)"

definition engine_resources :: "quota_engine \<Rightarrow> string list option" where
  \<comment> \<open>\<open>None\<close> stands for the -1 of the driver without quotas\<close>
  "engine_resources E =
     (case en_driver E of NoopQuotaDriver \<Rightarrow> None | DbQuotaDriver \<Rightarrow> Some (sort (dict_keys (en_resources E))))"

section \<open>Requests that read and change limits\<close>

text \<open>
  The schema of a limit: an integer, or a text of digits with an optional minus sign (the end
  anchor lets a line feed through), and not below -1. The policy of the deployment says which
  actions the caller may perform.
\<close>

definition quota_pattern :: "string \<Rightarrow> bool" where
  "quota_pattern s =
     (let t = (if s \<noteq> [] \<and> last s = CHR 0x0A then butlast s else s);
          d = (if t \<noteq> [] \<and> hd t = CHR ''-'' then tl t else t)
      in d \<noteq> [] \<and> list_all is_digit d)"

fun common_quota :: "pyval \<Rightarrow> bool" where
  "common_quota (VInt i) = (-1 \<le> i)"
| "common_quota (VText s) = (quota_pattern s \<and> (case Py_Numbers.py_int s of None \<Rightarrow> True | Some i \<Rightarrow> -1 \<le> i))"
| "common_quota _ = False"

definition quota_names :: "string list" where
  "quota_names = [''containers'', ''memory'', ''cpu'', ''disk'']"

definition query_param_update :: "(string, pyval) dict \<Rightarrow> (quota_error, unit) res" where
  "query_param_update m =
     (case List.find (\<lambda>(k, v). k \<notin> set quota_names \<or> \<not> common_quota v) m of
        None \<Rightarrow> Inr () | Some (k, _) \<Rightarrow> Inl (SchemaValidationError k))"

definition enforce :: "(string \<Rightarrow> bool) \<Rightarrow> string \<Rightarrow> (quota_error, unit) res" where
  "enforce allowed rule = (if allowed rule then Inr () else Inl (PolicyNotAuthorized rule))"

definition quotas_get_quotas :: "quota_conf \<Rightarrow> quota_engine \<Rightarrow> string \<Rightarrow> (string, qvalue) dict qop" where
  \<comment> \<open>without usages\<close>
  "quotas_get_quotas C E project_id =
     sbind (engine_get_project_quotas C E project_id None True False)
       (\<lambda>vals. sreturn (map (\<lambda>(k, v). (k, qe_limit v)) vals))"

definition put_limit :: "string \<Rightarrow> string \<times> pyval \<Rightarrow> unit qop" where
  "put_limit project_id kv =
     sbind (slift (as_int (snd kv))) (\<lambda>i.
       let q = \<lparr>qr_project_id = project_id, qr_resource = fst kv, qr_hard_limit = Some i\<rparr>
       in scatch (Quota_create q) (\<lambda>e. case e of QuotaAlreadyExists _ _ \<Rightarrow> Quota_update q | _ \<Rightarrow> sraise e))"

definition quotas_put ::
    "quota_conf \<Rightarrow> quota_engine \<Rightarrow> (string \<Rightarrow> bool) \<Rightarrow> string \<Rightarrow> (string, pyval) dict \<Rightarrow> (string, qvalue) dict qop" where
  "quotas_put C E allowed project_id quotas_dict =
     sbind (slift (query_param_update quotas_dict)) (\<lambda>_.
     sbind (slift (enforce allowed ''quota:update'')) (\<lambda>_.
     sbind (sforeach quotas_dict (put_limit project_id)) (\<lambda>_.
       quotas_get_quotas C E project_id)))"

definition quotas_get ::
    "quota_conf \<Rightarrow> quota_engine \<Rightarrow> (string \<Rightarrow> bool) \<Rightarrow> string \<Rightarrow> bool
     \<Rightarrow> ((string, qvalue) dict + (string, quota_entry) dict) qop" where
  "quotas_get C E allowed project_id usages =
     sbind (slift (enforce allowed ''quota:get'')) (\<lambda>_.
       if usages then sbind (engine_get_project_quotas C E project_id None True True) (\<lambda>v. sreturn (Inr v))
       else sbind (quotas_get_quotas C E project_id) (\<lambda>v. sreturn (Inl v)))"

definition quotas_defaults :: "quota_conf \<Rightarrow> quota_engine \<Rightarrow> (string \<Rightarrow> bool) \<Rightarrow> (string, qvalue) dict qop" where
  "quotas_defaults C E allowed =
     sbind (slift (enforce allowed ''quota:get_default'')) (\<lambda>_. engine_get_defaults C E)"

definition quotas_delete :: "quota_engine \<Rightarrow> (string \<Rightarrow> bool) \<Rightarrow> string \<Rightarrow> unit qop" where
  "quotas_delete E allowed project_id =
     sbind (slift (enforce allowed ''quota:delete'')) (\<lambda>_. engine_destroy_all_by_project E project_id)"

definition put_class_limit :: "string \<Rightarrow> string \<times> pyval \<Rightarrow> unit qop" where
  "put_class_limit class_name kv =
     sbind (slift (as_int (snd kv))) (\<lambda>i.
       let q = \<lparr>qc_class_name = class_name, qc_resource = fst kv, qc_hard_limit = Some i\<rparr>
       in scatch (QuotaClass_update q) (\<lambda>e. case e of QuotaClassNotFound _ \<Rightarrow> QuotaClass_create q | _ \<Rightarrow> sraise e))"

definition quota_classes_put ::
    "quota_conf \<Rightarrow> quota_engine \<Rightarrow> (string \<Rightarrow> bool) \<Rightarrow> string \<Rightarrow> (string, pyval) dict \<Rightarrow> (string, qvalue) dict qop" where
  "quota_classes_put C E allowed class_name quota_classes_dict =
     sbind (slift (query_param_update quota_classes_dict)) (\<lambda>_.
     sbind (slift (enforce allowed ''quota_class:update'')) (\<lambda>_.
     sbind (sforeach quota_classes_dict (put_class_limit class_name)) (\<lambda>_.
       engine_get_class_quotas C E class_name True)))"

definition quota_classes_get ::
    "quota_conf \<Rightarrow> quota_engine \<Rightarrow> (string \<Rightarrow> bool) \<Rightarrow> string \<Rightarrow> (string, qvalue) dict qop" where
  "quota_classes_get C E allowed class_name =
     sbind (slift (enforce allowed ''quota_class:get'')) (\<lambda>_. engine_get_class_quotas C E class_name True)"

section \<open>The check of a request for a container\<close>

definition delta_of :: "(string, pyval) dict \<Rightarrow> string \<Rightarrow> pyval" where
  "delta_of d k = (case dict_get d k of None \<Rightarrow> VInt 0 | Some v \<Rightarrow> v)"

definition container_deltas :: "(string, pyval) dict \<Rightarrow> bool \<Rightarrow> (string, pyval) dict" where
  "container_deltas d update_container =
     [(''containers'', VInt (if update_container then 0 else 1)), (''cpu'', delta_of d ''cpu''),
      (''memory'', delta_of d ''memory''), (''disk'', delta_of d ''disk'')]"

definition add_delta :: "pynum \<Rightarrow> pyval \<Rightarrow> (quota_error, pynum) res" where
  "add_delta n d =
     (case n of
        PInt i \<Rightarrow> rbind (as_int d) (\<lambda>j. Inr (PInt (i + j)))
      | PFloat x \<Rightarrow> rbind (as_float d) (\<lambda>y. Inr (PFloat (x + y))))"

fun check_kwargs :: "quota_conf \<Rightarrow> quota_engine \<Rightarrow> string \<Rightarrow> (string, pyval) dict \<Rightarrow> (string, pynum) dict qop" where
  "check_kwargs C E project_id [] = sreturn []"
| "check_kwargs C E project_id ((k, d) # ds) =
     sbind (engine_count C E k project_id) (\<lambda>n.
     sbind (slift (add_delta n d)) (\<lambda>t.
     sbind (check_kwargs C E project_id ds) (\<lambda>ts. sreturn ((k, t) # ts))))"

definition check_deltas :: "quota_conf \<Rightarrow> quota_engine \<Rightarrow> string \<Rightarrow> (string, pyval) dict \<Rightarrow> unit qop" where
  "check_deltas C E project_id ds =
     sbind (check_kwargs C E project_id ds) (\<lambda>ts. engine_limit_check C E project_id (Some project_id) ts)"

definition check_container_quotas ::
    "quota_conf \<Rightarrow> quota_engine \<Rightarrow> string \<Rightarrow> (string, pyval) dict \<Rightarrow> bool \<Rightarrow> unit qop" where
  "check_container_quotas C E project_id d update_container =
     check_deltas C E project_id (container_deltas d update_container)"

section \<open>What the check promises\<close>

text \<open>
  The amount that a value stands for, and the sum of a column: what SQL promises of the sum is
  that no values have no sum, that texts count as the numbers they hold, and that only a column
  of integers has an int as its sum.
\<close>

fun amount :: "pyval \<Rightarrow> rat option" where
  "amount VNone = None"
| "amount (VInt i) = Some (of_int i)"
| "amount (VFloat x) = Some x"
| "amount (VText s) = py_float s"

definition amount_of :: "pyval \<Rightarrow> rat" where
  "amount_of v = (case amount v of None \<Rightarrow> 0 | Some x \<Rightarrow> x)"

definition column_sum :: "pyval list \<Rightarrow> rat" where
  "column_sum vs = sum_list (map amount_of vs)"

definition sums_exactly :: "(pyval list \<Rightarrow> pynum option) \<Rightarrow> bool" where
  "sums_exactly S \<longleftrightarrow>
     (\<forall>vs. (\<forall>v \<in> set vs. v = VNone \<or> amount v \<noteq> None) \<longrightarrow>
        (if \<forall>v \<in> set vs. v = VNone then S vs = None
         else \<exists>n. S vs = Some n \<and> num_value n = column_sum vs
                \<and> ((\<exists>i. n = PInt i) \<longrightarrow> (\<forall>v \<in> set vs. v = VNone \<or> (\<exists>i. v = VInt i)))))"

text \<open>What a project uses, and the limit that applies to it.\<close>

definition quota_usage :: "quota_db \<Rightarrow> string \<Rightarrow> string \<Rightarrow> rat" where
  "quota_usage db p r =
     (let rows = project_rows TYPE_CONTAINER p db
      in if r = ''containers'' then of_nat (length rows)
         else if r = ''cpu'' then of_int (half_even (1000 * column_sum (map (column r) rows))) / 1000
         else column_sum (map (column r) rows))"

definition memory_readable :: "quota_db \<Rightarrow> bool" where
  "memory_readable db \<longleftrightarrow>
     list_all (\<lambda>row. case cr_memory row of None \<Rightarrow> True | Some s \<Rightarrow> py_float s \<noteq> None) (db_containers db)"

definition effective_limit :: "quota_conf \<Rightarrow> quota_db \<Rightarrow> string \<Rightarrow> string \<Rightarrow> qvalue" where
  "effective_limit C db p r =
     (case List.find (quota_match p r) (rev (db_quotas db)) of
        Some row \<Rightarrow> limit_value (qr_hard_limit row)
      | None \<Rightarrow>
         (case List.find (class_match DEFAULT_QUOTA_CLASS_NAME r) (rev (db_classes db)) of
            Some row \<Rightarrow> limit_value (qc_hard_limit row)
          | None \<Rightarrow> QInt (conf_quota C r)))"

definition delta_ok :: "string \<Rightarrow> pyval \<Rightarrow> bool" where
  \<comment> \<open>what the schema of a request lets through\<close>
  "delta_ok r v \<longleftrightarrow>
     (if r = ''cpu'' then amount v \<noteq> None
      else (\<exists>i. v = VInt i) \<or> (\<exists>s. v = VText s \<and> s \<noteq> [] \<and> list_all is_digit s))"

section \<open>Numbers\<close>

lemma strip_digits: "list_all is_digit s \<Longrightarrow> strip s = s"
proof -
  have *: "list_all is_digit t \<Longrightarrow> dropWhile is_blank t = t" for t
    by (cases t) (auto simp: is_digit_def is_blank_def)
  assume "list_all is_digit s"
  then show ?thesis using * [of s] * [of "rev s"] by (simp add: strip_def list_all_iff)
qed

lemma digits_no_marks:
  assumes "list_all is_digit s" "c \<in> set s"
  shows "c \<noteq> CHR ''e''" "c \<noteq> CHR ''E''" "c \<noteq> CHR ''.''" "c \<noteq> CHR ''-''" "c \<noteq> CHR ''+''" "c \<noteq> CHR ''_''"
  using assms by (auto simp: list_all_iff is_digit_def)

lemma digits_numbers:
  assumes "list_all is_digit s" "s \<noteq> []"
  shows "Py_Numbers.py_int s = Some (int (digits_value 10 s))" "py_float s = Some (of_nat (digits_value 10 s))"
proof -
  have g: "digit_groups is_digit s = Some s"
    using assms by (rule digit_groups_all) (simp add: is_digit_def)
  have h: "hd s \<notin> {CHR ''-'', CHR ''+''}" using digits_no_marks [OF assms(1) hd_in_set [OF assms(2)]] by simp
  show "Py_Numbers.py_int s = Some (int (digits_value 10 s))"
    using g h assms by (simp add: Py_Numbers.py_int_def signed_def strip_digits)
  have t: "takeWhile (\<lambda>c. c \<notin> {CHR ''e'', CHR ''E''}) s = s" "dropWhile (\<lambda>c. c \<notin> {CHR ''e'', CHR ''E''}) s = []"
    "takeWhile (\<lambda>c. c \<noteq> CHR ''.'') s = s" "dropWhile (\<lambda>c. c \<noteq> CHR ''.'') s = []"
    using digits_no_marks [OF assms(1)] by auto
  have "float_body s = Some (of_nat (digits_value 10 s))"
    unfolding float_body_def t Let_def using g assms(2) by (simp add: t float_digits_def float_exponent_def)
  then show "py_float s = Some (of_nat (digits_value 10 s))"
    using h assms by (simp add: py_float_def strip_digits)
qed

lemma is_less_than_less: "is_less_than (PInt l) v \<Longrightarrow> of_int l < num_value v"
  by (cases v) auto

lemma not_less_than_close:
  assumes "\<not> is_less_than (PInt l) v" "0 \<le> l"
  shows "num_value v \<le> of_int l \<or> num_value v - of_int l \<le> num_value v / 10 ^ 6"
proof (cases v)
  case (PFloat x)
  show ?thesis
  proof (cases "x \<le> of_int l")
    case False
    then have "is_close (of_int l) x" using assms(1) PFloat by simp
    moreover have "max \<bar>rat_of_int l\<bar> \<bar>x\<bar> = x" "\<bar>rat_of_int l - x\<bar> = x - of_int l" "0 \<le> x"
      using False assms(2) by (auto simp: max_def abs_if)
    ultimately show ?thesis by (simp add: is_close_def PFloat)
  qed (simp add: PFloat)
qed (use assms in simp)

lemma add_delta_value:
  assumes "delta_ok r v" "(\<exists>i. n = PInt i) \<longrightarrow> r \<noteq> ''cpu''"
  shows "\<exists>t. add_delta n v = Inr t \<and> num_value t = num_value n + amount_of v"
proof (cases "r = ''cpu''")
  case True
  then obtain x where n: "n = PFloat x" using assms(2) by (cases n) auto
  show ?thesis using assms(1) True n
    by (cases v) (auto simp: delta_ok_def add_delta_def amount_of_def)
next
  case False
  then show ?thesis using assms(1)
    by (cases n) (auto simp: delta_ok_def add_delta_def amount_of_def digits_numbers)
qed

section \<open>Counts\<close>

lemma QUOTAS_resources:
  "en_resources (QUOTAS d) = map (\<lambda>r. (rs_name r, r)) zun_resources" "en_driver (QUOTAS d) = d"
  by (simp_all add: QUOTAS_def register_resources_def register_resource_def new_engine_def zun_resources_def)

lemma sum_or_zero:
  assumes "sums_exactly S" "\<forall>v \<in> set vs. v = VNone \<or> amount v \<noteq> None"
  shows "num_value (or_zero (S vs)) = column_sum vs"
    and "(\<exists>i. or_zero (S vs) = PInt i) \<longrightarrow> (\<forall>v \<in> set vs. v = VNone \<or> (\<exists>i. v = VInt i))"
proof -
  have law: "if \<forall>v \<in> set vs. v = VNone then S vs = None
      else \<exists>n. S vs = Some n \<and> num_value n = column_sum vs
         \<and> ((\<exists>i. n = PInt i) \<longrightarrow> (\<forall>v \<in> set vs. v = VNone \<or> (\<exists>i. v = VInt i)))"
    using assms unfolding sums_exactly_def by blast
  have zero: "\<forall>v \<in> set vs. v = VNone \<Longrightarrow> column_sum vs = 0"
    unfolding column_sum_def by (induction vs) (auto simp: amount_of_def)
  show "num_value (or_zero (S vs)) = column_sum vs"
    using law zero by (cases "\<forall>v \<in> set vs. v = VNone") (auto simp: or_zero_def)
  show "(\<exists>i. or_zero (S vs) = PInt i) \<longrightarrow> (\<forall>v \<in> set vs. v = VNone \<or> (\<exists>i. v = VInt i))"
    using law by (cases "\<forall>v \<in> set vs. v = VNone") (auto simp: or_zero_def split: if_splits)
qed

lemma project_column_ok:
  assumes "memory_readable db" "v \<in> set (map (column r) (project_rows ty p db))"
  shows "v = VNone \<or> amount v \<noteq> None"
  using assms by (fastforce simp: project_rows_def column_def memory_readable_def list_all_iff split: option.splits if_splits)

lemma round3_value: "(\<forall>i. n \<noteq> PInt i) \<Longrightarrow> round3 n = PFloat (of_int (half_even (1000 * num_value n)) / 1000)"
  by (cases n) auto

lemma cpu_count_float:
  assumes "sums_exactly S" "memory_readable db"
  shows "or_zero (S (map (column ''cpu'') (project_rows ty p db))) \<noteq> PInt i"
proof
  let ?vs = "map (column ''cpu'') (project_rows ty p db)"
  have ok: "\<forall>v \<in> set ?vs. v = VNone \<or> amount v \<noteq> None" using project_column_ok [OF assms(2)] by blast
  assume int: "or_zero (S ?vs) = PInt i"
  then have "\<forall>v \<in> set ?vs. v = VNone \<or> (\<exists>i. v = VInt i)" using sum_or_zero(2) [OF assms(1) ok] by blast
  then have "\<forall>v \<in> set ?vs. v = VNone" by (auto simp: column_def split: option.splits)
  then have "S ?vs = None" using assms(1) ok unfolding sums_exactly_def by (auto split: if_splits)
  then show False using int by (simp add: or_zero_def)
qed

lemma count_value:
  assumes "sums_exactly (sql_sum C)" "memory_readable db" "r \<in> set quota_names"
  shows "\<exists>n. engine_count C (QUOTAS d) r p db = (Inr n, db) \<and> num_value n = quota_usage db p r
           \<and> ((\<exists>i. n = PInt i) \<longrightarrow> r \<noteq> ''cpu'')"
proof -
  let ?vs = "\<lambda>r. map (column r) (project_rows TYPE_CONTAINER p db)"
  have ok: "\<forall>v \<in> set (?vs f). v = VNone \<or> amount v \<noteq> None" for f using project_column_ok [OF assms(2)] by blast
  note sum = sum_or_zero(1) [OF assms(1) ok]
  note defs = engine_count_def QUOTAS_resources zun_resources_def resource_count_def containers_count_def
    cpu_count_def disk_count_def memory_count_def get_count_def count_usage_def st_defs quota_usage_def
  have "r = ''containers'' \<or> r = ''memory'' \<or> r = ''disk'' \<or> r = ''cpu''"
    using assms(3) by (auto simp: quota_names_def)
  then show ?thesis
  proof (elim disjE)
    assume "r = ''containers''"
    then show ?thesis by (simp add: defs Let_def or_zero_def)
  next
    assume "r = ''memory''"
    then show ?thesis using sum [of "''memory''"] by (simp add: defs Let_def)
  next
    assume "r = ''disk''"
    then show ?thesis using sum [of "''disk''"] by (simp add: defs Let_def)
  next
    assume r: "r = ''cpu''"
    have "round3 (or_zero (sql_sum C (?vs ''cpu''))) =
        PFloat (of_int (half_even (1000 * column_sum (?vs ''cpu''))) / 1000)"
      using cpu_count_float [OF assms(1,2)] sum [of "''cpu''"] by (simp add: round3_value)
    then show ?thesis using r by (simp add: defs Let_def)
  qed
qed

lemma check_kwargs_totals:
  assumes "sums_exactly (sql_sum C)" "memory_readable db"
    and "\<forall>(k, v) \<in> set ds. k \<in> set quota_names \<and> delta_ok k v"
  shows "\<exists>ts. check_kwargs C (QUOTAS d) p ds db = (Inr ts, db) \<and> dict_keys ts = dict_keys ds
           \<and> list_all2 (\<lambda>(k, t) (k', v). num_value t = quota_usage db p k + amount_of v) ts ds"
  using assms(3)
proof (induction ds)
  case Nil
  then show ?case by (simp add: sreturn_def)
next
  case (Cons kv ds)
  obtain k v where kv: "kv = (k, v)" by fastforce
  obtain ts where ts: "check_kwargs C (QUOTAS d) p ds db = (Inr ts, db)" "dict_keys ts = dict_keys ds"
    "list_all2 (\<lambda>(k, t) (k', v). num_value t = quota_usage db p k + amount_of v) ts ds"
    using Cons by auto
  obtain n where n: "engine_count C (QUOTAS d) k p db = (Inr n, db)" "num_value n = quota_usage db p k"
    "(\<exists>i. n = PInt i) \<longrightarrow> k \<noteq> ''cpu''"
    using count_value [OF assms(1,2), of k d p] Cons.prems kv by auto
  obtain t where "add_delta n v = Inr t" "num_value t = num_value n + amount_of v"
    using add_delta_value [of k v n] Cons.prems kv n(3) by auto
  then show ?case using ts n kv by (simp add: st_defs)
qed

section \<open>Limits\<close>

lemma map_of_find:
  "map_of (rev (map (\<lambda>x. (f x, g x)) (filter P xs))) k = map_option g (List.find (\<lambda>x. P x \<and> f x = k) (rev xs))"
proof -
  have "map_of (map (\<lambda>x. (f x, g x)) (filter P ys)) k = map_option g (List.find (\<lambda>x. P x \<and> f x = k) ys)" for ys
    by (induction ys) auto
  from this [of "rev xs"] show ?thesis by (simp only: rev_map rev_filter)
qed

definition project_limits :: "quota_db \<Rightarrow> string \<Rightarrow> (string, qvalue) dict" where
  "project_limits db p = dict_update [(''project_id'', QText p)]
        (map (\<lambda>row. (qr_resource row, limit_value (qr_hard_limit row)))
           (filter (\<lambda>row. qr_project_id row = p) (db_quotas db)))"

lemma project_limits_get:
  "k \<noteq> ''project_id'' \<Longrightarrow>
   dict_get (project_limits db p) k =
     map_option (\<lambda>row. limit_value (qr_hard_limit row)) (List.find (quota_match p k) (rev (db_quotas db)))"
  by (simp add: project_limits_def dict_get_update map_of_find quota_match_def [abs_def] split: option.splits)

lemma project_limits_nonempty: "project_limits db p \<noteq> []"
proof
  assume "project_limits db p = []"
  then have "dict_get (project_limits db p) ''project_id'' = None" by simp
  then show False by (simp add: project_limits_def dict_get_update split: option.splits)
qed

definition class_limit :: "quota_conf \<Rightarrow> quota_db \<Rightarrow> string \<Rightarrow> qvalue" where
  "class_limit C db r =
     (case List.find (class_match DEFAULT_QUOTA_CLASS_NAME r) (rev (db_classes db)) of
        Some row \<Rightarrow> limit_value (qc_hard_limit row)
      | None \<Rightarrow> QInt (conf_quota C r))"

lemma default_class_get:
  assumes "QuotaClass_get_all None db = (Inr m, db')" "k \<noteq> ''class_name''"
  shows "get_or m k (QInt (conf_quota C k)) = class_limit C db k \<and> db' = db"
  using assms by (auto simp: QuotaClass_get_all_def quota_class_get_default_def get_or_def dict_get_update map_of_find
      class_match_def [abs_def] class_limit_def split: option.splits)

lemma named_get:
  "dict_get (dict_update [] (map (\<lambda>r. (rs_name r, f (rs_name r))) (rs :: quota_resource list))) k =
     (if k \<in> rs_name ` set rs then Some (f k) else None)"
proof -
  have "map_of (map (\<lambda>r. (rs_name r, f (rs_name r))) ys) k = (if k \<in> rs_name ` set ys then Some (f k) else None)"
    for ys :: "quota_resource list" by (induction ys) auto
  from this [of "rev rs"] show ?thesis by (simp add: dict_get_update rev_map split: option.splits)
qed

definition zun_resource :: "quota_resource \<Rightarrow> bool" where
  "zun_resource r \<longleftrightarrow> r \<in> set zun_resources"

lemma zun_resource_facts:
  assumes "zun_resource r"
  shows "rs_name r \<in> set quota_names" "resource_default C r = conf_quota C (rs_name r)"
    "rs_name r \<noteq> ''project_id''" "rs_name r \<noteq> ''class_name''"
  using assms by (auto simp: zun_resource_def zun_resources_def quota_names_def resource_default_def)

lemma get_defaults_eq:
  assumes "list_all zun_resource (dict_values rs)"
  shows "get_defaults C rs db =
     (Inr (dict_update [] (map (\<lambda>r. (rs_name r, class_limit C db (rs_name r))) (dict_values rs))), db)"
proof -
  obtain m where m: "QuotaClass_get_all None db = (Inr m, db)"
    by (simp add: QuotaClass_get_all_def quota_class_get_default_def)
  have "map (\<lambda>r. (rs_name r, get_or m (rs_name r) (QInt (resource_default C r)))) (dict_values rs) =
        map (\<lambda>r. (rs_name r, class_limit C db (rs_name r))) (dict_values rs)"
  proof (rule map_cong [OF refl])
    fix r assume "r \<in> set (dict_values rs)"
    then have "zun_resource r" using assms unfolding list_all_iff by blast
    then show "(rs_name r, get_or m (rs_name r) (QInt (resource_default C r))) = (rs_name r, class_limit C db (rs_name r))"
      using default_class_get [OF m] by (simp add: zun_resource_facts)
  qed
  then show ?thesis by (simp only: get_defaults_def sbind_def m prod.case sum.case sreturn_def)
qed

lemma effective_limit_eq:
  "k \<noteq> ''project_id'' \<Longrightarrow> effective_limit C db p k = get_or (project_limits db p) k (class_limit C db k)"
  by (simp add: effective_limit_def get_or_def project_limits_get class_limit_def split: option.splits)

lemma get_or_named:
  "r \<in> set (rs :: quota_resource list) \<Longrightarrow>
   get_or (dict_update [] (map (\<lambda>r. (rs_name r, f (rs_name r))) rs)) (rs_name r) d = f (rs_name r)"
  unfolding get_or_def by (simp only: named_get imageI if_True option.case)

lemma process_quotas_eq:
  assumes "list_all zun_resource (dict_values rs)"
  shows "process_quotas C rs (project_limits db p) None True [] db =
     (Inr (dict_update [] (map (\<lambda>r. (rs_name r, \<lparr>qe_limit = effective_limit C db p (rs_name r), qe_in_use = None\<rparr>))
                             (dict_values rs))), db)"
proof -
  let ?dq = "dict_update [] (map (\<lambda>r. (rs_name r, class_limit C db (rs_name r))) (dict_values rs))"
  have keys: "list_all (\<lambda>r. rs_name r \<in> set (dict_keys ?dq)) (dict_values rs)"
    unfolding list_all_iff
  proof
    fix r assume "r \<in> set (dict_values rs)"
    then have "dict_get ?dq (rs_name r) = Some (class_limit C db (rs_name r))"
      by (simp only: named_get imageI if_True)
    then show "rs_name r \<in> set (dict_keys ?dq)" by (rule dict_get_in)
  qed
  have "map (\<lambda>r. (rs_name r, \<lparr>qe_limit = get_or (project_limits db p) (rs_name r)
           (get_or [] (rs_name r) (get_or ?dq (rs_name r) QNone)), qe_in_use = None\<rparr>)) (dict_values rs) =
        map (\<lambda>r. (rs_name r, \<lparr>qe_limit = effective_limit C db p (rs_name r), qe_in_use = None\<rparr>)) (dict_values rs)"
  proof (rule map_cong [OF refl])
    fix r assume r: "r \<in> set (dict_values rs)"
    then have "zun_resource r" using assms unfolding list_all_iff by blast
    then have "effective_limit C db p (rs_name r) = get_or (project_limits db p) (rs_name r) (class_limit C db (rs_name r))"
      by (simp add: effective_limit_eq zun_resource_facts)
    moreover have "get_or [] (rs_name r) (get_or ?dq (rs_name r) QNone) = class_limit C db (rs_name r)"
      unfolding get_or_named [OF r] by (simp add: get_or_def)
    ultimately show "(rs_name r, \<lparr>qe_limit = get_or (project_limits db p) (rs_name r)
           (get_or [] (rs_name r) (get_or ?dq (rs_name r) QNone)), qe_in_use = None\<rparr>) =
        (rs_name r, \<lparr>qe_limit = effective_limit C db p (rs_name r), qe_in_use = None\<rparr>)" by simp
  qed
  then show ?thesis
    by (simp only: process_quotas_def option.case sbind_def sreturn_def slift_def get_defaults_eq [OF assms] keys
        prod.case sum.case simp_thms filter_True ball_triv if_True)
qed

lemma project_quotas_eq:
  assumes "list_all zun_resource (dict_values rs)"
    "given = None \<or> given = Some (project_limits db p)"
  shows "get_project_quotas C rs p None True False given db =
     (Inr (dict_update [] (map (\<lambda>r. (rs_name r, \<lparr>qe_limit = effective_limit C db p (rs_name r), qe_in_use = None\<rparr>))
                             (dict_values rs))), db)"
proof -
  have "Quota_get_all p db = (Inr (project_limits db p), db)"
    by (simp add: Quota_get_all_def quota_get_all_by_project_def project_limits_def)
  moreover obtain x xs where "project_limits db p = x # xs" using project_limits_nonempty by (meson list.exhaust)
  ultimately show ?thesis using assms(2) process_quotas_eq [OF assms(1), of C db p]
    by (auto simp: get_project_quotas_def st_defs)
qed

lemma limits_dict_get:
  "dict_get (map (\<lambda>(k, v). (k, qe_limit v))
     (dict_update [] (map (\<lambda>r. (rs_name r, \<lparr>qe_limit = f (rs_name r), qe_in_use = None\<rparr>)) (rs :: quota_resource list)))) k =
   (if k \<in> rs_name ` set rs then Some (f k) else None)"
  using named_get [of "\<lambda>n. \<lparr>qe_limit = f n, qe_in_use = None\<rparr>" rs k]
  by (simp add: map_of_map)

lemma get_quotas_limits:
  "\<exists>quotas. get_quotas C (en_resources (QUOTAS d)) keys p (project_limits db p) db = (Inr quotas, db)
     \<and> (\<forall>k \<in> set keys \<inter> set quota_names. dict_get quotas k = Some (effective_limit C db p k))"
proof -
  let ?rs = "filter (\<lambda>(k, _). k \<in> set keys) (en_resources (QUOTAS d))"
  let ?m = "dict_update [] (map (\<lambda>r. (rs_name r, \<lparr>qe_limit = effective_limit C db p (rs_name r), qe_in_use = None\<rparr>))
                             (dict_values ?rs))"
  let ?q = "map (\<lambda>(k, v). (k, qe_limit v)) ?m"
  have vals: "dict_values ?rs = filter (\<lambda>r. rs_name r \<in> set keys) zun_resources"
    unfolding QUOTAS_resources by (simp add: filter_map o_def)
  have "list_all zun_resource (dict_values ?rs)" unfolding vals by (simp add: list_all_iff zun_resource_def)
  then have "get_quotas C (en_resources (QUOTAS d)) keys p (project_limits db p) db = (Inr ?q, db)"
    by (simp only: get_quotas_def Let_def sbind_def project_quotas_eq simp_thms prod.case sum.case sreturn_def)
  moreover have "dict_get ?q k = Some (effective_limit C db p k)" if k: "k \<in> set keys \<inter> set quota_names" for k
  proof -
    have "k \<in> rs_name ` set zun_resources" using k by (auto simp: quota_names_def zun_resources_def)
    then have "k \<in> rs_name ` set (dict_values ?rs)" unfolding vals using k by auto
    then show ?thesis unfolding limits_dict_get by (simp only: if_True)
  qed
  ultimately show ?thesis by blast
qed

definition exceeds :: "(string \<Rightarrow> int) \<Rightarrow> string \<times> pynum \<Rightarrow> bool" where
  "exceeds l kv \<longleftrightarrow> l (fst kv) \<ge> 0 \<and> is_less_than (PInt (l (fst kv))) (snd kv)"

lemma find_overs_eq:
  "\<forall>k \<in> set (dict_keys vals). dict_get quotas k = Some (QInt (l k)) \<Longrightarrow>
   find_overs quotas vals = Inr (dict_keys (filter (exceeds l) vals))"
  by (induction vals) (auto simp: exceeds_def)

lemma headrooms_defined:
  assumes "\<forall>k \<in> set ks. dict_get quotas k = Some (QInt (l k)) \<and> dict_get pq k \<in> {None, Some (QInt (l k))}"
  shows "\<exists>h. headrooms quotas pq ks m = Inr h"
  using assms
proof (induction ks arbitrary: m)
  case (Cons k ks)
  then have "headroom_of quotas pq k = Inr (l k)" by (auto simp: headroom_of_def given_limits_def)
  then show ?case using Cons by simp
qed simp

lemma valid_names: "set ns \<subseteq> set (dict_keys rs) \<Longrightarrow> valid_method_call_check_resources ns m rs = Inr ()"
  by (induction ns) (auto simp: valid_method_call_check_resource_def)

lemma limit_check_outcome:
  assumes names: "set (dict_keys vals) \<subseteq> set quota_names"
    and pos: "\<forall>(k, v) \<in> set vals. 0 \<le> num_value v"
    and lim: "\<forall>r \<in> set quota_names. effective_limit C db p r = QInt (l r)"
  shows "\<exists>quotas h. limit_check C ctx (en_resources (QUOTAS d)) vals (Some p) db =
     (if filter (exceeds l) vals = [] then Inr ()
      else Inl (OverQuota (sort (dict_keys (filter (exceeds l) vals))) quotas h), db)"
proof -
  have known: "set (dict_keys vals) \<subseteq> set (dict_keys (en_resources (QUOTAS d)))"
    using names by (auto simp: QUOTAS_resources zun_resources_def quota_names_def)
  have unders: "filter (\<lambda>(_, v). num_value v < 0) vals = []" using pos by (fastforce simp: filter_empty_conv)
  have all: "Quota_get_all p db = (Inr (project_limits db p), db)"
    by (simp add: Quota_get_all_def quota_get_all_by_project_def project_limits_def)
  obtain quotas where q: "get_quotas C (en_resources (QUOTAS d)) (dict_keys vals) p (project_limits db p) db = (Inr quotas, db)"
    "\<forall>k \<in> set (dict_keys vals) \<inter> set quota_names. dict_get quotas k = Some (effective_limit C db p k)"
    using get_quotas_limits [of C d "dict_keys vals" p db] by blast
  have ql: "dict_get quotas k = Some (QInt (l k))" if "k \<in> set (dict_keys vals)" for k
    using q(2) lim names that by auto
  have pl: "dict_get (project_limits db p) k \<in> {None, Some (QInt (l k))}" if "k \<in> set (dict_keys vals)" for k
  proof -
    have "k \<in> set quota_names" using that names by blast
    then have "k \<noteq> ''project_id''" "effective_limit C db p k = QInt (l k)" using lim by (auto simp: quota_names_def)
    then show ?thesis by (auto simp: effective_limit_eq get_or_def split: option.splits)
  qed
  obtain h where h: "headrooms quotas (project_limits db p) (dict_keys (filter (exceeds l) vals)) [] = Inr h"
    using headrooms_defined [of "dict_keys (filter (exceeds l) vals)" quotas l "project_limits db p"] ql pl by fastforce
  have "find_overs quotas vals = Inr (dict_keys (filter (exceeds l) vals))" using ql by (intro find_overs_eq) blast
  then show ?thesis
    by (simp add: limit_check_def valid_names [OF known, simplified] unders all q(1) h st_defs del: map_of_eq_None_iff)
qed

section \<open>The theorems\<close>

definition quota_total :: "quota_db \<Rightarrow> string \<Rightarrow> (string, pyval) dict \<Rightarrow> bool \<Rightarrow> string \<Rightarrow> rat" where
  \<comment> \<open>what the project would use with the request granted\<close>
  "quota_total db p req upd r = quota_usage db p r + amount_of (delta_of (container_deltas req upd) r)"

lemma quota_totals:
  assumes "sums_exactly (sql_sum C)" "memory_readable db"
    and "\<forall>r \<in> {''cpu'', ''memory'', ''disk''}. delta_ok r (delta_of req r)"
  shows "\<exists>ts. check_kwargs C (QUOTAS d) p (container_deltas req upd) db = (Inr ts, db) \<and> distinct (dict_keys ts)
     \<and> set (dict_keys ts) = set quota_names \<and> (\<forall>(k, t) \<in> set ts. num_value t = quota_total db p req upd k)"
proof -
  have "\<forall>(k, v) \<in> set (container_deltas req upd). k \<in> set quota_names \<and> delta_ok k v"
    using assms(3) by (auto simp: container_deltas_def quota_names_def delta_ok_def)
  from check_kwargs_totals [OF assms(1,2) this]
  obtain ts where ts: "check_kwargs C (QUOTAS d) p (container_deltas req upd) db = (Inr ts, db)"
    "dict_keys ts = dict_keys (container_deltas req upd)"
    "list_all2 (\<lambda>(k, t) (k', v). num_value t = quota_usage db p k + amount_of v) ts (container_deltas req upd)"
    by blast
  have "\<forall>(k, t) \<in> set ts. num_value t = quota_total db p req upd k"
    using ts(2,3) by (auto simp: container_deltas_def quota_total_def delta_of_def list_all2_Cons2)
  then show ?thesis using ts(1,2) by (simp add: container_deltas_def quota_names_def) auto
qed

lemma exceeding_keys:
  fixes T :: "string \<Rightarrow> rat"
  defines "over ts l \<equiv> dict_keys (filter (exceeds l) ts)"
  assumes ts: "set (dict_keys ts) = set quota_names" "\<forall>(k, t) \<in> set ts. num_value t = T k"
  shows "r \<in> set (over ts l) \<Longrightarrow> r \<in> set quota_names \<and> 0 \<le> l r \<and> of_int (l r) < T r"
    and "r \<in> set quota_names \<Longrightarrow> r \<notin> set (over ts l) \<Longrightarrow>
           l r < 0 \<or> T r \<le> of_int (l r) \<or> T r - of_int (l r) \<le> T r / 10 ^ 6"
    and "\<forall>r \<in> set quota_names. 0 \<le> T r \<Longrightarrow> \<forall>(k, v) \<in> set ts. 0 \<le> num_value v"
proof -
  have mem: "k \<in> set quota_names" "num_value t = T k" if "(k, t) \<in> set ts" for k t
  proof -
    have "k \<in> set (dict_keys ts)" using imageI [OF that, of fst] by simp
    then show "k \<in> set quota_names" using ts(1) by blast
    show "num_value t = T k" using ts(2) that by blast
  qed
  show "r \<in> set quota_names \<and> 0 \<le> l r \<and> of_int (l r) < T r" if r: "r \<in> set (over ts l)"
  proof -
    obtain t where t: "(r, t) \<in> set ts" "exceeds l (r, t)" using r by (auto simp: over_def)
    then show ?thesis using mem [OF t(1)] is_less_than_less [of "l r" t] by (simp add: exceeds_def)
  qed
  show "l r < 0 \<or> T r \<le> of_int (l r) \<or> T r - of_int (l r) \<le> T r / 10 ^ 6"
    if r: "r \<in> set quota_names" "r \<notin> set (over ts l)"
  proof -
    obtain t where t: "(r, t) \<in> set ts" using r(1) unfolding ts(1) [symmetric] by auto
    have "\<not> exceeds l (r, t)" using r(2) imageI [of "(r, t)" "set (filter (exceeds l) ts)" fst] t by (auto simp: over_def)
    then show ?thesis using mem [OF t] not_less_than_close [of "l r" t] by (auto simp: exceeds_def)
  qed
  show "\<forall>(k, v) \<in> set ts. 0 \<le> num_value v" if "\<forall>r \<in> set quota_names. 0 \<le> T r"
  proof clarify
    fix k v assume "(k, v) \<in> set ts"
    then show "0 \<le> num_value v" using mem [of k v] that by simp
  qed
qed


text \<open>A sum as SQL promises it, and a small deployment.\<close>

definition exact_sum :: "pyval list \<Rightarrow> pynum option" where
  "exact_sum vs =
     (if list_all (\<lambda>v. v = VNone) vs then None
      else if list_all (\<lambda>v. case v of VNone \<Rightarrow> True | VInt _ \<Rightarrow> True | _ \<Rightarrow> False) vs
      then Some (PInt (sum_list (map (\<lambda>v. case v of VInt i \<Rightarrow> i | _ \<Rightarrow> 0) vs)))
      else Some (PFloat (column_sum vs)))"

lemma exact_sum_ints:
  "list_all (\<lambda>v. case v of VNone \<Rightarrow> True | VInt _ \<Rightarrow> True | _ \<Rightarrow> False) vs \<Longrightarrow>
   of_int (sum_list (map (\<lambda>v. case v of VInt i \<Rightarrow> i | _ \<Rightarrow> 0) vs)) = column_sum vs"
  by (induction vs) (auto simp: column_sum_def amount_of_def split: pyval.splits)

lemma exact_sum_exact: "sums_exactly exact_sum"
  unfolding sums_exactly_def exact_sum_def
  by (auto simp: exact_sum_ints list_all_iff split: pyval.splits)

definition small_conf :: quota_conf where
  "small_conf = \<lparr>conf_quota = (\<lambda>f. if f = ''memory'' then 51200 else if f = ''cpu'' then 20 else if f = ''disk'' then 100 else 40),
     conf_default_memory = 512, conf_default_cpu = 1, sql_sum = exact_sum\<rparr>"

definition small_db :: quota_db where
  "small_db = \<lparr>
     db_quotas = [\<lparr>qr_project_id = ''p'', qr_resource = ''cpu'', qr_hard_limit = Some 2\<rparr>],
     db_classes = [\<lparr>qc_class_name = ''default'', qc_resource = ''disk'', qc_hard_limit = Some (-1)\<rparr>],
     db_usages = [],
     db_containers = [\<lparr>cr_project_id = ''p'', cr_container_type = 0, cr_cpu = Some 1, cr_memory = Some ''512'', cr_disk = Some 0\<rparr>]\<rparr>"

lemma small_db_facts:
  "memory_readable small_db"
  "effective_limit small_conf small_db ''p'' ''containers'' = QInt 40"
  "effective_limit small_conf small_db ''p'' ''memory'' = QInt 51200"
  "effective_limit small_conf small_db ''p'' ''cpu'' = QInt 2"
  "effective_limit small_conf small_db ''p'' ''disk'' = QInt (-1)"
  "quota_usage small_db ''p'' ''containers'' = 1"
  "quota_usage small_db ''p'' ''memory'' = 512"
  "quota_usage small_db ''p'' ''cpu'' = 1"
  "quota_usage small_db ''p'' ''disk'' = 0"
  by code_simp+

definition small_limits :: "string \<Rightarrow> int" where
  "small_limits r = (if r = ''memory'' then 51200 else if r = ''cpu'' then 2 else if r = ''disk'' then -1 else 40)"


section \<open>Changing limits\<close>


lemma strip_pattern:
  assumes "list_all is_digit d" "d \<noteq> []" "pre \<in> {[], ''-''}" "post \<in> {[], [CHR 0x0A]}"
  shows "strip (pre @ d @ post) = pre @ d"
proof -
  have *: "list_all is_digit e \<Longrightarrow> e \<noteq> [] \<Longrightarrow> dropWhile is_blank (e @ f) = e @ f" for e f
    by (cases e) (auto simp: is_digit_def is_blank_def)
  have front: "dropWhile is_blank (pre @ d @ post) = pre @ d @ post"
    using assms(3) * [OF assms(1,2), of post] by (auto simp: is_blank_def)
  have "dropWhile is_blank (rev (pre @ d @ post)) = rev d @ rev pre"
    using assms(4) * [of "rev d" "rev pre"] assms(1,2) by (auto simp: is_blank_def list_all_iff)
  then show ?thesis unfolding strip_def front by simp
qed

lemma quota_pattern_parts:
  assumes "quota_pattern s"
  obtains pre d post where "s = pre @ d @ post" "pre \<in> {[], ''-''}" "post \<in> {[], [CHR 0x0A]}" "list_all is_digit d" "d \<noteq> []"
proof -
  define t where "t = (if s \<noteq> [] \<and> last s = CHR 0x0A then butlast s else s)"
  define d where "d = (if t \<noteq> [] \<and> hd t = CHR ''-'' then tl t else t)"
  have d: "d \<noteq> []" "list_all is_digit d" using assms unfolding quota_pattern_def Let_def t_def d_def by simp_all
  obtain post where s: "s = t @ post" "post \<in> {[], [CHR 0x0A]}"
    by (cases "s \<noteq> [] \<and> last s = CHR 0x0A") (auto simp: t_def, metis append_butlast_last_id)
  have "t = (if t \<noteq> [] \<and> hd t = CHR ''-'' then ''-'' else []) @ d" unfolding d_def by (cases t) auto
  then obtain pre where t: "t = pre @ d" "pre \<in> {[], ''-''}" by (metis insert_iff)
  show ?thesis using that [of pre d post] s t d by simp
qed

lemma common_quota_int:
  assumes "common_quota v"
  shows "\<exists>i. as_int v = Inr i \<and> -1 \<le> i"
proof (cases v)
  case (VText s)
  then have s: "quota_pattern s" "case Py_Numbers.py_int s of None \<Rightarrow> True | Some i \<Rightarrow> -1 \<le> i" using assms by simp_all
  obtain pre d post where "s = pre @ d @ post" "pre \<in> {[], ''-''}" "post \<in> {[], [CHR 0x0A]}" "list_all is_digit d" "d \<noteq> []"
    using quota_pattern_parts [OF s(1)] by blast
  then have strip: "strip s = pre @ d" and g: "digit_groups is_digit d = Some d" and pre: "pre \<in> {[], ''-''}"
    and h: "hd d \<noteq> CHR ''-''" "hd d \<noteq> CHR ''+''"
    using strip_pattern [of d pre post] digit_groups_all [of is_digit d] digits_no_marks [of d "hd d"]
    by (auto simp: is_digit_def)
  then have "Py_Numbers.py_int s \<noteq> None" by (auto simp: Py_Numbers.py_int_def signed_def)
  then show ?thesis using s(2) VText by auto
qed (use assms in auto)

definition limit_row :: "string \<Rightarrow> string \<times> pyval \<Rightarrow> quota_row" where
  "limit_row p kv = \<lparr>qr_project_id = p, qr_resource = fst kv,
     qr_hard_limit = (case as_int (snd kv) of Inl _ \<Rightarrow> None | Inr i \<Rightarrow> Some i)\<rparr>"

lemma put_limit_appends:
  assumes "common_quota (snd kv)"
  shows "put_limit p kv db = (Inr (), db\<lparr>db_quotas := db_quotas db @ [limit_row p kv]\<rparr>)"
  using common_quota_int [OF assms]
  by (auto simp: put_limit_def Quota_create_def quota_create_def duplicate_entry_def quota_table_args_def
      limit_row_def st_defs Let_def)

lemma put_limits_append:
  "list_all (\<lambda>kv. common_quota (snd kv)) m \<Longrightarrow>
   sforeach m (put_limit p) db = (Inr (), db\<lparr>db_quotas := db_quotas db @ map (limit_row p) m\<rparr>)"
  by (induction m arbitrary: db) (simp_all add: put_limit_appends st_defs)

lemma find_limit_row:
  "List.find (quota_match p' r) (rev (map (limit_row p) m)) =
     (if p' = p then map_option (\<lambda>v. limit_row p (r, v)) (map_of (rev m) r) else None)"
proof -
  have "List.find (quota_match p' r) (map (limit_row p) n) =
     (if p' = p then map_option (\<lambda>v. limit_row p (r, v)) (map_of n r) else None)" for n
    by (induction n) (auto simp: quota_match_def limit_row_def)
  from this [of "rev m"] show ?thesis by (simp only: rev_map)
qed

lemma effective_after:
  "effective_limit C (db\<lparr>db_quotas := db_quotas db @ map (limit_row p) m\<rparr>) p' r =
     (case (if p' = p then map_of (rev m) r else None) of
        Some v \<Rightarrow> limit_value (qr_hard_limit (limit_row p (r, v)))
      | None \<Rightarrow> effective_limit C db p' r)"
  by (simp add: effective_limit_def find_append find_limit_row split: option.splits)

lemma quotas_get_quotas_limits:
  "\<exists>limits. quotas_get_quotas C (QUOTAS DbQuotaDriver) p db = (Inr limits, db)
     \<and> (\<forall>r. dict_get limits r = (if r \<in> set quota_names then Some (effective_limit C db p r) else None))"
proof -
  have vals: "dict_values (en_resources (QUOTAS DbQuotaDriver)) = zun_resources"
    unfolding QUOTAS_resources by (simp add: o_def)
  have "rs_name ` set zun_resources = set quota_names" by (auto simp: zun_resources_def quota_names_def)
  moreover have "list_all zun_resource (dict_values (en_resources (QUOTAS DbQuotaDriver)))"
    unfolding vals by (simp add: list_all_iff zun_resource_def)
  ultimately show ?thesis
    unfolding quotas_get_quotas_def engine_get_project_quotas_def QUOTAS_resources(2) quota_driver.case sbind_def
    by (simp only: project_quotas_eq vals prod.case sum.case sreturn_def simp_thms prod.inject sum.inject)
      (simp only: limits_dict_get simp_thms)
qed

text \<open>
  C16. A permitted request to set limits of a project, with limits that the schema lets through,
  succeeds. The limits it returns are the effective ones: those given, with the others as they
  were. They are the limits that later checks use, and no other project is affected.
\<close>

theorem quota_put_sets_limits:
  assumes allowed: "allowed ''quota:update''"
    and schema: "query_param_update m = Inr ()" and wf: "dict_wf m"
  shows "\<exists>limits db'. quotas_put C (QUOTAS DbQuotaDriver) allowed p m db = (Inr limits, db')
     \<and> (\<forall>r \<in> set quota_names. dict_get limits r = Some (effective_limit C db' p r))
     \<and> (\<forall>(k, v) \<in> set m. \<exists>i. as_int v = Inr i \<and> -1 \<le> i \<and> effective_limit C db' p k = QInt i)
     \<and> (\<forall>p' r. p' \<noteq> p \<or> r \<notin> set (dict_keys m) \<longrightarrow> effective_limit C db' p' r = effective_limit C db p' r)"
proof -
  have ok: "list_all (\<lambda>kv. common_quota (snd kv)) m"
    using schema by (auto simp: query_param_update_def list_all_iff split: option.splits prod.splits dest: find_NoneD)
  let ?db = "db\<lparr>db_quotas := db_quotas db @ map (limit_row p) m\<rparr>"
  obtain limits where lim: "quotas_get_quotas C (QUOTAS DbQuotaDriver) p ?db = (Inr limits, ?db)"
    "\<forall>r. dict_get limits r = (if r \<in> set quota_names then Some (effective_limit C ?db p r) else None)"
    using quotas_get_quotas_limits by blast
  have run: "quotas_put C (QUOTAS DbQuotaDriver) allowed p m db = (Inr limits, ?db)"
    using allowed schema by (simp add: quotas_put_def enforce_def put_limits_append [OF ok] lim(1) st_defs)
  have given: "\<exists>i. as_int v = Inr i \<and> -1 \<le> i \<and> effective_limit C ?db p k = QInt i" if kv: "(k, v) \<in> set m" for k v
  proof -
    have "common_quota v" using ok kv by (fastforce simp: list_all_iff)
    then obtain i where i: "as_int v = Inr i" "-1 \<le> i" using common_quota_int by blast
    have "map_of (rev m) k = Some v" using kv wf by (simp add: rev_map flip: rev_map)
    then show ?thesis using i by (simp add: effective_after limit_row_def limit_value_def)
  qed
  have "effective_limit C ?db p' r = effective_limit C db p' r" if "p' \<noteq> p \<or> r \<notin> set (dict_keys m)" for p' r
    using that dict_get_None [of "rev m" r] by (auto simp: effective_after)
  then show ?thesis using run lim(2) given by (intro exI [of _ limits] exI [of _ ?db]) auto
qed

theorem quota_put_sets_limits_witness:
  "\<exists>limits db'. quotas_put small_conf (QUOTAS DbQuotaDriver) (\<lambda>_. True) ''p'' [(''cpu'', VText ''-1'')] small_db = (Inr limits, db')
     \<and> dict_get limits ''cpu'' = Some (QInt (-1)) \<and> dict_get limits ''memory'' = Some (QInt 51200)"
proof -
  have s: "query_param_update [(''cpu'', VText ''-1'')] = Inr ()" by code_simp
  have i: "as_int (VText ''-1'') = Inr (-1)" by code_simp
  obtain limits db' where r: "quotas_put small_conf (QUOTAS DbQuotaDriver) (\<lambda>_. True) ''p'' [(''cpu'', VText ''-1'')] small_db = (Inr limits, db')"
    "\<forall>r \<in> set quota_names. dict_get limits r = Some (effective_limit small_conf db' ''p'' r)"
    "effective_limit small_conf db' ''p'' ''cpu'' = QInt (-1)"
    "effective_limit small_conf db' ''p'' ''memory'' = effective_limit small_conf small_db ''p'' ''memory''"
    using quota_put_sets_limits [of "\<lambda>_. True", OF TrueI s, of small_conf "''p''" small_db] i by auto
  then show ?thesis by (auto simp: quota_names_def small_db_facts)
qed

text \<open>
  Setting a limit that the project already has adds a row for it, since no constraint of the
  table makes the creation of the row fail; the limit that a look-up of a single quota gives
  stays the old one.
\<close>

lemma quota_put_keeps_old_row:
  assumes "allowed ''quota:update''" "query_param_update [(r, v)] = Inr ()"
    and old: "quota_get p r db = (Inr row, db)"
  shows "\<exists>limits db'. quotas_put C (QUOTAS DbQuotaDriver) allowed p [(r, v)] db = (Inr limits, db')
     \<and> length (db_quotas db') = Suc (length (db_quotas db))
     \<and> engine_get_by_project (QUOTAS DbQuotaDriver) p r db' = (Inr (Inl row), db')"
proof -
  have ok: "common_quota v" using assms(2) by (auto simp: query_param_update_def split: if_splits)
  let ?db = "db\<lparr>db_quotas := db_quotas db @ [limit_row p (r, v)]\<rparr>"
  obtain limits where lim: "quotas_get_quotas C (QUOTAS DbQuotaDriver) p ?db = (Inr limits, ?db)"
    using quotas_get_quotas_limits by blast
  have run: "quotas_put C (QUOTAS DbQuotaDriver) allowed p [(r, v)] db = (Inr limits, ?db)"
    using assms ok by (simp add: quotas_put_def enforce_def put_limit_appends lim st_defs)
  have "List.find (quota_match p r) (db_quotas db) = Some row"
    using old by (auto simp: quota_get_def split: option.splits)
  then have "engine_get_by_project (QUOTAS DbQuotaDriver) p r ?db = (Inr (Inl row), ?db)"
    by (simp add: engine_get_by_project_def QUOTAS_resources get_by_project_def quota_get_def find_append st_defs)
  then show ?thesis using run by (intro exI [of _ limits] exI [of _ ?db]) simp
qed

text \<open>
  The driver without quotas passes every request whose amounts can be read.
\<close>

lemma noop_never_refuses:
  assumes "sums_exactly (sql_sum C)" "memory_readable db"
    "\<forall>r \<in> {''cpu'', ''memory'', ''disk''}. delta_ok r (delta_of req r)"
  shows "check_container_quotas C (QUOTAS NoopQuotaDriver) p req upd db = (Inr (), db)"
  using quota_totals [OF assms, of NoopQuotaDriver p upd]
  by (auto simp: check_container_quotas_def check_deltas_def engine_limit_check_def QUOTAS_resources(2)
      noop_limit_check_def sbind_def sreturn_def)

text \<open>Setting the limits of a class keeps one row for each resource.\<close>

definition classes_distinct :: "quota_db \<Rightarrow> bool" where
  "classes_distinct db \<longleftrightarrow> distinct (map (\<lambda>row. (qc_class_name row, qc_resource row)) (db_classes db))"

lemma put_class_limit_distinct:
  assumes "classes_distinct db" "put_class_limit c kv db = (res, db')"
  shows "classes_distinct db'"
proof (cases "as_int (snd kv)")
  case (Inl e)
  then show ?thesis using assms by (auto simp: put_class_limit_def st_defs)
next
  case (Inr i)
  have upd: "map (\<lambda>row. (qc_class_name row, qc_resource row))
      (map (\<lambda>row. if class_match c (fst kv) row then row\<lparr>qc_hard_limit := Some i\<rparr> else row) (db_classes db)) =
      map (\<lambda>row. (qc_class_name row, qc_resource row)) (db_classes db)" by auto
  show ?thesis
  proof (cases "list_ex (class_match c (fst kv)) (db_classes db)")
    case True
    then have "db' = db\<lparr>db_classes := map (\<lambda>row. if class_match c (fst kv) row then row\<lparr>qc_hard_limit := Some i\<rparr> else row) (db_classes db)\<rparr>"
      using assms(2) Inr by (simp add: put_class_limit_def QuotaClass_update_def quota_class_update_def st_defs Let_def)
    then have "db_classes db' = map (\<lambda>row. if class_match c (fst kv) row then row\<lparr>qc_hard_limit := Some i\<rparr> else row) (db_classes db)"
      by simp
    then show ?thesis using assms(1) by (simp only: classes_distinct_def upd)
  next
    case False
    then have "db' = db\<lparr>db_classes := db_classes db @ [\<lparr>qc_class_name = c, qc_resource = fst kv, qc_hard_limit = Some i\<rparr>]\<rparr>"
      using assms(2) Inr by (simp add: put_class_limit_def QuotaClass_update_def quota_class_update_def QuotaClass_create_def
          quota_class_create_def st_defs Let_def)
    then show ?thesis using assms(1) False by (auto simp: classes_distinct_def list_ex_iff class_match_def)
  qed
qed

lemma quota_classes_put_distinct:
  assumes "classes_distinct db" "quota_classes_put C E allowed c m db = (res, db')"
  shows "classes_distinct db'"
proof -
  have loop: "classes_distinct db2" if "sforeach m (put_class_limit c) db = (r2, db2)" for r2 db2
    by (rule sforeach_inv [where P = classes_distinct and f = "put_class_limit c"]) (use assms(1) that put_class_limit_distinct in blast)+
  have read: "engine_get_class_quotas C E c True db2 = (r3, db3) \<Longrightarrow> db3 = db2" for r3 db2 db3
    by (auto simp: engine_get_class_quotas_def get_class_quotas_def noop_get_class_quotas_def QuotaClass_get_all_def
        quota_class_get_all_by_name_def st_defs split: quota_driver.splits)
  obtain r2 db2 where run: "sforeach m (put_class_limit c) db = (r2, db2)" by fastforce
  show ?thesis using assms loop [OF run] read [of db2 res db'] run
    by (auto simp: quota_classes_put_def enforce_def query_param_update_def st_defs split: option.splits prod.splits if_splits sum.splits)
qed

end
