(* ===== verification/Container_Api.thy ===== *)
theory Container_Api
  imports Container_Manager Placement_Request Quota
begin

text \<open>
  Requests for containers in the API service: the actions of the container controller
  (\<^verbatim>\<open>zun/api/controllers/v1/containers.py\<close>, \<^verbatim>\<open>zun/api/utils.py\<close>), the compute API that records
  actions, schedules and calls the compute hosts (\<^verbatim>\<open>zun/compute/api.py\<close>), and the messages it
  sends (\<^verbatim>\<open>zun/compute/rpcapi.py\<close>).
\<close>

section \<open>State\<close>

text \<open>
  A container with the columns that only the API service uses, and an object: the values it
  holds and which of its fields were set since it was loaded or saved.
\<close>

record acont =
  ac_base :: cont
  ac_name :: string
  ac_project_id :: string
  ac_user_id :: string
  ac_image :: string

record aobj =
  ao_cont :: acont
  ao_changed :: "field set"
  ao_name_changed :: bool
  ao_image_changed :: bool
  ao_heal_changed :: bool

abbreviation ao_base :: "aobj \<Rightarrow> cont" where
  "ao_base c \<equiv> ac_base (ao_cont c)"

abbreviation ao_uuid :: "aobj \<Rightarrow> string" where
  "ao_uuid c \<equiv> k_uuid (ao_base c)"

abbreviation ao_host :: "aobj \<Rightarrow> string option" where
  "ao_host c \<equiv> k_host (ao_base c)"

definition load :: "acont \<Rightarrow> aobj" where
  \<comment> \<open>\<open>_from_db_object\<close>\<close>
  "load row = \<lparr>ao_cont = row, ao_changed = {}, ao_name_changed = False, ao_image_changed = False,
     ao_heal_changed = False\<rparr>"

text \<open>The methods of the compute service that the API service calls, with their arguments.\<close>

type_synonym apatch = "(string, pyval) dict"

datatype rpc =
    RpcCreate aobj limits "req_network list" "(string, volmap list) dict" bool "pci_request list option"
  | RpcDelete aobj bool
  | RpcShow aobj
  | RpcRebuild aobj bool
  | RpcReboot aobj pyval
  | RpcStop aobj pyval
  | RpcStart aobj
  | RpcPause aobj
  | RpcUnpause aobj
  | RpcLogs aobj bool bool bool string "string option"
  | RpcExec aobj string bool bool
  | RpcExecResize string "string option" "string option"
  | RpcKill aobj "string option"
  | RpcUpdate aobj apatch
  | RpcResizeContainer aobj apatch
  | RpcAttach aobj
  | RpcResize aobj "string option" "string option"
  | RpcTop aobj "string option"
  | RpcGetArchive aobj string bool
  | RpcPutArchive aobj string string bool
  | RpcStats aobj
  | RpcCommit aobj "string option" "string option"
  | RpcAddSecurityGroup aobj string
  | RpcRemoveSecurityGroup aobj string
  | RpcNetworkDetach aobj string
  | RpcNetworkAttach aobj req_network
  | RpcImageSearch string "string option" bool

datatype reply =
    NoReply
  | TextReply string
  | ObjReply aobj
  | ListReply "string list"
  | DictReply "(string, string option) dict"

datatype api_error =
    Exn exn
  | ContainerHostNotUp string string
  | RequestedHostNotFound string
  | ContainerAlreadyExists string
  | NoInteractiveFlag
  | InvalidValue string
  | ValidationError string
  | InvalidParamInVersion string
  | NotAuthorized string
  | OperationNotSupported
  | ReferenceInvalidFormat
  | QuotaError quota_error
  | SchedError sched_error
  | NeutronNoUniqueMatch
  | NeutronClientException int
  | ExternalNetworkAttachForbidden string
  | NetworkNotFound string
  | NeutronPortNotFound string
  | PortNotUsable string
  | PortInUse string
  | PortBindingFailed string
  | VersionNotAcceptable
  | TypeError
  | PythonValueError

text \<open>
  The database, and what the service has sent: the host, whether it waits for the answer, and
  the method. \<open>ap_sched\<close> is the state of the scheduler client.
\<close>

record 'w api_state =
  ap_rows :: "(string, acont) dict"
  ap_volmaps :: "volmap list"
  ap_volumes :: "int list"
  ap_actions :: "(string \<times> string) list"
  ap_sent :: "(string option \<times> bool \<times> rpc) list"
  ap_quota :: quota_db
  ap_sched :: "bool \<times> 'w"

type_synonym ('w, 'a) aop = "('w api_state, api_error, 'a) st"

record req_context =
  cx_project_id :: string
  cx_user_id :: string
  cx_is_admin :: bool

text \<open>
  The networks and ports of Neutron as its client lists them, by id or by name, and the look-up
  of a security group.
\<close>

record nnet =
  nn_id :: string
  nn_external :: bool
  nn_shared :: bool
  nn_created_at :: int

record nport =
  np_id :: string
  np_network_id :: string
  np_tenant_id :: string
  np_device_id :: "string option"
  np_status :: "string option"
  np_vif_type :: "string option"

record neutron_api =
  na_find_security_group :: "string \<Rightarrow> (api_error, string) res"
  na_ports_by_id :: "string \<Rightarrow> (api_error, nport list) res"
  na_ports_by_name :: "string \<Rightarrow> (api_error, nport list) res"
  na_networks_by_id :: "string \<Rightarrow> (api_error, nnet list) res"
  na_networks_by_name :: "string \<Rightarrow> (api_error, nnet list) res"
  na_tenant_networks :: "(api_error, nnet list) res"
  na_shared_networks :: "(api_error, nnet list) res"

text \<open>
  A request and the deployment that serves it: the caller, the version of the API, the
  configuration, and as parameters the policy, two functions of the oslo library, what the
  compute hosts answer, and the scheduler with its placement service and its nodes.
\<close>

record ('w, 'r) api =
  a_context :: req_context
  a_version :: "nat \<times> nat"
  a_allowed :: "string \<Rightarrow> acont option \<Rightarrow> bool"
  a_is_uuid_like :: "string \<Rightarrow> bool"
  a_bool_from_string :: "string \<Rightarrow> bool option"
  a_neutron :: neutron_api
  a_answer :: "string option \<Rightarrow> rpc \<Rightarrow> 'w api_state \<Rightarrow> (api_error, reply) res"
  a_image_driver_list :: "string list"
  a_enable_image_validation :: bool
  a_unique_name_scope :: "string option"
  a_proxy_url :: string
  a_quota_conf :: quota_conf
  a_quota_driver :: quota_driver
  a_placement_conf :: placement_conf
  a_placement :: "('w, 'r) placement"
  a_sched :: "('w, 'r) sched_env"

section \<open>Database\<close>

definition visible :: "req_context \<Rightarrow> acont \<Rightarrow> bool" where
  \<comment> \<open>\<open>_add_project_filters\<close>, for a context whose \<open>all_projects\<close> is set for an administrator\<close>
  "visible cx row \<longleftrightarrow>
     cx_is_admin cx \<or> (if cx_project_id cx \<noteq> [] then ac_project_id row = cx_project_id cx else ac_user_id row = cx_user_id cx)"

definition visible_rows :: "req_context \<Rightarrow> 'w api_state \<Rightarrow> acont list" where
  "visible_rows cx s = filter (\<lambda>row. visible cx row \<and> k_type (ac_base row) = Container_obj) (dict_values (ap_rows s))"

definition get_container_by_uuid :: "req_context \<Rightarrow> string \<Rightarrow> ('w, aobj) aop" where
  "get_container_by_uuid cx u s =
     (case filter (\<lambda>row. k_uuid (ac_base row) = u) (visible_rows cx s) of
        [] \<Rightarrow> (Inl (Exn (ContainerNotFound u)), s)
      | row # _ \<Rightarrow> (Inr (load row), s))"

definition get_container_by_name :: "req_context \<Rightarrow> string \<Rightarrow> ('w, aobj) aop" where
  "get_container_by_name cx n s =
     (case filter (\<lambda>row. ac_name row = n) (visible_rows cx s) of
        [] \<Rightarrow> (Inl (Exn (ContainerNotFound n)), s)
      | [row] \<Rightarrow> (Inr (load row), s)
      | _ \<Rightarrow> (Inl (Exn (Conflict (Text ''Multiple containers exist with same name. Please use the container uuid instead.''))), s))"

definition get_resource :: "('w, 'r) api \<Rightarrow> string \<Rightarrow> ('w, aobj) aop" where
  "get_resource A ident =
     (if a_is_uuid_like A ident then get_container_by_uuid (a_context A) ident
      else get_container_by_name (a_context A) ident)"

definition validate_unique_container_name :: "('w, 'r) api \<Rightarrow> string \<Rightarrow> ('w, unit) aop" where
  "validate_unique_container_name A n s =
     (let same = filter (\<lambda>row. lower (ac_name row) = lower n) (dict_values (ap_rows s));
          found = (if a_unique_name_scope A = Some ''project''
                   then filter (\<lambda>row. ac_project_id row = cx_project_id (a_context A)) same
                   else if a_unique_name_scope A = Some ''global'' then same else [])
      in if found \<noteq> [] then (Inl (ContainerAlreadyExists (lower n)), s) else (Inr (), s))"

definition merge_row :: "aobj \<Rightarrow> acont \<Rightarrow> acont" where
  "merge_row c row = row\<lparr>
     ac_base := (merge (ao_changed c) (ao_base c) (ac_base row))\<lparr>
       k_auto_heal := (if ao_heal_changed c then k_auto_heal (ao_base c) else k_auto_heal (ac_base row))\<rparr>,
     ac_name := (if ao_name_changed c then ac_name (ao_cont c) else ac_name row),
     ac_image := (if ao_image_changed c then ac_image (ao_cont c) else ac_image row)\<rparr>"

definition save_container :: "('w, 'r) api \<Rightarrow> aobj \<Rightarrow> ('w, aobj) aop" where
  \<comment> \<open>returns the object, without changed fields\<close>
  "save_container A c =
     sbind (if ao_name_changed c then validate_unique_container_name A (ac_name (ao_cont c)) else sreturn ())
       (\<lambda>_ s. case dict_get (ap_rows s) (ao_uuid c) of
            None \<Rightarrow> (Inl (Exn (ContainerNotFound (ao_uuid c))), s)
          | Some row \<Rightarrow> (Inr (load (ao_cont c)), s\<lparr>ap_rows := dict_set (ao_uuid c) (merge_row c row) (ap_rows s)\<rparr>))"

definition destroy_container :: "aobj \<Rightarrow> ('w, unit) aop" where
  "destroy_container c s =
     (case dict_get (ap_rows s) (ao_uuid c) of
        None \<Rightarrow> (Inl (Exn (ContainerNotFound (ao_uuid c))), s)
      | Some _ \<Rightarrow> (Inr (), s\<lparr>ap_rows := dict_del (ao_uuid c) (ap_rows s)\<rparr>))"

definition set_status :: "status \<Rightarrow> aobj \<Rightarrow> aobj" where
  "set_status st c = c\<lparr>ao_cont := (ao_cont c)\<lparr>ac_base := (ao_base c)\<lparr>k_status := st\<rparr>\<rparr>, ao_changed := insert F_status (ao_changed c)\<rparr>"

definition set_status_reason :: "string \<Rightarrow> aobj \<Rightarrow> aobj" where
  "set_status_reason t c = c\<lparr>ao_cont := (ao_cont c)\<lparr>ac_base := (ao_base c)\<lparr>k_status_reason := Some (Text t)\<rparr>\<rparr>,
     ao_changed := insert F_status_reason (ao_changed c)\<rparr>"

definition set_image_driver :: "string \<Rightarrow> aobj \<Rightarrow> aobj" where
  "set_image_driver d c = c\<lparr>ao_cont := (ao_cont c)\<lparr>ac_base := (ao_base c)\<lparr>k_image_driver := Some d\<rparr>\<rparr>,
     ao_changed := insert F_image_driver (ao_changed c)\<rparr>"

definition set_image :: "string \<Rightarrow> aobj \<Rightarrow> aobj" where
  "set_image i c = c\<lparr>ao_cont := (ao_cont c)\<lparr>ac_image := i\<rparr>, ao_image_changed := True\<rparr>"

definition set_auto_heal :: "bool \<Rightarrow> aobj \<Rightarrow> aobj" where
  "set_auto_heal b c = c\<lparr>ao_cont := (ao_cont c)\<lparr>ac_base := (ao_base c)\<lparr>k_auto_heal := b\<rparr>\<rparr>, ao_heal_changed := True\<rparr>"

definition set_name :: "string \<Rightarrow> aobj \<Rightarrow> aobj" where
  "set_name n c = c\<lparr>ao_cont := (ao_cont c)\<lparr>ac_name := n\<rparr>, ao_name_changed := True\<rparr>"

section \<open>Messages\<close>

definition cast :: "string option \<Rightarrow> rpc \<Rightarrow> ('w, unit) aop" where
  "cast server m = smodify (\<lambda>s. s\<lparr>ap_sent := ap_sent s @ [(server, False, m)]\<rparr>)"

definition call :: "('w, 'r) api \<Rightarrow> string option \<Rightarrow> rpc \<Rightarrow> ('w, reply) aop" where
  "call A server m s =
     (let s1 = s\<lparr>ap_sent := ap_sent s @ [(server, True, m)]\<rparr> in (a_answer A server m s1, s1))"

definition check_container_host :: "('w, 'r) api \<Rightarrow> aobj \<Rightarrow> ('w, 'a) aop \<Rightarrow> ('w, 'a) aop" where
  "check_container_host A c m =
     (let up_hosts = map sv_host (filter (service_is_up (se_conf (a_sched A))) (se_services (a_sched A)))
      in case ao_host c of
           None \<Rightarrow> m
         | Some h \<Rightarrow> if h \<notin> set up_hosts then sraise (ContainerHostNotUp (ao_uuid c) h) else m)"

definition rpc_container_create ::
    "string \<Rightarrow> aobj \<Rightarrow> limits \<Rightarrow> req_network list \<Rightarrow> (string, volmap list) dict \<Rightarrow> bool \<Rightarrow> pci_request list option \<Rightarrow> ('w, unit) aop" where
  "rpc_container_create h c lims nets vols run pci = cast (Some h) (RpcCreate c lims nets vols run pci)"

definition rpc_container_delete :: "('w, 'r) api \<Rightarrow> aobj \<Rightarrow> bool \<Rightarrow> ('w, unit) aop" where
  "rpc_container_delete A c force = check_container_host A c (cast (ao_host c) (RpcDelete c force))"

definition rpc_container_show :: "('w, 'r) api \<Rightarrow> aobj \<Rightarrow> ('w, reply) aop" where
  "rpc_container_show A c = check_container_host A c (call A (ao_host c) (RpcShow c))"

definition rpc_container_rebuild :: "aobj \<Rightarrow> bool \<Rightarrow> ('w, unit) aop" where
  "rpc_container_rebuild c run = cast (ao_host c) (RpcRebuild c run)"

definition rpc_container_reboot :: "aobj \<Rightarrow> pyval \<Rightarrow> ('w, unit) aop" where
  "rpc_container_reboot c timeout = cast (ao_host c) (RpcReboot c timeout)"

definition rpc_container_stop :: "aobj \<Rightarrow> pyval \<Rightarrow> ('w, unit) aop" where
  "rpc_container_stop c timeout = cast (ao_host c) (RpcStop c timeout)"

definition rpc_container_start :: "aobj \<Rightarrow> ('w, unit) aop" where
  "rpc_container_start c = cast (ao_host c) (RpcStart c)"

definition rpc_container_pause :: "aobj \<Rightarrow> ('w, unit) aop" where
  "rpc_container_pause c = cast (ao_host c) (RpcPause c)"

definition rpc_container_unpause :: "aobj \<Rightarrow> ('w, unit) aop" where
  "rpc_container_unpause c = cast (ao_host c) (RpcUnpause c)"

definition rpc_container_logs :: "('w, 'r) api \<Rightarrow> aobj \<Rightarrow> bool \<Rightarrow> bool \<Rightarrow> bool \<Rightarrow> string \<Rightarrow> string option \<Rightarrow> ('w, reply) aop" where
  "rpc_container_logs A c stdout stderr timestamps tail since =
     check_container_host A c (call A (ao_host c) (RpcLogs c stdout stderr timestamps tail since))"

definition rpc_container_exec :: "('w, 'r) api \<Rightarrow> aobj \<Rightarrow> string \<Rightarrow> bool \<Rightarrow> bool \<Rightarrow> ('w, reply) aop" where
  "rpc_container_exec A c command run interactive =
     check_container_host A c (call A (ao_host c) (RpcExec c command run interactive))"

definition rpc_container_exec_resize :: "('w, 'r) api \<Rightarrow> aobj \<Rightarrow> string \<Rightarrow> string option \<Rightarrow> string option \<Rightarrow> ('w, reply) aop" where
  "rpc_container_exec_resize A c exec_id height width =
     check_container_host A c (call A (ao_host c) (RpcExecResize exec_id height width))"

definition rpc_container_kill :: "aobj \<Rightarrow> string option \<Rightarrow> ('w, unit) aop" where
  "rpc_container_kill c signal = cast (ao_host c) (RpcKill c signal)"

definition rpc_container_update :: "('w, 'r) api \<Rightarrow> aobj \<Rightarrow> apatch \<Rightarrow> ('w, reply) aop" where
  "rpc_container_update A c patch = check_container_host A c (call A (ao_host c) (RpcUpdate c patch))"

definition rpc_resize_container :: "aobj \<Rightarrow> apatch \<Rightarrow> ('w, unit) aop" where
  "rpc_resize_container c patch = cast (ao_host c) (RpcResizeContainer c patch)"

definition rpc_container_attach :: "('w, 'r) api \<Rightarrow> aobj \<Rightarrow> ('w, reply) aop" where
  "rpc_container_attach A c = check_container_host A c (call A (ao_host c) (RpcAttach c))"

definition rpc_container_resize :: "('w, 'r) api \<Rightarrow> aobj \<Rightarrow> string option \<Rightarrow> string option \<Rightarrow> ('w, reply) aop" where
  "rpc_container_resize A c height width = check_container_host A c (call A (ao_host c) (RpcResize c height width))"

definition rpc_container_top :: "('w, 'r) api \<Rightarrow> aobj \<Rightarrow> string option \<Rightarrow> ('w, reply) aop" where
  "rpc_container_top A c ps_args = check_container_host A c (call A (ao_host c) (RpcTop c ps_args))"

definition rpc_container_get_archive :: "('w, 'r) api \<Rightarrow> aobj \<Rightarrow> string \<Rightarrow> bool \<Rightarrow> ('w, reply) aop" where
  "rpc_container_get_archive A c path encode_data = check_container_host A c (call A (ao_host c) (RpcGetArchive c path encode_data))"

definition rpc_container_put_archive :: "('w, 'r) api \<Rightarrow> aobj \<Rightarrow> string \<Rightarrow> string \<Rightarrow> bool \<Rightarrow> ('w, reply) aop" where
  "rpc_container_put_archive A c path data decode_data =
     check_container_host A c (call A (ao_host c) (RpcPutArchive c path data decode_data))"

definition rpc_container_stats :: "('w, 'r) api \<Rightarrow> aobj \<Rightarrow> ('w, reply) aop" where
  "rpc_container_stats A c = check_container_host A c (call A (ao_host c) (RpcStats c))"

definition rpc_container_commit :: "('w, 'r) api \<Rightarrow> aobj \<Rightarrow> string option \<Rightarrow> string option \<Rightarrow> ('w, reply) aop" where
  "rpc_container_commit A c repository tag = check_container_host A c (call A (ao_host c) (RpcCommit c repository tag))"

definition rpc_add_security_group :: "aobj \<Rightarrow> string \<Rightarrow> ('w, unit) aop" where
  "rpc_add_security_group c g = cast (ao_host c) (RpcAddSecurityGroup c g)"

definition rpc_remove_security_group :: "aobj \<Rightarrow> string \<Rightarrow> ('w, unit) aop" where
  "rpc_remove_security_group c g = cast (ao_host c) (RpcRemoveSecurityGroup c g)"

definition rpc_network_detach :: "aobj \<Rightarrow> string \<Rightarrow> ('w, unit) aop" where
  "rpc_network_detach c net = cast (ao_host c) (RpcNetworkDetach c net)"

definition rpc_network_attach :: "aobj \<Rightarrow> req_network \<Rightarrow> ('w, unit) aop" where
  "rpc_network_attach c req = cast (ao_host c) (RpcNetworkAttach c req)"

definition rpc_image_search :: "('w, 'r) api \<Rightarrow> string \<Rightarrow> string option \<Rightarrow> bool \<Rightarrow> string option \<Rightarrow> ('w, reply) aop" where
  \<comment> \<open>the registry is passed on unread\<close>
  "rpc_image_search A img image_driver exact_match server = call A server (RpcImageSearch img image_driver exact_match)"

section \<open>The compute API\<close>

definition record_action_start :: "aobj \<Rightarrow> string \<Rightarrow> ('w, unit) aop" where
  "record_action_start c name = smodify (\<lambda>s. s\<lparr>ap_actions := ap_actions s @ [(ao_uuid c, name)]\<rparr>)"

definition destroy_volume :: "volmap \<Rightarrow> ('w, unit) aop" where
  \<comment> \<open>\<open>_destroy_volume\<close> of a mapping; a volume that is not found is ignored\<close>
  "destroy_volume v = smodify (\<lambda>s.
     if v_volume_id v \<notin> set (map v_volume_id (ap_volmaps s))
     then s\<lparr>ap_volumes := filter (\<lambda>i. i \<noteq> v_volume_id v) (ap_volumes s)\<rparr> else s)"

definition validate_host :: "('w, 'r) api \<Rightarrow> aobj \<Rightarrow> string \<Rightarrow> (string, volmap list) dict \<Rightarrow> ('w, unit) aop" where
  "validate_host A c h vols =
     (if h = [] \<or> h \<in> set (map (\<lambda>n. hostname (sn_node n)) (se_nodes (a_sched A))) then sreturn ()
      else sbind (destroy_container c) (\<lambda>_.
           case dict_get vols (ao_uuid c) of
             None \<Rightarrow> sraise (Exn exn.PyKeyError)
           | Some vs \<Rightarrow> sbind (sforeach vs destroy_volume) (\<lambda>_. sraise (RequestedHostNotFound h))))"

definition to_request :: "cont \<Rightarrow> request" where
  "to_request c = \<lparr>c_uuid = k_uuid c, c_memory = k_memory c, c_cpu = k_cpu c, c_disk = k_disk c,
     c_cpu_policy = k_cpu_policy c, c_cpuset_cpus = map_option fst (sp_cpuset (k_spec c)), c_host = k_host c,
     c_runtime = k_runtime c\<rparr>"

definition schedule_container :: "('w, 'r) api \<Rightarrow> aobj \<Rightarrow> request_spec \<Rightarrow> ('w, request \<times> string \<times> limits) aop" where
  "schedule_container A c spec s =
     (case client_select_destinations (a_placement_conf A) (a_placement A) (a_sched A) [to_request (ao_base c)] spec (ap_sched s) of
        (Inl e, x) \<Rightarrow> (Inl (SchedError e), s\<lparr>ap_sched := x\<rparr>)
      | (Inr [], x) \<Rightarrow> (Inl (Exn PyIndexError), s\<lparr>ap_sched := x\<rparr>)
      | (Inr (d # _), x) \<Rightarrow> (Inr d, s\<lparr>ap_sched := x\<rparr>))"

definition mark_error :: "('w, 'r) api \<Rightarrow> aobj \<Rightarrow> string \<Rightarrow> ('w, aobj) aop" where
  "mark_error A c reason = save_container A (set_status_reason reason (set_status ERROR c))"

definition is_no_valid_host :: "api_error \<Rightarrow> bool" where
  "is_no_valid_host e = (case e of SchedError (NoValidHost _) \<Rightarrow> True | _ \<Rightarrow> False)"

definition image_list :: "reply \<Rightarrow> string list" where
  "image_list r = (case r of ListReply l \<Rightarrow> l | _ \<Rightarrow> [])"

definition check_images :: "string \<Rightarrow> string list \<Rightarrow> (api_error, unit) res" where
  "check_images img images =
     (if images = [] then Inl (Exn (ImageNotFound (Text img)))
      else if length images > 1
      then Inl (Exn (Conflict (Text ''Multiple images exist with same name. Please use the container uuid instead.'')))
      else Inr ())"

definition validate_image :: "('w, 'r) api \<Rightarrow> aobj \<Rightarrow> string \<Rightarrow> ('w, unit) aop" where
  "validate_image A c h =
     (if \<not> a_enable_image_validation A then sreturn ()
      else scatch
        (sbind (rpc_image_search A (ac_image (ao_cont c)) (k_image_driver (ao_base c)) True (Some h))
           (\<lambda>r. slift (check_images (ac_image (ao_cont c)) (image_list r))))
        (\<lambda>e. case e of
               OperationNotSupported \<Rightarrow> sreturn ()
             | ReferenceInvalidFormat \<Rightarrow> sraise (InvalidValue ''The format of image name is invalid.'')
             | _ \<Rightarrow> sreturn ()))"

definition with_cpu_policy :: "request \<Rightarrow> aobj \<Rightarrow> aobj" where
  \<comment> \<open>the scheduler may set the policy of the object it places\<close>
  "with_cpu_policy r c = c\<lparr>ao_cont := (ao_cont c)\<lparr>ac_base := (ao_base c)\<lparr>k_cpu_policy := c_cpu_policy r\<rparr>\<rparr>\<rparr>"

definition start_on_host ::
    "('w, 'r) api \<Rightarrow> aobj \<Rightarrow> req_network list \<Rightarrow> (string, volmap list) dict \<Rightarrow> bool \<Rightarrow> pci_request list option
     \<Rightarrow> request \<times> string \<times> limits \<Rightarrow> ('w, unit) aop" where
  "start_on_host A c0 nets vols run pci d =
     (let c = with_cpu_policy (fst d) c0; h = fst (snd d)
      in sbind (validate_image A c h) (\<lambda>_.
         sbind (record_action_start c ''create'') (\<lambda>_.
           rpc_container_create h c (snd (snd d)) nets vols run pci)))"

definition api_container_create ::
    "('w, 'r) api \<Rightarrow> aobj \<Rightarrow> request_spec \<Rightarrow> req_network list \<Rightarrow> (string, volmap list) dict \<Rightarrow> bool \<Rightarrow> pci_request list option
     \<Rightarrow> ('w, unit) aop" where
  "api_container_create A c spec nets vols run pci =
     sbind (case es_requested_host spec of None \<Rightarrow> sreturn () | Some h \<Rightarrow> validate_host A c h vols) (\<lambda>_.
     sbind (scatch (sbind (schedule_container A c spec) (\<lambda>d. sreturn (Some d)))
        (\<lambda>e. if is_no_valid_host e
              then sbind (mark_error A c ''There are not enough hosts available.'') (\<lambda>_. sreturn None)
              else sbind (mark_error A c ''Unexpected exception occurred.'') (\<lambda>_. sraise e)))
       (\<lambda>d. case d of None \<Rightarrow> sreturn () | Some d \<Rightarrow> start_on_host A c nets vols run pci d))"

definition api_container_delete :: "('w, 'r) api \<Rightarrow> aobj \<Rightarrow> bool \<Rightarrow> ('w, unit) aop" where
  "api_container_delete A c force = sbind (record_action_start c ''delete'') (\<lambda>_. rpc_container_delete A c force)"

definition api_container_show :: "('w, 'r) api \<Rightarrow> aobj \<Rightarrow> ('w, reply) aop" where
  "api_container_show A c = rpc_container_show A c"

definition api_container_rebuild :: "aobj \<Rightarrow> bool \<Rightarrow> ('w, unit) aop" where
  "api_container_rebuild c run = sbind (record_action_start c ''rebuild'') (\<lambda>_. rpc_container_rebuild c run)"

definition api_container_reboot :: "aobj \<Rightarrow> pyval \<Rightarrow> ('w, unit) aop" where
  "api_container_reboot c timeout = sbind (record_action_start c ''reboot'') (\<lambda>_. rpc_container_reboot c timeout)"

definition api_container_stop :: "aobj \<Rightarrow> pyval \<Rightarrow> ('w, unit) aop" where
  "api_container_stop c timeout = sbind (record_action_start c ''stop'') (\<lambda>_. rpc_container_stop c timeout)"

definition api_container_start :: "aobj \<Rightarrow> ('w, unit) aop" where
  "api_container_start c = sbind (record_action_start c ''start'') (\<lambda>_. rpc_container_start c)"

definition api_container_pause :: "aobj \<Rightarrow> ('w, unit) aop" where
  "api_container_pause c = sbind (record_action_start c ''pause'') (\<lambda>_. rpc_container_pause c)"

definition api_container_unpause :: "aobj \<Rightarrow> ('w, unit) aop" where
  "api_container_unpause c = sbind (record_action_start c ''unpause'') (\<lambda>_. rpc_container_unpause c)"

definition api_container_kill :: "aobj \<Rightarrow> string option \<Rightarrow> ('w, unit) aop" where
  "api_container_kill c signal = sbind (record_action_start c ''kill'') (\<lambda>_. rpc_container_kill c signal)"

definition api_container_commit :: "('w, 'r) api \<Rightarrow> aobj \<Rightarrow> string option \<Rightarrow> string option \<Rightarrow> ('w, reply) aop" where
  "api_container_commit A c repository tag =
     sbind (record_action_start c ''commit'') (\<lambda>_. rpc_container_commit A c repository tag)"

definition api_add_security_group :: "aobj \<Rightarrow> string \<Rightarrow> ('w, unit) aop" where
  "api_add_security_group c g = sbind (record_action_start c ''add_security_group'') (\<lambda>_. rpc_add_security_group c g)"

definition api_remove_security_group :: "aobj \<Rightarrow> string \<Rightarrow> ('w, unit) aop" where
  "api_remove_security_group c g = sbind (record_action_start c ''remove_security_group'') (\<lambda>_. rpc_remove_security_group c g)"

definition api_network_detach :: "aobj \<Rightarrow> string \<Rightarrow> ('w, unit) aop" where
  "api_network_detach c net = sbind (record_action_start c ''network_detach'') (\<lambda>_. rpc_network_detach c net)"

definition api_network_attach :: "aobj \<Rightarrow> req_network \<Rightarrow> ('w, unit) aop" where
  "api_network_attach c req = sbind (record_action_start c ''network_attach'') (\<lambda>_. rpc_network_attach c req)"

definition api_container_exec :: "('w, 'r) api \<Rightarrow> aobj \<Rightarrow> string \<Rightarrow> bool \<Rightarrow> bool \<Rightarrow> ('w, reply) aop" where
  "api_container_exec A c command run interactive =
     sbind (rpc_container_exec A c command run interactive) (\<lambda>r.
       case r of
         DictReply d \<Rightarrow>
           let token = (case dict_get d ''token'' of Some t \<Rightarrow> t | None \<Rightarrow> None);
               d1 = dict_del ''token'' d;
               exec_id = (case dict_get d1 ''exec_id'' of Some (Some i) \<Rightarrow> i | _ \<Rightarrow> ''None'')
           in sreturn (DictReply (dict_set ''proxy_url''
                (if truthy token
                 then Some (a_proxy_url A @ ''?token='' @ the token @ ''&uuid='' @ ao_uuid c @ ''&exec_id='' @ exec_id)
                 else None) d1))
       | _ \<Rightarrow> sraise (Exn exn.PyAttributeError))"

definition api_container_attach :: "('w, 'r) api \<Rightarrow> aobj \<Rightarrow> ('w, reply) aop" where
  \<comment> \<open>the host answers with a token or \<open>None\<close>\<close>
  "api_container_attach A c =
     sbind (rpc_container_attach A c) (\<lambda>r.
       let token = (case r of TextReply t \<Rightarrow> t | _ \<Rightarrow> ''None'')
       in sreturn (TextReply (a_proxy_url A @ ''?token='' @ token @ ''&uuid='' @ ao_uuid c)))"

section \<open>Networks\<close>

definition get_available_network :: "('w, 'r) api \<Rightarrow> (api_error, nnet) res" where
  "get_available_network A =
     rbind (na_tenant_networks (a_neutron A)) (\<lambda>own.
     rbind (if own \<noteq> [] then Inr own else na_shared_networks (a_neutron A)) (\<lambda>nets.
       case sort_key nn_created_at nets of
         [] \<Rightarrow> Inl (Exn (Conflict (Text ''There is no neutron network available'')))
       | n # _ \<Rightarrow> Inr n))"

definition get_neutron_network :: "('w, 'r) api \<Rightarrow> string \<Rightarrow> (api_error, nnet) res" where
  "get_neutron_network A network =
     rbind (if a_is_uuid_like A network then na_networks_by_id (a_neutron A) network
            else na_networks_by_name (a_neutron A) network)
       (\<lambda>networks. case networks of
          [] \<Rightarrow> Inl (NetworkNotFound network)
        | [n] \<Rightarrow> Inr n
        | _ \<Rightarrow> Inl (Exn (Conflict (Text ''Multiple neutron networks exist with same name. Please use the uuid instead.''))))"

definition get_neutron_port :: "('w, 'r) api \<Rightarrow> string \<Rightarrow> (api_error, nport) res" where
  "get_neutron_port A port =
     rbind (if a_is_uuid_like A port then na_ports_by_id (a_neutron A) port
            else na_ports_by_name (a_neutron A) port)
       (\<lambda>ports. case ports of
          [] \<Rightarrow> Inl (NeutronPortNotFound port)
        | [p] \<Rightarrow> Inr p
        | _ \<Rightarrow> Inl (Exn (Conflict (Text ''Multiple neutron ports exist with same name. Please use the uuid instead.''))))"

definition ensure_neutron_port_usable :: "('w, 'r) api \<Rightarrow> nport \<Rightarrow> (api_error, unit) res" where
  "ensure_neutron_port_usable A port =
     (if np_tenant_id port \<noteq> cx_project_id (a_context A) then Inl (PortNotUsable (np_id port))
      else if truthy (np_device_id port) then Inl (PortInUse (np_id port))
      else if np_status port \<in> {Some ''ACTIVE'', Some ''BUILD'', Some ''ERROR''} then Inl (PortNotUsable (np_id port))
      else if np_vif_type port = Some ''binding_failed'' then Inl (PortBindingFailed (np_id port))
      else Inr ())"

text \<open>A network of a request: a port, a network with a fixed address, or neither.\<close>

record net_arg =
  ng_port :: "string option"
  ng_network :: "string option"
  ng_fixed_ip :: string

record requested_network =
  qn_network :: string
  qn_port :: string
  qn_external :: bool
  qn_shared :: bool
  qn_fixed_ip :: string
  qn_preserve_on_delete :: bool

definition requested_from :: "nnet \<Rightarrow> string \<Rightarrow> string \<Rightarrow> requested_network" where
  "requested_from n ip u = \<lparr>qn_network = u, qn_port = [], qn_external = nn_external n, qn_shared = nn_shared n,
     qn_fixed_ip = ip, qn_preserve_on_delete = False\<rparr>"

fun request_networks :: "('w, 'r) api \<Rightarrow> net_arg list \<Rightarrow> (api_error, requested_network list) res" where
  "request_networks A [] = Inr []"
| "request_networks A (a # as) =
     rbind
       (if truthy (ng_port a)
        then rbind (get_neutron_port A (the (ng_port a))) (\<lambda>port.
             rbind (ensure_neutron_port_usable A port) (\<lambda>_.
             rbind (get_neutron_network A (np_network_id port)) (\<lambda>n.
               Inr [(requested_from n [] (np_network_id port))\<lparr>qn_port := np_id port, qn_preserve_on_delete := True\<rparr>])))
        else if truthy (ng_network a)
        then rbind (get_neutron_network A (the (ng_network a))) (\<lambda>n. Inr [requested_from n (ng_fixed_ip a) (nn_id n)])
        else Inr [])
       (\<lambda>r. rbind (request_networks A as) (\<lambda>rs. Inr (r @ rs)))"

definition check_external_network_attach :: "('w, 'r) api \<Rightarrow> requested_network list \<Rightarrow> (api_error, unit) res" where
  "check_external_network_attach A nets =
     (if a_allowed A ''network:attach_external_network'' None then Inr ()
      else case List.find (\<lambda>n. qn_external n \<and> \<not> qn_shared n) nets of
             None \<Rightarrow> Inr () | Some n \<Rightarrow> Inl (ExternalNetworkAttachForbidden (qn_network n)))"

definition build_requested_networks :: "('w, 'r) api \<Rightarrow> net_arg list \<Rightarrow> (api_error, requested_network list) res" where
  "build_requested_networks A nets =
     rbind (request_networks A nets) (\<lambda>rs.
     rbind (if rs \<noteq> [] then Inr rs
            else rbind (get_available_network A) (\<lambda>n. Inr [requested_from n [] (nn_id n)])) (\<lambda>rs1.
     rbind (check_external_network_attach A rs1) (\<lambda>_. Inr rs1)))"

definition to_req_network :: "requested_network \<Rightarrow> req_network" where
  "to_req_network n = \<lparr>rn_network = qn_network n, rn_port = qn_port n, rn_preserve = qn_preserve_on_delete n\<rparr>"

section \<open>Checks of a request\<close>

type_synonym ('w) handler = "('w, nat \<times> reply) aop"

definition check_policy_on_container :: "('w, 'r) api \<Rightarrow> aobj \<Rightarrow> string \<Rightarrow> ('w, unit) aop" where
  "check_policy_on_container A c rule =
     slift (if a_allowed A rule (Some (ao_cont c)) then Inr () else Inl (NotAuthorized rule))"

definition policy_enforce :: "('w, 'r) api \<Rightarrow> string \<Rightarrow> ('w, unit) aop" where
  "policy_enforce A rule = slift (if a_allowed A rule None then Inr () else Inl (NotAuthorized rule))"

fun version_less :: "nat \<times> nat \<Rightarrow> nat \<times> nat \<Rightarrow> bool" where
  "version_less (major, minor) (major', minor') = (major < major' \<or> major = major' \<and> minor < minor')"

definition version_check :: "('w, 'r) api \<Rightarrow> string \<Rightarrow> nat \<times> nat \<Rightarrow> ('w, unit) aop" where
  "version_check A param v = slift (if version_less (a_version A) v then Inl (InvalidParamInVersion param) else Inr ())"

definition version_matches :: "('w, 'r) api \<Rightarrow> nat \<times> nat \<Rightarrow> nat \<times> nat \<Rightarrow> bool" where
  "version_matches A lo hi \<longleftrightarrow>
     (version_less lo (a_version A) \<or> lo = a_version A) \<and> (version_less (a_version A) hi \<or> a_version A = hi)"

definition CURRENT_MAX_VER :: "nat \<times> nat" where
  "CURRENT_MAX_VER = (1, 40)"

definition api_version :: "('w, 'r) api \<Rightarrow> nat \<times> nat \<Rightarrow> nat \<times> nat \<Rightarrow> 'w handler \<Rightarrow> 'w handler" where
  \<comment> \<open>a method that has one version\<close>
  "api_version A lo hi m = (if version_matches A lo hi then m else sraise VersionNotAcceptable)"

definition validate_state :: "aobj \<Rightarrow> action \<Rightarrow> ('w, unit) aop" where
  "validate_state c a = slift (case validate_container_state (ao_base c) a of Inl e \<Rightarrow> Inl (Exn e) | Inr _ \<Rightarrow> Inr ())"

datatype bool_arg = BoolArg bool | TextArg string

definition read_bool :: "('w, 'r) api \<Rightarrow> string \<Rightarrow> bool_arg \<Rightarrow> ('w, bool) aop" where
  \<comment> \<open>\<open>bool_from_string(x, strict=True)\<close>, with the error that the handlers raise instead\<close>
  "read_bool A names b =
     slift (case b of
              BoolArg v \<Rightarrow> Inr v
            | TextArg t \<Rightarrow> (case a_bool_from_string A t of
                None \<Rightarrow> Inl (InvalidValue (''Valid '' @ names @ '' values are booleans'')) | Some v \<Rightarrow> Inr v))"

definition is_all_projects :: "('w, 'r) api \<Rightarrow> bool_arg option \<Rightarrow> ('w, bool) aop" where
  "is_all_projects A x =
     (case x of
        None \<Rightarrow> sreturn False
      | Some b \<Rightarrow> if b = BoolArg False \<or> b = TextArg [] then sreturn False else read_bool A ''all_projects'' b)"

definition enter :: "('w, 'r) api \<Rightarrow> string \<Rightarrow> string \<Rightarrow> action \<Rightarrow> (aobj \<Rightarrow> 'w handler) \<Rightarrow> 'w handler" where
  \<comment> \<open>how the handlers of actions begin: find the container, check the policy and the state\<close>
  "enter A ident rule a k =
     sbind (get_resource A ident) (\<lambda>c.
     sbind (check_policy_on_container A c rule) (\<lambda>_.
     sbind (validate_state c a) (\<lambda>_. k c)))"

definition accepted :: "('w, unit) aop \<Rightarrow> 'w handler" where
  "accepted m = sbind m (\<lambda>_. sreturn (202, NoReply))"

definition answered :: "('w, reply) aop \<Rightarrow> 'w handler" where
  "answered m = sbind m (\<lambda>r. sreturn (200, r))"

definition set_all_projects :: "('w, 'r) api \<Rightarrow> string \<Rightarrow> bool_arg option \<Rightarrow> ('w, unit) aop" where
  \<comment> \<open>\<open>all_projects\<close> of the context, which \<open>get_resource\<close> sets for an administrator anyway\<close>
  "set_all_projects A rule x = sbind (is_all_projects A x) (\<lambda>b. if b then policy_enforce A rule else sreturn ())"

section \<open>The handlers of actions\<close>

definition ctl_start :: "('w, 'r) api \<Rightarrow> string \<Rightarrow> 'w handler" where
  "ctl_start A ident = enter A ident ''container:start'' Start (\<lambda>c. accepted (api_container_start c))"

definition ctl_stop :: "('w, 'r) api \<Rightarrow> string \<Rightarrow> pyval \<Rightarrow> 'w handler" where
  "ctl_stop A ident timeout = enter A ident ''container:stop'' Stop (\<lambda>c. accepted (api_container_stop c timeout))"

definition ctl_reboot :: "('w, 'r) api \<Rightarrow> string \<Rightarrow> pyval \<Rightarrow> 'w handler" where
  "ctl_reboot A ident timeout =
     enter A ident ''container:reboot'' Reboot (\<lambda>c.
       sbind (save_container A (set_status RESTARTING c)) (\<lambda>c1. accepted (api_container_reboot c1 timeout)))"

definition validate_image_driver :: "('w, 'r) api \<Rightarrow> string \<Rightarrow> ('w, unit) aop" where
  "validate_image_driver A d =
     slift (if d \<notin> set (a_image_driver_list A)
            then Inl (ValidationError ''Invalid input for image_driver, it should be within the image drivers list'') else Inr ())"

definition ctl_rebuild :: "('w, 'r) api \<Rightarrow> string \<Rightarrow> string option \<Rightarrow> string option \<Rightarrow> 'w handler" where
  "ctl_rebuild A ident img img_driver =
     enter A ident ''container:rebuild'' Rebuild (\<lambda>c.
       let c1 = (if truthy img then set_image (the img) c else c)
       in sbind (if truthy img_driver
                 then sbind (validate_image_driver A (the img_driver)) (\<lambda>_. sreturn (set_image_driver (the img_driver) c1))
                 else sreturn c1) (\<lambda>c2.
          let run = (k_status (ao_base c2) = RUNNING)
          in sbind (save_container A (set_status REBUILDING c2)) (\<lambda>c3. accepted (api_container_rebuild c3 run))))"

definition ctl_pause :: "('w, 'r) api \<Rightarrow> string \<Rightarrow> 'w handler" where
  "ctl_pause A ident = enter A ident ''container:pause'' Pause (\<lambda>c. accepted (api_container_pause c))"

definition ctl_unpause :: "('w, 'r) api \<Rightarrow> string \<Rightarrow> 'w handler" where
  "ctl_unpause A ident = enter A ident ''container:unpause'' Unpause (\<lambda>c. accepted (api_container_unpause c))"

definition ctl_kill :: "('w, 'r) api \<Rightarrow> string \<Rightarrow> string option \<Rightarrow> 'w handler" where
  "ctl_kill A ident signal = enter A ident ''container:kill'' Kill (\<lambda>c. accepted (api_container_kill c signal))"

definition ctl_logs ::
    "('w, 'r) api \<Rightarrow> string \<Rightarrow> bool_arg \<Rightarrow> bool_arg \<Rightarrow> bool_arg \<Rightarrow> string \<Rightarrow> string option \<Rightarrow> 'w handler" where
  "ctl_logs A ident stdout stderr timestamps tail since =
     enter A ident ''container:logs'' Logs (\<lambda>c.
       let names = ''stdout, stderr and timestamps''
       in sbind (read_bool A names stdout) (\<lambda>out.
          sbind (read_bool A names stderr) (\<lambda>err.
          sbind (read_bool A names timestamps) (\<lambda>ts. answered (rpc_container_logs A c out err ts tail since)))))"

definition ctl_execute :: "('w, 'r) api \<Rightarrow> string \<Rightarrow> bool_arg \<Rightarrow> bool_arg \<Rightarrow> string option \<Rightarrow> 'w handler" where
  \<comment> \<open>the command is read as a key of the arguments\<close>
  "ctl_execute A ident run interactive command =
     enter A ident ''container:execute'' Execute (\<lambda>c.
       sbind (read_bool A ''run or interactive'' run) (\<lambda>r.
       sbind (read_bool A ''run or interactive'' interactive) (\<lambda>i.
         case command of
           None \<Rightarrow> sraise (Exn exn.PyKeyError)
         | Some cmd \<Rightarrow> answered (api_container_exec A c cmd r i))))"

definition ctl_execute_resize :: "('w, 'r) api \<Rightarrow> string \<Rightarrow> string \<Rightarrow> string option \<Rightarrow> string option \<Rightarrow> 'w handler" where
  "ctl_execute_resize A ident exec_id h w =
     enter A ident ''container:execute_resize'' Execute_resize (\<lambda>c. answered (rpc_container_exec_resize A c exec_id h w))"

definition ctl_attach :: "('w, 'r) api \<Rightarrow> string \<Rightarrow> 'w handler" where
  "ctl_attach A ident =
     enter A ident ''container:attach'' Attach (\<lambda>c.
       if sp_interactive (k_spec (ao_base c)) then answered (api_container_attach A c) else sraise NoInteractiveFlag)"

definition ctl_resize :: "('w, 'r) api \<Rightarrow> string \<Rightarrow> string option \<Rightarrow> string option \<Rightarrow> 'w handler" where
  "ctl_resize A ident h w =
     enter A ident ''container:resize'' Resize (\<lambda>c. sbind (rpc_container_resize A c h w) (\<lambda>_. sreturn (200, NoReply)))"

definition ctl_top :: "('w, 'r) api \<Rightarrow> string \<Rightarrow> string option \<Rightarrow> 'w handler" where
  "ctl_top A ident ps_args = enter A ident ''container:top'' Top (\<lambda>c. answered (rpc_container_top A c ps_args))"

definition ctl_get_archive :: "('w, 'r) api \<Rightarrow> string \<Rightarrow> string option \<Rightarrow> 'w handler" where
  \<comment> \<open>data are encoded from version 1.25 on\<close>
  "ctl_get_archive A ident path =
     enter A ident ''container:get_archive'' Get_archive (\<lambda>c.
       case path of
         None \<Rightarrow> sraise (Exn exn.PyKeyError)
       | Some p \<Rightarrow> answered (rpc_container_get_archive A c p (version_matches A (1, 25) CURRENT_MAX_VER)))"

definition ctl_put_archive :: "('w, 'r) api \<Rightarrow> string \<Rightarrow> string option \<Rightarrow> string option \<Rightarrow> 'w handler" where
  "ctl_put_archive A ident path data =
     enter A ident ''container:put_archive'' Put_archive (\<lambda>c.
       case (path, data) of
         (Some p, Some d) \<Rightarrow>
           sbind (rpc_container_put_archive A c p d (version_matches A (1, 25) CURRENT_MAX_VER)) (\<lambda>_. sreturn (200, NoReply))
       | _ \<Rightarrow> sraise (Exn exn.PyKeyError))"

definition ctl_stats :: "('w, 'r) api \<Rightarrow> string \<Rightarrow> 'w handler" where
  "ctl_stats A ident = enter A ident ''container:stats'' Stats (\<lambda>c. answered (rpc_container_stats A c))"

definition ctl_commit :: "('w, 'r) api \<Rightarrow> string \<Rightarrow> string option \<Rightarrow> string option \<Rightarrow> 'w handler" where
  "ctl_commit A ident repository tag =
     enter A ident ''container:commit'' Commit (\<lambda>c.
       sbind (api_container_commit A c repository tag) (\<lambda>r. sreturn (202, r)))"

definition check_security_group :: "('w, 'r) api \<Rightarrow> string \<Rightarrow> ('w, string) aop" where
  "check_security_group A name =
     slift (case na_find_security_group (a_neutron A) name of
              Inr i \<Rightarrow> Inr i
            | Inl NeutronNoUniqueMatch \<Rightarrow> Inl (Exn (Conflict (Text (''Multiple security group matches found for name '' @ name
                 @ '', use an ID to be more specific.''))))
            | Inl (NeutronClientException code) \<Rightarrow>
                if code = 404 then Inl (InvalidValue (''Security group '' @ name @ '' not found.''))
                else Inl (NeutronClientException code)
            | Inl e \<Rightarrow> Inl e)"

definition ctl_add_security_group :: "('w, 'r) api \<Rightarrow> string \<Rightarrow> string \<Rightarrow> 'w handler" where
  "ctl_add_security_group A ident name =
     api_version A (1, 1) (1, 14) (enter A ident ''container:add_security_group'' Add_security_group (\<lambda>c.
       sbind (check_security_group A name) (\<lambda>g.
         if g \<in> set (k_security_groups (ao_base c))
         then sraise (InvalidValue (''Security group '' @ g @ '' has been added to container.''))
         else accepted (api_add_security_group c g))))"

definition ctl_remove_security_group :: "('w, 'r) api \<Rightarrow> string \<Rightarrow> string \<Rightarrow> 'w handler" where
  "ctl_remove_security_group A ident name =
     api_version A (1, 1) (1, 14) (enter A ident ''container:remove_security_group'' Remove_security_group (\<lambda>c.
       sbind (check_security_group A name) (\<lambda>g.
         if g \<notin> set (k_security_groups (ao_base c))
         then sraise (InvalidValue (''Security group '' @ g @ '' was not added to container.''))
         else accepted (api_remove_security_group c g))))"

definition on_quota :: "'a qop \<Rightarrow> ('w, 'a) aop" where
  "on_quota m s =
     (case m (ap_quota s) of
        (Inl e, q) \<Rightarrow> (Inl (QuotaError e), s\<lparr>ap_quota := q\<rparr>)
      | (Inr x, q) \<Rightarrow> (Inr x, s\<lparr>ap_quota := q\<rparr>))"

definition ctl_check_container_quotas :: "('w, 'r) api \<Rightarrow> (string, pyval) dict \<Rightarrow> bool \<Rightarrow> ('w, unit) aop" where
  "ctl_check_container_quotas A d update_container =
     on_quota (check_container_quotas (a_quota_conf A) (QUOTAS (a_quota_driver A)) (cx_project_id (a_context A)) d update_container)"

text \<open>
  The sizes that a container gets, those not given set to the defaults. The schema of a request
  lets no float through as the memory, so its text is not needed.
\<close>

fun py_str :: "pyval \<Rightarrow> string" where
  "py_str VNone = ''None''"
| "py_str (VInt i) = show_int i"
| "py_str (VText t) = t"
| "py_str (VFloat _) = []"

definition set_default_resource_limit :: "quota_conf \<Rightarrow> (string, pyval) dict \<Rightarrow> (string, pyval) dict" where
  "set_default_resource_limit C d =
     (let get = (\<lambda>k dflt m. case dict_get m k of None \<Rightarrow> dflt | Some v \<Rightarrow> v);
          d1 = dict_set ''disk'' (get ''disk'' VNone d) d;
          d2 = dict_set ''memory'' (get ''memory'' (VInt (conf_default_memory C)) d1) d1;
          d3 = dict_set ''memory'' (VText (py_str (get ''memory'' VNone d2))) d2
      in dict_set ''cpu'' (get ''cpu'' (VFloat (conf_default_cpu C)) d3) d3)"

text \<open>A change of a container: memory, CPUs, name, and whether it is healed.\<close>

record patch_arg =
  pa_memory :: "pyval option"
  pa_cpu :: "pyval option"
  pa_name :: "string option"
  pa_auto_heal :: "bool option"

definition of_quota_error :: "quota_error \<Rightarrow> api_error" where
  "of_quota_error e = (case e of quota_error.PyTypeError \<Rightarrow> TypeError | PyValueError \<Rightarrow> PythonValueError | _ \<Rightarrow> QuotaError e)"

definition lift_num :: "(quota_error, 'a) res \<Rightarrow> (api_error, 'a) res" where
  "lift_num r = (case r of Inl e \<Rightarrow> Inl (of_quota_error e) | Inr x \<Rightarrow> Inr x)"

definition memory_delta :: "pyval \<Rightarrow> cont \<Rightarrow> (api_error, pyval) res" where
  "memory_delta v c =
     rbind (lift_num (as_int v)) (\<lambda>i. case k_memory c of None \<Rightarrow> Inl TypeError | Some m \<Rightarrow> Inr (VInt (i - m)))"

definition cpu_delta :: "pyval \<Rightarrow> cont \<Rightarrow> (api_error, rat \<times> pyval) res" where
  "cpu_delta v c =
     rbind (lift_num (as_float v)) (\<lambda>x. case k_cpu c of None \<Rightarrow> Inl TypeError | Some m \<Rightarrow> Inr (x, VFloat (x - m)))"

definition set_patched :: "patch_arg \<Rightarrow> aobj \<Rightarrow> aobj" where
  \<comment> \<open>the fields that differ, when neither the memory nor the CPUs change\<close>
  "set_patched pa c =
     (let c1 = (case pa_name pa of Some n \<Rightarrow> if ac_name (ao_cont c) \<noteq> n then set_name n c else c | None \<Rightarrow> c)
      in case pa_auto_heal pa of Some b \<Rightarrow> if k_auto_heal (ao_base c1) \<noteq> b then set_auto_heal b c1 else c1 | None \<Rightarrow> c1)"

definition patch_dict :: "patch_arg \<Rightarrow> rat option \<Rightarrow> apatch" where
  \<comment> \<open>the document that is sent on, in which the memory is text and the CPUs are a float\<close>
  "patch_dict pa cpu =
     (case pa_memory pa of None \<Rightarrow> [] | Some v \<Rightarrow> [(''memory'', VText (py_str v))])
     @ (case cpu of None \<Rightarrow> [] | Some x \<Rightarrow> [(''cpu'', VFloat x)])
     @ (case pa_name pa of None \<Rightarrow> [] | Some n \<Rightarrow> [(''name'', VText n)])
     @ (case pa_auto_heal pa of None \<Rightarrow> [] | Some b \<Rightarrow> [(''auto_heal'', VInt (if b then 1 else 0))])"

definition patch_deltas :: "patch_arg \<Rightarrow> cont \<Rightarrow> (api_error, (string, pyval) dict \<times> rat option) res" where
  "patch_deltas pa c =
     rbind (case pa_memory pa of None \<Rightarrow> Inr [] | Some v \<Rightarrow> rbind (memory_delta v c) (\<lambda>d. Inr [(''memory'', d)])) (\<lambda>m.
     rbind (case pa_cpu pa of None \<Rightarrow> Inr ([], None) | Some v \<Rightarrow> rbind (cpu_delta v c) (\<lambda>d. Inr ([(''cpu'', snd d)], Some (fst d))))
       (\<lambda>u. Inr (m @ fst u, snd u)))"

definition ctl_patch :: "('w, 'r) api \<Rightarrow> string \<Rightarrow> patch_arg \<Rightarrow> 'w handler" where
  "ctl_patch A ident pa =
     enter A ident ''container:update'' Update (\<lambda>c.
       sbind (slift (patch_deltas pa (ao_base c))) (\<lambda>d.
         if pa_memory pa = None \<and> pa_cpu pa = None
         then sbind (save_container A (set_patched pa c)) (\<lambda>c1. sreturn (200, ObjReply c1))
         else sbind (ctl_check_container_quotas A (fst d) True) (\<lambda>_.
              answered (rpc_container_update A c (patch_dict pa (snd d))))))"

definition ctl_rename :: "('w, 'r) api \<Rightarrow> string \<Rightarrow> string \<Rightarrow> 'w handler" where
  "ctl_rename A ident name =
     api_version A (1, 1) (1, 13)
       (sbind (get_resource A ident) (\<lambda>c.
        sbind (check_policy_on_container A c ''container:rename'') (\<lambda>_.
          if ac_name (ao_cont c) = name
          then sraise (Exn (Conflict (Text ''The new name for the container is the same as the old name.'')))
          else sbind (save_container A (set_name name c)) (\<lambda>c1. sreturn (200, ObjReply c1)))))"

definition ctl_resize_container :: "('w, 'r) api \<Rightarrow> string \<Rightarrow> patch_arg \<Rightarrow> 'w handler" where
  "ctl_resize_container A ident pa =
     api_version A (1, 19) CURRENT_MAX_VER
       (enter A ident ''container:resize_container'' Resize_container (\<lambda>c.
          sbind (slift (case pa_cpu pa of None \<Rightarrow> Inr None | Some v \<Rightarrow> rbind (lift_num (as_float v)) (\<lambda>x. Inr (Some x)))) (\<lambda>cpu.
          sbind (rpc_resize_container c (patch_dict pa cpu)) (\<lambda>_. sreturn (202, ObjReply c)))))"

definition check_deletion :: "('w, 'r) api \<Rightarrow> aobj \<Rightarrow> bool \<Rightarrow> bool \<Rightarrow> ('w, unit) aop" where
  \<comment> \<open>the checks of the three kinds of deletion, and the stop before one\<close>
  "check_deletion A c force stp =
     (if \<not> force \<and> \<not> stp then validate_state c Delete
      else if force \<and> \<not> stp
      then sbind (version_check A ''force'' (1, 7)) (\<lambda>_.
           sbind (policy_enforce A ''container:delete_force'') (\<lambda>_. validate_state c Delete_force))
      else sbind (version_check A ''stop'' (1, 12)) (\<lambda>_.
           sbind (validate_state c Delete_after_stop) (\<lambda>_.
             if k_status (ao_base c) = RUNNING
             then sbind (check_policy_on_container A c ''container:stop'') (\<lambda>_. api_container_stop c (VInt 10))
             else sreturn ())))"

definition ctl_delete :: "('w, 'r) api \<Rightarrow> string \<Rightarrow> bool_arg \<Rightarrow> bool_arg \<Rightarrow> bool_arg option \<Rightarrow> 'w handler" where
  "ctl_delete A ident force stp all_projects =
     sbind (set_all_projects A ''container:delete_all_projects'' all_projects) (\<lambda>_.
     sbind (get_resource A ident) (\<lambda>c.
     sbind (check_policy_on_container A c ''container:delete'') (\<lambda>_.
     sbind (read_bool A ''force or stop'' force) (\<lambda>f.
     sbind (read_bool A ''force or stop'' stp) (\<lambda>st.
     sbind (check_deletion A c f st) (\<lambda>_.
     sbind (if truthy (ao_host c) then api_container_delete A (set_status DELETING c) f
            else destroy_container (set_status DELETING c)) (\<lambda>_. sreturn (204, NoReply))))))))"

definition ctl_get_one :: "('w, 'r) api \<Rightarrow> string \<Rightarrow> bool_arg option \<Rightarrow> 'w handler" where
  "ctl_get_one A ident all_projects =
     sbind (set_all_projects A ''container:get_one_all_projects'' all_projects) (\<lambda>_.
     sbind (get_resource A ident) (\<lambda>c.
     sbind (check_policy_on_container A c ''container:get_one'') (\<lambda>_.
       if truthy (ao_host c)
       then scatch (answered (api_container_show A c))
              (\<lambda>e. case e of ContainerHostNotUp _ _ \<Rightarrow> sreturn (200, ObjReply c) | _ \<Rightarrow> sraise e)
       else sreturn (200, ObjReply c))))"

definition attached_network :: "('w, 'r) api \<Rightarrow> aobj \<Rightarrow> string option \<Rightarrow> string option \<Rightarrow> (api_error, string) res" where
  \<comment> \<open>the network to detach, of a port or by its name\<close>
  "attached_network A c port network =
     (if truthy port
      then rbind (get_neutron_port A (the port)) (\<lambda>p.
           case dict_get (k_addresses (ao_base c)) (np_network_id p) of
             Some addrs \<Rightarrow> if np_id p \<in> set (map a_port addrs) then Inr (np_network_id p)
                           else Inl (Exn (Invalid (Text ''Port is not attached to container.'')))
           | None \<Rightarrow> Inl (Exn (Invalid (Text ''Port is not attached to container.''))))
      else case network of
             None \<Rightarrow> Inl TypeError
           | Some nm \<Rightarrow> rbind (get_neutron_network A nm) (\<lambda>n.
               if nn_id n \<notin> set (dict_keys (k_addresses (ao_base c)))
               then Inl (Exn (Invalid (Text ''Network is not attached to container.''))) else Inr (nn_id n)))"

definition ctl_network_detach :: "('w, 'r) api \<Rightarrow> string \<Rightarrow> string option \<Rightarrow> string option \<Rightarrow> 'w handler" where
  "ctl_network_detach A ident port network =
     api_version A (1, 6) CURRENT_MAX_VER
       (sbind (get_resource A ident) (\<lambda>c.
        sbind (check_policy_on_container A c ''container:network_detach'') (\<lambda>_.
        sbind (slift (attached_network A c port network)) (\<lambda>net. accepted (api_network_detach c net)))))"

definition ctl_network_attach :: "('w, 'r) api \<Rightarrow> string \<Rightarrow> net_arg \<Rightarrow> 'w handler" where
  "ctl_network_attach A ident arg =
     api_version A (1, 8) CURRENT_MAX_VER
       (sbind (get_resource A ident) (\<lambda>c.
        sbind (check_policy_on_container A c ''container:network_attach'') (\<lambda>_.
        sbind (slift (build_requested_networks A [arg])) (\<lambda>nets.
          case nets of
            [] \<Rightarrow> sraise (Exn PyIndexError)
          | n # _ \<Rightarrow>
              if qn_network n \<in> set (dict_keys (k_addresses (ao_base c)))
              then sraise (Exn (Invalid (Text (if truthy (ng_port arg)
                     then ''another port on the same network is already attached to this container.''
                     else ''Network is already connected to container.''))))
              else sbind (api_network_attach c (to_req_network n)) (\<lambda>_. sreturn (200, NoReply))))))"

text \<open>The networks of a container, in the two forms that versions of the API return.\<close>

definition get_container_networks_legacy :: "cont \<Rightarrow> (string \<times> addr) list" where
  "get_container_networks_legacy c = concat (map (\<lambda>(net, infos). map (\<lambda>a. (net, a)) infos) (k_addresses c))"

definition by_port :: "addr list \<Rightarrow> (string, addr list) dict" where
  "by_port infos = fold (\<lambda>a m. dict_set (a_port a) ((case dict_get m (a_port a) of None \<Rightarrow> [] | Some l \<Rightarrow> l) @ [a]) m) infos []"

definition get_container_networks :: "cont \<Rightarrow> (string \<times> string \<times> addr list) list" where
  "get_container_networks c = concat (map (\<lambda>(net, infos). map (\<lambda>(p, ips). (net, p, ips)) (by_port infos)) (k_addresses c))"

end
