(* ===== verification/Api_Requests.thy ===== *)
theory Api_Requests
  imports Container_Api
begin

text \<open>
  What the API service does with requests: an action on a container is passed on exactly when it
  is visible, allowed and valid, the creation of a container ends on a host that the scheduler
  chose or in an error, and which requests the quotas bind.
\<close>

section \<open>Requests for actions are gated\<close>

text \<open>The actions that a handler passes on without waiting, what they ask the host, and the
  status they record before.\<close>

datatype action_request =
    StartReq | StopReq pyval | PauseReq | UnpauseReq | KillReq "string option" | RebootReq pyval
  | RebuildReq "string option" "string option"

fun handle :: "('w, 'r) api \<Rightarrow> string \<Rightarrow> action_request \<Rightarrow> 'w handler" where
  "handle A ident StartReq = ctl_start A ident"
| "handle A ident (StopReq t) = ctl_stop A ident t"
| "handle A ident PauseReq = ctl_pause A ident"
| "handle A ident UnpauseReq = ctl_unpause A ident"
| "handle A ident (KillReq sg) = ctl_kill A ident sg"
| "handle A ident (RebootReq t) = ctl_reboot A ident t"
| "handle A ident (RebuildReq i d) = ctl_rebuild A ident i d"

fun req_action :: "action_request \<Rightarrow> action" where
  "req_action StartReq = Start"
| "req_action (StopReq _) = Stop"
| "req_action PauseReq = Pause"
| "req_action UnpauseReq = Unpause"
| "req_action (KillReq _) = Kill"
| "req_action (RebootReq _) = Reboot"
| "req_action (RebuildReq _ _) = Rebuild"

fun req_name :: "action_request \<Rightarrow> string" where
  "req_name StartReq = ''start''"
| "req_name (StopReq _) = ''stop''"
| "req_name PauseReq = ''pause''"
| "req_name UnpauseReq = ''unpause''"
| "req_name (KillReq _) = ''kill''"
| "req_name (RebootReq _) = ''reboot''"
| "req_name (RebuildReq _ _) = ''rebuild''"

fun req_message :: "action_request \<Rightarrow> aobj \<Rightarrow> status \<Rightarrow> rpc" where
  "req_message StartReq c st = RpcStart c"
| "req_message (StopReq t) c st = RpcStop c t"
| "req_message PauseReq c st = RpcPause c"
| "req_message UnpauseReq c st = RpcUnpause c"
| "req_message (KillReq sg) c st = RpcKill c sg"
| "req_message (RebootReq t) c st = RpcReboot c t"
| "req_message (RebuildReq _ _) c st = RpcRebuild c (st = RUNNING)"

fun req_status :: "action_request \<Rightarrow> status \<Rightarrow> status" where
  "req_status (RebootReq _) st = RESTARTING"
| "req_status (RebuildReq _ _) st = REBUILDING"
| "req_status _ st = st"

fun req_ok :: "('w, 'r) api \<Rightarrow> action_request \<Rightarrow> bool" where
  "req_ok A (RebuildReq _ d) = (truthy d \<longrightarrow> the d \<in> set (a_image_driver_list A))"
| "req_ok A _ = True"

definition rows_keyed :: "'w api_state \<Rightarrow> bool" where
  "rows_keyed s \<longleftrightarrow> dict_wf (ap_rows s) \<and> list_all (\<lambda>(u, row). k_uuid (ac_base row) = u) (ap_rows s)"

definition found :: "('w, 'r) api \<Rightarrow> string \<Rightarrow> 'w api_state \<Rightarrow> aobj \<Rightarrow> bool" where
  "found A ident s c \<longleftrightarrow> get_resource A ident s = (Inr c, s)"

lemma get_resource_state: "snd (get_resource A ident s) = s"
  by (auto simp: get_resource_def get_container_by_uuid_def get_container_by_name_def split: list.splits)

lemma visible_rows_stored:
  assumes "rows_keyed s" "row \<in> set (visible_rows cx s)"
  shows "dict_get (ap_rows s) (k_uuid (ac_base row)) = Some row"
proof -
  have "row \<in> snd ` set (ap_rows s)" using assms(2) by (auto simp: visible_rows_def)
  then obtain u where "(u, row) \<in> set (ap_rows s)" by auto
  then show ?thesis using assms(1) by (auto simp: rows_keyed_def list_all_iff)
qed

lemma filter_head: "filter P xs = y # ys \<Longrightarrow> y \<in> set xs"
  by (induction xs) (auto split: if_splits)

lemma get_resource_stored:
  assumes "rows_keyed s" "get_resource A ident s = (Inr c, s')"
  shows "s' = s" "c = load (ao_cont c)" "dict_get (ap_rows s) (ao_uuid c) = Some (ao_cont c)" "visible (a_context A) (ao_cont c)"
proof -
  have "\<exists>row \<in> set (visible_rows (a_context A) s). c = load row \<and> s' = s"
    using assms(2)
    by (auto simp: get_resource_def get_container_by_uuid_def get_container_by_name_def split: if_splits list.splits
        dest: filter_head)
  then obtain row where row: "row \<in> set (visible_rows (a_context A) s)" "c = load row" "s' = s" by blast
  then show "s' = s" "c = load (ao_cont c)" "dict_get (ap_rows s) (ao_uuid c) = Some (ao_cont c)"
    "visible (a_context A) (ao_cont c)"
    using visible_rows_stored [OF assms(1) row(1)] by (auto simp: load_def visible_rows_def)
qed

text \<open>What every handler does before its own part.\<close>

definition admitted :: "('w, 'r) api \<Rightarrow> string \<Rightarrow> string \<Rightarrow> action \<Rightarrow> 'w api_state \<Rightarrow> aobj \<Rightarrow> bool" where
  "admitted A ident rule a s c \<longleftrightarrow>
     get_resource A ident s = (Inr c, s) \<and> a_allowed A rule (Some (ao_cont c)) \<and> k_status (ao_base c) \<in> set (VALID_STATES a)"

lemma get_resource_error: "get_resource A ident s = (Inl e, s') \<Longrightarrow> e \<noteq> QuotaError q"
  by (auto simp: get_resource_def get_container_by_uuid_def get_container_by_name_def split: if_splits list.splits)

lemma enter_cases:
  obtains (refused) e where "enter A ident rule a k s = (Inl e, s)" "\<And>c. \<not> admitted A ident rule a s c" "\<And>q. e \<noteq> QuotaError q"
  | (admitted) c where "admitted A ident rule a s c" "enter A ident rule a k s = k c s"
proof (cases "fst (get_resource A ident s)")
  case (Inl e)
  then have "get_resource A ident s = (Inl e, s)" by (metis get_resource_state prod.collapse)
  then show ?thesis using refused [of e] get_resource_error [of A ident s e s]
    by (simp add: enter_def sbind_def admitted_def)
next
  case (Inr c)
  then have get: "get_resource A ident s = (Inr c, s)" by (metis get_resource_state prod.collapse)
  show ?thesis
  proof (cases "admitted A ident rule a s c")
    case True
    then show ?thesis using admitted [OF True]
      by (auto simp: enter_def sbind_def get check_policy_on_container_def validate_state_def validate_container_state_def
          slift_def admitted_def)
  next
    case False
    moreover have "\<not> admitted A ident rule a s c'" for c' using False get by (auto simp: admitted_def)
    ultimately show ?thesis using refused get
      by (cases "a_allowed A rule (Some (ao_cont c))")
         (auto simp: enter_def sbind_def check_policy_on_container_def validate_state_def validate_container_state_def
          slift_def admitted_def)
  qed
qed

lemma save_stored:
  assumes "dict_get (ap_rows s) (ao_uuid c) = Some row" "\<not> ao_name_changed c"
  shows "save_container A c s = (Inr (load (ao_cont c)), s\<lparr>ap_rows := dict_set (ao_uuid c) (merge_row c row) (ap_rows s)\<rparr>)"
  using assms by (simp add: save_container_def st_defs)

fun own_part :: "('w, 'r) api \<Rightarrow> action_request \<Rightarrow> aobj \<Rightarrow> 'w handler" where
  "own_part A StartReq c = accepted (api_container_start c)"
| "own_part A (StopReq t) c = accepted (api_container_stop c t)"
| "own_part A PauseReq c = accepted (api_container_pause c)"
| "own_part A UnpauseReq c = accepted (api_container_unpause c)"
| "own_part A (KillReq sg) c = accepted (api_container_kill c sg)"
| "own_part A (RebootReq t) c = sbind (save_container A (set_status RESTARTING c)) (\<lambda>c1. accepted (api_container_reboot c1 t))"
| "own_part A (RebuildReq i d) c =
     (let c1 = (if truthy i then set_image (the i) c else c)
      in sbind (if truthy d
                then sbind (validate_image_driver A (the d)) (\<lambda>_. sreturn (set_image_driver (the d) c1))
                else sreturn c1) (\<lambda>c2.
         let run = (k_status (ao_base c2) = RUNNING)
         in sbind (save_container A (set_status REBUILDING c2)) (\<lambda>c3. accepted (api_container_rebuild c3 run))))"

lemma handle_enters: "handle A ident r = enter A ident (''container:'' @ req_name r) (req_action r) (own_part A r)"
  by (cases r) (simp_all add: ctl_start_def ctl_stop_def ctl_pause_def ctl_unpause_def ctl_kill_def ctl_reboot_def
      ctl_rebuild_def own_part.simps [abs_def])

definition passed_on :: "action_request \<Rightarrow> aobj \<Rightarrow> 'w api_state \<Rightarrow> 'w api_state \<Rightarrow> bool" where
  \<comment> \<open>one action recorded, one message to the host of the container, and its new status stored\<close>
  "passed_on r c s s' \<longleftrightarrow>
     (\<exists>c' row. ap_actions s' = ap_actions s @ [(ao_uuid c, req_name r)]
        \<and> ap_sent s' = ap_sent s @ [(ao_host c, False, req_message r c' (k_status (ao_base c)))]
        \<and> ao_uuid c' = ao_uuid c \<and> k_status (ao_base c') = req_status r (k_status (ao_base c))
        \<and> dict_get (ap_rows s') (ao_uuid c) = Some row \<and> k_status (ac_base row) = req_status r (k_status (ao_base c)))
     \<and> (\<forall>u. u \<noteq> ao_uuid c \<longrightarrow> dict_get (ap_rows s') u = dict_get (ap_rows s) u)
     \<and> ap_volmaps s' = ap_volmaps s \<and> ap_volumes s' = ap_volumes s \<and> ap_quota s' = ap_quota s \<and> ap_sched s' = ap_sched s"

lemmas passing_defs = accepted_def api_container_start_def api_container_stop_def api_container_pause_def
  api_container_unpause_def api_container_kill_def api_container_reboot_def api_container_rebuild_def
  rpc_container_start_def rpc_container_stop_def rpc_container_pause_def rpc_container_unpause_def rpc_container_kill_def
  rpc_container_reboot_def rpc_container_rebuild_def record_action_start_def cast_def st_defs

lemma set_simps [simp]:
  "ao_uuid (set_status st c) = ao_uuid c" "ao_uuid (set_image i c) = ao_uuid c" "ao_uuid (set_image_driver d c) = ao_uuid c"
  "ao_host (set_status st c) = ao_host c" "ao_host (set_image i c) = ao_host c" "ao_host (set_image_driver d c) = ao_host c"
  "k_status (ao_base (set_status st c)) = st" "k_status (ao_base (set_image i c)) = k_status (ao_base c)"
  "k_status (ao_base (set_image_driver d c)) = k_status (ao_base c)"
  "ao_name_changed (set_status st c) = ao_name_changed c" "ao_name_changed (set_image i c) = ao_name_changed c"
  "ao_name_changed (set_image_driver d c) = ao_name_changed c"
  "k_status (ac_base (merge_row (set_status st c) row)) = st"
  "ao_cont (load x) = x" "\<not> ao_name_changed (load x)"
  by (simp_all add: set_status_def set_image_def set_image_driver_def merge_row_def merge_def load_def)

lemma own_part_run:
  assumes "dict_get (ap_rows s) (ao_uuid c) = Some (ao_cont c)" "\<not> ao_name_changed c"
  shows "if req_ok A r then \<exists>s'. own_part A r c s = (Inr (202, NoReply), s') \<and> passed_on r c s s'
         else \<exists>e. own_part A r c s = (Inl e, s)"
proof (cases r)
  case (RebootReq t)
  have "save_container A (set_status RESTARTING c) s = (Inr (load (ao_cont (set_status RESTARTING c))),
      s\<lparr>ap_rows := dict_set (ao_uuid c) (merge_row (set_status RESTARTING c) (ao_cont c)) (ap_rows s)\<rparr>)"
    using assms by (simp add: save_stored)
  then show ?thesis by (simp add: RebootReq passing_defs passed_on_def)
next
  case (RebuildReq i d)
  define c2 where "c2 = (let c1 = (if truthy i then set_image (the i) c else c) in if truthy d then set_image_driver (the d) c1 else c1)"
  have c2: "ao_uuid c2 = ao_uuid c" "ao_host c2 = ao_host c" "k_status (ao_base c2) = k_status (ao_base c)" "\<not> ao_name_changed c2"
    using assms(2) by (auto simp: c2_def Let_def)
  have sv: "save_container A (set_status REBUILDING c2) s = (Inr (load (ao_cont (set_status REBUILDING c2))),
      s\<lparr>ap_rows := dict_set (ao_uuid c) (merge_row (set_status REBUILDING c2) (ao_cont c)) (ap_rows s)\<rparr>)"
    using assms(1) c2 by (simp add: save_stored)
  have eq: "own_part A (RebuildReq i d) c s = (if req_ok A (RebuildReq i d)
      then sbind (save_container A (set_status REBUILDING c2)) (\<lambda>c3. accepted (api_container_rebuild c3 (k_status (ao_base c2) = RUNNING))) s
      else (Inl (ValidationError ''Invalid input for image_driver, it should be within the image drivers list''), s))"
    by (auto simp: c2_def Let_def validate_image_driver_def st_defs split: prod.splits sum.splits)
  show ?thesis unfolding RebuildReq eq using c2 sv by (simp add: passing_defs passed_on_def)
qed (use assms in \<open>auto simp: passing_defs passed_on_def\<close>)


section \<open>Creation\<close>

definition casts :: "'w api_state \<Rightarrow> (string option \<times> bool \<times> rpc) list" where
  \<comment> \<open>the messages whose sender does not wait for an answer\<close>
  "casts s = filter (\<lambda>m. \<not> fst (snd m)) (ap_sent s)"

definition errored :: "aobj \<Rightarrow> string \<Rightarrow> 'w api_state \<Rightarrow> 'w api_state \<Rightarrow> bool" where
  \<comment> \<open>the stored status is an error, for the reason given; no other row has changed\<close>
  "errored c reason s s' \<longleftrightarrow>
     (\<exists>row. dict_get (ap_rows s') (ao_uuid c) = Some row \<and> k_status (ac_base row) = ERROR
        \<and> k_status_reason (ac_base row) = Some (Text reason))
     \<and> (\<forall>u. u \<noteq> ao_uuid c \<longrightarrow> dict_get (ap_rows s') u = dict_get (ap_rows s) u)"

lemma schedule_container_cases:
  obtains (failed) e x where "schedule_container A c spec s = (Inl e, s\<lparr>ap_sched := x\<rparr>)"
  | (chosen) d ds x where "schedule_container A c spec s = (Inr d, s\<lparr>ap_sched := x\<rparr>)"
      "client_select_destinations (a_placement_conf A) (a_placement A) (a_sched A) [to_request (ao_base c)] spec (ap_sched s) = (Inr (d # ds), x)"
proof -
  obtain r x where run: "client_select_destinations (a_placement_conf A) (a_placement A) (a_sched A) [to_request (ao_base c)] spec (ap_sched s) = (r, x)"
    by (meson surj_pair)
  show ?thesis
  proof (cases r)
    case (Inl e)
    then show ?thesis using failed run by (simp add: schedule_container_def)
  next
    case (Inr ds)
    then show ?thesis using failed chosen run by (cases ds) (simp_all add: schedule_container_def)
  qed
qed

lemma mark_error_run:
  assumes "dict_get (ap_rows s) (ao_uuid c) = Some row" "\<not> ao_name_changed c"
  obtains c' s' where "mark_error A c reason s = (Inr c', s')" "errored c reason s s'" "ap_actions s' = ap_actions s"
    "ap_sent s' = ap_sent s" "ap_quota s' = ap_quota s" "ap_sched s' = ap_sched s"
proof -
  let ?c = "set_status_reason reason (set_status ERROR c)"
  have c: "ao_uuid ?c = ao_uuid c" "\<not> ao_name_changed ?c"
    "k_status (ac_base (merge_row ?c row)) = ERROR" "k_status_reason (ac_base (merge_row ?c row)) = Some (Text reason)"
    using assms(2) by (simp_all add: set_status_reason_def set_status_def merge_row_def merge_def)
  have "mark_error A c reason s = (Inr (load (ao_cont ?c)), s\<lparr>ap_rows := dict_set (ao_uuid c) (merge_row ?c row) (ap_rows s)\<rparr>)"
    unfolding mark_error_def using save_stored [of s ?c row A] assms(1) c(1,2) by simp
  then show ?thesis using that c(3,4) by (simp add: errored_def)
qed

lemma validate_image_run:
  obtains (skipped) s' where "validate_image A c h s = (Inr (), s')" "casts s' = casts s" "ap_rows s' = ap_rows s"
      "ap_actions s' = ap_actions s" "ap_sched s' = ap_sched s"
  | (bad_name) s' where "validate_image A c h s = (Inl (InvalidValue ''The format of image name is invalid.''), s')"
      "casts s' = casts s" "ap_rows s' = ap_rows s" "ap_actions s' = ap_actions s"
proof (cases "a_enable_image_validation A")
  case False
  then show ?thesis using skipped [of s] by (simp add: validate_image_def sreturn_def)
next
  case True
  let ?m = "RpcImageSearch (ac_image (ao_cont c)) (k_image_driver (ao_base c)) True"
  let ?s = "s\<lparr>ap_sent := ap_sent s @ [(Some h, True, ?m)]\<rparr>"
  have same: "casts ?s = casts s" "ap_rows ?s = ap_rows s" "ap_actions ?s = ap_actions s" "ap_sched ?s = ap_sched s"
    by (simp_all add: casts_def)
  have "validate_image A c h s = (Inr (), ?s) \<or>
      validate_image A c h s = (Inl (InvalidValue ''The format of image name is invalid.''), ?s)"
    using True by (auto simp: validate_image_def rpc_image_search_def call_def check_images_def st_defs Let_def
        split: sum.splits api_error.splits)
  then show ?thesis using skipped [OF _ same] bad_name [OF _ same(1-3)] by blast
qed

definition started_on :: "('w, 'r) api \<Rightarrow> aobj \<Rightarrow> request_spec \<Rightarrow> (string option \<times> bool \<times> rpc) \<Rightarrow> req_network list
    \<Rightarrow> (string, volmap list) dict \<Rightarrow> bool \<Rightarrow> pci_request list option \<Rightarrow> bool" where
  \<comment> \<open>the message asks a host that the scheduler may choose to create the container\<close>
  "started_on A c spec m nets vols run pci \<longleftrightarrow>
     (\<exists>ars d. placed (a_sched A) (offers (a_placement A)) ars (extra_spec.truncate (process_reqspec spec)) (to_request (ao_base c)) d
        \<and> m = (Some (fst (snd d)), False, RpcCreate (with_cpu_policy (fst d) c) (snd (snd d)) nets vols run pci))"

lemma start_on_host_run:
  obtains (started) s' where "start_on_host A c nets vols run pci d s = (Inr (), s')" "ap_rows s' = ap_rows s"
      "ap_actions s' = ap_actions s @ [(ao_uuid c, ''create'')]"
      "casts s' = casts s @ [(Some (fst (snd d)), False, RpcCreate (with_cpu_policy (fst d) c) (snd (snd d)) nets vols run pci)]"
  | (bad_name) s' where "start_on_host A c nets vols run pci d s = (Inl (InvalidValue ''The format of image name is invalid.''), s')"
      "casts s' = casts s" "ap_rows s' = ap_rows s" "ap_actions s' = ap_actions s"
proof (cases rule: validate_image_run [of A "with_cpu_policy (fst d) c" "fst (snd d)" s])
  case (skipped s1)
  let ?c = "with_cpu_policy (fst d) c"
  let ?s = "s1\<lparr>ap_actions := ap_actions s1 @ [(ao_uuid ?c, ''create'')],
      ap_sent := ap_sent s1 @ [(Some (fst (snd d)), False, RpcCreate ?c (snd (snd d)) nets vols run pci)]\<rparr>"
  have "start_on_host A c nets vols run pci d s = (Inr (), ?s)"
    using skipped(1) by (simp add: start_on_host_def Let_def record_action_start_def rpc_container_create_def cast_def st_defs)
  moreover have "casts ?s = casts s @ [(Some (fst (snd d)), False, RpcCreate ?c (snd (snd d)) nets vols run pci)]"
    using skipped(2) by (simp add: casts_def)
  ultimately show ?thesis using started [of ?s] skipped(3,4) by (simp add: with_cpu_policy_def)
next
  case (bad_name s1)
  then show ?thesis using that(2) [of s1] by (simp add: start_on_host_def Let_def sbind_def)
qed

lemma create_unfolds:
  assumes "es_requested_host spec = None \<or> (\<exists>h. es_requested_host spec = Some h \<and> h \<in> set (map (\<lambda>n. hostname (sn_node n)) (se_nodes (a_sched A))))"
  shows "api_container_create A c spec nets vols run pci s =
     (case schedule_container A c spec s of
        (Inr d, s1) \<Rightarrow> start_on_host A c nets vols run pci d s1
      | (Inl e, s1) \<Rightarrow>
          if is_no_valid_host e then sbind (mark_error A c ''There are not enough hosts available.'') (\<lambda>_. sreturn ()) s1
          else sbind (mark_error A c ''Unexpected exception occurred.'') (\<lambda>_. sraise e) s1)"
proof -
  have "(case es_requested_host spec of None \<Rightarrow> sreturn () | Some h \<Rightarrow> validate_host A c h vols) = sreturn ()"
    using assms by (auto simp: validate_host_def)
  moreover obtain r s1 where "schedule_container A c spec s = (r, s1)" by (meson surj_pair)
  ultimately show ?thesis
    by (cases r) (simp_all add: api_container_create_def sbind_def sreturn_def sraise_def scatch_def split: prod.split sum.split)
qed


section \<open>Requests that the checks miss\<close>

text \<open>
  An image that is not found, or found more than once, does not stop the creation: the error is
  caught by the handler for unexpected failures of the search.
\<close>

lemma missing_image_ignored:
  assumes "\<And>m s. a_answer A (Some h) m s = Inr (ListReply images)"
  shows "\<exists>s'. validate_image A c h s = (Inr (), s')"
  using assms by (auto simp: validate_image_def rpc_image_search_def call_def check_images_def image_list_def st_defs Let_def)

lemma number_errors: "as_int v = Inl e \<Longrightarrow> e \<in> {quota_error.PyTypeError, PyValueError}"
  "as_float v = Inl e \<Longrightarrow> e \<in> {quota_error.PyTypeError, PyValueError}"
  by (cases v; auto split: option.splits)+

lemma rbind_Inl_iff: "rbind r f = Inl e \<longleftrightarrow> r = Inl e \<or> (\<exists>x. r = Inr x \<and> f x = Inl e)"
  by (cases r) auto

lemma lift_num_Inl: "lift_num r = Inl e \<longleftrightarrow> (\<exists>e'. r = Inl e' \<and> e = of_quota_error e')"
  by (auto simp: lift_num_def split: sum.splits)

lemma patch_deltas_errors: "patch_deltas pa c = Inl e \<Longrightarrow> e \<in> {TypeError, PythonValueError}"
  by (auto simp: patch_deltas_def rbind_Inl_iff memory_delta_def cpu_delta_def lift_num_Inl of_quota_error_def
      split: option.splits dest!: number_errors)

lemma patch_deltas_cpu:
  "patch_deltas pa c = Inr d \<Longrightarrow>
   \<exists>cpu. (case pa_cpu pa of None \<Rightarrow> Inr None | Some v \<Rightarrow> rbind (lift_num (as_float v)) (\<lambda>x. Inr (Some x))) = (Inr cpu :: (api_error, rat option) res)"
  by (auto simp: patch_deltas_def rbind_Inr_iff cpu_delta_def split: option.splits)

text \<open>
  C37. A change of the memory or the CPUs that an update refuses because it exceeds a quota is
  accepted by the request to resize the container, which makes no check of the quotas: the same
  document is sent to the host.
\<close>

theorem resize_unchecked:
  assumes refused: "ctl_patch A ident pa s = (Inl (QuotaError e), s1)"
    and version: "version_matches A (1, 19) CURRENT_MAX_VER"
    and policy: "\<forall>c. a_allowed A ''container:resize_container'' (Some c)"
  shows "\<exists>c patch. ctl_resize_container A ident pa s =
     (Inr (202, ObjReply c), s\<lparr>ap_sent := ap_sent s @ [(ao_host c, False, RpcResizeContainer c patch)]\<rparr>)
     \<and> admitted A ident ''container:update'' Update s c"
proof (cases rule: enter_cases [of A ident "''container:update''" Update
    "\<lambda>c. sbind (slift (patch_deltas pa (ao_base c))) (\<lambda>d.
         if pa_memory pa = None \<and> pa_cpu pa = None
         then sbind (save_container A (set_patched pa c)) (\<lambda>c1. sreturn (200, ObjReply c1))
         else sbind (ctl_check_container_quotas A (fst d) True) (\<lambda>_. answered (rpc_container_update A c (patch_dict pa (snd d)))))" s])
  case (refused e')
  then show ?thesis using assms(1) by (auto simp: ctl_patch_def)
next
  case (admitted c)
  have "\<nexists>er. patch_deltas pa (ao_base c) = Inl er"
    using assms(1) admitted(2) patch_deltas_errors [of pa "ao_base c"] by (auto simp: ctl_patch_def sbind_def slift_def)
  then obtain d where "patch_deltas pa (ao_base c) = Inr d" by (cases "patch_deltas pa (ao_base c)") auto
  note patch_deltas_cpu [OF this]
  then obtain cpu where cpu: "(case pa_cpu pa of None \<Rightarrow> Inr None | Some v \<Rightarrow> rbind (lift_num (as_float v)) (\<lambda>x. Inr (Some x))) = (Inr cpu :: (api_error, rat option) res)" ..
  have "enter A ident ''container:resize_container'' Resize_container k s = k c s" for k
    using admitted(1) policy
    by (auto simp: admitted_def enter_def sbind_def check_policy_on_container_def validate_state_def validate_container_state_def slift_def)
  then have "ctl_resize_container A ident pa s =
     (Inr (202, ObjReply c), s\<lparr>ap_sent := ap_sent s @ [(ao_host c, False, RpcResizeContainer c (patch_dict pa cpu))]\<rparr>)"
    using version cpu by (simp add: ctl_resize_container_def api_version_def rpc_resize_container_def cast_def st_defs)
  then show ?thesis using admitted(1) by blast
qed

section \<open>Examples\<close>

definition web_cont :: "string \<Rightarrow> status \<Rightarrow> cont" where
  "web_cont u st = \<lparr>k_uuid = u, k_type = Container_obj, k_status = st, k_status_reason = None, k_status_detail = None,
     k_task_state = None, k_container_id = None, k_host = Some ''h'', k_auto_remove = False, k_auto_heal = False,
     k_disk = None, k_cpu = Some 1, k_memory = Some 512, k_cpu_policy = None, k_image_driver = None,
     k_security_groups = [], k_addresses = [], k_hostname = None, k_ports = [], k_runtime = None,
     k_started_at = None, k_websocket = None, k_entrypoint = [], k_command = [], k_exposed_ports = [],
     k_spec = \<lparr>sp_environment = [], sp_workdir = None, sp_labels = [], sp_tty = False, sp_interactive = False,
       sp_privileged = False, sp_restart_policy = None, sp_healthcheck = None, sp_cpuset = None\<rparr>,
     k_init_containers = [], k_containers = []\<rparr>"

definition web_row :: "string \<Rightarrow> status \<Rightarrow> acont" where
  "web_row u st = \<lparr>ac_base = web_cont u st, ac_name = ''web'', ac_project_id = ''p'', ac_user_id = ''me'', ac_image = ''nginx''\<rparr>"

definition web_neutron :: neutron_api where
  "web_neutron = \<lparr>na_find_security_group = (\<lambda>_. Inl NeutronNoUniqueMatch), na_ports_by_id = (\<lambda>_. Inr []), na_ports_by_name = (\<lambda>_. Inr []),
     na_networks_by_id = (\<lambda>_. Inr []), na_networks_by_name = (\<lambda>_. Inr []), na_tenant_networks = Inr [], na_shared_networks = Inr []\<rparr>"

definition web_api :: "(string list, string) api" where
  "web_api = \<lparr>a_context = \<lparr>cx_project_id = ''p'', cx_user_id = ''me'', cx_is_admin = False\<rparr>, a_version = (1, 40),
     a_allowed = (\<lambda>_ _. True), a_is_uuid_like = (\<lambda>t. t = ''c''), a_bool_from_string = (\<lambda>t. Some (t = ''true'')),
     a_neutron = web_neutron, a_answer = (\<lambda>_ _ _. Inr NoReply), a_image_driver_list = [''docker''],
     a_enable_image_validation = True, a_unique_name_scope = None, a_proxy_url = ''ws://zun'',
     a_quota_conf = small_conf, a_quota_driver = DbQuotaDriver, a_placement_conf = ex_pconf, a_placement = ex_placement,
     a_sched = ex_env\<rparr>"

definition web_state :: "status \<Rightarrow> string list api_state" where
  "web_state st = \<lparr>ap_rows = [(''c'', web_row ''c'' st)], ap_volmaps = [], ap_volumes = [], ap_actions = [], ap_sent = [],
     ap_quota = small_db, ap_sched = (False, [])\<rparr>"

lemma web_keyed: "rows_keyed (web_state st)"
  by (simp add: rows_keyed_def web_state_def web_row_def web_cont_def)

lemma web_runs:
  "fst (handle web_api ''web'' (RebootReq VNone) (web_state RUNNING)) = Inr (202, NoReply)"
  "fst (handle web_api ''web'' (RebootReq VNone) (web_state PAUSED)) = Inl (Exn (InvalidStateException Reboot PAUSED))"
  "fst (ctl_patch web_api ''c'' \<lparr>pa_memory = None, pa_cpu = Some (VInt 8), pa_name = None, pa_auto_heal = None\<rparr> (web_state RUNNING))
     = Inl (QuotaError (OverQuota [''cpu''] [(''containers'', QInt 40), (''memory'', QInt 51200), (''disk'', QInt (-1)), (''cpu'', QInt 2)] [(''cpu'', 2)]))"
  "fst (api_container_create web_api (load (web_row ''c'' CREATING)) ex_reqspec [] [] True None (web_state CREATING)) = Inr ()"
  by code_simp+



theorem resize_unchecked_witness:
  "\<exists>c s' patch. ctl_resize_container web_api ''c'' \<lparr>pa_memory = None, pa_cpu = Some (VInt 8), pa_name = None, pa_auto_heal = None\<rparr> (web_state RUNNING)
     = (Inr (202, ObjReply c), s') \<and> ap_sent s' = [(ao_host c, False, RpcResizeContainer c patch)]"
proof -
  let ?pa = "\<lparr>pa_memory = None, pa_cpu = Some (VInt 8), pa_name = None, pa_auto_heal = None\<rparr>"
  obtain e s1 where "ctl_patch web_api ''c'' ?pa (web_state RUNNING) = (Inl (QuotaError e), s1)"
    using web_runs(3) by (metis prod.collapse)
  moreover have "version_matches web_api (1, 19) CURRENT_MAX_VER" by code_simp
  moreover have "\<forall>c. a_allowed web_api ''container:resize_container'' (Some c)" by (simp add: web_api_def)
  ultimately show ?thesis using resize_unchecked [of web_api "''c''" ?pa "web_state RUNNING" e s1]
    by (fastforce simp: web_state_def)
qed

text \<open>
  The check of the quotas comes before the default sizes are set, so a request that gives no CPUs
  passes a check whose limit its container then exceeds.
\<close>

definition full_db :: quota_db where
  "full_db = small_db\<lparr>db_quotas := [\<lparr>qr_project_id = ''p'', qr_resource = ''cpu'', qr_hard_limit = Some 1\<rparr>]\<rparr>"

definition default_row :: cont_row where
  "default_row = \<lparr>cr_project_id = ''p'', cr_container_type = 0,
     cr_cpu = (case dict_get (set_default_resource_limit small_conf []) ''cpu'' of Some (VFloat x) \<Rightarrow> Some x | _ \<Rightarrow> None),
     cr_memory = Some ''512'', cr_disk = None\<rparr>"

lemma default_size_exceeds:
  "check_container_quotas small_conf (QUOTAS DbQuotaDriver) ''p'' [] False full_db = (Inr (), full_db)"
  "effective_limit small_conf full_db ''p'' ''cpu'' = QInt 1"
  "quota_usage (full_db\<lparr>db_containers := db_containers full_db @ [default_row]\<rparr>) ''p'' ''cpu'' = 2"
  by code_simp+

end
