(* ===== verification/Image_Reference.thy ===== *)
theory Image_Reference
  imports Py_Numbers
begin

text \<open>
  References to images (\<^verbatim>\<open>zun/common/docker_image\<close>): the regular expressions of their
  parts, the backtracking engine that matches them, digests, references and their text, and
  \<open>parse_image_name\<close> of \<^verbatim>\<open>zun/common/utils.py\<close>. A character is a code point up to 255.
\<close>

section \<open>Regular expressions\<close>

text \<open>
  The operators that the patterns use. \<open>Capture i\<close> is the group whose opening parenthesis is
  the one number \<open>i\<close> of its pattern, counted from 0.
\<close>

datatype regex =
    Eps
  | Chars "char \<Rightarrow> bool"
  | Seq regex regex
  | Alt regex regex
  | Opt regex
  | Many regex
  | Some_more regex
  | Upto nat regex
  | Capture nat regex
  | Bol
  | Eol

text \<open>
  The state of the engine: the position, the text that is left and the groups set so far. The
  engine matches depth first, tries the longer repetition and the left alternative first, and
  hands every end of a match to what follows, until that succeeds.
\<close>

type_synonym cfg = "nat \<times> string \<times> (nat \<rightharpoonup> string)"

abbreviation left :: "cfg \<Rightarrow> string" where "left c \<equiv> fst (snd c)"

abbreviation groups_of :: "cfg \<Rightarrow> nat \<rightharpoonup> string" where "groups_of c \<equiv> snd (snd c)"

function more_run :: "(cfg \<Rightarrow> (cfg \<Rightarrow> 'a option) \<Rightarrow> 'a option) \<Rightarrow> cfg \<Rightarrow> (cfg \<Rightarrow> 'a option) \<Rightarrow> 'a option" where
  "more_run f c k =
     f c (\<lambda>d. case (if length (left d) < length (left c) then more_run f d k else None) of
                None \<Rightarrow> k d | Some v \<Rightarrow> Some v)"
  by pat_completeness auto
termination
  by (relation "measure (\<lambda>(f, c, k). length (left c))") auto

primrec upto_run :: "nat \<Rightarrow> (cfg \<Rightarrow> (cfg \<Rightarrow> 'a option) \<Rightarrow> 'a option) \<Rightarrow> cfg \<Rightarrow> (cfg \<Rightarrow> 'a option) \<Rightarrow> 'a option" where
  "upto_run 0 f c k = k c"
| "upto_run (Suc n) f c k = (case f c (\<lambda>d. upto_run n f d k) of None \<Rightarrow> k c | Some v \<Rightarrow> Some v)"

primrec run :: "regex \<Rightarrow> cfg \<Rightarrow> (cfg \<Rightarrow> 'a option) \<Rightarrow> 'a option" where
  "run Eps c k = k c"
| "run (Chars P) c k =
     (case c of (p, s, m) \<Rightarrow> (case s of [] \<Rightarrow> None | x # s' \<Rightarrow> if P x then k (Suc p, s', m) else None))"
| "run (Seq a b) c k = run a c (\<lambda>d. run b d k)"
| "run (Alt a b) c k = (case run a c k of None \<Rightarrow> run b c k | Some v \<Rightarrow> Some v)"
| "run (Opt a) c k = (case run a c k of None \<Rightarrow> k c | Some v \<Rightarrow> Some v)"
| "run (Many a) c k = (case more_run (run a) c k of None \<Rightarrow> k c | Some v \<Rightarrow> Some v)"
| "run (Some_more a) c k = more_run (run a) c k"
| "run (Upto n a) c k = upto_run n (run a) c k"
| "run (Capture i a) c k =
     run a c (\<lambda>d. case d of (p, s, m) \<Rightarrow> k (p, s, m(i \<mapsto> take (length (left c) - length s) (left c))))"
| "run Bol c k = (if fst c = 0 then k c else None)"
| "run Eol c k = (if left c = [] \<or> left c = [CHR 0x0A] then k c else None)"

definition re_match :: "regex \<Rightarrow> string \<Rightarrow> (nat \<rightharpoonup> string) option" where
  \<comment> \<open>\<open>regexp.match(s)\<close>; the groups of the match\<close>
  "re_match r s = run r (0, s, Map.empty) (\<lambda>d. Some (groups_of d))"

section \<open>The patterns (\<^verbatim>\<open>regexp.py\<close>)\<close>

definition literal :: "string \<Rightarrow> regex" where
  "literal s = foldr (\<lambda>c. Seq (Chars (\<lambda>x. x = c))) s Eps"

definition expression :: "regex list \<Rightarrow> regex" where
  "expression res = foldr Seq res Eps"

definition optional :: "regex list \<Rightarrow> regex" where
  "optional res = Opt (expression res)"

definition repeated :: "regex list \<Rightarrow> regex" where
  "repeated res = Some_more (expression res)"

definition capture :: "nat \<Rightarrow> regex list \<Rightarrow> regex" where
  "capture i res = Capture i (expression res)"

definition anchored :: "regex list \<Rightarrow> regex" where
  "anchored res = expression [Bol, expression res, Eol]"

definition in_range :: "char \<Rightarrow> char \<Rightarrow> char \<Rightarrow> bool" where
  "in_range a b c \<longleftrightarrow> (of_char a :: nat) \<le> of_char c \<and> (of_char c :: nat) \<le> of_char b"

definition lower :: "char \<Rightarrow> bool" where "lower = in_range (CHR ''a'') (CHR ''z'')"

definition upper :: "char \<Rightarrow> bool" where "upper = in_range (CHR ''A'') (CHR ''Z'')"

definition word_char :: "char \<Rightarrow> bool" where
  \<comment> \<open>\<open>\w\<close>: letters, digits, numbers and the underscore, beyond ASCII as well\<close>
  "word_char c \<longleftrightarrow> lower c \<or> upper c \<or> is_digit c \<or> c = CHR ''_'' \<or>
     (of_char c :: nat) \<in> set [0xAA, 0xB2, 0xB3, 0xB5, 0xB9, 0xBA, 0xBC, 0xBD, 0xBE] \<or>
     (0xC0 \<le> (of_char c :: nat) \<and> (of_char c :: nat) \<notin> set [0xD7, 0xF7])"

definition ALPHA_NUMERIC_REGEXP :: regex where
  "ALPHA_NUMERIC_REGEXP = Some_more (Chars (\<lambda>c. lower c \<or> is_digit c))"

definition SEPARATOR_REGEXP :: regex where
  "SEPARATOR_REGEXP =
     Alt (Chars (\<lambda>c. c = CHR ''.'' \<or> c = CHR ''_''))
       (Alt (literal ''__'') (Many (Chars (\<lambda>c. c = CHR ''-''))))"

definition NAME_COMPONENT_REGEXP :: regex where
  "NAME_COMPONENT_REGEXP =
     expression [ALPHA_NUMERIC_REGEXP, optional [repeated [SEPARATOR_REGEXP, ALPHA_NUMERIC_REGEXP]]]"

definition host_char :: "char \<Rightarrow> bool" where
  "host_char c \<longleftrightarrow> lower c \<or> upper c \<or> is_digit c"

definition HOSTNAME_COMPONENT_REGEXP :: regex where
  "HOSTNAME_COMPONENT_REGEXP =
     Alt (Chars host_char)
       (expression [Chars host_char, Many (Chars (\<lambda>c. host_char c \<or> c = CHR ''-'')), Chars host_char])"

definition HOSTNAME_REGEXP :: regex where
  "HOSTNAME_REGEXP =
     expression [HOSTNAME_COMPONENT_REGEXP,
                 optional [repeated [literal ''.'', HOSTNAME_COMPONENT_REGEXP]],
                 optional [literal '':'', Some_more (Chars is_digit)]]"

definition TAG_REGEXP :: regex where
  "TAG_REGEXP =
     expression [Chars word_char, Upto 127 (Chars (\<lambda>c. word_char c \<or> c = CHR ''.'' \<or> c = CHR ''-''))]"

definition DIGEST_REGEXP :: regex where
  "DIGEST_REGEXP =
     expression [Some_more (Chars (\<lambda>c. host_char c \<or> c \<in> set ''-_+.'')), literal '':'',
                 Some_more (Chars is_hex)]"

definition NAME_REGEXP :: regex where
  "NAME_REGEXP =
     expression [optional [HOSTNAME_REGEXP, literal ''/''], NAME_COMPONENT_REGEXP,
                 optional [repeated [literal ''/'', NAME_COMPONENT_REGEXP]]]"

definition ANCHORED_NAME_REGEXP :: regex where
  "ANCHORED_NAME_REGEXP =
     anchored [optional [capture 0 [HOSTNAME_REGEXP], literal ''/''],
               capture 1 [NAME_COMPONENT_REGEXP, optional [repeated [literal ''/'', NAME_COMPONENT_REGEXP]]]]"

definition REFERENCE_REGEXP :: regex where
  "REFERENCE_REGEXP =
     anchored [capture 0 [NAME_REGEXP],
               optional [literal '':'', capture 1 [TAG_REGEXP]],
               optional [literal ''@'', capture 2 [DIGEST_REGEXP]]]"

definition DIGEST_REGEXP_ANCHORED :: regex where
  "DIGEST_REGEXP_ANCHORED = anchored [DIGEST_REGEXP]"

section \<open>Digests (\<^verbatim>\<open>digest.py\<close>)\<close>

datatype ref_error =
    InvalidDigest
  | DigestUnsupported
  | DigestInvalidLength
  | NameEmpty
  | ReferenceInvalidFormat
  | NameTooLong nat
  | RefTypeError

definition DIGESTS_SIZE :: "(string, nat) dict" where
  "DIGESTS_SIZE = [(''sha256'', 32), (''sha384'', 48), (''sha512'', 64)]"

fun find_char :: "char \<Rightarrow> string \<Rightarrow> nat option" where
  \<comment> \<open>\<open>s.find(c)\<close>, which is negative when there is none\<close>
  "find_char c [] = None"
| "find_char c (x # xs) = (if x = c then Some 0 else map_option Suc (find_char c xs))"

definition validate_digest :: "string \<Rightarrow> (ref_error, unit) res" where
  "validate_digest digest =
     (case re_match DIGEST_REGEXP_ANCHORED digest of
        None \<Rightarrow> Inl InvalidDigest
      | Some _ \<Rightarrow>
          (case find_char (CHR '':'') digest of
             None \<Rightarrow> Inl InvalidDigest
           | Some i \<Rightarrow>
               if i + 1 = length digest then Inl InvalidDigest
               else (case dict_get DIGESTS_SIZE (take i digest) of
                       None \<Rightarrow> Inl DigestUnsupported
                     | Some n \<Rightarrow> if n * 2 \<noteq> length (drop (i + 1) digest) then Inl DigestInvalidLength
                                 else Inr ())))"

section \<open>References (\<^verbatim>\<open>reference.py\<close>)\<close>

datatype ref_class = Reference | NamedReference | DigestReference | CanonicalReference | TaggedReference

record reference =
  r_class :: ref_class
  r_name :: "string option"
  r_tag :: "string option"
  r_digest :: "string option"

definition NAME_TOTAL_LENGTH_MAX :: nat where
  "NAME_TOTAL_LENGTH_MAX = 255"

definition py_str :: "string option \<Rightarrow> string" where
  \<comment> \<open>how \<open>format\<close> writes a string or None\<close>
  "py_str x = (case x of None \<Rightarrow> ''None'' | Some s \<Rightarrow> s)"

definition ref_string :: "reference \<Rightarrow> string" where
  "ref_string r =
     (case r_class r of
        Reference \<Rightarrow> py_str (r_name r) @ '':'' @ py_str (r_tag r) @ ''@'' @ py_str (r_digest r)
      | NamedReference \<Rightarrow> py_str (r_name r)
      | DigestReference \<Rightarrow> py_str (r_digest r)
      | CanonicalReference \<Rightarrow> py_str (r_name r) @ ''@'' @ py_str (r_digest r)
      | TaggedReference \<Rightarrow> py_str (r_name r) @ '':'' @ py_str (r_tag r))"

definition best_reference :: "reference \<Rightarrow> reference option" where
  "best_reference r =
     (if \<not> truthy (r_name r)
      then if truthy (r_digest r)
           then Some \<lparr>r_class = DigestReference, r_name = None, r_tag = None, r_digest = r_digest r\<rparr>
           else None
      else if \<not> truthy (r_tag r)
      then if truthy (r_digest r)
           then Some \<lparr>r_class = CanonicalReference, r_name = r_name r, r_tag = None, r_digest = r_digest r\<rparr>
           else Some \<lparr>r_class = NamedReference, r_name = r_name r, r_tag = None, r_digest = None\<rparr>
      else if \<not> truthy (r_digest r)
      then Some \<lparr>r_class = TaggedReference, r_name = r_name r, r_tag = r_tag r, r_digest = None\<rparr>
      else Some r)"

definition ref_parse :: "string \<Rightarrow> (ref_error, reference) res" where
  "ref_parse s =
     (case re_match REFERENCE_REGEXP s of
        None \<Rightarrow> Inl (if s = [] then NameEmpty else ReferenceInvalidFormat)
      | Some m \<Rightarrow>
          if length (the (m 0)) > NAME_TOTAL_LENGTH_MAX then Inl (NameTooLong NAME_TOTAL_LENGTH_MAX)
          else (let ref = \<lparr>r_class = Reference, r_name = m 0, r_tag = m 1, r_digest = None\<rparr>
                in rbind (if truthy (m 2)
                          then rbind (validate_digest (the (m 2))) (\<lambda>_. Inr (ref\<lparr>r_digest := m 2\<rparr>))
                          else Inr ref)
                     (\<lambda>ref. case best_reference ref of None \<Rightarrow> Inl NameEmpty | Some r \<Rightarrow> Inr r)))"

definition split_hostname :: "reference \<Rightarrow> (ref_error, string \<times> string) res" where
  \<comment> \<open>the engine raises on a name that is None\<close>
  "split_hostname r =
     (case r_name r of
        None \<Rightarrow> Inl RefTypeError
      | Some name \<Rightarrow>
          (case re_match ANCHORED_NAME_REGEXP name of
             None \<Rightarrow> Inr ([], name)
           | Some m \<Rightarrow>
               (case m 0 of
                  None \<Rightarrow> Inr ([], name)
                | Some hostname \<Rightarrow>
                    if CHR ''.'' \<notin> set hostname \<and> CHR '':'' \<notin> set hostname \<and> hostname \<noteq> ''localhost''
                    then Inr ([], name)
                    else Inr (hostname, the (m 1)))))"

section \<open>Image names (\<^verbatim>\<open>common/utils.py\<close>)\<close>

text \<open>The options of the configuration, and a registry with its credentials.\<close>

record image_conf =
  default_image_driver :: string
  default_registry :: "string option"
  default_registry_username :: "string option"
  default_registry_password :: "string option"

record registry =
  rg_domain :: string
  rg_username :: "string option"
  rg_password :: "string option"

definition parse_image_name ::
    "image_conf \<Rightarrow> string \<Rightarrow> string option \<Rightarrow> registry option \<Rightarrow> (ref_error, string \<times> string) res" where
  "parse_image_name C img driver reg =
     rbind (ref_parse img)
       (\<lambda>parts.
          let repo = the (r_name parts);
              driver = (case driver of None \<Rightarrow> default_image_driver C | Some d \<Rightarrow> d)
          in if driver = ''glance'' then Inr (repo, [])
             else (let tag = (if truthy (r_tag parts) then the (r_tag parts) else ''latest'')
                   in rbind (split_hostname parts)
                        (\<lambda>(domain, _).
                           Inr (if domain \<noteq> [] then repo
                                else case reg of
                                       Some rg \<Rightarrow> rg_domain rg @ ''/'' @ repo
                                     | None \<Rightarrow> if truthy (default_registry C)
                                               then the (default_registry C) @ ''/'' @ repo
                                               else repo,
                                tag))))"

section \<open>The engine and the language of a pattern\<close>

text \<open>
  The ends of the matches of a pattern, in the order in which the engine tries them. The engine
  returns the first success of what follows among them, so that a failure has tried them all.
\<close>

function more_paths :: "(cfg \<Rightarrow> cfg list) \<Rightarrow> cfg \<Rightarrow> cfg list" where
  "more_paths f c =
     concat (map (\<lambda>d. (if length (left d) < length (left c) then more_paths f d else []) @ [d]) (f c))"
  by pat_completeness auto
termination
  by (relation "measure (\<lambda>(f, c). length (left c))") auto

declare more_run.simps [simp del] more_paths.simps [simp del]

primrec upto_paths :: "nat \<Rightarrow> (cfg \<Rightarrow> cfg list) \<Rightarrow> cfg \<Rightarrow> cfg list" where
  "upto_paths 0 f c = [c]"
| "upto_paths (Suc n) f c = concat (map (upto_paths n f) (f c)) @ [c]"

primrec paths :: "regex \<Rightarrow> cfg \<Rightarrow> cfg list" where
  "paths Eps c = [c]"
| "paths (Chars P) c =
     (case c of (p, s, m) \<Rightarrow> (case s of [] \<Rightarrow> [] | x # s' \<Rightarrow> if P x then [(Suc p, s', m)] else []))"
| "paths (Seq a b) c = concat (map (paths b) (paths a c))"
| "paths (Alt a b) c = paths a c @ paths b c"
| "paths (Opt a) c = paths a c @ [c]"
| "paths (Many a) c = more_paths (paths a) c @ [c]"
| "paths (Some_more a) c = more_paths (paths a) c"
| "paths (Upto n a) c = upto_paths n (paths a) c"
| "paths (Capture i a) c =
     map (\<lambda>d. (fst d, left d, (groups_of d)(i \<mapsto> take (length (left c) - length (left d)) (left c)))) (paths a c)"
| "paths Bol c = (if fst c = 0 then [c] else [])"
| "paths Eol c = (if left c = [] \<or> left c = [CHR 0x0A] then [c] else [])"

primrec first :: "('c \<Rightarrow> 'a option) \<Rightarrow> 'c list \<Rightarrow> 'a option" where
  "first k [] = None"
| "first k (d # ds) = (case k d of None \<Rightarrow> first k ds | Some v \<Rightarrow> Some v)"

lemma first_append: "first k (xs @ ys) = (case first k xs of None \<Rightarrow> first k ys | Some v \<Rightarrow> Some v)"
  by (induction xs) (auto split: option.splits)

lemma first_concat: "first k (concat (map g xs)) = first (\<lambda>x. first k (g x)) xs"
  by (induction xs) (auto simp: first_append split: option.splits)

lemma first_map: "first k (map g xs) = first (\<lambda>x. k (g x)) xs"
  by (induction xs) (auto split: option.splits)

lemma first_cong: "xs = ys \<Longrightarrow> (\<And>x. x \<in> set ys \<Longrightarrow> k x = k' x) \<Longrightarrow> first k xs = first k' ys"
  by (induction ys arbitrary: xs) (auto split: option.splits)

lemma more_run_paths: "more_run (\<lambda>c k. first k (g c)) c k = first k (more_paths g c)"
proof (induction g c rule: more_paths.induct)
  case (1 g c)
  have "(case (if length (left d) < length (left c) then more_run (\<lambda>c k. first k (g c)) d k else None) of
         None \<Rightarrow> k d | Some v \<Rightarrow> Some v) =
      first k ((if length (left d) < length (left c) then more_paths g d else []) @ [d])" if "d \<in> set (g c)" for d
    using 1 [OF that] by (simp add: first_append split: option.split)
  then show ?case
    by (simp add: more_run.simps [of _ c k] more_paths.simps [of g c] first_concat cong: first_cong)
qed

lemma upto_run_paths: "upto_run n (\<lambda>c k. first k (g c)) c k = first k (upto_paths n g c)"
  by (induction n arbitrary: c) (simp_all add: first_append first_concat cong: first_cong split: option.split)

lemma run_paths:
  fixes k :: "cfg \<Rightarrow> 'a option"
  shows "run r c k = first k (paths r c)"
proof (induction r arbitrary: c k)
  case (Capture i r)
  then show ?case by (simp add: first_map case_prod_beta)
next
  case (Many r)
  have "run r = (\<lambda>c (k :: cfg \<Rightarrow> 'a option). first k (paths r c))" by (intro ext Many.IH)
  then show ?case by (simp add: more_run_paths first_append split: option.split)
next
  case (Some_more r)
  have "run r = (\<lambda>c (k :: cfg \<Rightarrow> 'a option). first k (paths r c))" by (intro ext Some_more.IH)
  then show ?case by (simp add: more_run_paths)
next
  case (Upto n r)
  have "run r = (\<lambda>c (k :: cfg \<Rightarrow> 'a option). first k (paths r c))" by (intro ext Upto.IH)
  then show ?case by (simp add: upto_run_paths)
qed (simp_all add: first_append first_concat split: option.split list.split prod.split)

lemma re_match_paths:
  "re_match r s = (case paths r (0, s, Map.empty) of [] \<Rightarrow> None | d # _ \<Rightarrow> Some (groups_of d))"
  by (simp add: re_match_def run_paths split: list.split)

text \<open>The language of a pattern without anchors.\<close>

inductive_set plus_lang :: "string set \<Rightarrow> string set" for A where
  one: "u \<in> A \<Longrightarrow> u \<in> plus_lang A"
| more: "u \<in> A \<Longrightarrow> w \<in> plus_lang A \<Longrightarrow> u @ w \<in> plus_lang A"

primrec upto_lang :: "nat \<Rightarrow> string set \<Rightarrow> string set" where
  "upto_lang 0 A = {[]}"
| "upto_lang (Suc n) A = insert [] {u @ w | u w. u \<in> A \<and> w \<in> upto_lang n A}"

primrec lang :: "regex \<Rightarrow> string set" where
  "lang Eps = {[]}"
| "lang (Chars P) = {[c] | c. P c}"
| "lang (Seq a b) = {u @ v | u v. u \<in> lang a \<and> v \<in> lang b}"
| "lang (Alt a b) = lang a \<union> lang b"
| "lang (Opt a) = insert [] (lang a)"
| "lang (Many a) = insert [] (plus_lang (lang a))"
| "lang (Some_more a) = plus_lang (lang a)"
| "lang (Upto n a) = upto_lang n (lang a)"
| "lang (Capture i a) = lang a"
| "lang Bol = {[]}"
| "lang Eol = {[]}"

primrec plain :: "regex \<Rightarrow> bool" where
  \<comment> \<open>without groups and anchors\<close>
  "plain Eps = True"
| "plain (Chars P) = True"
| "plain (Seq a b) = (plain a \<and> plain b)"
| "plain (Alt a b) = (plain a \<and> plain b)"
| "plain (Opt a) = plain a"
| "plain (Many a) = plain a"
| "plain (Some_more a) = plain a"
| "plain (Upto n a) = plain a"
| "plain (Capture i a) = False"
| "plain Bol = False"
| "plain Eol = False"

definition ends :: "string set \<Rightarrow> cfg \<Rightarrow> cfg set" where
  \<comment> \<open>where a prefix from a language can end\<close>
  "ends A c = {(fst c + length u, v, groups_of c) | u v. u \<in> A \<and> left c = u @ v}"

lemma ends_iff:
  "(q, v, m') \<in> ends A (p, s, m) \<longleftrightarrow> (\<exists>u \<in> A. s = u @ v \<and> q = p + length u \<and> m' = m)"
  by (auto simp: ends_def)

lemma ends_insert: "ends (insert [] A) c = insert c (ends A c)"
  by (cases c) (auto simp: ends_def)

lemma ends_Un: "ends (A \<union> B) c = ends A c \<union> ends B c"
  by (auto simp: ends_def)

lemma ends_Seq: "ends {u @ w | u w. u \<in> A \<and> w \<in> B} c = (\<Union>d \<in> ends A c. ends B d)"
proof (rule set_eqI)
  fix d
  show "d \<in> ends {u @ w | u w. u \<in> A \<and> w \<in> B} c \<longleftrightarrow> d \<in> (\<Union>d \<in> ends A c. ends B d)"
  proof
    assume "d \<in> ends {u @ w | u w. u \<in> A \<and> w \<in> B} c"
    then obtain u w v where "u \<in> A" "w \<in> B" "left c = u @ w @ v" "d = (fst c + length (u @ w), v, groups_of c)"
      unfolding ends_def by auto
    then show "d \<in> (\<Union>d \<in> ends A c. ends B d)"
      by (intro UN_I [of "(fst c + length u, w @ v, groups_of c)"]) (auto simp: ends_def)
  qed (auto simp: ends_def; metis append.assoc length_append add.assoc)
qed

lemma ends_in: "u \<in> A \<Longrightarrow> (p + length u, v, m) \<in> ends A (p, u @ v, m)"
  by (simp add: ends_iff)

lemma more_paths_sound:
  assumes "\<And>c. set (f c) \<subseteq> ends A c" "d \<in> set (more_paths f c)"
  shows "d \<in> ends (plus_lang A) c"
  using assms
proof (induction f c arbitrary: d rule: more_paths.induct)
  case (1 f c)
  from 1(3) obtain e where e: "e \<in> set (f c)"
    and d: "d = e \<or> length (left e) < length (left c) \<and> d \<in> set (more_paths f e)"
    by (subst (asm) more_paths.simps) (auto split: if_splits)
  from e 1(2) obtain u v where u: "u \<in> A" "left c = u @ v" "e = (fst c + length u, v, groups_of c)"
    unfolding ends_def by blast
  from d show ?case
  proof
    assume "d = e"
    with u show ?thesis by (auto simp: ends_def intro: plus_lang.one)
  next
    assume "length (left e) < length (left c) \<and> d \<in> set (more_paths f e)"
    then have "d \<in> ends (plus_lang A) e" using 1(1) [OF e _ 1(2)] by blast
    then obtain w x where "w \<in> plus_lang A" "left e = w @ x" "d = (fst e + length w, x, groups_of e)"
      unfolding ends_def by blast
    then show ?thesis using u plus_lang.more [OF u(1)] by (auto simp: ends_def intro!: exI [of _ "u @ w"])
  qed
qed

lemma more_paths_step:
  "e \<in> set (f c) \<Longrightarrow> length (left e) < length (left c) \<Longrightarrow> d \<in> set (more_paths f e) \<Longrightarrow> d \<in> set (more_paths f c)"
  unfolding more_paths.simps [of f c] set_concat set_map by (rule UN_I [OF imageI], assumption) (simp; blast)

lemma more_paths_complete:
  assumes "\<And>c. ends A c \<subseteq> set (f c)" "u \<in> plus_lang A"
  shows "(p + length u, v, m) \<in> set (more_paths f (p, u @ v, m))"
  using assms(2)
proof (induction u arbitrary: p v)
  case (one u)
  have "(p + length u, v, m) \<in> set (f (p, u @ v, m))" by (rule subsetD [OF assms(1) ends_in]) fact
  then show ?case by (subst more_paths.simps) auto
next
  case (more u w)
  show ?case
  proof (cases "u = []")
    case True
    then show ?thesis using more.IH by simp
  next
    case False
    have "(p + length u, w @ v, m) \<in> set (f (p, u @ (w @ v), m))"
      by (rule subsetD [OF assms(1) ends_in]) fact
    moreover have "(p + length (u @ w), v, m) \<in> set (more_paths f (p + length u, w @ v, m))"
      using more.IH [of "p + length u" v] by (simp add: add.assoc)
    ultimately show ?thesis using False more_paths_step [of _ f "(p, (u @ w) @ v, m)"] by simp
  qed
qed

lemma more_paths_set:
  assumes "\<And>c. set (f c) = ends A c"
  shows "set (more_paths f c) = ends (plus_lang A) c"
proof
  show "set (more_paths f c) \<subseteq> ends (plus_lang A) c"
    by (intro subsetI more_paths_sound) (simp_all add: assms)
  show "ends (plus_lang A) c \<subseteq> set (more_paths f c)"
  proof
    fix d assume "d \<in> ends (plus_lang A) c"
    moreover obtain p t m where c: "c = (p, t, m)" by (cases c)
    ultimately obtain u v where "u \<in> plus_lang A" "t = u @ v" "d = (p + length u, v, m)"
      by (auto simp: ends_def)
    then show "d \<in> set (more_paths f c)" using more_paths_complete [of A f u p v m] assms c by simp
  qed
qed

lemma upto_paths_set:
  assumes "\<And>c. set (f c) = ends A c"
  shows "set (upto_paths n f c) = ends (upto_lang n A) c"
proof (induction n arbitrary: c)
  case 0
  have "ends {[]} c = {c}" by (cases c) (auto simp: ends_def)
  then show ?case by simp
next
  case (Suc n)
  then show ?case by (simp add: assms ends_insert ends_Seq)
qed

lemma paths_ends: "plain r \<Longrightarrow> set (paths r c) = ends (lang r) c"
proof (induction r arbitrary: c)
  case Eps
  show ?case by (cases c) (auto simp: ends_def)
next
  case (Chars P)
  show ?case by (cases c) (auto simp: ends_def split: list.splits)
next
  case (Seq a b)
  then show ?case by (simp add: ends_Seq)
qed (simp_all add: more_paths_set upto_paths_set ends_insert ends_Un)

section \<open>What a reference matches\<close>

lemma expression_simps [simp]:
  "expression [] = Eps" "expression (r # rs) = Seq r (expression rs)"
  by (simp_all add: expression_def)

lemma paths_Seq_Eps [simp]: "paths (Seq r Eps) = paths r"
proof
  have "concat (map (\<lambda>d. [d]) ds) = ds" for ds :: "cfg list" by (induction ds) simp_all
  then show "paths (Seq r Eps) c = paths r c" for c by (simp cong: map_cong)
qed

lemma set_paths_Seq: "set (paths (Seq a b) c) = (\<Union>d \<in> set (paths a c). set (paths b d))"
  by simp

lemma lang_literal: "lang (literal s) = {s}"
  by (induction s) (simp_all add: literal_def)

lemma plain_literal: "plain (literal s)"
  by (induction s) (simp_all add: literal_def)

lemmas pattern_defs = ALPHA_NUMERIC_REGEXP_def SEPARATOR_REGEXP_def NAME_COMPONENT_REGEXP_def
  HOSTNAME_COMPONENT_REGEXP_def HOSTNAME_REGEXP_def TAG_REGEXP_def DIGEST_REGEXP_def NAME_REGEXP_def
  optional_def repeated_def

lemma plain_patterns:
  "plain NAME_COMPONENT_REGEXP" "plain HOSTNAME_REGEXP" "plain NAME_REGEXP" "plain TAG_REGEXP" "plain DIGEST_REGEXP"
  by (simp_all add: pattern_defs plain_literal)

lemma plain_expression: "plain (expression rs) \<longleftrightarrow> (\<forall>r \<in> set rs. plain r)"
  by (induction rs) simp_all

lemma paths_capture:
  assumes "plain (expression rs)"
  shows "set (paths (capture i rs) (p, s, m)) =
    {(p + length u, v, m(i \<mapsto> u)) | u v. u \<in> lang (expression rs) \<and> s = u @ v}"
  using paths_ends [OF assms] unfolding capture_def ends_def by (auto simp: image_iff; metis)

text \<open>An optional part that opens with a fixed character.\<close>

definition opt_text :: "char \<Rightarrow> string option \<Rightarrow> string" where
  "opt_text x t = (case t of None \<Rightarrow> [] | Some u \<Rightarrow> x # u)"

definition opt_in :: "string set \<Rightarrow> string option \<Rightarrow> bool" where
  "opt_in A t \<longleftrightarrow> (case t of None \<Rightarrow> True | Some u \<Rightarrow> u \<in> A)"

definition opt_group :: "nat \<Rightarrow> string option \<Rightarrow> (nat \<rightharpoonup> string) \<Rightarrow> (nat \<rightharpoonup> string)" where
  "opt_group i t m = (case t of None \<Rightarrow> m | Some u \<Rightarrow> m(i \<mapsto> u))"

lemma opt_simps [simp]:
  "opt_text x None = []" "opt_text x (Some u) = x # u" "opt_in A None" "opt_in A (Some u) = (u \<in> A)"
  "opt_group i None m = m" "opt_group i (Some u) m = m(i \<mapsto> u)"
  by (simp_all add: opt_text_def opt_in_def opt_group_def)

lemma paths_literal1:
  "paths (literal [x]) (p, [], m) = []"
  "paths (literal [x]) (p, y # s, m) = (if y = x then [(Suc p, s, m)] else [])"
  by (simp_all add: literal_def)

lemma paths_optional_capture:
  assumes "plain r"
  shows "set (paths (optional [literal [x], capture i [r]]) (p, s, m)) =
    {(p + length (opt_text x t), v, opt_group i t m) | t v. opt_in (lang r) t \<and> s = opt_text x t @ v}"
    (is "_ = ?R")
proof -
  have R: "?R = insert (p, s, m) {(p + length (x # u), v, m(i \<mapsto> u)) | u v. u \<in> lang r \<and> s = x # u @ v}"
    by (auto simp: opt_text_def opt_in_def opt_group_def split: option.splits)
  have one: "plain (expression [r])" "lang (expression [r]) = lang r" using assms by simp_all
  show ?thesis unfolding R optional_def expression_simps paths.simps set_append paths_Seq_Eps set_concat set_map
    by (cases s) (auto simp: paths_literal1 paths_capture [OF one(1)] one(2) simp del: expression_simps)
qed

definition ref_text :: "string \<Rightarrow> string option \<Rightarrow> string option \<Rightarrow> string" where
  "ref_text n t g = n @ opt_text (CHR '':'') t @ opt_text (CHR ''@'') g"

definition ref_groups :: "string \<Rightarrow> string option \<Rightarrow> string option \<Rightarrow> (nat \<rightharpoonup> string)" where
  "ref_groups n t g = opt_group 2 g (opt_group 1 t [0 \<mapsto> n])"

definition ref_grammar :: "string \<Rightarrow> string option \<Rightarrow> string option \<Rightarrow> bool" where
  \<comment> \<open>the parts belong to the languages of their patterns\<close>
  "ref_grammar n t g \<longleftrightarrow> n \<in> lang NAME_REGEXP \<and> opt_in (lang TAG_REGEXP) t \<and> opt_in (lang DIGEST_REGEXP) g"

lemma in_paths_Seq: "d \<in> set (paths (Seq a b) c) \<longleftrightarrow> (\<exists>e \<in> set (paths a c). d \<in> set (paths b e))"
  by simp

lemma anchored_paths:
  "d \<in> set (paths (anchored rs) (0, s, m)) \<longleftrightarrow>
     d \<in> set (paths (expression rs) (0, s, m)) \<and> (left d = [] \<or> left d = [CHR 0x0A])"
  unfolding anchored_def expression_simps(2) [of Bol] expression_simps(2) [of _ "[Eol]"]
    expression_simps(2) [of Eol] expression_simps(1) in_paths_Seq paths_Seq_Eps paths.simps
  by auto

abbreviation ref_body :: "regex list" where
  "ref_body \<equiv> [capture 0 [NAME_REGEXP], optional [literal '':'', capture 1 [TAG_REGEXP]],
               optional [literal ''@'', capture 2 [DIGEST_REGEXP]]]"

lemma reference_body_paths:
  "b \<in> set (paths (expression ref_body) (0, s, Map.empty)) \<longleftrightarrow>
     (\<exists>n t g e. s = ref_text n t g @ e \<and> ref_grammar n t g
        \<and> b = (length (ref_text n t g), e, ref_groups n t g))" (is "_ \<longleftrightarrow> ?P b")
proof -
  have one: "plain (expression [NAME_REGEXP])" "lang (expression [NAME_REGEXP]) = lang NAME_REGEXP"
    by (simp_all add: plain_patterns)
  note sets = paths_capture [OF one(1), unfolded one(2)] paths_optional_capture [OF plain_patterns(4)]
    paths_optional_capture [OF plain_patterns(5)]
  show ?thesis
  proof
    assume "b \<in> set (paths (expression ref_body) (0, s, Map.empty))"
    then obtain c1 c2 where c1: "c1 \<in> set (paths (capture 0 [NAME_REGEXP]) (0, s, Map.empty))"
      and c2: "c2 \<in> set (paths (optional [literal '':'', capture 1 [TAG_REGEXP]]) c1)"
      and b: "b \<in> set (paths (optional [literal ''@'', capture 2 [DIGEST_REGEXP]]) c2)"
      unfolding expression_simps in_paths_Seq paths_Seq_Eps by blast
    from c1 obtain n v where n: "c1 = (length n, v, [0 \<mapsto> n])" "n \<in> lang NAME_REGEXP" "s = n @ v"
      unfolding sets by auto
    from c2 [unfolded n(1) sets] obtain t v' where t: "opt_in (lang TAG_REGEXP) t" "v = opt_text (CHR '':'') t @ v'"
        "c2 = (length n + length (opt_text (CHR '':'') t), v', opt_group 1 t [0 \<mapsto> n])" by auto
    from b [unfolded t(3) sets] obtain g e where "opt_in (lang DIGEST_REGEXP) g" "v' = opt_text (CHR ''@'') g @ e"
        "b = (length n + length (opt_text (CHR '':'') t) + length (opt_text (CHR ''@'') g), e,
               opt_group 2 g (opt_group 1 t [0 \<mapsto> n]))" by auto
    with n t show "?P b"
      by (intro exI [of _ n] exI [of _ t] exI [of _ g] exI [of _ e])
        (simp add: ref_text_def ref_grammar_def ref_groups_def)
  next
    assume "?P b"
    then obtain n t g e where b: "s = ref_text n t g @ e" "ref_grammar n t g"
      "b = (length (ref_text n t g), e, ref_groups n t g)" by blast
    let ?v = "opt_text (CHR '':'') t @ opt_text (CHR ''@'') g @ e"
    have "(length n, ?v, [0 \<mapsto> n]) \<in> set (paths (capture 0 [NAME_REGEXP]) (0, s, Map.empty))"
      using b unfolding sets by (auto simp: ref_text_def ref_grammar_def)
    moreover have "(length n + length (opt_text (CHR '':'') t), opt_text (CHR ''@'') g @ e, opt_group 1 t [0 \<mapsto> n])
      \<in> set (paths (optional [literal '':'', capture 1 [TAG_REGEXP]]) (length n, ?v, [0 \<mapsto> n]))"
      using b unfolding sets by (auto simp: ref_grammar_def)
    moreover have "b \<in> set (paths (optional [literal ''@'', capture 2 [DIGEST_REGEXP]])
        (length n + length (opt_text (CHR '':'') t), opt_text (CHR ''@'') g @ e, opt_group 1 t [0 \<mapsto> n]))"
      using b unfolding sets by (auto simp: ref_text_def ref_grammar_def ref_groups_def)
    ultimately show "b \<in> set (paths (expression ref_body) (0, s, Map.empty))"
      unfolding expression_simps in_paths_Seq paths_Seq_Eps by blast
  qed
qed

lemma reference_paths:
  "d \<in> set (paths REFERENCE_REGEXP (0, s, Map.empty)) \<longleftrightarrow>
     (\<exists>n t g e. s = ref_text n t g @ e \<and> (e = [] \<or> e = [CHR 0x0A]) \<and> ref_grammar n t g
        \<and> d = (length (ref_text n t g), e, ref_groups n t g))"
  unfolding REFERENCE_REGEXP_def anchored_paths reference_body_paths
proof (intro iffI; elim conjE exE)
  fix n t g e
  assume "s = ref_text n t g @ e" "ref_grammar n t g" "d = (length (ref_text n t g), e, ref_groups n t g)"
    "left d = [] \<or> left d = [CHR 0x0A]"
  then show "\<exists>n t g e. s = ref_text n t g @ e \<and> (e = [] \<or> e = [CHR 0x0A]) \<and> ref_grammar n t g
      \<and> d = (length (ref_text n t g), e, ref_groups n t g)"
    by (intro exI [of _ n] exI [of _ t] exI [of _ g] exI [of _ e]) simp
next
  fix n t g e
  assume "s = ref_text n t g @ e" "ref_grammar n t g" "d = (length (ref_text n t g), e, ref_groups n t g)"
    "e = [] \<or> e = [CHR 0x0A]"
  then show "(\<exists>n t g e. s = ref_text n t g @ e \<and> ref_grammar n t g
      \<and> d = (length (ref_text n t g), e, ref_groups n t g)) \<and> (left d = [] \<or> left d = [CHR 0x0A])"
    by (intro conjI exI [of _ n] exI [of _ t] exI [of _ g] exI [of _ e]) simp_all
qed

section \<open>References are unambiguous\<close>

primrec avoids :: "char \<Rightarrow> regex \<Rightarrow> bool" where
  \<comment> \<open>no match contains the character\<close>
  "avoids x Eps = True"
| "avoids x (Chars P) = (\<not> P x)"
| "avoids x (Seq a b) = (avoids x a \<and> avoids x b)"
| "avoids x (Alt a b) = (avoids x a \<and> avoids x b)"
| "avoids x (Opt a) = avoids x a"
| "avoids x (Many a) = avoids x a"
| "avoids x (Some_more a) = avoids x a"
| "avoids x (Upto n a) = avoids x a"
| "avoids x (Capture i a) = avoids x a"
| "avoids x Bol = True"
| "avoids x Eol = True"

lemma avoids_lang: "avoids x r \<Longrightarrow> u \<in> lang r \<Longrightarrow> x \<notin> set u"
proof (induction r arbitrary: u)
  case (Many r)
  have "x \<notin> set w" if "w \<in> plus_lang (lang r)" for w
    using that by induction (use Many in auto)
  then show ?case using Many.prems by auto
next
  case (Some_more r)
  have "x \<notin> set w" if "w \<in> plus_lang (lang r)" for w
    using that by induction (use Some_more in auto)
  then show ?case using Some_more.prems by auto
next
  case (Upto n r)
  have "x \<notin> set w" if "w \<in> upto_lang n (lang r)" for w
    using that by (induction n arbitrary: w) (use Upto in auto)
  then show ?case using Upto.prems by auto
qed auto

lemma avoids_literal: "avoids x (literal s) \<longleftrightarrow> x \<notin> set s"
  by (induction s) (auto simp: literal_def)

lemmas char_defs = lower_def upper_def in_range_def is_digit_def is_hex_def host_char_def word_char_def

lemma avoids_patterns:
  "avoids (CHR 0x0A) NAME_REGEXP" "avoids (CHR ''@'') NAME_REGEXP"
  "avoids (CHR '':'') NAME_COMPONENT_REGEXP"
  "avoids (CHR 0x0A) TAG_REGEXP" "avoids (CHR ''@'') TAG_REGEXP" "avoids (CHR '':'') TAG_REGEXP" "avoids (CHR ''/'') TAG_REGEXP"
  "avoids (CHR 0x0A) DIGEST_REGEXP"
  by (simp_all add: pattern_defs avoids_literal char_defs)

lemma opt_text_unique:
  "u @ opt_text x g = u' @ opt_text x g' \<Longrightarrow> x \<notin> set u \<Longrightarrow> x \<notin> set u' \<Longrightarrow> u = u' \<and> g = g'"
proof (induction u arbitrary: u')
  case Nil
  then show ?case by (cases u'; cases g; cases g') auto
next
  case (Cons y u)
  then show ?case by (cases u'; cases g') auto
qed

lemma colon_in_name:
  assumes "n \<in> lang NAME_REGEXP" "n = u @ CHR '':'' # v"
  shows "CHR ''/'' \<in> set v"
proof -
  let ?rest = "expression [NAME_COMPONENT_REGEXP, optional [repeated [literal ''/'', NAME_COMPONENT_REGEXP]]]"
  from assms(1) obtain h w where n: "n = h @ w" "h \<in> lang (optional [HOSTNAME_REGEXP, literal ''/''])" "w \<in> lang ?rest"
    by (auto simp: NAME_REGEXP_def)
  have "avoids (CHR '':'') ?rest" by (simp add: avoids_patterns optional_def repeated_def avoids_literal)
  then have w: "CHR '':'' \<notin> set w" using n(3) avoids_lang by blast
  with n(1) assms(2) obtain v' where v: "h = u @ CHR '':'' # v'" "v = v' @ w"
    by (auto simp: append_eq_append_conv2 Cons_eq_append_conv)
  then obtain z where "h = z @ ''/''"
    using n(2) by (auto simp: optional_def lang_literal)
  then have "CHR ''/'' \<in> set v'" using v(1) by (cases v' rule: rev_cases) auto
  then show ?thesis using v(2) by simp
qed

lemma name_tag_unique:
  assumes "n @ opt_text (CHR '':'') t = n' @ opt_text (CHR '':'') t'"
    and "n \<in> lang NAME_REGEXP" "n' \<in> lang NAME_REGEXP" "opt_in (lang TAG_REGEXP) t" "opt_in (lang TAG_REGEXP) t'"
  shows "n = n' \<and> t = t'"
proof -
  have tags: "CHR '':'' \<notin> set u" "CHR ''/'' \<notin> set u" if "u \<in> lang TAG_REGEXP" for u
    using that avoids_lang avoids_patterns by blast+
  show ?thesis
  proof (cases t; cases t')
    fix u u' assume t: "t = Some u" "t' = Some u'"
    then have "CHR '':'' \<notin> set u" "CHR '':'' \<notin> set u'" "n @ CHR '':'' # u = n' @ CHR '':'' # u'"
      using assms tags by auto
    then have "n = n' \<and> u = u'" by (auto simp: append_eq_append_conv2 append_eq_Cons_conv Cons_eq_append_conv)
    then show ?thesis using t by simp
  qed (use assms colon_in_name tags in \<open>fastforce+\<close>)
qed

lemma ref_unique:
  assumes "ref_text n t g @ e = ref_text n' t' g' @ e'" "ref_grammar n t g" "ref_grammar n' t' g'"
    and "e = [] \<or> e = [CHR 0x0A]" "e' = [] \<or> e' = [CHR 0x0A]"
  shows "n = n' \<and> t = t' \<and> g = g' \<and> e = e'"
proof -
  have texts: "CHR 0x0A \<notin> set (ref_text n t g)" "CHR ''@'' \<notin> set (n @ opt_text (CHR '':'') t)"
    if "ref_grammar n t g" for n t g
    using that avoids_lang [OF avoids_patterns(1)] avoids_lang [OF avoids_patterns(2)] avoids_lang [OF avoids_patterns(4)]
      avoids_lang [OF avoids_patterns(5)] avoids_lang [OF avoids_patterns(8)]
    by (auto simp: ref_text_def ref_grammar_def opt_text_def opt_in_def split: option.splits)
  define f f' where "f = (if e = [] then None else Some ([] :: string))" and "f' = (if e' = [] then None else Some ([] :: string))"
  have "e = opt_text (CHR 0x0A) f" "e' = opt_text (CHR 0x0A) f'" using assms(4,5) by (auto simp: f_def f'_def)
  then have eq: "ref_text n t g = ref_text n' t' g'" "e = e'"
    using opt_text_unique [of "ref_text n t g" "CHR 0x0A" f "ref_text n' t' g'" f'] assms texts(1) by auto
  have "n @ opt_text (CHR '':'') t = n' @ opt_text (CHR '':'') t' \<and> g = g'"
    using eq(1) texts(2) [OF assms(2)] texts(2) [OF assms(3)]
    by (intro opt_text_unique [of _ "CHR ''@''"]) (simp_all add: ref_text_def)
  then show ?thesis using name_tag_unique [of n t n' t'] assms(2,3) eq(2) by (simp add: ref_grammar_def)
qed

text \<open>The pattern ends with \<open>$\<close>, which also matches before a newline at the end.\<close>

definition ref_form :: "string \<Rightarrow> string \<Rightarrow> string option \<Rightarrow> string option \<Rightarrow> bool" where
  "ref_form s n t g \<longleftrightarrow> ref_grammar n t g \<and> (s = ref_text n t g \<or> s = ref_text n t g @ [CHR 0x0A])"

lemma ref_form_unique:
  assumes "ref_form s n t g" "ref_form s n' t' g'"
  shows "n = n' \<and> t = t' \<and> g = g'"
proof -
  have tail: "\<exists>e. s = ref_text n t g @ e \<and> (e = [] \<or> e = [CHR 0x0A])" if "ref_form s n t g" for n t g
    using that by (auto simp: ref_form_def)
  obtain e where e: "s = ref_text n t g @ e" "e = [] \<or> e = [CHR 0x0A]" using tail [OF assms(1)] by blast
  obtain e' where e': "s = ref_text n' t' g' @ e'" "e' = [] \<or> e' = [CHR 0x0A]" using tail [OF assms(2)] by blast
  have "ref_grammar n t g" "ref_grammar n' t' g'" using assms unfolding ref_form_def by blast+
  from ref_unique [OF trans [OF e(1) [symmetric] e'(1)] this e(2) e'(2)] show ?thesis by blast
qed

lemma paths_ref_form:
  assumes "d \<in> set (paths REFERENCE_REGEXP (0, s, Map.empty))"
  obtains n t g where "ref_form s n t g" "groups_of d = ref_groups n t g"
proof -
  from assms [unfolded reference_paths] obtain n t g e where "s = ref_text n t g @ e" "e = [] \<or> e = [CHR 0x0A]"
      "ref_grammar n t g" "d = (length (ref_text n t g), e, ref_groups n t g)" by blast
  then show thesis using that [of n t g] by (auto simp: ref_form_def)
qed

lemma ref_form_paths:
  assumes "ref_form s n t g"
  obtains d where "d \<in> set (paths REFERENCE_REGEXP (0, s, Map.empty))"
proof -
  from assms obtain e where "s = ref_text n t g @ e" "e = [] \<or> e = [CHR 0x0A]" "ref_grammar n t g"
    by (auto simp: ref_form_def)
  then have "(length (ref_text n t g), e, ref_groups n t g) \<in> set (paths REFERENCE_REGEXP (0, s, Map.empty))"
    unfolding reference_paths by blast
  then show thesis by (rule that)
qed

lemma ref_match_iff:
  "re_match REFERENCE_REGEXP s = Some m \<longleftrightarrow> (\<exists>n t g. ref_form s n t g \<and> m = ref_groups n t g)"
proof
  assume "re_match REFERENCE_REGEXP s = Some m"
  then obtain d ds where d: "paths REFERENCE_REGEXP (0, s, Map.empty) = d # ds" "groups_of d = m"
    by (auto simp: re_match_paths split: list.splits)
  obtain n t g where "ref_form s n t g" "groups_of d = ref_groups n t g"
    by (rule paths_ref_form [of d s]) (simp add: d(1))
  with d(2) show "\<exists>n t g. ref_form s n t g \<and> m = ref_groups n t g" by blast
next
  assume "\<exists>n t g. ref_form s n t g \<and> m = ref_groups n t g"
  then obtain n t g where r: "ref_form s n t g" "m = ref_groups n t g" by blast
  obtain d0 where "d0 \<in> set (paths REFERENCE_REGEXP (0, s, Map.empty))" by (rule ref_form_paths [OF r(1)])
  then obtain d ds where p: "paths REFERENCE_REGEXP (0, s, Map.empty) = d # ds" by (metis list.set_cases)
  obtain n' t' g' where d: "ref_form s n' t' g'" "groups_of d = ref_groups n' t' g'"
    by (rule paths_ref_form [of d s]) (simp add: p)
  then show "re_match REFERENCE_REGEXP s = Some m"
    using p r ref_form_unique [OF d(1) r(1)] by (simp add: re_match_paths)
qed

lemma ref_match_None: "re_match REFERENCE_REGEXP s = None \<longleftrightarrow> (\<forall>n t g. \<not> ref_form s n t g)"
  using ref_match_iff [of s] by (metis option.distinct(1) option.exhaust)

section \<open>Digests\<close>

definition valid_digest :: "string \<Rightarrow> bool" where
  \<comment> \<open>a known algorithm and as many hexadecimal digits as it has half bytes\<close>
  "valid_digest g \<longleftrightarrow>
     (\<exists>a k h. (a, k) \<in> set DIGESTS_SIZE \<and> g = a @ CHR '':'' # h \<and> length h = 2 * k \<and> (\<forall>c \<in> set h. is_hex c))"

lemma find_char_first: "c \<notin> set u \<Longrightarrow> find_char c (u @ c # v) = Some (length u)"
  by (induction u) auto

lemma plus_lang_chars: "plus_lang {[c] | c. P c} = {u. u \<noteq> [] \<and> (\<forall>c \<in> set u. P c)}"
proof (intro set_eqI iffI; simp only: mem_Collect_eq)
  fix u assume "u \<in> plus_lang {[c] | c. P c}"
  then show "u \<noteq> [] \<and> (\<forall>c \<in> set u. P c)" by induction auto
next
  fix u assume "u \<noteq> [] \<and> (\<forall>c \<in> set u. P c)"
  then show "u \<in> plus_lang {[c] | c. P c}"
  proof (induction u)
    case (Cons c u)
    show ?case
    proof (cases "u = []")
      case True
      then show ?thesis using Cons.prems by (auto intro: plus_lang.one)
    next
      case False
      then have "[c] @ u \<in> plus_lang {[c] | c. P c}" using Cons by (intro plus_lang.more) auto
      then show ?thesis by simp
    qed
  qed simp
qed

definition alg_char :: "char \<Rightarrow> bool" where
  "alg_char c \<longleftrightarrow> host_char c \<or> c \<in> set ''-_+.''"

lemma lang_digest:
  "lang DIGEST_REGEXP = {a @ CHR '':'' # h | a h. a \<noteq> [] \<and> (\<forall>c \<in> set a. alg_char c) \<and> h \<noteq> [] \<and> (\<forall>c \<in> set h. is_hex c)}"
proof -
  have eq: "DIGEST_REGEXP = Seq (Some_more (Chars alg_char)) (Seq (literal '':'') (Seq (Some_more (Chars is_hex)) Eps))"
    unfolding DIGEST_REGEXP_def expression_simps alg_char_def by simp
  show ?thesis unfolding eq lang.simps lang_literal plus_lang_chars by auto
qed

lemma alg_char_colon: "\<not> alg_char (CHR '':'')"
  by (simp add: alg_char_def char_defs)

lemma digest_matches:
  assumes "g \<in> lang DIGEST_REGEXP"
  shows "re_match DIGEST_REGEXP_ANCHORED g \<noteq> None"
proof -
  have "(length g, [], Map.empty) \<in> set (paths (expression [DIGEST_REGEXP]) (0, g, Map.empty))"
    using assms ends_in [of g "lang DIGEST_REGEXP" 0 "[]"] by (simp add: paths_ends plain_patterns)
  then have "(length g, [], Map.empty) \<in> set (paths DIGEST_REGEXP_ANCHORED (0, g, Map.empty))"
    unfolding DIGEST_REGEXP_ANCHORED_def anchored_paths by simp
  then show ?thesis by (auto simp: re_match_paths split: list.split)
qed

lemma validate_digest_split:
  assumes "a \<noteq> []" "\<forall>c \<in> set a. alg_char c" "h \<noteq> []" "\<forall>c \<in> set h. is_hex c"
  shows "validate_digest (a @ CHR '':'' # h) =
    (case dict_get DIGESTS_SIZE a of
       None \<Rightarrow> Inl DigestUnsupported
     | Some k \<Rightarrow> if k * 2 \<noteq> length h then Inl DigestInvalidLength else Inr ())"
proof -
  have "CHR '':'' \<notin> set a" using assms(2) alg_char_colon by blast
  moreover have "re_match DIGEST_REGEXP_ANCHORED (a @ CHR '':'' # h) \<noteq> None"
    by (rule digest_matches) (use assms in \<open>auto simp: lang_digest\<close>)
  ultimately show ?thesis
    using assms(3) by (auto simp: validate_digest_def find_char_first split: option.split)
qed

lemma validate_digest_iff:
  assumes "g \<in> lang DIGEST_REGEXP"
  shows "validate_digest g = Inr () \<longleftrightarrow> valid_digest g"
proof -
  from assms obtain a h where g: "g = a @ CHR '':'' # h" "a \<noteq> []" "\<forall>c \<in> set a. alg_char c" "h \<noteq> []" "\<forall>c \<in> set h. is_hex c"
    unfolding lang_digest by blast
  have a: "CHR '':'' \<notin> set a" using g(3) alg_char_colon by blast
  have "valid_digest g \<longleftrightarrow> (\<exists>k. (a, k) \<in> set DIGESTS_SIZE \<and> length h = 2 * k)"
  proof
    assume "valid_digest g"
    then obtain a' k h' where d: "(a', k) \<in> set DIGESTS_SIZE" "g = a' @ CHR '':'' # h'" "length h' = 2 * k"
      unfolding valid_digest_def by blast
    have "CHR '':'' \<notin> set a'" using d(1) by (auto simp: DIGESTS_SIZE_def)
    then have "a = a' \<and> Some h = Some h'"
      using d(2) g(1) a by (intro opt_text_unique [of a "CHR '':''" "Some h"]) simp_all
    then show "\<exists>k. (a, k) \<in> set DIGESTS_SIZE \<and> length h = 2 * k" using d by blast
  qed (use g in \<open>auto simp: valid_digest_def\<close>)
  also have "\<dots> \<longleftrightarrow> (\<exists>k. dict_get DIGESTS_SIZE a = Some k \<and> length h = 2 * k)"
    by (auto simp: DIGESTS_SIZE_def)
  finally show ?thesis
    unfolding g(1) validate_digest_split [OF g(2-5)] by (auto split: option.split)
qed

lemma valid_digest_lang: "valid_digest g \<Longrightarrow> g \<in> lang DIGEST_REGEXP"
proof -
  assume "valid_digest g"
  then obtain a k h where d: "(a, k) \<in> set DIGESTS_SIZE" "g = a @ CHR '':'' # h" "length h = 2 * k" "\<forall>c \<in> set h. is_hex c"
    unfolding valid_digest_def by blast
  from d(1) have "a = ''sha256'' \<and> k = 32 \<or> a = ''sha384'' \<and> k = 48 \<or> a = ''sha512'' \<and> k = 64"
    by (simp add: DIGESTS_SIZE_def)
  then have a: "a \<noteq> [] \<and> (\<forall>c \<in> set a. alg_char c) \<and> 0 < k"
    by (elim disjE conjE) (simp_all add: alg_char_def host_char_def lower_def in_range_def is_digit_def)
  with d(3) have "h \<noteq> []" by auto
  with a d(2,4) show ?thesis unfolding lang_digest by blast
qed

section \<open>Parsing and printing\<close>

definition make_ref :: "string \<Rightarrow> string option \<Rightarrow> string option \<Rightarrow> reference" where
  "make_ref n t g =
     \<lparr>r_class = (case (t, g) of
        (None, None) \<Rightarrow> NamedReference | (None, Some _) \<Rightarrow> CanonicalReference
      | (Some _, None) \<Rightarrow> TaggedReference | (Some _, Some _) \<Rightarrow> Reference),
      r_name = Some n, r_tag = t, r_digest = g\<rparr>"

definition valid_ref :: "string \<Rightarrow> string option \<Rightarrow> string option \<Rightarrow> bool" where
  "valid_ref n t g \<longleftrightarrow> n \<in> lang NAME_REGEXP \<and> length n \<le> NAME_TOTAL_LENGTH_MAX \<and> opt_in (lang TAG_REGEXP) t
     \<and> opt_in {g. valid_digest g} g"

lemma ref_string_make: "ref_string (make_ref n t g) = ref_text n t g"
  by (cases t; cases g) (simp_all add: ref_string_def make_ref_def ref_text_def py_str_def)

lemma nonempty_langs: "[] \<notin> lang NAME_REGEXP" "[] \<notin> lang TAG_REGEXP" "[] \<notin> lang DIGEST_REGEXP"
proof -
  have "[] \<notin> lang ALPHA_NUMERIC_REGEXP" by (simp add: ALPHA_NUMERIC_REGEXP_def plus_lang_chars)
  then show "[] \<notin> lang NAME_REGEXP" by (simp add: NAME_REGEXP_def NAME_COMPONENT_REGEXP_def)
qed (simp_all add: TAG_REGEXP_def lang_digest)

lemma ref_parse_form:
  assumes "ref_form s n t g"
  shows "ref_parse s =
    (if length n > NAME_TOTAL_LENGTH_MAX then Inl (NameTooLong NAME_TOTAL_LENGTH_MAX)
     else rbind (case g of None \<Rightarrow> Inr () | Some g \<Rightarrow> validate_digest g) (\<lambda>_. Inr (make_ref n t g)))"
proof -
  have m: "re_match REFERENCE_REGEXP s = Some (ref_groups n t g)" using assms ref_match_iff by blast
  have groups: "ref_groups n t g 0 = Some n" "ref_groups n t g 1 = t" "ref_groups n t g (Suc 0) = t" "ref_groups n t g 2 = g"
    by (cases t; cases g; simp add: ref_groups_def)+
  have "n \<noteq> []" "t \<noteq> Some []" "g \<noteq> Some []"
    using assms nonempty_langs by (auto simp: ref_form_def ref_grammar_def)
  then have best: "best_reference \<lparr>r_class = Reference, r_name = Some n, r_tag = t, r_digest = g\<rparr> = Some (make_ref n t g)"
    by (cases t; cases g) (auto simp: best_reference_def make_ref_def)
  show ?thesis
  proof (cases g)
    case None
    with best show ?thesis by (simp add: ref_parse_def m groups [unfolded None])
  next
    case (Some h)
    with best \<open>g \<noteq> Some []\<close> show ?thesis
      by (simp add: ref_parse_def m groups [unfolded Some] rbind_def split: sum.split)
  qed
qed

lemma valid_ref_grammar: "valid_ref n t g \<Longrightarrow> ref_grammar n t g"
  using valid_digest_lang by (cases g) (auto simp: valid_ref_def ref_grammar_def)

lemma ref_parse_Inr:
  "ref_parse s = Inr r \<longleftrightarrow>
     (\<exists>n t g. valid_ref n t g \<and> (s = ref_text n t g \<or> s = ref_text n t g @ [CHR 0x0A]) \<and> r = make_ref n t g)"
proof
  assume p: "ref_parse s = Inr r"
  then obtain n t g where f: "ref_form s n t g"
    using ref_match_None by (cases "re_match REFERENCE_REGEXP s") (auto simp: ref_parse_def ref_match_iff)
  then have "opt_in (lang DIGEST_REGEXP) g" by (simp add: ref_form_def ref_grammar_def)
  with p f have "opt_in {g. valid_digest g} g" "\<not> length n > NAME_TOTAL_LENGTH_MAX" "r = make_ref n t g"
    unfolding ref_parse_form [OF f]
    by (cases g; auto simp: rbind_Inr_iff validate_digest_iff [symmetric] split: if_splits)+
  then have "valid_ref n t g" using f by (simp add: valid_ref_def ref_form_def ref_grammar_def)
  with f \<open>r = make_ref n t g\<close> show
    "\<exists>n t g. valid_ref n t g \<and> (s = ref_text n t g \<or> s = ref_text n t g @ [CHR 0x0A]) \<and> r = make_ref n t g"
    unfolding ref_form_def by blast
next
  assume "\<exists>n t g. valid_ref n t g \<and> (s = ref_text n t g \<or> s = ref_text n t g @ [CHR 0x0A]) \<and> r = make_ref n t g"
  then obtain n t g where r: "valid_ref n t g" "s = ref_text n t g \<or> s = ref_text n t g @ [CHR 0x0A]" "r = make_ref n t g"
    by blast
  then have f: "ref_form s n t g" using valid_ref_grammar unfolding ref_form_def by blast
  have "(case g of None \<Rightarrow> Inr () | Some g \<Rightarrow> validate_digest g) = Inr ()"
    using r(1) valid_digest_lang by (cases g) (auto simp: valid_ref_def validate_digest_iff)
  then show "ref_parse s = Inr r" using r unfolding ref_parse_form [OF f] by (simp add: valid_ref_def)
qed

text \<open>
  C11. Parsing accepts exactly the texts of valid references, which may be followed by a newline,
  and returns their parts: a name of the grammar with at most 255 characters, a tag of the grammar,
  a digest of a known algorithm with as many digits as it needs. The class of the result says
  which parts it has. The empty text, and every other text that does not have the form of a
  reference, has its own error, as have names that are too long.
\<close>

theorem parse_exact:
  "(ref_parse s = Inr r \<longleftrightarrow>
      (\<exists>n t g. valid_ref n t g \<and> (s = ref_text n t g \<or> s = ref_text n t g @ [CHR 0x0A]) \<and> r = make_ref n t g))
   \<and> (ref_parse s = Inl NameEmpty \<longleftrightarrow> s = [])
   \<and> (ref_parse s = Inl ReferenceInvalidFormat \<longleftrightarrow> s \<noteq> [] \<and> \<not> (\<exists>n t g. ref_form s n t g))
   \<and> (ref_parse s = Inl (NameTooLong 255) \<longleftrightarrow> (\<exists>n t g. ref_form s n t g \<and> 255 < length n))"
proof (cases "\<exists>n t g. ref_form s n t g")
  case True
  then obtain n t g where f: "ref_form s n t g" by blast
  have ne: "s \<noteq> []" using f nonempty_langs by (auto simp: ref_form_def ref_grammar_def ref_text_def)
  have dig: "validate_digest h \<noteq> Inl NameEmpty" "validate_digest h \<noteq> Inl ReferenceInvalidFormat"
    "validate_digest h \<noteq> Inl (NameTooLong k)" for h k
    by (auto simp: validate_digest_def split: option.splits)
  have errs: "ref_parse s \<noteq> Inl NameEmpty" "ref_parse s \<noteq> Inl ReferenceInvalidFormat"
    "ref_parse s = Inl (NameTooLong 255) \<longleftrightarrow> 255 < length n"
    unfolding ref_parse_form [OF f] NAME_TOTAL_LENGTH_MAX_def
    by (cases g; auto simp: rbind_def dig split: sum.splits)+
  have "(\<exists>n t g. ref_form s n t g \<and> 255 < length n) \<longleftrightarrow> 255 < length n"
    using f ref_form_unique by blast
  with True ne errs show ?thesis unfolding ref_parse_Inr by blast
next
  case False
  then have none: "re_match REFERENCE_REGEXP s = None" using ref_match_None by blast
  have "ref_parse s = Inl (if s = [] then NameEmpty else ReferenceInvalidFormat)"
    unfolding ref_parse_def none option.case by (rule refl)
  with False show ?thesis using ref_parse_Inr [of s r] by (auto simp: valid_ref_grammar ref_form_def)
qed

text \<open>
  C12. The text of a parsed reference is the text that was parsed, up to a newline at its end,
  and parsing it again gives the same reference.
\<close>

theorem reference_roundtrip:
  assumes "ref_parse s = Inr r"
  shows "(s = ref_string r \<or> s = ref_string r @ [CHR 0x0A]) \<and> ref_parse (ref_string r) = Inr r"
proof -
  from assms [unfolded ref_parse_Inr] obtain n t g where
    "valid_ref n t g" "s = ref_text n t g \<or> s = ref_text n t g @ [CHR 0x0A]" "r = make_ref n t g" by blast
  then show ?thesis unfolding ref_parse_Inr by (auto simp: ref_string_make)
qed

text \<open>Simple names and tags, which examples use.\<close>

lemma in_Seq_left: "u \<in> lang a \<Longrightarrow> [] \<in> lang b \<Longrightarrow> u \<in> lang (Seq a b)"
  by (simp, metis append_Nil2)

lemma in_Seq_right: "[] \<in> lang a \<Longrightarrow> u \<in> lang b \<Longrightarrow> u \<in> lang (Seq a b)"
  by (simp, metis append_Nil)

lemma nil_upto: "[] \<in> lang (Upto n r)"
  by (cases n) simp_all

lemma nil_optional: "[] \<in> lang (optional rs)"
  by (simp add: optional_def)

lemma simple_component:
  assumes "u \<noteq> []" "\<forall>c \<in> set u. lower c \<or> is_digit c"
  shows "u \<in> lang NAME_COMPONENT_REGEXP"
proof -
  have "u \<in> lang ALPHA_NUMERIC_REGEXP" using assms by (simp add: ALPHA_NUMERIC_REGEXP_def plus_lang_chars)
  then show ?thesis
    unfolding NAME_COMPONENT_REGEXP_def expression_simps by (intro in_Seq_left nil_optional) simp_all
qed

lemma simple_name: "u \<noteq> [] \<Longrightarrow> \<forall>c \<in> set u. lower c \<or> is_digit c \<Longrightarrow> u \<in> lang NAME_REGEXP"
  unfolding NAME_REGEXP_def expression_simps
  by (intro in_Seq_right in_Seq_left nil_optional simple_component) simp_all

lemma simple_tag: "word_char c \<Longrightarrow> [c] \<in> lang TAG_REGEXP"
  unfolding TAG_REGEXP_def expression_simps by (intro in_Seq_left nil_upto) simp_all

lemma tagged_image: "ref_parse ''busybox:1'' = Inr (make_ref ''busybox'' (Some ''1'') None)"
proof -
  have "''busybox'' \<in> lang NAME_REGEXP" by (rule simple_name) (simp_all add: char_defs)
  moreover have "''1'' \<in> lang TAG_REGEXP" by (rule simple_tag) (simp add: char_defs)
  ultimately have "valid_ref ''busybox'' (Some ''1'') None" by (simp add: valid_ref_def NAME_TOTAL_LENGTH_MAX_def)
  then show ?thesis unfolding ref_parse_Inr 
    by (intro exI [of _ "''busybox''"] exI [of _ "Some ''1''"] exI [of _ None]) (simp add: ref_text_def)
qed

text \<open>The round trip on an image with a tag.\<close>

theorem reference_roundtrip_witness:
  "ref_parse ''busybox:1'' = Inr (make_ref ''busybox'' (Some ''1'') None) \<and> ref_string (make_ref ''busybox'' (Some ''1'') None) = ''busybox:1''
   \<and> ref_parse (ref_string (make_ref ''busybox'' (Some ''1'') None)) = Inr (make_ref ''busybox'' (Some ''1'') None)"
  using reference_roundtrip [OF tagged_image] tagged_image by (simp add: ref_string_make ref_text_def)

section \<open>Host names\<close>

abbreviation path_regexp :: regex where
  "path_regexp \<equiv> expression [NAME_COMPONENT_REGEXP, optional [repeated [literal ''/'', NAME_COMPONENT_REGEXP]]]"

definition hosted :: "string \<Rightarrow> string \<Rightarrow> string \<Rightarrow> bool" where
  \<comment> \<open>the name opens with a host name\<close>
  "hosted n h w \<longleftrightarrow> n = h @ CHR ''/'' # w \<and> h \<in> lang HOSTNAME_REGEXP \<and> w \<in> lang path_regexp"

definition is_domain :: "string \<Rightarrow> bool" where
  "is_domain h \<longleftrightarrow> CHR ''.'' \<in> set h \<or> CHR '':'' \<in> set h \<or> h = ''localhost''"

lemma lang_name: "n \<in> lang NAME_REGEXP \<longleftrightarrow> n \<in> lang path_regexp \<or> (\<exists>h w. hosted n h w)"
proof -
  have "lang NAME_REGEXP = {u @ v | u v. u \<in> lang (optional [HOSTNAME_REGEXP, literal ''/'']) \<and> v \<in> lang path_regexp}"
    unfolding NAME_REGEXP_def expression_simps(2) [of "optional [HOSTNAME_REGEXP, literal ''/'']"] lang.simps ..
  moreover have "lang (optional [HOSTNAME_REGEXP, literal ''/'']) = insert [] {h @ ''/'' | h. h \<in> lang HOSTNAME_REGEXP}"
    by (auto simp: optional_def lang_literal)
  ultimately show ?thesis by (auto simp: hosted_def simp del: expression_simps) (metis append_Nil append_assoc append_Cons)+
qed

lemma avoids_host: "avoids (CHR ''/'') HOSTNAME_REGEXP"
  by (simp add: pattern_defs avoids_literal char_defs)

lemma hosted_unique: "hosted n h w \<Longrightarrow> hosted n h' w' \<Longrightarrow> h = h' \<and> w = w'"
  using opt_text_unique [of h "CHR ''/''" "Some w" h' "Some w'"] avoids_lang [OF avoids_host]
  unfolding hosted_def by auto

definition at_end :: "cfg \<Rightarrow> bool" where
  "at_end d \<longleftrightarrow> left d = [] \<or> left d = [CHR 0x0A]"

lemma anchored_paths_list: "paths (anchored rs) (0, s, m) = filter at_end (paths (expression rs) (0, s, m))"
proof -
  have "concat (map (paths Eol) ds) = filter at_end ds" for ds
    by (induction ds) (simp_all add: at_end_def)
  then show ?thesis
    unfolding anchored_def expression_simps(2) [of Bol] expression_simps(2) [of _ "[Eol]"]
      expression_simps(2) [of Eol] expression_simps(1) by simp
qed

lemma paths_optional_first:
  "paths (expression [optional rs, r]) c = concat (map (paths r) (paths (expression rs) c)) @ paths r c"
  by (simp add: optional_def)

lemma plain_path: "plain path_regexp"
  by (simp add: plain_patterns optional_def repeated_def plain_literal)

lemma path_paths:
  "set (paths (capture i [NAME_COMPONENT_REGEXP, optional [repeated [literal ''/'', NAME_COMPONENT_REGEXP]]]) (p, v, m)) =
     {(p + length w, x, m(i \<mapsto> w)) | w x. w \<in> lang path_regexp \<and> v = w @ x}"
  by (rule paths_capture [OF plain_path])

lemma host_paths:
  "set (paths (expression [capture 0 [HOSTNAME_REGEXP], literal ''/'']) (0, n, Map.empty)) =
     {(Suc (length h), v, [0 \<mapsto> h]) | h v. h \<in> lang HOSTNAME_REGEXP \<and> n = h @ CHR ''/'' # v}"
proof -
  have one: "plain (expression [HOSTNAME_REGEXP])" "lang (expression [HOSTNAME_REGEXP]) = lang HOSTNAME_REGEXP"
    by (simp_all add: plain_patterns)
  have lit: "set (paths (literal ''/'') (p, v, m)) = {(Suc p, x, m) | x. v = CHR ''/'' # x}" for p v m
    by (cases v) (simp_all add: paths_literal1)
  show ?thesis
    unfolding expression_simps(2) [of "capture 0 _"] expression_simps(2) [of "literal _"] expression_simps(1)
      set_paths_Seq paths_Seq_Eps paths_capture [OF one(1), unfolded one(2)]
    by (auto simp: lit)
qed

lemma name_paths:
  assumes "CHR 0x0A \<notin> set n"
  shows "\<exists>xs ys. paths ANCHORED_NAME_REGEXP (0, n, Map.empty) = xs @ ys
    \<and> set xs = {(length n, [], [0 \<mapsto> h, 1 \<mapsto> w]) | h w. hosted n h w}
    \<and> set ys = {(length n, [], [1 \<mapsto> n]) | _ :: unit. n \<in> lang path_regexp}"
proof -
  let ?P = "capture 1 [NAME_COMPONENT_REGEXP, optional [repeated [literal ''/'', NAME_COMPONENT_REGEXP]]]"
  let ?H = "expression [capture 0 [HOSTNAME_REGEXP], literal ''/'']"
  define xs where "xs = filter at_end (concat (map (paths ?P) (paths ?H (0, n, Map.empty))))"
  define ys where "ys = filter at_end (paths ?P (0, n, Map.empty))"
  have "paths ANCHORED_NAME_REGEXP (0, n, Map.empty) = xs @ ys"
    unfolding ANCHORED_NAME_REGEXP_def anchored_paths_list xs_def ys_def paths_optional_first filter_append ..
  moreover have "set xs = {(length n, [], [0 \<mapsto> h, 1 \<mapsto> w]) | h w. hosted n h w}"
    unfolding xs_def set_filter set_concat set_map host_paths using assms
    by (auto simp: path_paths at_end_def hosted_def simp del: expression_simps) (blast, fastforce)
  moreover have "set ys = {(length n, [], [1 \<mapsto> n]) | _ :: unit. n \<in> lang path_regexp}"
    unfolding ys_def set_filter path_paths using assms by (auto simp: at_end_def simp del: expression_simps)
  ultimately show ?thesis by blast
qed

lemma name_match:
  assumes "n \<in> lang NAME_REGEXP"
  shows "hosted n h w \<Longrightarrow> re_match ANCHORED_NAME_REGEXP n = Some [0 \<mapsto> h, 1 \<mapsto> w]"
    and "\<not> (\<exists>h w. hosted n h w) \<Longrightarrow> re_match ANCHORED_NAME_REGEXP n = Some [1 \<mapsto> n]"
proof -
  have "CHR 0x0A \<notin> set n" using assms avoids_lang avoids_patterns(1) by blast
  from name_paths [OF this] obtain xs ys where p: "paths ANCHORED_NAME_REGEXP (0, n, Map.empty) = xs @ ys"
    and xs: "set xs = {(length n, [], [0 \<mapsto> h, 1 \<mapsto> w]) | h w. hosted n h w}"
    and ys: "set ys = {(length n, [], [1 \<mapsto> n]) | _ :: unit. n \<in> lang path_regexp}"
    by (elim exE conjE) (rule that)
  show "re_match ANCHORED_NAME_REGEXP n = Some [0 \<mapsto> h, 1 \<mapsto> w]" if h: "hosted n h w"
  proof -
    have "set xs = {(length n, [], [0 \<mapsto> h, 1 \<mapsto> w])}" unfolding xs using h hosted_unique [OF h] by blast
    then show ?thesis by (cases xs) (auto simp: re_match_paths p)
  qed
  show "re_match ANCHORED_NAME_REGEXP n = Some [1 \<mapsto> n]" if h: "\<not> (\<exists>h w. hosted n h w)"
  proof -
    have "xs = []" "set ys = {(length n, [], [1 \<mapsto> n])}" using h xs ys assms lang_name [of n] by auto
    then show ?thesis by (cases ys) (auto simp: re_match_paths p)
  qed
qed

lemma split_hostname_make:
  assumes "n \<in> lang NAME_REGEXP"
  shows "hosted n h w \<Longrightarrow> split_hostname (make_ref n t g) = Inr (if is_domain h then (h, w) else ([], n))"
    and "\<not> (\<exists>h w. hosted n h w) \<Longrightarrow> split_hostname (make_ref n t g) = Inr ([], n)"
  using name_match [OF assms] by (auto simp: split_hostname_def make_ref_def is_domain_def)

section \<open>Image names\<close>

definition repo_of :: "image_conf \<Rightarrow> registry option \<Rightarrow> string \<Rightarrow> string" where
  \<comment> \<open>a name without the domain of a registry gets that of the given or the default registry\<close>
  "repo_of C reg n =
     (if \<exists>h w. hosted n h w \<and> is_domain h then n
      else case reg of
             Some rg \<Rightarrow> rg_domain rg @ ''/'' @ n
           | None \<Rightarrow> if truthy (default_registry C) then the (default_registry C) @ ''/'' @ n else n)"

lemma split_domain:
  assumes "n \<in> lang NAME_REGEXP"
  shows "\<exists>h w. split_hostname (make_ref n t g) = Inr (h, w) \<and> (h \<noteq> [] \<longleftrightarrow> (\<exists>h w. hosted n h w \<and> is_domain h))"
proof (cases "\<exists>h w. hosted n h w")
  case True
  then obtain h w where h: "hosted n h w" by blast
  have ex: "(\<exists>h w. hosted n h w \<and> is_domain h) \<longleftrightarrow> is_domain h" using h hosted_unique [OF h] by blast
  have "is_domain h \<Longrightarrow> h \<noteq> []" by (auto simp: is_domain_def)
  then show ?thesis unfolding split_hostname_make(1) [OF assms h] ex by simp
next
  case False
  then show ?thesis unfolding split_hostname_make(2) [OF assms False] by blast
qed

lemma parse_image_name_valid:
  assumes "valid_ref n t g" "s = ref_text n t g \<or> s = ref_text n t g @ [CHR 0x0A]"
  shows "parse_image_name C s driver reg =
    Inr (if (case driver of None \<Rightarrow> default_image_driver C | Some d \<Rightarrow> d) = ''glance'' then (n, [])
         else (repo_of C reg n, case t of None \<Rightarrow> ''latest'' | Some t \<Rightarrow> t))"
proof -
  have p: "ref_parse s = Inr (make_ref n t g)" using assms ref_parse_Inr by blast
  have n: "n \<in> lang NAME_REGEXP" and t: "t \<noteq> Some []" using assms(1) nonempty_langs by (auto simp: valid_ref_def)
  obtain h w where h: "split_hostname (make_ref n t g) = Inr (h, w)" "h \<noteq> [] \<longleftrightarrow> (\<exists>h w. hosted n h w \<and> is_domain h)"
    using split_domain [OF n] by blast
  have r: "r_name (make_ref n t g) = Some n" "r_tag (make_ref n t g) = t" by (simp_all add: make_ref_def)
  have tag: "(if truthy t then the t else ''latest'') = (case t of None \<Rightarrow> ''latest'' | Some t \<Rightarrow> t)"
    using t by (cases t) simp_all
  show ?thesis
    unfolding parse_image_name_def p rbind_simps repo_of_def h(2) [symmetric] r option.sel Let_def tag h(1) by simp
qed

text \<open>
  C38. A digest is not used: the repository and the tag of an image that is given with a digest are
  those of the image without it. Without a tag, it is the latest image that is pulled, whatever
  its digest.
\<close>

theorem digest_ignored:
  assumes "valid_ref n t (Some g)"
  shows "parse_image_name C (ref_text n t (Some g)) driver reg = parse_image_name C (ref_text n t None) driver reg
    \<and> parse_image_name C (ref_text n None (Some g)) (Some ''docker'') reg = Inr (repo_of C reg n, ''latest'')"
proof -
  have v: "valid_ref n t None" "valid_ref n None (Some g)" using assms by (simp_all add: valid_ref_def)
  show ?thesis
    using parse_image_name_valid [OF assms disjI1 [OF refl]] parse_image_name_valid [OF v(1) disjI1 [OF refl]]
      parse_image_name_valid [OF v(2) disjI1 [OF refl]] by simp
qed

text \<open>An image with a digest, and the registry that is configured.\<close>

theorem digest_ignored_witness:
  "valid_ref ''busybox'' None (Some (''sha256:'' @ replicate 64 (CHR ''f'')))
   \<and> parse_image_name \<lparr>default_image_driver = ''docker'', default_registry = None,
        default_registry_username = None, default_registry_password = None\<rparr>
      (''busybox@sha256:'' @ replicate 64 (CHR ''f'')) None None
     = parse_image_name \<lparr>default_image_driver = ''docker'', default_registry = None,
        default_registry_username = None, default_registry_password = None\<rparr> ''busybox'' None None"
proof -
  have "''busybox'' \<in> lang NAME_REGEXP" by (rule simple_name) (simp_all add: char_defs)
  moreover have "valid_digest (''sha256:'' @ replicate 64 (CHR ''f''))"
    unfolding valid_digest_def
    by (intro exI [of _ "''sha256''"] exI [of _ 32] exI [of _ "replicate 64 (CHR ''f'')"])
      (simp add: DIGESTS_SIZE_def char_defs)
  ultimately have v: "valid_ref ''busybox'' None (Some (''sha256:'' @ replicate 64 (CHR ''f'')))"
    unfolding valid_ref_def opt_simps NAME_TOTAL_LENGTH_MAX_def by simp
  from digest_ignored [OF v] v show ?thesis unfolding ref_text_def opt_simps append_Nil2 by simp
qed

section \<open>The cost of a failure\<close>

lemma alnum_paths:
  assumes "P a" "\<not> P x"
  shows "more_paths (paths (Chars P)) (p, replicate k a @ x # s, m) =
    map (\<lambda>j. (p + (k - j), replicate j a @ x # s, m)) [0..<k]"
proof (induction k arbitrary: p)
  case 0
  then show ?case using assms by (subst more_paths.simps) simp
next
  case (Suc k)
  have "map (\<lambda>j. (Suc (p + (k - j)), replicate j a @ x # s, m)) [0..<k] =
      map (\<lambda>j. (p + (Suc k - j), replicate j a @ x # s, m)) [0..<k]"
    by (rule map_cong) (auto simp: Suc_diff_le)
  then show ?case using assms by (subst more_paths.simps) (simp add: Suc)
qed

abbreviation alnum :: "char \<Rightarrow> bool" where "alnum c \<equiv> lower c \<or> is_digit c"

lemma separator_paths:
  "y \<notin> set ''._-'' \<Longrightarrow> paths SEPARATOR_REGEXP (p, y # s, m) = [(p, y # s, m)]"
  by (simp add: SEPARATOR_REGEXP_def literal_def more_paths.simps [of _ "(p, y # s, m)"])

lemma repeated_count:
  assumes "alnum a" "\<not> alnum x" "a \<notin> set ''._-''" "x \<notin> set ''._-''"
  shows "length (paths (repeated [SEPARATOR_REGEXP, ALPHA_NUMERIC_REGEXP]) (p, replicate k a @ x # s, m)) = 2 ^ k - 1"
proof -
  define f where "f = paths (expression [SEPARATOR_REGEXP, ALPHA_NUMERIC_REGEXP])"
  have f: "f (p, replicate k a @ x # s, m) = map (\<lambda>j. (p + (k - j), replicate j a @ x # s, m)) [0..<k]" for p k
    using separator_paths [of _ p] assms alnum_paths [of alnum a x p k s m]
    by (cases k) (simp_all add: f_def ALPHA_NUMERIC_REGEXP_def)
  have "length (more_paths f (p, replicate k a @ x # s, m)) = 2 ^ k - 1"
  proof (induction k arbitrary: p rule: less_induct)
    case (less k)
    have "length (more_paths f (p, replicate k a @ x # s, m)) =
        (\<Sum>j \<leftarrow> [0..<k]. Suc (length (more_paths f (p + (k - j), replicate j a @ x # s, m))))"
      unfolding more_paths.simps [of f "(p, replicate k a @ x # s, m)"] f length_concat map_map
      by (intro arg_cong [of _ _ sum_list] map_cong) simp_all
    also have "\<dots> = (\<Sum>j \<leftarrow> [0..<k]. 2 ^ j)"
      using less by (intro arg_cong [of _ _ sum_list] map_cong) simp_all
    also have "\<dots> = 2 ^ k - 1" by (induction k) simp_all
    finally show ?case .
  qed
  then show ?thesis by (simp add: repeated_def f_def)
qed

text \<open>
  A separator may be empty, so a run of letters is a name component in exponentially many ways:
  when what follows cannot match, the engine tries them all.
\<close>

lemma component_count:
  assumes "alnum a" "\<not> alnum x" "a \<notin> set ''._-''" "x \<notin> set ''._-''"
  shows "length (paths NAME_COMPONENT_REGEXP (p, replicate k a @ x # s, m)) = 2 ^ k - 1"
proof -
  have "length (paths NAME_COMPONENT_REGEXP (p, replicate k a @ x # s, m)) =
      (\<Sum>j \<leftarrow> [0..<k]. Suc (length (paths (repeated [SEPARATOR_REGEXP, ALPHA_NUMERIC_REGEXP]) (p + (k - j), replicate j a @ x # s, m))))"
    unfolding NAME_COMPONENT_REGEXP_def ALPHA_NUMERIC_REGEXP_def
    using alnum_paths [of alnum a x p k s m] assms(1,2)
    by (simp add: optional_def length_concat o_def del: paths.simps(7) add: paths.simps(7) [of "Chars _"])
  also have "\<dots> = (\<Sum>j \<leftarrow> [0..<k]. 2 ^ j)"
    unfolding repeated_count [OF assms] by (intro arg_cong [of _ _ sum_list] map_cong) simp_all
  also have "\<dots> = 2 ^ k - 1" by (induction k) simp_all
  finally show ?thesis .
qed

lemma no_paths:
  assumes "plain r" "\<And>u. u \<in> lang r \<Longrightarrow> y \<in> set u" "y \<notin> set s"
  shows "paths r (p, s, m) = []"
proof -
  have "ends (lang r) (p, s, m) = {}" using assms(2,3) by (auto simp: ends_def)
  then show ?thesis using paths_ends [OF assms(1), of "(p, s, m)"] by simp
qed

lemma path_tail_none:
  assumes "CHR ''/'' \<notin> set s"
  shows "paths (optional [repeated [literal ''/'', NAME_COMPONENT_REGEXP]]) (p, s, m) = [(p, s, m)]"
proof -
  have slash: "CHR ''/'' \<in> set u" if "u \<in> plus_lang (lang (expression [literal ''/'', NAME_COMPONENT_REGEXP]))" for u
    using that by induction (auto simp: lang_literal)
  have "paths (repeated [literal ''/'', NAME_COMPONENT_REGEXP]) (p, s, m) = []"
    by (rule no_paths [of _ "CHR ''/''"])
      (use slash assms in \<open>simp_all add: repeated_def plain_literal plain_patterns del: expression_simps add: plain_expression\<close>)
  then show ?thesis by (simp add: optional_def)
qed

lemma host_none:
  "CHR ''/'' \<notin> set s \<Longrightarrow> paths (expression [HOSTNAME_REGEXP, literal ''/'']) (p, s, m) = []"
  by (rule no_paths [of _ "CHR ''/''"]) (auto simp: plain_literal plain_patterns lang_literal)

lemma paths_left:
  assumes "plain r" "d \<in> set (paths r (p, s, m))"
  shows "set (left d) \<subseteq> set s"
  using assms(2) unfolding paths_ends [OF assms(1)] by (auto simp: ends_def)

lemma name_count:
  assumes "alnum a" "\<not> alnum x" "a \<notin> set ''._-''" "x \<notin> set ''._-''" "CHR ''/'' \<notin> set (a # x # s)"
  shows "length (paths NAME_REGEXP (p, replicate k a @ x # s, m)) = 2 ^ k - 1"
proof -
  let ?t = "optional [repeated [literal ''/'', NAME_COMPONENT_REGEXP]]"
  let ?ds = "paths NAME_COMPONENT_REGEXP (p, replicate k a @ x # s, m)"
  have s: "CHR ''/'' \<notin> set (replicate k a @ x # s)" using assms(5) by auto
  have "paths ?t d = [d]" if "d \<in> set ?ds" for d
  proof -
    have "CHR ''/'' \<notin> set (left d)" using paths_left [OF plain_patterns(1) that] s by blast
    then show ?thesis using path_tail_none [of "left d" "fst d" "groups_of d"] by simp
  qed
  then have "length (concat (map (paths ?t) ?ds)) = length ?ds"
    by (simp add: length_concat o_def sum_list_triv cong: map_cong)
  moreover have "paths NAME_REGEXP (p, replicate k a @ x # s, m) = concat (map (paths ?t) ?ds)"
    using host_none [OF s, of p m] unfolding NAME_REGEXP_def by (simp add: optional_def [of "[HOSTNAME_REGEXP, _]"])
  ultimately show ?thesis using component_count [OF assms(1-4)] by simp
qed

end
