(* ===== verification/Image_Drivers.thy ===== *)
theory Image_Drivers
  imports Image_Reference "HOL-Library.Sublist"
begin

text \<open>
  The image drivers (\<^verbatim>\<open>zun/image/docker/driver.py\<close>, \<^verbatim>\<open>zun/image/glance\<close>), which find, pull,
  search and delete images, and the methods of the Docker driver and the manager that call them.
  Docker, Glance and the file system are parameters.
\<close>

section \<open>Errors and the environment\<close>

text \<open>
  The Docker client's errors: \<open>ImageNotFound\<close> is a \<open>NotFound\<close>, which is an \<open>APIError\<close>. The
  errors of the service are \<open>ZunException\<close> and its subclasses.
\<close>

datatype img_exn =
    ClientImageNotFound string
  | ClientNotFound string
  | ClientAPIError string
  | GlanceNotFound
  | ImgDockerError imsg
  | ImgNotFound imsg
  | ImgUnsupported imsg
  | ImgConflict imsg
  | ImgZun imsg
  | ImgRef ref_error
  | ImgKeyError
  | ImgIndexError
  | ImgOther string
and imsg = ImsgText string | ImsgOf string img_exn

fun is_api_error :: "img_exn \<Rightarrow> bool" where
  "is_api_error (ClientImageNotFound _) = True"
| "is_api_error (ClientNotFound _) = True"
| "is_api_error (ClientAPIError _) = True"
| "is_api_error _ = False"

fun is_client_not_found :: "img_exn \<Rightarrow> bool" where
  "is_client_not_found (ClientImageNotFound _) = True"
| "is_client_not_found (ClientNotFound _) = True"
| "is_client_not_found _ = False"

fun is_zun_error :: "img_exn \<Rightarrow> bool" where
  "is_zun_error (ImgDockerError _) = True"
| "is_zun_error (ImgNotFound _) = True"
| "is_zun_error (ImgUnsupported _) = True"
| "is_zun_error (ImgConflict _) = True"
| "is_zun_error (ImgZun _) = True"
| "is_zun_error (ImgRef e) = (e \<notin> {InvalidDigest, DigestUnsupported, DigestInvalidLength, RefTypeError})"
| "is_zun_error _ = False"

type_synonym auth = "string option \<times> string option"

type_synonym ('w, 'a) iop = "('w, img_exn, 'a) st"

text \<open>An image of Glance, and one that Docker Hub found: its fields, whose values may be None.\<close>

record gimage =
  gi_id :: string
  gi_name :: string
  gi_tags :: "string list"
  gi_container_format :: string
  gi_checksum :: "string option"

type_synonym found = "(string, string option) dict"

record 'w image_env =
  ie_inspect_image :: "string \<Rightarrow> ('w, bool) iop"
  ie_pull :: "string \<Rightarrow> string \<Rightarrow> auth option \<Rightarrow> ('w, unit) iop"
  ie_search :: "string \<Rightarrow> ('w, found list) iop"
  ie_remove_image :: "string \<Rightarrow> ('w, unit) iop"
  ie_repo_tags :: "string \<Rightarrow> ('w, string list) iop"
  ie_is_uuid_like :: "string \<Rightarrow> bool"
  ie_glance_get :: "string \<Rightarrow> ('w, gimage) iop"
  ie_glance_list :: "('w, gimage list) iop"
  ie_glance_data :: "string \<Rightarrow> ('w, string list) iop"
  ie_isfile :: "string \<Rightarrow> 'w \<Rightarrow> bool"
  ie_md5 :: "string \<Rightarrow> ('w, string) iop"
  ie_write :: "string \<Rightarrow> string list \<Rightarrow> ('w, unit) iop"
  ie_unlink :: "string \<Rightarrow> ('w, unit) iop"
  ie_images_directory :: string
  ie_image_driver_list :: "string list"
  ie_conf :: image_conf

definition image_client :: "('w, 'a) iop \<Rightarrow> ('w, 'a) iop" where
  \<comment> \<open>leaving \<open>docker_client\<close> turns the client's errors into a \<open>DockerError\<close>\<close>
  "image_client m = scatch m (\<lambda>e. if is_api_error e then sraise (ImgDockerError (ImsgOf [] e)) else sraise e)"

definition on_ref :: "(ref_error, 'a) res \<Rightarrow> ('w, 'a) iop" where
  "on_ref r = (case r of Inl e \<Rightarrow> sraise (ImgRef e) | Inr x \<Rightarrow> sreturn x)"

definition should_pull_image :: "string \<Rightarrow> bool \<Rightarrow> bool" where
  "should_pull_image policy present =
     (if policy = ''never'' then False
      else policy = ''always'' \<or> (policy = ''ifnotpresent'' \<and> \<not> present))"

definition get_image_pull_policy :: "string option \<Rightarrow> string" where
  "get_image_pull_policy policy = (if truthy policy then the policy else ''always'')"

text \<open>The dictionary of an image that a driver returns.\<close>

record pulled =
  pl_image :: string
  pl_path :: "string option"
  pl_checksum :: "string option"
  pl_tags :: "string list option"
  pl_driver :: "string option"

section \<open>The driver for Docker registries\<close>

definition docker_delete_image :: "'w image_env \<Rightarrow> string \<Rightarrow> ('w, unit) iop" where
  "docker_delete_image E img_id =
     image_client (scatch (ie_remove_image E img_id)
       (\<lambda>e. case e of ClientImageNotFound _ \<Rightarrow> sreturn () | _ \<Rightarrow> sraise (ImgZun (ImsgOf [] e))))"

definition docker_search_image_on_host :: "'w image_env \<Rightarrow> string \<Rightarrow> string \<Rightarrow> ('w, pulled option) iop" where
  "docker_search_image_on_host E repo tag =
     image_client (scatch
       (sbind (ie_inspect_image E (repo @ '':'' @ tag))
          (\<lambda>found. sreturn (if found
             then Some \<lparr>pl_image = repo, pl_path = None, pl_checksum = None, pl_tags = None, pl_driver = None\<rparr>
             else None)))
       (\<lambda>e. if is_client_not_found e then sreturn None else sraise e))"

definition pull_auth :: "image_conf \<Rightarrow> string \<Rightarrow> registry option \<Rightarrow> auth option" where
  \<comment> \<open>the credentials for the domain of the repository\<close>
  "pull_auth C registry_domain reg =
     (case reg of
        Some rg \<Rightarrow>
          if truthy (rg_username rg) then Some (rg_username rg, rg_password rg)
          else if registry_domain \<noteq> [] \<and> Some registry_domain = default_registry C \<and> truthy (default_registry_username C)
          then Some (default_registry_username C, default_registry_password C)
          else None
      | None \<Rightarrow>
          if registry_domain \<noteq> [] \<and> Some registry_domain = default_registry C \<and> truthy (default_registry_username C)
          then Some (default_registry_username C, default_registry_password C)
          else None)"

definition docker_do_pull_image :: "'w image_env \<Rightarrow> string \<Rightarrow> string \<Rightarrow> registry option \<Rightarrow> ('w, unit) iop" where
  "docker_do_pull_image E repo tag reg =
     sbind (on_ref (ref_parse repo))
       (\<lambda>ref. sbind (on_ref (split_hostname ref))
         (\<lambda>(registry_domain, _).
            image_client (scatch (ie_pull E repo tag (pull_auth (ie_conf E) registry_domain reg))
              (\<lambda>e. if is_client_not_found e then sraise (ImgNotFound (ImsgOf [] e))
                   else if is_api_error e
                   then sraise (ImgZun (ImsgText (''Error on pulling image: '' @ repo @ '':'' @ tag)))
                   else sraise e))))"

definition docker_pull_image ::
    "'w image_env \<Rightarrow> string \<Rightarrow> string \<Rightarrow> string \<Rightarrow> registry option \<Rightarrow> ('w, pulled \<times> bool) iop" where
  "docker_pull_image E repo tag policy reg =
     sbind (docker_search_image_on_host E repo tag)
       (\<lambda>img. if \<not> should_pull_image policy (img \<noteq> None)
              then (case img of
                      Some i \<Rightarrow> sreturn (i, True)
                    | None \<Rightarrow> sraise (ImgNotFound (ImsgText (''Image '' @ repo @ '' not present with pull policy of Never''))))
              else scatch
                (sbind (docker_do_pull_image E repo tag reg)
                   (\<lambda>_. sreturn (\<lparr>pl_image = repo, pl_path = None, pl_checksum = None, pl_tags = None, pl_driver = None\<rparr>, True)))
                (\<lambda>e. case e of
                       ImgNotFound _ \<Rightarrow> sraise e
                     | ImgDockerError _ \<Rightarrow> sraise e
                     | _ \<Rightarrow> sraise (ImgZun (ImsgOf ''Cannot download image from docker: '' e))))"

text \<open>
  The field \<open>metadata\<close> is set to a new dictionary; \<open>image.pop(key, None)\<close> moves two fields to it,
  unless they are None. The dictionary is the second component here.
\<close>

definition with_metadata :: "found \<Rightarrow> found \<times> (string, string) dict" where
  "with_metadata img =
     foldl (\<lambda>(img, meta) key.
        (dict_del key img,
         case dict_get img key of
           Some (Some v) \<Rightarrow> dict_set key v meta
         | _ \<Rightarrow> meta))
       (dict_del ''metadata'' img, []) [''is_official'', ''star_count'']"

definition docker_search_image ::
    "'w image_env \<Rightarrow> string \<Rightarrow> string \<Rightarrow> bool \<Rightarrow> ('w, (found \<times> (string, string) dict) list) iop" where
  "docker_search_image E repo tag exact_match =
     sbind (on_ref (ref_parse repo))
       (\<lambda>ref. sbind (on_ref (split_hostname ref))
         (\<lambda>(registry, image_name).
            if registry \<noteq> [] \<and> registry \<noteq> ''docker.io''
            then sraise (ImgUnsupported (ImsgText (''Image searching is not supported in registry: '' @ registry)))
            else sbind (image_client (scatch (ie_search E image_name)
                   (\<lambda>e. if is_api_error e then sraise (ImgZun (ImsgOf [] e))
                        else sraise (ImgZun (ImsgOf ''Cannot search image in docker: '' e)))))
              (\<lambda>images. sbind
                 (if exact_match
                  then if list_all (\<lambda>i. dict_get i ''name'' \<noteq> None) images
                       then sreturn (filter (\<lambda>i. dict_get i ''name'' = Some (Some image_name)) images)
                       else sraise ImgKeyError
                  else sreturn images)
                 (\<lambda>images. sreturn (map with_metadata images)))))"

section \<open>The driver for Glance\<close>

definition glance_find_images :: "'w image_env \<Rightarrow> string \<Rightarrow> string \<Rightarrow> bool \<Rightarrow> ('w, gimage list) iop" where
  "glance_find_images E ident tag exact_match =
     (if ie_is_uuid_like E ident
      then scatch
        (sbind (ie_glance_get E ident)
           (\<lambda>i. sreturn (if gi_container_format i = ''docker'' then [i] else [])))
        (\<lambda>e. if e = GlanceNotFound then sreturn [] else sraise e)
      else sbind (ie_glance_list E)
        (\<lambda>images.
           let images = (if exact_match then filter (\<lambda>i. gi_name i = ident) images
                         else filter (\<lambda>i. sublist ident (gi_name i)) images)
           in sreturn
                (if tag \<noteq> [] \<and> images \<noteq> []
                 then (case images of
                         [i] \<Rightarrow> if gi_tags i \<noteq> [] \<and> tag \<notin> set (gi_tags i) then [] else [i]
                       | _ \<Rightarrow> filter (\<lambda>i. tag \<in> set (gi_tags i)) images)
                 else images)))"

definition glance_find_image :: "'w image_env \<Rightarrow> string \<Rightarrow> string \<Rightarrow> ('w, gimage) iop" where
  "glance_find_image E ident tag =
     sbind (glance_find_images E ident tag True)
       (\<lambda>matches. case matches of
          [] \<Rightarrow> sraise (ImgNotFound (ImsgText ident))
        | [i] \<Rightarrow> sreturn i
        | _ \<Rightarrow> sraise (ImgConflict (ImsgText (''Multiple images exist with same name '' @ ident))))"

definition tar_path :: "'w image_env \<Rightarrow> gimage \<Rightarrow> string" where
  \<comment> \<open>\<open>os.path.join\<close> of the directory and a relative name\<close>
  "tar_path E i =
     (let d = ie_images_directory E; f = gi_id i @ ''.tar''
      in if f \<noteq> [] \<and> hd f = CHR ''/'' then f
         else if d = [] \<or> last d = CHR ''/'' then d @ f else d @ ''/'' @ f)"

definition glance_search_image_on_host :: "'w image_env \<Rightarrow> string \<Rightarrow> string \<Rightarrow> ('w, pulled option) iop" where
  "glance_search_image_on_host E repo tag =
     sbind (scatch (sbind (glance_find_image E repo tag) (\<lambda>i. sreturn (Some i)))
              (\<lambda>e. case e of ImgNotFound _ \<Rightarrow> sreturn None | _ \<Rightarrow> sraise e))
       (\<lambda>found. case found of
          None \<Rightarrow> sreturn None
        | Some i \<Rightarrow>
            (\<lambda>w. (Inr (if ie_isfile E (tar_path E i) w
                       then Some \<lparr>pl_image = repo, pl_path = Some (tar_path E i), pl_checksum = gi_checksum i,
                                  pl_tags = None, pl_driver = None\<rparr>
                       else None), w)))"

definition glance_verify_md5sum :: "'w image_env \<Rightarrow> pulled \<Rightarrow> ('w, bool) iop" where
  "glance_verify_md5sum E img =
     sbind (ie_md5 E (the (pl_path img))) (\<lambda>sum. sreturn (Some sum = pl_checksum img))"

definition glance_download :: "'w image_env \<Rightarrow> string \<Rightarrow> string \<Rightarrow> ('w, pulled \<times> bool) iop" where
  "glance_download E repo tag =
     sbind (scatch
        (sbind (glance_find_image E repo tag)
           (\<lambda>i. sbind (ie_glance_data E (gi_id i)) (\<lambda>chunks. sreturn (i, chunks))))
        (\<lambda>e. case e of
               ImgNotFound _ \<Rightarrow> sraise e
             | _ \<Rightarrow> sraise (ImgZun (ImsgOf ''Cannot download image from glance: '' e))))
      (\<lambda>(i, chunks). sbind (scatch (ie_write E (tar_path E i) chunks)
          (\<lambda>e. sraise (ImgZun (ImsgOf ''Error occurred while writing image: '' e))))
        (\<lambda>_. sreturn (\<lparr>pl_image = gi_name i, pl_path = Some (tar_path E i), pl_checksum = None,
                       pl_tags = Some (gi_tags i), pl_driver = None\<rparr>, False)))"

definition glance_pull_image ::
    "'w image_env \<Rightarrow> string \<Rightarrow> string \<Rightarrow> string \<Rightarrow> registry option \<Rightarrow> ('w, pulled \<times> bool) iop" where
  "glance_pull_image E repo tag policy reg =
     sbind (glance_search_image_on_host E repo tag)
       (\<lambda>img. if \<not> should_pull_image policy (img \<noteq> None)
              then (case img of
                      Some i \<Rightarrow> sbind (glance_verify_md5sum E i)
                        (\<lambda>ok. if ok then sreturn (i, True) else glance_download E repo tag)
                    | None \<Rightarrow> sraise (ImgNotFound (ImsgText (''Image '' @ repo @ '' not present with pull policy of Never''))))
              else glance_download E repo tag)"

definition glance_search_image :: "'w image_env \<Rightarrow> string \<Rightarrow> string \<Rightarrow> bool \<Rightarrow> ('w, gimage list) iop" where
  "glance_search_image E repo tag exact_match =
     scatch (glance_find_images E repo tag exact_match) (\<lambda>e. sraise (ImgZun (ImsgOf [] e)))"

fun split_colon :: "string \<Rightarrow> string list" where
  \<comment> \<open>\<open>s.split(':')\<close>\<close>
  "split_colon [] = [[]]"
| "split_colon (c # s) =
     (if c = CHR '':'' then [] # split_colon s
      else case split_colon s of [] \<Rightarrow> [[c]] | w # ws \<Rightarrow> (c # w) # ws)"

definition glance_delete_image_tar :: "'w image_env \<Rightarrow> string \<Rightarrow> ('w, unit) iop" where
  "glance_delete_image_tar E img =
     (case split_colon img of
        repo # tag # _ \<Rightarrow>
          sbind (glance_search_image_on_host E repo tag)
            (\<lambda>found. case found of
               None \<Rightarrow> sreturn ()
             | Some i \<Rightarrow> scatch (ie_unlink E (the (pl_path i))) (\<lambda>e. sraise (ImgZun (ImsgOf [] e))))
      | _ \<Rightarrow> sraise ImgIndexError)"

section \<open>The callers\<close>

definition image_driver_loaded :: "'w image_env \<Rightarrow> string option \<Rightarrow> string" where
  "image_driver_loaded E name = (case name of None \<Rightarrow> default_image_driver (ie_conf E) | Some n \<Rightarrow> n)"

text \<open>The Docker driver looks the image driver up by its name; a missing one is a \<open>KeyError\<close>.\<close>

definition to_zun :: "('w, 'a) iop \<Rightarrow> ('w, 'a) iop" where
  "to_zun m = scatch m (\<lambda>e. if is_zun_error e then sraise e else sraise (ImgZun (ImsgOf [] e)))"

definition driver_pull_image ::
    "'w image_env \<Rightarrow> string \<Rightarrow> string \<Rightarrow> string \<Rightarrow> string option \<Rightarrow> registry option \<Rightarrow> ('w, pulled \<times> bool) iop" where
  "driver_pull_image E repo tag policy driver_name reg =
     (let name = image_driver_loaded E driver_name
      in to_zun (sbind
           (if name \<notin> set (ie_image_driver_list E) then sraise ImgKeyError
            else if name = ''glance'' then glance_pull_image E repo tag policy reg
            else if name = ''docker'' then docker_pull_image E repo tag policy reg
            else sraise ImgKeyError)
           (\<lambda>(img, loaded). sreturn (img\<lparr>pl_driver := Some (takeWhile (\<lambda>c. c \<noteq> CHR ''.'') name)\<rparr>, loaded))))"

datatype search_result = DockerImages "(found \<times> (string, string) dict) list" | GlanceImages "gimage list"

definition driver_search_image ::
    "'w image_env \<Rightarrow> string \<Rightarrow> string \<Rightarrow> string option \<Rightarrow> bool \<Rightarrow> ('w, search_result) iop" where
  "driver_search_image E repo tag driver_name exact_match =
     (let name = image_driver_loaded E driver_name
      in to_zun
           (if name \<notin> set (ie_image_driver_list E) then sraise ImgKeyError
            else if name = ''glance''
            then sbind (glance_search_image E repo tag exact_match) (\<lambda>is. sreturn (GlanceImages is))
            else if name = ''docker''
            then sbind (docker_search_image E repo tag exact_match) (\<lambda>is. sreturn (DockerImages is))
            else sraise ImgKeyError))"

definition py_lower :: "string \<Rightarrow> string" where
  "py_lower s =
     map (\<lambda>c. if upper c \<or> (0xC0 \<le> (of_char c :: nat) \<and> (of_char c :: nat) \<le> 0xDE \<and> (of_char c :: nat) \<noteq> 0xD7)
              then char_of ((of_char c :: nat) + 32) else c) s"

text \<open>\<open>load_image_driver\<close> ends the process for a driver that cannot be loaded.\<close>

definition driver_delete_image :: "'w image_env \<Rightarrow> string \<Rightarrow> string option \<Rightarrow> ('w, unit) iop" where
  "driver_delete_image E img_id image_driver =
     sbind (image_client (ie_repo_tags E img_id))
       (\<lambda>tags. case tags of
          [] \<Rightarrow> sraise ImgIndexError
        | img # _ \<Rightarrow>
            sforeach (if truthy image_driver then [py_lower (the image_driver)] else ie_image_driver_list E)
              (\<lambda>name. scatch
                 (if name = ''glance'' then glance_delete_image_tar E img
                  else if name = ''docker'' then docker_delete_image E img_id
                  else sraise (ImgOther ''SystemExit''))
                 (\<lambda>e. if is_zun_error e then sreturn () else sraise e)))"

text \<open>The manager's search, with its decorator that translates other errors, and the image of a container as it is pulled when it is created.\<close>

definition image_search ::
    "'w image_env \<Rightarrow> string \<Rightarrow> string option \<Rightarrow> bool \<Rightarrow> registry option \<Rightarrow> ('w, search_result) iop" where
  "image_search E img driver_name exact_match reg =
     scatch (sbind (on_ref (parse_image_name (ie_conf E) img driver_name reg))
         (\<lambda>(repo, tag). driver_search_image E repo tag driver_name exact_match))
       (\<lambda>e. if is_zun_error e then sraise e else sraise (ImgZun (ImsgOf ''Unexpected error: '' e)))"

definition pull_container_image ::
    "'w image_env \<Rightarrow> string \<Rightarrow> string option \<Rightarrow> string option \<Rightarrow> registry option \<Rightarrow> ('w, pulled \<times> bool) iop" where
  "pull_container_image E img driver_name policy reg =
     sbind (on_ref (parse_image_name (ie_conf E) img driver_name reg))
       (\<lambda>(repo, tag). driver_pull_image E repo tag (get_image_pull_policy policy) driver_name reg)"

section \<open>Credentials\<close>

definition may_send :: "image_conf \<Rightarrow> registry option \<Rightarrow> string \<Rightarrow> auth option \<Rightarrow> bool" where
  \<comment> \<open>the credentials that may go to a repository: none, those of the registry of the request, or
    the default ones, to a repository of the default registry\<close>
  "may_send C reg repo a \<longleftrightarrow>
     a = None
     \<or> (\<exists>rg. reg = Some rg \<and> a = Some (rg_username rg, rg_password rg))
     \<or> (\<exists>d x. default_registry C = Some d \<and> is_domain d \<and> repo = d @ ''/'' @ x
          \<and> a = Some (default_registry_username C, default_registry_password C))"

lemma pull_auth_may_send:
  assumes "ref_parse repo = Inr ref" "split_hostname ref = Inr (dm, w)"
  shows "may_send C reg repo (pull_auth C dm reg)"
proof -
  from assms(1) [unfolded ref_parse_Inr] obtain n t g where
    v: "valid_ref n t g" "repo = ref_text n t g \<or> repo = ref_text n t g @ [CHR 0x0A]" "ref = make_ref n t g" by blast
  have n: "n \<in> lang NAME_REGEXP" using v(1) by (simp add: valid_ref_def)
  have host: "is_domain dm \<and> (\<exists>x. repo = dm @ ''/'' @ x)" if "dm \<noteq> []"
  proof (cases "\<exists>h w. hosted n h w")
    case True
    then obtain h w' where h: "hosted n h w'" by blast
    then have "dm = h" "is_domain h"
      using split_hostname_make(1) [OF n h, of t g] assms(2) v(3) that by (auto split: if_splits)
    with h v(2) show ?thesis by (auto simp: hosted_def ref_text_def)
  next
    case False
    then show ?thesis using split_hostname_make(2) [OF n False, of t g] assms(2) v(3) that by simp
  qed
  have "may_send C reg repo (Some (default_registry_username C, default_registry_password C))"
    if "dm \<noteq> []" "Some dm = default_registry C"
    using host [OF that(1)] that(2) [symmetric] unfolding may_send_def by blast
  moreover have "may_send C (Some rg) repo (Some (rg_username rg, rg_password rg))" "may_send C reg repo None" for rg
    by (simp_all add: may_send_def)
  ultimately show ?thesis by (cases reg) (simp_all add: pull_auth_def)
qed

lemma do_pull_guarded:
  "docker_do_pull_image (E\<lparr>ie_pull := \<lambda>r t a. if may_send (ie_conf E) reg r a then ie_pull E r t a else X r t a\<rparr>) repo tag reg
   = docker_do_pull_image E repo tag reg"
proof (cases "ref_parse repo")
  case (Inr ref)
  then show ?thesis
    using pull_auth_may_send [OF Inr]
    by (cases "split_hostname ref")
      (auto simp: docker_do_pull_image_def on_ref_def sbind_def sreturn_def sraise_def fun_eq_iff)
qed (simp add: docker_do_pull_image_def on_ref_def sbind_def sraise_def fun_eq_iff)

text \<open>Nothing but the pull itself uses that call of the client.\<close>

lemma pull_unused [simp]:
  "tar_path (E\<lparr>ie_pull := f\<rparr>) i = tar_path E i"
  "image_driver_loaded (E\<lparr>ie_pull := f\<rparr>) name = image_driver_loaded E name"
  "docker_search_image_on_host (E\<lparr>ie_pull := f\<rparr>) repo tag = docker_search_image_on_host E repo tag"
  "glance_find_images (E\<lparr>ie_pull := f\<rparr>) ident tag ex = glance_find_images E ident tag ex"
  by (simp_all add: tar_path_def image_driver_loaded_def docker_search_image_on_host_def glance_find_images_def
      cong: option.case_cong)

lemma glance_unused [simp]:
  "glance_find_image (E\<lparr>ie_pull := f\<rparr>) repo tag = glance_find_image E repo tag"
  by (simp add: glance_find_image_def)

lemma glance_pull_unused [simp]:
  "glance_search_image_on_host (E\<lparr>ie_pull := f\<rparr>) repo tag = glance_search_image_on_host E repo tag"
  "glance_verify_md5sum (E\<lparr>ie_pull := f\<rparr>) img = glance_verify_md5sum E img"
  "glance_download (E\<lparr>ie_pull := f\<rparr>) repo tag = glance_download E repo tag"
  by (simp_all add: glance_search_image_on_host_def glance_verify_md5sum_def glance_download_def
      cong: option.case_cong if_cong)

lemma driver_pull_guarded:
  "driver_pull_image (E\<lparr>ie_pull := \<lambda>r t a. if may_send (ie_conf E) reg r a then ie_pull E r t a else X r t a\<rparr>)
     repo tag policy name reg
   = driver_pull_image E repo tag policy name reg"
  by (simp add: driver_pull_image_def docker_pull_image_def glance_pull_image_def do_pull_guarded Let_def
      cong: option.case_cong if_cong)

text \<open>
  C13. When the image of a container is pulled, the credentials of the default registry are sent
  only to repositories of the default registry, and no other credentials than these and those of
  the registry that the request names are sent: a client that would do something else for any
  other credentials gives the same result.
\<close>

theorem default_credentials_guarded:
  "pull_container_image (E\<lparr>ie_pull := \<lambda>r t a. if may_send (ie_conf E) reg r a then ie_pull E r t a else X r t a\<rparr>)
     img driver_name policy reg
   = pull_container_image E img driver_name policy reg"
  by (simp add: pull_container_image_def driver_pull_guarded)

text \<open>
  C39. The credentials of the registry of a request go to the host that the name of the image
  gives, also when this is another host than that of the registry.
\<close>

theorem registry_credentials_misdirected:
  assumes "valid_ref n (Some t) None" "hosted n h x" "is_domain h" "h \<noteq> rg_domain rg" "truthy (rg_username rg)"
    and "''docker'' \<in> set (ie_image_driver_list E)"
    and "ie_inspect_image E (n @ '':'' @ t) w = (Inr found, w1)"
    and "ie_pull E n t (Some (rg_username rg, rg_password rg)) w1 = (Inr (), w2)"
  shows "\<exists>p. pull_container_image E (n @ '':'' @ t) (Some ''docker'') None (Some rg) w = (Inr (p, True), w2) \<and> pl_image p = n"
proof -
  have n: "n \<in> lang NAME_REGEXP" using assms(1) by (simp add: valid_ref_def)
  have v: "valid_ref n None None" using assms(1) by (simp add: valid_ref_def)
  have "parse_image_name (ie_conf E) (n @ '':'' @ t) (Some ''docker'') (Some rg) = Inr (n, t)"
    using parse_image_name_valid [OF assms(1) disjI1 [OF refl]] assms(2,3) by (auto simp: ref_text_def repo_of_def)
  moreover have "ref_parse n = Inr (make_ref n None None)"
    unfolding ref_parse_Inr using v by (intro exI [of _ n] exI [of _ None]) (simp add: ref_text_def)
  moreover have "split_hostname (make_ref n None None) = Inr (h, x)"
    using split_hostname_make(1) [OF n assms(2)] assms(3) by simp
  moreover have "pull_auth (ie_conf E) h (Some rg) = Some (rg_username rg, rg_password rg)"
    using assms(5) by (simp add: pull_auth_def)
  ultimately show ?thesis
    using assms(6-8)
    by (simp add: pull_container_image_def driver_pull_image_def docker_pull_image_def docker_do_pull_image_def
        docker_search_image_on_host_def image_client_def on_ref_def image_driver_loaded_def to_zun_def
        get_image_pull_policy_def should_pull_image_def st_defs)
qed

text \<open>An image of one host, and a registry of another.\<close>

definition sample_env :: "(auth option) list image_env" where
  \<comment> \<open>the state collects the credentials that were sent\<close>
  "sample_env =
     \<lparr>ie_inspect_image = (\<lambda>_. sreturn False),
      ie_pull = (\<lambda>_ _ a w. (Inr (), a # w)), ie_search = (\<lambda>_. sreturn []), ie_remove_image = (\<lambda>_. sreturn ()),
      ie_repo_tags = (\<lambda>_. sreturn []), ie_is_uuid_like = (\<lambda>_. False),
      ie_glance_get = (\<lambda>_. sraise GlanceNotFound), ie_glance_list = sreturn [], ie_glance_data = (\<lambda>_. sreturn []),
      ie_isfile = (\<lambda>_ _. False), ie_md5 = (\<lambda>_. sreturn []), ie_write = (\<lambda>_ _. sreturn ()), ie_unlink = (\<lambda>_. sreturn ()),
      ie_images_directory = [], ie_image_driver_list = [''docker''],
      ie_conf = \<lparr>default_image_driver = ''docker'', default_registry = None,
        default_registry_username = None, default_registry_password = None\<rparr>\<rparr>"

lemma other_host_image: "hosted ''b.c/x'' ''b.c'' ''x'' \<and> valid_ref ''b.c/x'' (Some ''1'') None"
proof -
  have c: "''b'' \<in> lang HOSTNAME_COMPONENT_REGEXP" "''c'' \<in> lang HOSTNAME_COMPONENT_REGEXP"
    by (simp_all add: HOSTNAME_COMPONENT_REGEXP_def char_defs)
  have "''.'' @ ''c'' \<in> lang (expression [literal ''.'', HOSTNAME_COMPONENT_REGEXP])"
    using c(2) by (simp add: lang_literal)
  then have "''.c'' \<in> lang (repeated [literal ''.'', HOSTNAME_COMPONENT_REGEXP])"
    unfolding repeated_def lang.simps by (auto intro: plus_lang.one)
  then have "''.c'' \<in> lang (optional [repeated [literal ''.'', HOSTNAME_COMPONENT_REGEXP]])"
    by (simp add: optional_def)
  then have "''.c'' \<in> lang (expression [optional [repeated [literal ''.'', HOSTNAME_COMPONENT_REGEXP]],
      optional [literal '':'', Some_more (Chars is_digit)]])"
    unfolding expression_simps by (intro in_Seq_left nil_optional) simp_all
  with c(1) have "''b'' @ ''.c'' \<in> lang HOSTNAME_REGEXP"
    unfolding HOSTNAME_REGEXP_def expression_simps(2) [of HOSTNAME_COMPONENT_REGEXP] lang.simps by blast
  moreover have "''x'' \<in> lang path_regexp"
    unfolding expression_simps by (intro in_Seq_left nil_optional simple_component) (simp_all add: char_defs)
  ultimately have h: "hosted ''b.c/x'' ''b.c'' ''x''" by (simp add: hosted_def del: expression_simps)
  then have "''b.c/x'' \<in> lang NAME_REGEXP" using lang_name by blast
  moreover have "''1'' \<in> lang TAG_REGEXP" by (rule simple_tag) (simp add: char_defs)
  ultimately show ?thesis using h by (simp add: valid_ref_def NAME_TOTAL_LENGTH_MAX_def)
qed

theorem registry_credentials_misdirected_witness:
  "\<exists>p. pull_container_image sample_env ''b.c/x:1'' (Some ''docker'') None
     (Some \<lparr>rg_domain = ''a.io'', rg_username = Some ''u'', rg_password = Some ''p''\<rparr>) []
   = (Inr (p, True), [Some (Some ''u'', Some ''p'')]) \<and> pl_image p = ''b.c/x''"
proof -
  let ?rg = "\<lparr>rg_domain = ''a.io'', rg_username = Some ''u'', rg_password = Some ''p''\<rparr>"
  have "\<exists>p. pull_container_image sample_env (''b.c/x'' @ '':'' @ ''1'') (Some ''docker'') None (Some ?rg) []
      = (Inr (p, True), [Some (Some ''u'', Some ''p'')]) \<and> pl_image p = ''b.c/x''"
    by (rule registry_credentials_misdirected [of "''b.c/x''" "''1''" "''b.c''" "''x''" ?rg sample_env "[]" False "[]"])
      (use other_host_image in \<open>simp_all add: is_domain_def sample_env_def sreturn_def\<close>)
  then show ?thesis by simp
qed

section \<open>Images of Glance\<close>

text \<open>
  The image found by name is one of the list with that name; it has the tag, or has no tags and
  is the only one with the name.
\<close>

lemma glance_find_image_named:
  assumes "glance_find_image E ident tag w = (Inr i, w')" "\<not> ie_is_uuid_like E ident"
  shows "\<exists>images. ie_glance_list E w = (Inr images, w') \<and> i \<in> set images \<and> gi_name i = ident
    \<and> (tag = [] \<or> tag \<in> set (gi_tags i) \<or> gi_tags i = [] \<and> filter (\<lambda>i. gi_name i = ident) images = [i])"
proof -
  from assms(1) [unfolded glance_find_image_def sbind_Inr_iff] obtain ms w1
    where ms1: "glance_find_images E ident tag True w = (Inr ms, w1)"
      and "(case ms of [] \<Rightarrow> sraise (ImgNotFound (ImsgText ident)) | [i] \<Rightarrow> sreturn i
        | _ \<Rightarrow> sraise (ImgConflict (ImsgText (''Multiple images exist with same name '' @ ident)))) w1 = (Inr i, w')" by blast
  then have "ms = [i] \<and> w1 = w'"
    by (cases ms; cases "tl ms") (simp_all add: sreturn_def sraise_def)
  with ms1 have "glance_find_images E ident tag True w = (Inr [i], w')" by simp
  then obtain images where l: "ie_glance_list E w = (Inr images, w')"
    and ms: "[i] = (let images = filter (\<lambda>i. gi_name i = ident) images
       in if tag \<noteq> [] \<and> images \<noteq> []
          then (case images of [i] \<Rightarrow> if gi_tags i \<noteq> [] \<and> tag \<notin> set (gi_tags i) then [] else [i]
                | _ \<Rightarrow> filter (\<lambda>i. tag \<in> set (gi_tags i)) images)
          else images)"
    using assms(2) unfolding glance_find_images_def by (auto simp: sbind_Inr_iff sreturn_def Let_def)
  define named where "named = filter (\<lambda>i. gi_name i = ident) images"
  have "i \<in> set named \<and> (tag = [] \<or> tag \<in> set (gi_tags i) \<or> gi_tags i = [] \<and> named = [i])"
  proof (cases "tag \<noteq> [] \<and> (\<nexists>j. named = [j])")
    case True
    then have "[i] = filter (\<lambda>i. tag \<in> set (gi_tags i)) named"
      using ms by (auto simp: Let_def named_def [symmetric] split: list.splits if_splits)
    then have "i \<in> set (filter (\<lambda>i. tag \<in> set (gi_tags i)) named)" by (metis list.set_intros(1))
    then show ?thesis by simp
  qed (use ms in \<open>auto simp: Let_def named_def [symmetric] split: if_splits\<close>)
  then show ?thesis using l by (auto simp: named_def)
qed

text \<open>A damaged file is downloaded again, also with the policy never to pull.\<close>

lemma glance_never_downloads:
  assumes "glance_search_image_on_host E repo tag w = (Inr (Some p), w1)" "glance_verify_md5sum E p w1 = (Inr False, w2)"
  shows "glance_pull_image E repo tag ''never'' reg w = glance_download E repo tag w2"
  using assms by (simp add: glance_pull_image_def should_pull_image_def sbind_def)

end
