(* ===== verification/Volume_Drivers.thy ===== *)
theory Volume_Drivers
  imports Image_Drivers
begin

text \<open>
  The volume drivers (\<^verbatim>\<open>zun/volume/driver.py\<close>), the workflow that attaches and detaches Cinder
  volumes (\<^verbatim>\<open>zun/volume/cinder_workflow.py\<close>) over the client of Cinder
  (\<^verbatim>\<open>zun/volume/cinder_api.py\<close>), and mounting (\<^verbatim>\<open>zun/common/mount.py\<close>). Cinder, the
  connectors of os-brick and the commands of the host are parameters, whose answers may depend on
  all calls made before; the state keeps these calls in order.
\<close>

section \<open>Calls, errors and the environment\<close>

text \<open>
  Of Cinder's errors, \<open>BadRequest\<close> and \<open>NotFound\<close> are a \<open>ClientException\<close>; \<open>NoUniqueMatch\<close> is
  not.
\<close>

datatype vexn =
    CinderBadRequest string
  | CinderNotFound
  | CinderClientException string
  | CinderNoUniqueMatch
  | BrickDeviceNotFound
  | BrickException string
  | CommandError
  | VolInvalid vexn
  | VolNotFound string
  | VolConflict
  | VolNotUsable string
  | VolInUse string
  | VolCreateFailed vexn
  | VolDeleteFailed vexn
  | MountException
  | UnmountException
  | MakeFileSystemException
  | MountsNotFound
  | ProviderNotSupported string
  | VolTypeError
  | VolOther string

fun is_client_exception :: "vexn \<Rightarrow> bool" where
  "is_client_exception (CinderBadRequest _) = True"
| "is_client_exception CinderNotFound = True"
| "is_client_exception (CinderClientException _) = True"
| "is_client_exception _ = False"

fun is_vol_zun_error :: "vexn \<Rightarrow> bool" where
  "is_vol_zun_error (CinderBadRequest _) = False"
| "is_vol_zun_error CinderNotFound = False"
| "is_vol_zun_error (CinderClientException _) = False"
| "is_vol_zun_error CinderNoUniqueMatch = False"
| "is_vol_zun_error BrickDeviceNotFound = False"
| "is_vol_zun_error (BrickException _) = False"
| "is_vol_zun_error VolTypeError = False"
| "is_vol_zun_error (VolOther _) = False"
| "is_vol_zun_error _ = True"

record conn =
  cn_type :: string
  cn_data :: "(string, string) dict"

record cvolume =
  cv_id :: string
  cv_status :: string
  cv_multiattach :: bool
  cv_attachments :: "(string \<times> string) list"
  cv_tenant :: "string option"

text \<open>An attachment is a pair of the server and its id.\<close>

datatype vcall =
    CReserve string
  | CUnreserve string
  | CInitialize string string
  | CTerminate string string
  | CAttach string string string string
  | CDetach string "string option"
  | CBeginDetaching string
  | CRollDetaching string
  | CGet string
  | CFind string
  | CCreate int
  | CDelete string
  | Properties
  | Connect bool conn
  | Disconnect bool conn
  | SaveMapping "string option"
  | ListHosts string
  | CatMounts
  | RunMount string string string
  | RunMkfs string string
  | RunUmount string
  | EnsureTree string
  | RmTree string
  | WriteFile string string

record vol_env =
  ve_reserve :: "string \<Rightarrow> vcall list \<Rightarrow> (vexn, unit) res"
  ve_unreserve :: "string \<Rightarrow> vcall list \<Rightarrow> (vexn, unit) res"
  ve_initialize :: "string \<Rightarrow> string \<Rightarrow> vcall list \<Rightarrow> (vexn, conn) res"
  ve_terminate :: "string \<Rightarrow> string \<Rightarrow> vcall list \<Rightarrow> (vexn, unit) res"
  ve_attach :: "string \<Rightarrow> string \<Rightarrow> string \<Rightarrow> string \<Rightarrow> vcall list \<Rightarrow> (vexn, unit) res"
  ve_detach :: "string \<Rightarrow> string option \<Rightarrow> vcall list \<Rightarrow> (vexn, unit) res"
  ve_begin_detaching :: "string \<Rightarrow> vcall list \<Rightarrow> (vexn, unit) res"
  ve_roll_detaching :: "string \<Rightarrow> vcall list \<Rightarrow> (vexn, unit) res"
  ve_get :: "string \<Rightarrow> vcall list \<Rightarrow> (vexn, cvolume) res"
  ve_find :: "string \<Rightarrow> vcall list \<Rightarrow> (vexn, cvolume) res"
  ve_create :: "int \<Rightarrow> vcall list \<Rightarrow> (vexn, cvolume) res"
  ve_delete :: "string \<Rightarrow> vcall list \<Rightarrow> (vexn, unit) res"
  ve_properties :: "vcall list \<Rightarrow> (vexn, string) res"
  ve_connect :: "bool \<Rightarrow> conn \<Rightarrow> vcall list \<Rightarrow> (vexn, string) res"
  ve_disconnect :: "bool \<Rightarrow> conn \<Rightarrow> vcall list \<Rightarrow> (vexn, unit) res"
  ve_save :: "string option \<Rightarrow> vcall list \<Rightarrow> (vexn, unit) res"
  ve_list_hosts :: "string \<Rightarrow> vcall list \<Rightarrow> (vexn, string option list) res"
  ve_cat_mounts :: "vcall list \<Rightarrow> (vexn, string) res"
  ve_mount :: "string \<Rightarrow> string \<Rightarrow> string \<Rightarrow> vcall list \<Rightarrow> (vexn, unit) res"
  ve_mkfs :: "string \<Rightarrow> string \<Rightarrow> vcall list \<Rightarrow> (vexn, unit) res"
  ve_umount :: "string \<Rightarrow> vcall list \<Rightarrow> (vexn, unit) res"
  ve_ensure_tree :: "string \<Rightarrow> vcall list \<Rightarrow> (vexn, unit) res"
  ve_rmtree :: "string \<Rightarrow> vcall list \<Rightarrow> (vexn, unit) res"
  ve_write_file :: "string \<Rightarrow> string \<Rightarrow> vcall list \<Rightarrow> (vexn, unit) res"
  ve_dumps :: "conn \<Rightarrow> (vexn, string) res"
  ve_loads :: "string \<Rightarrow> (vexn, conn) res"
  ve_decode :: "string \<Rightarrow> (vexn, string) res"
  ve_is_uuid_like :: "string \<Rightarrow> bool"
  ve_host :: string
  ve_project_id :: string
  ve_volume_dir :: string
  ve_fstype :: string

text \<open>The mapping of a volume to a container, and the state: the calls, and the mapping's field that changes.\<close>

record vmapping =
  vm_volume_uuid :: string
  vm_cinder_volume_id :: string
  vm_container_uuid :: string
  vm_provider :: string
  vm_container_path :: string
  vm_contents :: string

record vstate =
  vs_calls :: "vcall list"
  vs_connection_info :: "string option"

type_synonym 'a vop = "(vstate, vexn, 'a) st"

definition call :: "vcall \<Rightarrow> (vcall list \<Rightarrow> (vexn, 'a) res) \<Rightarrow> 'a vop" where
  "call c f s = (f (vs_calls s), s\<lparr>vs_calls := vs_calls s @ [c]\<rparr>)"

definition reraise_after :: "unit vop \<Rightarrow> vexn \<Rightarrow> 'a vop" where
  \<comment> \<open>\<open>save_and_reraise_exception\<close>: an error of the block replaces the one that is saved\<close>
  "reraise_after m e = sbind m (\<lambda>_. sraise e)"

definition rlift :: "(vexn, 'a) res \<Rightarrow> 'a vop" where
  "rlift r = slift r"

section \<open>The client of Cinder (\<^verbatim>\<open>cinder_api.py\<close>)\<close>

definition cinder_get :: "vol_env \<Rightarrow> string \<Rightarrow> cvolume vop" where
  "cinder_get E volume_id = call (CGet volume_id) (ve_get E volume_id)"

definition search_volume :: "vol_env \<Rightarrow> string \<Rightarrow> cvolume vop" where
  "search_volume E volume =
     (if ve_is_uuid_like E volume
      then scatch (cinder_get E volume)
        (\<lambda>e. if e = CinderNotFound then sraise (VolNotFound volume) else sraise e)
      else scatch (call (CFind volume) (ve_find E volume))
        (\<lambda>e. if e = CinderNotFound then sraise (VolNotFound volume)
             else if e = CinderNoUniqueMatch then sraise VolConflict else sraise e))"

definition ensure_volume_usable :: "vol_env \<Rightarrow> cvolume \<Rightarrow> unit vop" where
  "ensure_volume_usable E v =
     (if (case cv_tenant v of None \<Rightarrow> False | Some t \<Rightarrow> t \<noteq> ve_project_id E) then sraise (VolNotUsable (cv_id v))
      else if cv_attachments v \<noteq> [] \<and> \<not> cv_multiattach v then sraise (VolInUse (cv_id v))
      else sreturn ())"

definition reserve_volume :: "vol_env \<Rightarrow> string \<Rightarrow> unit vop" where
  "reserve_volume E volume_id = call (CReserve volume_id) (ve_reserve E volume_id)"

definition unreserve_volume :: "vol_env \<Rightarrow> string \<Rightarrow> unit vop" where
  "unreserve_volume E volume_id = call (CUnreserve volume_id) (ve_unreserve E volume_id)"

definition terminate_connection :: "vol_env \<Rightarrow> string \<Rightarrow> string \<Rightarrow> unit vop" where
  "terminate_connection E volume_id connector =
     call (CTerminate volume_id connector) (ve_terminate E volume_id connector)"

definition initialize_connection :: "vol_env \<Rightarrow> string \<Rightarrow> string \<Rightarrow> conn vop" where
  "initialize_connection E volume_id connector =
     scatch (call (CInitialize volume_id connector) (ve_initialize E volume_id connector))
       (\<lambda>e. if is_client_exception e
            then reraise_after (scatch (terminate_connection E volume_id connector) (\<lambda>_. sreturn ())) e
            else sraise e)"

definition cinder_attach :: "vol_env \<Rightarrow> string \<Rightarrow> string \<Rightarrow> string \<Rightarrow> unit vop" where
  "cinder_attach E volume_id mountpoint container =
     call (CAttach volume_id mountpoint (ve_host E) container) (ve_attach E volume_id mountpoint (ve_host E) container)"

definition attachment_of :: "cvolume \<Rightarrow> string \<Rightarrow> string option" where
  "attachment_of v container = map_option snd (List.find (\<lambda>(server, _). server = container) (cv_attachments v))"

definition cinder_detach :: "vol_env \<Rightarrow> vmapping \<Rightarrow> unit vop" where
  "cinder_detach E vm =
     sbind (cinder_get E (vm_cinder_volume_id vm))
       (\<lambda>v. let attachment = attachment_of v (vm_container_uuid vm)
            in call (CDetach (vm_cinder_volume_id vm) attachment) (ve_detach E (vm_cinder_volume_id vm) attachment))"

definition begin_detaching :: "vol_env \<Rightarrow> string \<Rightarrow> unit vop" where
  "begin_detaching E volume_id = call (CBeginDetaching volume_id) (ve_begin_detaching E volume_id)"

definition roll_detaching :: "vol_env \<Rightarrow> string \<Rightarrow> unit vop" where
  "roll_detaching E volume_id = call (CRollDetaching volume_id) (ve_roll_detaching E volume_id)"

definition create_volume :: "vol_env \<Rightarrow> int \<Rightarrow> cvolume vop" where
  "create_volume E sz =
     scatch (call (CCreate sz) (ve_create E sz))
       (\<lambda>e. if is_client_exception e then sraise (VolCreateFailed e) else sraise e)"

definition api_delete_volume :: "vol_env \<Rightarrow> string \<Rightarrow> unit vop" where
  "api_delete_volume E volume_id =
     scatch (call (CDelete volume_id) (ve_delete E volume_id))
       (\<lambda>e. if is_client_exception e then sraise (VolDeleteFailed e) else sraise e)"

section \<open>The workflow (\<^verbatim>\<open>cinder_workflow.py\<close>)\<close>

definition get_volume_connector_properties :: "vol_env \<Rightarrow> string vop" where
  "get_volume_connector_properties E = call Properties (ve_properties E)"

definition is_rbd :: "string \<Rightarrow> bool" where
  \<comment> \<open>\<open>protocol.upper() == "RBD"\<close>; the connector then attaches locally\<close>
  "is_rbd protocol \<longleftrightarrow> py_lower protocol = ''rbd''"

definition connect_volume :: "vol_env \<Rightarrow> conn \<Rightarrow> string vop" where
  \<comment> \<open>the path of the device\<close>
  "connect_volume E ci = call (Connect (is_rbd (cn_type ci)) ci) (ve_connect E (is_rbd (cn_type ci)) ci)"

definition disconnect_volume :: "vol_env \<Rightarrow> conn \<Rightarrow> unit vop" where
  "disconnect_volume E ci = call (Disconnect (is_rbd (cn_type ci)) ci) (ve_disconnect E (is_rbd (cn_type ci)) ci)"

definition terminate_with_properties :: "vol_env \<Rightarrow> string \<Rightarrow> unit vop" where
  "terminate_with_properties E volume_id =
     sbind (get_volume_connector_properties E) (terminate_connection E volume_id)"

definition save_mapping :: "vol_env \<Rightarrow> unit vop" where
  "save_mapping E s = call (SaveMapping (vs_connection_info s)) (ve_save E (vs_connection_info s)) s"

definition with_device_path :: "conn \<Rightarrow> string \<Rightarrow> conn" where
  "with_device_path ci path = ci\<lparr>cn_data := dict_set ''device_path'' path (cn_data ci)\<rparr>"

definition keep_connection_info :: "vol_env \<Rightarrow> conn \<Rightarrow> unit vop" where
  \<comment> \<open>information that cannot be encoded leaves the field as it was\<close>
  "keep_connection_info E ci =
     (case ve_dumps E ci of
        Inr text \<Rightarrow> smodify (\<lambda>s. s\<lparr>vs_connection_info := Some text\<rparr>)
      | Inl e \<Rightarrow> if e = VolTypeError then sreturn () else sraise e)"

definition undo_attachment :: "vol_env \<Rightarrow> vmapping \<Rightarrow> conn \<Rightarrow> unit vop" where
  \<comment> \<open>the handler of a failed attachment\<close>
  "undo_attachment E vm ci =
     sbind (scatch (disconnect_volume E ci) (\<lambda>e. if e = BrickDeviceNotFound then sreturn () else sraise e))
       (\<lambda>_. sbind (terminate_with_properties E (vm_cinder_volume_id vm)) (\<lambda>_. cinder_detach E vm))"

definition do_attach_volume :: "vol_env \<Rightarrow> vmapping \<Rightarrow> string vop" where
  "do_attach_volume E vm =
     (let volume_id = vm_cinder_volume_id vm
      in sbind (reserve_volume E volume_id)
        (\<lambda>_. sbind (get_volume_connector_properties E)
        (\<lambda>connector. sbind (initialize_connection E volume_id connector)
        (\<lambda>ci. sbind (scatch (connect_volume E ci) (reraise_after (terminate_with_properties E volume_id)))
        (\<lambda>path. let ci = with_device_path ci path
           in sbind (keep_connection_info E ci)
        (\<lambda>_. sbind (save_mapping E)
        (\<lambda>_. sbind (scatch (cinder_attach E volume_id path (vm_container_uuid vm))
               (reraise_after (undo_attachment E vm ci)))
        (\<lambda>_. sreturn path))))))))"

definition attach_volume :: "vol_env \<Rightarrow> vmapping \<Rightarrow> string vop" where
  "attach_volume E vm =
     scatch (do_attach_volume E vm) (reraise_after (unreserve_volume E (vm_cinder_volume_id vm)))"

definition volume_connection_keep :: "vol_env \<Rightarrow> string \<Rightarrow> bool vop" where
  "volume_connection_keep E volume_id =
     sbind (call (ListHosts volume_id) (ve_list_hosts E volume_id))
       (\<lambda>hosts. sreturn (count_list hosts (Some (ve_host E)) \<noteq> 1))"

definition stored_connection :: "vol_env \<Rightarrow> conn vop" where
  \<comment> \<open>decoding None raises\<close>
  "stored_connection E s =
     (case vs_connection_info s of None \<Rightarrow> (Inl VolTypeError, s) | Some text \<Rightarrow> (ve_loads E text, s))"

definition workflow_detach_volume :: "vol_env \<Rightarrow> vmapping \<Rightarrow> unit vop" where
  "workflow_detach_volume E vm =
     (let volume_id = vm_cinder_volume_id vm
      in sbind (scatch (begin_detaching E volume_id)
           (\<lambda>e. case e of CinderBadRequest _ \<Rightarrow> sraise (VolInvalid e) | _ \<Rightarrow> sraise e))
        (\<lambda>_. sbind (stored_connection E)
        (\<lambda>ci. sbind (volume_connection_keep E volume_id)
        (\<lambda>keep. sbind (if keep then sreturn ()
                       else sbind (scatch (disconnect_volume E ci) (reraise_after (roll_detaching E volume_id)))
                              (\<lambda>_. terminate_with_properties E volume_id))
        (\<lambda>_. cinder_detach E vm)))))"

definition workflow_delete_volume :: "vol_env \<Rightarrow> vmapping \<Rightarrow> unit vop" where
  \<comment> \<open>the handler names a module instead of a class of exceptions, which is a \<open>TypeError\<close> when an
    exception reaches it\<close>
  "workflow_delete_volume E vm =
     scatch (api_delete_volume E (vm_cinder_volume_id vm)) (\<lambda>_. sraise VolTypeError)"

section \<open>Mounting (\<^verbatim>\<open>common/mount.py\<close>)\<close>

record mount_info =
  mi_device :: string
  mi_mountpoint :: string
  mi_fstype :: string
  mi_opts :: string

fun split_lines :: "string \<Rightarrow> string list" where
  \<comment> \<open>\<open>out.split('\n')\<close>\<close>
  "split_lines [] = [[]]"
| "split_lines (c # s) =
     (if c = CHR 0x0A then [] # split_lines s
      else case split_lines s of [] \<Rightarrow> [[c]] | w # ws \<Rightarrow> (c # w) # ws)"

definition py_space :: "char \<Rightarrow> bool" where
  "py_space c \<longleftrightarrow> (of_char c :: nat) \<in> set [9, 10, 11, 12, 13, 28, 29, 30, 31, 32, 0x85, 0xA0]"

fun tokens_from :: "string \<Rightarrow> string \<Rightarrow> string list" where
  "tokens_from w [] = (if w = [] then [] else [rev w])"
| "tokens_from w (c # s) =
     (if py_space c then (if w = [] then tokens_from [] s else rev w # tokens_from [] s)
      else tokens_from (c # w) s)"

definition mount_line :: "string \<Rightarrow> mount_info option" where
  "mount_line line =
     (case tokens_from [] line of
        d # m # f # opts # _ \<Rightarrow> Some \<lparr>mi_device = d, mi_mountpoint = m, mi_fstype = f, mi_opts = opts\<rparr>
      | _ \<Rightarrow> None)"

definition read_mounts :: "vol_env \<Rightarrow> mount_info list vop" where
  "read_mounts E =
     sbind (scatch (call CatMounts (ve_cat_mounts E))
              (\<lambda>e. if e = CommandError then sraise MountsNotFound else sraise e))
       (\<lambda>out. sreturn (List.map_filter mount_line (split_lines out)))"

definition check_already_mounted :: "vol_env \<Rightarrow> string \<Rightarrow> bool vop" where
  "check_already_mounted E mountpoint =
     sbind (read_mounts E) (\<lambda>ms. sreturn (list_ex (\<lambda>m. mi_mountpoint m = mountpoint) ms))"

definition run_mount :: "vol_env \<Rightarrow> string \<Rightarrow> string \<Rightarrow> unit vop" where
  "run_mount E devpath mountpoint =
     scatch (call (RunMount (ve_fstype E) devpath mountpoint) (ve_mount E (ve_fstype E) devpath mountpoint))
       (\<lambda>e. if e = CommandError then sraise MountException else sraise e)"

definition make_filesystem :: "vol_env \<Rightarrow> string \<Rightarrow> unit vop" where
  "make_filesystem E devpath =
     scatch (call (RunMkfs (ve_fstype E) devpath) (ve_mkfs E (ve_fstype E) devpath))
       (\<lambda>e. if e = CommandError then sraise MakeFileSystemException else sraise e)"

definition do_mount :: "vol_env \<Rightarrow> string \<Rightarrow> string \<Rightarrow> unit vop" where
  \<comment> \<open>the last handler only logs\<close>
  "do_mount E devpath mountpoint =
     sbind (check_already_mounted E mountpoint)
       (\<lambda>mounted. if mounted then sreturn ()
          else scatch (run_mount E devpath mountpoint)
            (\<lambda>e. if e = MountException
                 then sbind (make_filesystem E devpath) (\<lambda>_. run_mount E devpath mountpoint)
                 else sraise e))"

definition do_unmount :: "vol_env \<Rightarrow> string \<Rightarrow> unit vop" where
  "do_unmount E mountpoint =
     sbind (check_already_mounted E mountpoint)
       (\<lambda>mounted. if \<not> mounted then sreturn ()
          else scatch (call (RunUmount mountpoint) (ve_umount E mountpoint))
            (\<lambda>e. if e = CommandError then sraise UnmountException else sraise e))"

definition get_mountpoint :: "vol_env \<Rightarrow> string \<Rightarrow> string" where
  \<comment> \<open>\<open>os.path.join\<close>\<close>
  "get_mountpoint E u =
     (if u \<noteq> [] \<and> hd u = CHR ''/'' then u
      else if ve_volume_dir E = [] \<or> last (ve_volume_dir E) = CHR ''/'' then ve_volume_dir E @ u
      else ve_volume_dir E @ ''/'' @ u)"

section \<open>The drivers (\<^verbatim>\<open>driver.py\<close>)\<close>

definition for_provider :: "string list \<Rightarrow> vmapping \<Rightarrow> 'a vop \<Rightarrow> 'a vop" where
  \<comment> \<open>\<open>validate_volume_provider\<close>\<close>
  "for_provider supported vm m =
     (if vm_provider vm \<notin> set supported then sraise (ProviderNotSupported (vm_provider vm)) else m)"

definition local_file :: "vol_env \<Rightarrow> vmapping \<Rightarrow> string" where
  "local_file E vm = get_mountpoint E (vm_volume_uuid vm) @ ''/'' @ vm_volume_uuid vm"

definition local_attach :: "vol_env \<Rightarrow> vmapping \<Rightarrow> unit vop" where
  \<comment> \<open>the file is opened, and so emptied, before its content is decoded\<close>
  "local_attach E vm = for_provider [''local''] vm
     (sbind (call (EnsureTree (get_mountpoint E (vm_volume_uuid vm))) (ve_ensure_tree E (get_mountpoint E (vm_volume_uuid vm))))
       (\<lambda>_. sbind (call (WriteFile (local_file E vm) []) (ve_write_file E (local_file E vm) []))
         (\<lambda>_. sbind (rlift (ve_decode E (vm_contents vm)))
           (\<lambda>content. call (WriteFile (local_file E vm) content) (ve_write_file E (local_file E vm) content)))))"

definition remove_local_file :: "vol_env \<Rightarrow> vmapping \<Rightarrow> unit vop" where
  "remove_local_file E vm =
     call (RmTree (get_mountpoint E (vm_volume_uuid vm))) (ve_rmtree E (get_mountpoint E (vm_volume_uuid vm)))"

definition local_detach :: "vol_env \<Rightarrow> vmapping \<Rightarrow> unit vop" where
  "local_detach E vm = for_provider [''local''] vm (remove_local_file E vm)"

definition local_delete :: "vol_env \<Rightarrow> vmapping \<Rightarrow> unit vop" where
  "local_delete E vm = for_provider [''local''] vm (remove_local_file E vm)"

definition local_bind_mount :: "vol_env \<Rightarrow> vmapping \<Rightarrow> (string \<times> string) vop" where
  "local_bind_mount E vm = for_provider [''local''] vm (sreturn (local_file E vm, vm_container_path vm))"

definition local_is_volume_available :: "(bool \<times> bool) vop" where
  "local_is_volume_available = sreturn (True, False)"

definition local_is_volume_deleted :: "(bool \<times> bool) vop" where
  "local_is_volume_deleted = sreturn (True, False)"

definition mount_device :: "vol_env \<Rightarrow> vmapping \<Rightarrow> string \<Rightarrow> unit vop" where
  "mount_device E vm devpath =
     (let mountpoint = get_mountpoint E (vm_volume_uuid vm)
      in sbind (call (EnsureTree mountpoint) (ve_ensure_tree E mountpoint))
           (\<lambda>_. do_mount E devpath mountpoint))"

definition reattach :: "vol_env \<Rightarrow> string vop" where
  "reattach E =
     sbind (stored_connection E)
       (\<lambda>ci. sbind (connect_volume E ci)
         (\<lambda>path. sbind (keep_connection_info E (with_device_path ci path))
           (\<lambda>_. sbind (save_mapping E) (\<lambda>_. sreturn path))))"

definition cinder_driver_attach :: "vol_env \<Rightarrow> vmapping \<Rightarrow> unit vop" where
  "cinder_driver_attach E vm = for_provider [''cinder''] vm
     (\<lambda>s. sbind (if truthy (vs_connection_info s) then reattach E else attach_volume E vm)
        (\<lambda>devpath. scatch (mount_device E vm devpath)
           (reraise_after (scatch (workflow_detach_volume E vm) (\<lambda>_. sreturn ())))) s)"

definition unmount_device :: "vol_env \<Rightarrow> vmapping \<Rightarrow> unit vop" where
  "unmount_device E vm =
     (let mountpoint = get_mountpoint E (vm_volume_uuid vm)
      in sbind (do_unmount E mountpoint) (\<lambda>_. call (RmTree mountpoint) (ve_rmtree E mountpoint)))"

definition cinder_driver_detach :: "vol_env \<Rightarrow> vmapping \<Rightarrow> unit vop" where
  "cinder_driver_detach E vm = for_provider [''cinder''] vm
     (sbind (unmount_device E vm) (\<lambda>_. workflow_detach_volume E vm))"

definition cinder_driver_delete :: "vol_env \<Rightarrow> vmapping \<Rightarrow> unit vop" where
  "cinder_driver_delete E vm = for_provider [''cinder''] vm (workflow_delete_volume E vm)"

definition cinder_bind_mount :: "vol_env \<Rightarrow> vmapping \<Rightarrow> (string \<times> string) vop" where
  "cinder_bind_mount E vm = for_provider [''cinder''] vm
     (sreturn (get_mountpoint E (vm_volume_uuid vm), vm_container_path vm))"

definition get_volume_status :: "vol_env \<Rightarrow> vmapping \<Rightarrow> string vop" where
  "get_volume_status E vm = for_provider [''cinder''] vm
     (sbind (cinder_get E (vm_cinder_volume_id vm)) (\<lambda>v. sreturn (cv_status v)))"

definition check_multiattach :: "vol_env \<Rightarrow> vmapping \<Rightarrow> bool vop" where
  "check_multiattach E vm = for_provider [''cinder''] vm
     (sbind (cinder_get E (vm_cinder_volume_id vm)) (\<lambda>v. sreturn (cv_multiattach v)))"

definition cinder_is_volume_available :: "vol_env \<Rightarrow> vmapping \<Rightarrow> (bool \<times> bool) vop" where
  "cinder_is_volume_available E vm = for_provider [''cinder''] vm
     (sbind (get_volume_status E vm)
       (\<lambda>status. if status = ''available'' then sreturn (True, False)
          else if status = ''in-use'' then sbind (check_multiattach E vm) (\<lambda>multi. sreturn (multi, False))
          else if status = ''error'' then sreturn (False, True)
          else sreturn (False, False)))"

definition cinder_is_volume_deleted :: "vol_env \<Rightarrow> vmapping \<Rightarrow> (bool \<times> bool) vop" where
  "cinder_is_volume_deleted E vm = for_provider [''cinder''] vm
     (scatch (sbind (search_volume E (vm_cinder_volume_id vm))
                (\<lambda>v. sreturn (False, sublist ''error'' (cv_status v))))
        (\<lambda>e. case e of VolNotFound _ \<Rightarrow> sreturn (True, False) | _ \<Rightarrow> sraise e))"

section \<open>What attaching leaves behind\<close>

text \<open>How far an attachment came, and the calls that it made.\<close>

datatype stage = Reserving | Initializing bool | Connecting | Saving | Attaching | Attached

fun attach_calls :: "vol_env \<Rightarrow> vmapping \<Rightarrow> string \<Rightarrow> conn \<Rightarrow> string \<Rightarrow> string option \<Rightarrow> string option \<Rightarrow> stage \<Rightarrow> vcall list" where
  "attach_calls E vm p ci path info am Reserving =
     [CReserve (vm_cinder_volume_id vm), CUnreserve (vm_cinder_volume_id vm)]"
| "attach_calls E vm p ci path info am (Initializing refused) =
     [CReserve (vm_cinder_volume_id vm), Properties, CInitialize (vm_cinder_volume_id vm) p]
     @ (if refused then [CTerminate (vm_cinder_volume_id vm) p] else []) @ [CUnreserve (vm_cinder_volume_id vm)]"
| "attach_calls E vm p ci path info am Connecting =
     [CReserve (vm_cinder_volume_id vm), Properties, CInitialize (vm_cinder_volume_id vm) p, Connect (is_rbd (cn_type ci)) ci,
      Properties, CTerminate (vm_cinder_volume_id vm) p, CUnreserve (vm_cinder_volume_id vm)]"
| "attach_calls E vm p ci path info am Saving =
     [CReserve (vm_cinder_volume_id vm), Properties, CInitialize (vm_cinder_volume_id vm) p, Connect (is_rbd (cn_type ci)) ci,
      SaveMapping info, CUnreserve (vm_cinder_volume_id vm)]"
| "attach_calls E vm p ci path info am Attaching =
     [CReserve (vm_cinder_volume_id vm), Properties, CInitialize (vm_cinder_volume_id vm) p, Connect (is_rbd (cn_type ci)) ci,
      SaveMapping info, CAttach (vm_cinder_volume_id vm) path (ve_host E) (vm_container_uuid vm),
      Disconnect (is_rbd (cn_type ci)) (with_device_path ci path), Properties, CTerminate (vm_cinder_volume_id vm) p,
      CGet (vm_cinder_volume_id vm), CDetach (vm_cinder_volume_id vm) am, CUnreserve (vm_cinder_volume_id vm)]"
| "attach_calls E vm p ci path info am Attached =
     [CReserve (vm_cinder_volume_id vm), Properties, CInitialize (vm_cinder_volume_id vm) p, Connect (is_rbd (cn_type ci)) ci,
      SaveMapping info, CAttach (vm_cinder_volume_id vm) path (ve_host E) (vm_container_uuid vm)]"

definition cleanup_works :: "vol_env \<Rightarrow> string \<Rightarrow> bool" where
  \<comment> \<open>the calls that undo an attachment do not raise, and the properties of the host do not change\<close>
  "cleanup_works E p \<longleftrightarrow>
     (\<forall>l. ve_properties E l = Inr p)
     \<and> (\<forall>v c l. ve_terminate E v c l = Inr ()) \<and> (\<forall>v l. ve_unreserve E v l = Inr ())
     \<and> (\<forall>b c l. ve_disconnect E b c l \<in> {Inr (), Inl BrickDeviceNotFound})
     \<and> (\<forall>v l. \<exists>x. ve_get E v l = Inr x) \<and> (\<forall>v a l. ve_detach E v a l = Inr ())
     \<and> (\<forall>c e. ve_dumps E c = Inl e \<longrightarrow> e = VolTypeError)"

definition kept_info :: "vol_env \<Rightarrow> conn \<Rightarrow> string option \<Rightarrow> string option" where
  "kept_info E ci old = (case ve_dumps E ci of Inr text \<Rightarrow> Some text | Inl _ \<Rightarrow> old)"

lemmas workflow_defs = reserve_volume_def unreserve_volume_def initialize_connection_def terminate_connection_def
  cinder_attach_def cinder_detach_def cinder_get_def get_volume_connector_properties_def connect_volume_def
  disconnect_volume_def terminate_with_properties_def save_mapping_def reraise_after_def call_def st_defs

lemma cleanup_simps:
  assumes "cleanup_works E p"
  shows "ve_properties E l = Inr p" "ve_terminate E v c l = Inr ()" "ve_unreserve E v l = Inr ()"
    "ve_detach E v a l = Inr ()" "\<exists>x. ve_get E v l = Inr x"
    "ve_disconnect E b ci l = Inr () \<or> ve_disconnect E b ci l = Inl BrickDeviceNotFound"
    "keep_connection_info E ci s = (Inr (), s\<lparr>vs_connection_info := kept_info E ci (vs_connection_info s)\<rparr>)"
  using assms
  by (auto simp: cleanup_works_def keep_connection_info_def kept_info_def st_defs split: sum.split)

text \<open>Undoing an attachment that Cinder refused.\<close>

lemma undo_attach:
  assumes "cleanup_works E p"
  shows "\<exists>am. undo_attachment E vm ci s =
     (Inr (), s\<lparr>vs_calls := vs_calls s @ [Disconnect (is_rbd (cn_type ci)) ci, Properties, CTerminate (vm_cinder_volume_id vm) p,
        CGet (vm_cinder_volume_id vm), CDetach (vm_cinder_volume_id vm) am]\<rparr>)"
proof -
  note c = cleanup_simps [OF assms]
  let ?l = "vs_calls s @ [Disconnect (is_rbd (cn_type ci)) ci, Properties, CTerminate (vm_cinder_volume_id vm) p]"
  obtain x where x: "ve_get E (vm_cinder_volume_id vm) ?l = Inr x" using c(5) by blast
  have "scatch (disconnect_volume E ci) (\<lambda>e. if e = BrickDeviceNotFound then sreturn () else sraise e) s =
      (Inr (), s\<lparr>vs_calls := vs_calls s @ [Disconnect (is_rbd (cn_type ci)) ci]\<rparr>)"
    using c(6) [of "is_rbd (cn_type ci)" ci "vs_calls s"] by (auto simp: disconnect_volume_def call_def st_defs)
  then show ?thesis
    using x by (intro exI [of _ "attachment_of x (vm_container_uuid vm)"])
      (simp add: undo_attachment_def sbind_def terminate_with_properties_def terminate_connection_def get_volume_connector_properties_def
        cinder_detach_def cinder_get_def call_def Let_def c)
qed

text \<open>
  The outcome of every stage: the result, and the state after its calls.
\<close>

definition attach_result ::
    "vol_env \<Rightarrow> vmapping \<Rightarrow> string \<Rightarrow> conn \<Rightarrow> string \<Rightarrow> string option \<Rightarrow> stage \<Rightarrow> vstate \<Rightarrow> vexn \<Rightarrow> (vexn, string) res \<times> vstate" where
  "attach_result E vm p ci path am st s e =
     (let info = kept_info E (with_device_path ci path) (vs_connection_info s)
      in (if st = Attached then Inr path else Inl e,
          s\<lparr>vs_connection_info := if st \<in> {Saving, Attaching, Attached} then info else vs_connection_info s,
            vs_calls := vs_calls s @ attach_calls E vm p ci path info am st\<rparr>))"

lemmas attach_defs = attach_volume_def do_attach_volume_def workflow_defs attach_result_def Let_def

lemma attach_reserving:
  assumes "cleanup_works E p" "ve_reserve E (vm_cinder_volume_id vm) (vs_calls s) = Inl e"
  shows "attach_volume E vm s = attach_result E vm p ci path am Reserving s e"
  using assms(2) by (simp add: attach_defs cleanup_simps [OF assms(1)])

lemma attach_initializing:
  assumes "cleanup_works E p" "ve_reserve E (vm_cinder_volume_id vm) (vs_calls s) = Inr ()"
    and "ve_initialize E (vm_cinder_volume_id vm) p (vs_calls s @ [CReserve (vm_cinder_volume_id vm), Properties]) = Inl e"
  shows "attach_volume E vm s = attach_result E vm p ci path am (Initializing (is_client_exception e)) s e"
  using assms(2,3) by (simp add: attach_defs cleanup_simps [OF assms(1)])

text \<open>The part of the workflow after the connection is initialized.\<close>

lemma attach_connected:
  fixes vm s p
  defines "v \<equiv> vm_cinder_volume_id vm"
  defines "l \<equiv> vs_calls s @ [CReserve v, Properties, CInitialize v p]"
  assumes clean: "cleanup_works E p" and res: "ve_reserve E v (vs_calls s) = Inr ()"
    and init: "ve_initialize E v p (vs_calls s @ [CReserve v, Properties]) = Inr ci"
  shows "ve_connect E (is_rbd (cn_type ci)) ci l = Inl e \<Longrightarrow>
      attach_volume E vm s = attach_result E vm p ci path am Connecting s e"
    and "ve_connect E (is_rbd (cn_type ci)) ci l = Inr path \<Longrightarrow>
      ve_save E (kept_info E (with_device_path ci path) (vs_connection_info s)) (l @ [Connect (is_rbd (cn_type ci)) ci]) = Inl e \<Longrightarrow>
      attach_volume E vm s = attach_result E vm p ci path am Saving s e"
  using res init unfolding v_def l_def by (simp_all add: attach_defs cleanup_simps [OF clean])

lemma attach_saved:
  fixes vm s p
  defines "v \<equiv> vm_cinder_volume_id vm"
  defines "l \<equiv> vs_calls s @ [CReserve v, Properties, CInitialize v p]"
  assumes clean: "cleanup_works E p" and res: "ve_reserve E v (vs_calls s) = Inr ()"
    and init: "ve_initialize E v p (vs_calls s @ [CReserve v, Properties]) = Inr ci"
    and conn: "ve_connect E (is_rbd (cn_type ci)) ci l = Inr path"
  defines "info \<equiv> kept_info E (with_device_path ci path) (vs_connection_info s)"
  defines "l2 \<equiv> l @ [Connect (is_rbd (cn_type ci)) ci, SaveMapping info]"
  assumes save: "ve_save E info (l @ [Connect (is_rbd (cn_type ci)) ci]) = Inr ()"
  shows "ve_attach E v path (ve_host E) (vm_container_uuid vm) l2 = Inr () \<Longrightarrow>
      attach_volume E vm s = attach_result E vm p ci path am Attached s e"
    and "ve_attach E v path (ve_host E) (vm_container_uuid vm) l2 = Inl e \<Longrightarrow>
      \<exists>am. attach_volume E vm s = attach_result E vm p ci path am Attaching s e"
proof -
  note c = cleanup_simps [OF clean]
  show "attach_volume E vm s = attach_result E vm p ci path am Attached s e"
    if "ve_attach E v path (ve_host E) (vm_container_uuid vm) l2 = Inr ()"
    using that res init conn save unfolding v_def l_def l2_def info_def by (simp add: attach_defs c)
  assume a: "ve_attach E v path (ve_host E) (vm_container_uuid vm) l2 = Inl e"
  let ?s = "s\<lparr>vs_connection_info := info, vs_calls := l2 @ [CAttach v path (ve_host E) (vm_container_uuid vm)]\<rparr>"
  obtain am where undo: "undo_attachment E vm (with_device_path ci path) ?s =
      (Inr (), ?s\<lparr>vs_calls := vs_calls ?s @ [Disconnect (is_rbd (cn_type ci)) (with_device_path ci path),
         Properties, CTerminate v p, CGet v, CDetach v am]\<rparr>)"
    using undo_attach [OF clean, of vm "with_device_path ci path" ?s] by (auto simp: v_def with_device_path_def)
  have "do_attach_volume E vm s = reraise_after (undo_attachment E vm (with_device_path ci path)) e ?s"
    using a res init conn save undo unfolding v_def l_def l2_def info_def
    by (simp add: do_attach_volume_def Let_def reserve_volume_def initialize_connection_def cinder_attach_def
        get_volume_connector_properties_def connect_volume_def save_mapping_def call_def c
        sbind_def scatch_def reraise_after_def sraise_def)
  then show "\<exists>am. attach_volume E vm s = attach_result E vm p ci path am Attaching s e"
    using undo
    by (intro exI [of _ am]) (simp add: attach_volume_def reraise_after_def unreserve_volume_def call_def st_defs c
        attach_result_def Let_def v_def l_def l2_def info_def)
qed

definition stopped_by :: "vol_env \<Rightarrow> vmapping \<Rightarrow> string \<Rightarrow> conn \<Rightarrow> string \<Rightarrow> vstate \<Rightarrow> stage \<Rightarrow> vexn \<Rightarrow> bool" where
  \<comment> \<open>the reply that ended the attachment at a stage\<close>
  "stopped_by E vm p ci path s st e \<longleftrightarrow>
     (let v = vm_cinder_volume_id vm;
          l = vs_calls s @ [CReserve v, Properties, CInitialize v p];
          info = kept_info E (with_device_path ci path) (vs_connection_info s);
          l2 = l @ [Connect (is_rbd (cn_type ci)) ci]
      in case st of
           Reserving \<Rightarrow> ve_reserve E v (vs_calls s) = Inl e
         | Initializing refused \<Rightarrow>
             ve_initialize E v p (vs_calls s @ [CReserve v, Properties]) = Inl e \<and> refused = is_client_exception e
         | Connecting \<Rightarrow> ve_connect E (is_rbd (cn_type ci)) ci l = Inl e
         | Saving \<Rightarrow> ve_save E info l2 = Inl e
         | Attaching \<Rightarrow> ve_attach E v path (ve_host E) (vm_container_uuid vm) (l2 @ [SaveMapping info]) = Inl e
         | Attached \<Rightarrow> ve_attach E v path (ve_host E) (vm_container_uuid vm) (l2 @ [SaveMapping info]) = Inr ())"

text \<open>
  C10. Attaching a Cinder volume has one of six outcomes, if the calls that undo an attachment work.
  When Cinder accepts the attachment, the path of the device is returned and the connection was
  saved before. When the reservation, the connection, the saving or the attachment fails, the
  error is raised after the calls that undo what was done, in this order: disconnect the device,
  terminate the connection, detach, and release the reservation, which is the last call of every
  failure. Only a failure to save the mapping leaves the device connected.
\<close>

theorem attach_volume_outcomes:
  assumes "cleanup_works E p"
  shows "\<exists>st ci path am e. attach_volume E vm s = attach_result E vm p ci path am st s e
    \<and> stopped_by E vm p ci path s st e"
proof -
  define v where "v = vm_cinder_volume_id vm"
  note at = attach_reserving [OF assms, of vm, folded v_def] attach_initializing [OF assms, of vm, folded v_def]
    attach_connected [OF assms, of vm, folded v_def] attach_saved [OF assms, of vm, folded v_def]
  have outcome: ?thesis if "attach_volume E vm s = attach_result E vm p ci path am st s e" "stopped_by E vm p ci path s st e"
    for st ci path am e using that by blast
  let ?l = "vs_calls s @ [CReserve v, Properties]"
  consider e where "ve_reserve E v (vs_calls s) = Inl e"
    | e where "ve_reserve E v (vs_calls s) = Inr ()" "ve_initialize E v p ?l = Inl e"
    | ci where "ve_reserve E v (vs_calls s) = Inr ()" "ve_initialize E v p ?l = Inr ci"
    by (cases "ve_reserve E v (vs_calls s)"; cases "ve_initialize E v p ?l") auto
  then show ?thesis
  proof cases
    case 1
    then show ?thesis by (intro outcome [OF at(1) [OF 1]]) (simp add: stopped_by_def v_def)
  next
    case 2
    then show ?thesis by (intro outcome [OF at(2) [OF 2]]) (simp add: stopped_by_def v_def)
  next
    case 3
    let ?l3 = "vs_calls s @ [CReserve v, Properties, CInitialize v p]"
    show ?thesis
    proof (cases "ve_connect E (is_rbd (cn_type ci)) ci ?l3")
      case (Inl e)
      then show ?thesis by (intro outcome [OF at(3) [OF 3 Inl]]) (simp add: stopped_by_def v_def)
    next
      case conn: (Inr path)
      let ?info = "kept_info E (with_device_path ci path) (vs_connection_info s)"
      show ?thesis
      proof (cases "ve_save E ?info (?l3 @ [Connect (is_rbd (cn_type ci)) ci])")
        case (Inl e)
        then show ?thesis by (intro outcome [OF at(4) [OF 3 conn Inl]]) (simp add: stopped_by_def v_def Let_def)
      next
        case (Inr _)
        then have save: "ve_save E ?info (?l3 @ [Connect (is_rbd (cn_type ci)) ci]) = Inr ()" by simp
        let ?r = "ve_attach E v path (ve_host E) (vm_container_uuid vm) (?l3 @ [Connect (is_rbd (cn_type ci)) ci, SaveMapping ?info])"
        show ?thesis
        proof (cases ?r)
          case (Inl e)
          then obtain am where "attach_volume E vm s = attach_result E vm p ci path am Attaching s e"
            using at(6) [OF 3 conn save] by auto
          then show ?thesis by (rule outcome) (use Inl in \<open>simp add: stopped_by_def v_def Let_def\<close>)
        next
          case (Inr _)
          then have "attach_volume E vm s = attach_result E vm p ci path am Attached s e" for am e
            using at(5) [OF 3 conn save] by auto
          then show ?thesis by (rule outcome) (use Inr in \<open>simp add: stopped_by_def v_def Let_def\<close>)
        qed
      qed
    qed
  qed
qed

text \<open>Cinder refuses the attachment of a volume.\<close>

definition sample_vol_env :: vol_env where
  "sample_vol_env =
     \<lparr>ve_reserve = (\<lambda>_ _. Inr ()), ve_unreserve = (\<lambda>_ _. Inr ()),
      ve_initialize = (\<lambda>_ _ _. Inr \<lparr>cn_type = ''iscsi'', cn_data = []\<rparr>), ve_terminate = (\<lambda>_ _ _. Inr ()),
      ve_attach = (\<lambda>_ _ _ _ _. Inl (CinderClientException ''refused'')), ve_detach = (\<lambda>_ _ _. Inr ()),
      ve_begin_detaching = (\<lambda>_ _. Inr ()), ve_roll_detaching = (\<lambda>_ _. Inr ()),
      ve_get = (\<lambda>v _. Inr \<lparr>cv_id = v, cv_status = ''attaching'', cv_multiattach = False, cv_attachments = [], cv_tenant = None\<rparr>),
      ve_find = (\<lambda>_ _. Inl CinderNotFound), ve_create = (\<lambda>_ _. Inl CinderNotFound), ve_delete = (\<lambda>_ _. Inl CinderNotFound),
      ve_properties = (\<lambda>_. Inr ''p''), ve_connect = (\<lambda>_ _ _. Inr ''sdb''), ve_disconnect = (\<lambda>_ _ _. Inr ()),
      ve_save = (\<lambda>_ _. Inr ()), ve_list_hosts = (\<lambda>_ _. Inr [Some ''h'', Some ''h'']), ve_cat_mounts = (\<lambda>_. Inr []),
      ve_mount = (\<lambda>_ _ _ _. Inr ()), ve_mkfs = (\<lambda>_ _ _. Inr ()), ve_umount = (\<lambda>_ _. Inr ()),
      ve_ensure_tree = (\<lambda>_ _. Inr ()), ve_rmtree = (\<lambda>_ _. Inr ()), ve_write_file = (\<lambda>_ _ _. Inr ()),
      ve_dumps = (\<lambda>c. Inr (cn_type c)), ve_loads = (\<lambda>t. Inr \<lparr>cn_type = t, cn_data = []\<rparr>), ve_decode = Inr,
      ve_is_uuid_like = (\<lambda>_. True), ve_host = ''h'', ve_project_id = ''p'', ve_volume_dir = ''d'', ve_fstype = ''ext4''\<rparr>"

definition sample_mapping :: vmapping where
  "sample_mapping = \<lparr>vm_volume_uuid = ''u'', vm_cinder_volume_id = ''v'', vm_container_uuid = ''c'', vm_provider = ''cinder'',
     vm_container_path = ''data'', vm_contents = []\<rparr>"

lemma sample_cleanup: "cleanup_works sample_vol_env ''p''"
  by (simp add: cleanup_works_def sample_vol_env_def)

theorem attach_volume_outcomes_witness:
  "cleanup_works sample_vol_env ''p''
   \<and> (\<exists>ci path am e. attach_volume sample_vol_env sample_mapping \<lparr>vs_calls = [], vs_connection_info = None\<rparr>
        = attach_result sample_vol_env sample_mapping ''p'' ci path am Attaching \<lparr>vs_calls = [], vs_connection_info = None\<rparr> e)"
proof -
  obtain st ci path am e where o: "attach_volume sample_vol_env sample_mapping \<lparr>vs_calls = [], vs_connection_info = None\<rparr>
      = attach_result sample_vol_env sample_mapping ''p'' ci path am st \<lparr>vs_calls = [], vs_connection_info = None\<rparr> e"
    and st: "stopped_by sample_vol_env sample_mapping ''p'' ci path \<lparr>vs_calls = [], vs_connection_info = None\<rparr> st e"
    using attach_volume_outcomes [OF sample_cleanup, of sample_mapping "\<lparr>vs_calls = [], vs_connection_info = None\<rparr>"] by blast
  from st have "st = Attaching" by (cases st) (simp_all add: stopped_by_def sample_vol_env_def Let_def)
  with o sample_cleanup show ?thesis by blast
qed

section \<open>Detaching\<close>

definition is_disconnect :: "vcall \<Rightarrow> bool" where
  "is_disconnect c = (case c of Disconnect _ _ \<Rightarrow> True | CTerminate _ _ \<Rightarrow> True | _ \<Rightarrow> False)"

lemma sbind_run:
  "m s = (Inr x, t) \<Longrightarrow> sbind m f s = f x t" "m s = (Inl e, t) \<Longrightarrow> sbind m f s = (Inl e, t)"
  by (simp_all add: sbind_def)

lemma sbind_assoc: "sbind (sbind m f) g = sbind m (\<lambda>x. sbind (f x) g)"
  by (auto simp: sbind_def fun_eq_iff split: prod.split sum.split)

lemma cinder_detach_calls:
  "\<exists>tr. vs_calls (snd (cinder_detach E vm s)) = vs_calls s @ CGet (vm_cinder_volume_id vm) # tr
     \<and> (tr = [] \<or> (\<exists>am. tr = [CDetach (vm_cinder_volume_id vm) am]))
     \<and> (\<forall>x. fst (cinder_detach E vm s) = Inr x \<longrightarrow> tr \<noteq> [])"
  by (cases "ve_get E (vm_cinder_volume_id vm) (vs_calls s)")
    (simp_all add: cinder_detach_def cinder_get_def call_def sbind_def Let_def)

lemma terminate_then_detach:
  "\<exists>tr. vs_calls (snd (sbind (terminate_with_properties E v) (\<lambda>_. cinder_detach E vm) s)) = vs_calls s @ tr"
proof -
  obtain r s1 where t: "terminate_with_properties E v s = (r, s1)" by (cases "terminate_with_properties E v s")
  have "\<exists>tr. vs_calls s1 = vs_calls s @ tr"
    using t by (cases "ve_properties E (vs_calls s)")
      (auto simp: terminate_with_properties_def get_volume_connector_properties_def terminate_connection_def call_def sbind_def)
  then show ?thesis using t cinder_detach_calls [of E vm s1] by (cases r) (auto simp: sbind_def)
qed

text \<open>
  C14. When a volume is detached, the device is disconnected and its connection terminated only if
  exactly one mapping of the volume belongs to this host. If other containers of the host use the
  volume, it is only detached from the container; if the disconnection fails, Cinder is told to
  roll back and the error is raised.
\<close>

theorem detach_keeps_shared:
  assumes "ve_begin_detaching E (vm_cinder_volume_id vm) (vs_calls s) = Inr ()"
    and "vs_connection_info s = Some text" "ve_loads E text = Inr ci"
    and "ve_list_hosts E (vm_cinder_volume_id vm) (vs_calls s @ [CBeginDetaching (vm_cinder_volume_id vm)]) = Inr hosts"
    and "workflow_detach_volume E vm s = (r, s')"
  shows "\<exists>tr. vs_calls s' = vs_calls s @ [CBeginDetaching (vm_cinder_volume_id vm), ListHosts (vm_cinder_volume_id vm)] @ tr
    \<and> (if count_list hosts (Some (ve_host E)) \<noteq> 1
       then \<not> list_ex is_disconnect tr \<and> (\<forall>x. r = Inr x \<longrightarrow> (\<exists>am. tr = [CGet (vm_cinder_volume_id vm), CDetach (vm_cinder_volume_id vm) am]))
       else (\<exists>rest. tr = Disconnect (is_rbd (cn_type ci)) ci # rest)
          \<and> (\<forall>e. ve_disconnect E (is_rbd (cn_type ci)) ci
                 (vs_calls s @ [CBeginDetaching (vm_cinder_volume_id vm), ListHosts (vm_cinder_volume_id vm)]) = Inl e \<longrightarrow>
               tr = [Disconnect (is_rbd (cn_type ci)) ci, CRollDetaching (vm_cinder_volume_id vm)] \<and> (\<exists>e. r = Inl e)))"
proof -
  define v where "v = vm_cinder_volume_id vm"
  define s1 where "s1 = s\<lparr>vs_calls := vs_calls s @ [CBeginDetaching v]\<rparr>"
  define s2 where "s2 = s\<lparr>vs_calls := vs_calls s @ [CBeginDetaching v, ListHosts v]\<rparr>"
  let ?b = "is_rbd (cn_type ci)"
  have "scatch (begin_detaching E v) h s = (Inr (), s1)" for h
    using assms(1) by (simp add: begin_detaching_def call_def scatch_def v_def s1_def)
  moreover have "stored_connection E s1 = (Inr ci, s1)"
    using assms(2,3) by (simp add: stored_connection_def s1_def)
  moreover have "volume_connection_keep E v s1 = (Inr (count_list hosts (Some (ve_host E)) \<noteq> 1), s2)"
    using assms(4) by (simp add: volume_connection_keep_def call_def sbind_def sreturn_def v_def s1_def s2_def)
  ultimately have run: "sbind (if count_list hosts (Some (ve_host E)) \<noteq> 1 then sreturn ()
      else sbind (scatch (disconnect_volume E ci) (reraise_after (roll_detaching E v))) (\<lambda>_. terminate_with_properties E v))
      (\<lambda>_. cinder_detach E vm) s2 = (r, s')"
    using assms(5) by (simp add: workflow_detach_volume_def Let_def v_def [symmetric] sbind_run)
  have calls: "vs_calls s2 = vs_calls s @ [CBeginDetaching v, ListHosts v]" by (simp add: s2_def)
  consider "count_list hosts (Some (ve_host E)) \<noteq> 1"
    | e where "count_list hosts (Some (ve_host E)) = 1" "ve_disconnect E ?b ci (vs_calls s2) = Inl e"
    | "count_list hosts (Some (ve_host E)) = 1" "ve_disconnect E ?b ci (vs_calls s2) = Inr ()"
    by (cases "ve_disconnect E ?b ci (vs_calls s2)") auto
  then show ?thesis
  proof cases
    case 1
    then have "cinder_detach E vm s2 = (r, s')" using run by (simp add: sbind_def sreturn_def)
    then show ?thesis
      using 1 cinder_detach_calls [of E vm s2] calls unfolding v_def by (auto simp: is_disconnect_def)
  next
    case 2
    have "\<exists>e'. scatch (disconnect_volume E ci) (reraise_after (roll_detaching E v)) s2 =
        (Inl e', s2\<lparr>vs_calls := vs_calls s2 @ [Disconnect ?b ci, CRollDetaching v]\<rparr>)"
      using 2 by (cases "ve_roll_detaching E v (vs_calls s2 @ [Disconnect ?b ci])")
        (simp_all add: disconnect_volume_def call_def scatch_def reraise_after_def roll_detaching_def sbind_def sraise_def)
    then obtain e' where "r = Inl e'" "vs_calls s' = vs_calls s2 @ [Disconnect ?b ci, CRollDetaching v]"
      using run 2 by (auto simp: sbind_run)
    then show ?thesis using 2(1) calls unfolding v_def by auto
  next
    case 3
    have d: "scatch (disconnect_volume E ci) (reraise_after (roll_detaching E v)) s2 =
        (Inr (), s2\<lparr>vs_calls := vs_calls s2 @ [Disconnect ?b ci]\<rparr>)"
      using 3 by (simp add: disconnect_volume_def call_def scatch_def)
    then have "\<exists>rest. vs_calls s' = vs_calls s2 @ Disconnect ?b ci # rest"
      using run 3(1) terminate_then_detach [of E v vm "s2\<lparr>vs_calls := vs_calls s2 @ [Disconnect ?b ci]\<rparr>"]
      by (simp add: sbind_assoc sbind_run)
    then show ?thesis using 3 calls unfolding v_def by auto
  qed
qed

text \<open>Two containers of the host use the volume.\<close>

theorem detach_keeps_shared_witness:
  "\<exists>r s' tr. workflow_detach_volume sample_vol_env sample_mapping \<lparr>vs_calls = [], vs_connection_info = Some ''iscsi''\<rparr> = (r, s')
     \<and> vs_calls s' = [CBeginDetaching ''v'', ListHosts ''v''] @ tr \<and> \<not> list_ex is_disconnect tr"
proof -
  let ?s = "\<lparr>vs_calls = [], vs_connection_info = Some ''iscsi''\<rparr>"
  obtain r s' where w: "workflow_detach_volume sample_vol_env sample_mapping ?s = (r, s')"
    by (cases "workflow_detach_volume sample_vol_env sample_mapping ?s")
  have "\<exists>tr. vs_calls s' = vs_calls ?s @ [CBeginDetaching ''v'', ListHosts ''v''] @ tr \<and> \<not> list_ex is_disconnect tr"
    using detach_keeps_shared [OF _ _ _ _ w, of "''iscsi''" "\<lparr>cn_type = ''iscsi'', cn_data = []\<rparr>" "[Some ''h'', Some ''h'']"]
    by (auto simp: sample_vol_env_def sample_mapping_def)
  with w show ?thesis by auto
qed

section \<open>Errors of the drivers\<close>

text \<open>A device that cannot be mounted, for whatever reason, is formatted.\<close>

lemma do_mount_formats:
  assumes "check_already_mounted E mountpoint s = (Inr False, s1)"
    and "ve_mount E (ve_fstype E) devpath mountpoint (vs_calls s1) = Inl CommandError"
  shows "RunMkfs (ve_fstype E) devpath \<in> set (vs_calls (snd (do_mount E devpath mountpoint s)))"
proof -
  define s2 where "s2 = s1\<lparr>vs_calls := vs_calls s1 @ [RunMount (ve_fstype E) devpath mountpoint]\<rparr>"
  define s3 where "s3 = s2\<lparr>vs_calls := vs_calls s2 @ [RunMkfs (ve_fstype E) devpath]\<rparr>"
  have m: "run_mount E devpath mountpoint s1 = (Inl MountException, s2)"
    using assms(2) by (simp add: run_mount_def call_def scatch_def sraise_def s2_def)
  obtain tr where tr: "vs_calls (snd (run_mount E devpath mountpoint s3)) = vs_calls s3 @ tr"
    by (cases "ve_mount E (ve_fstype E) devpath mountpoint (vs_calls s3)")
      (auto simp: run_mount_def call_def scatch_def sraise_def)
  have "snd (make_filesystem E devpath s2) = s3"
    by (cases "ve_mkfs E (ve_fstype E) devpath (vs_calls s2)")
      (simp_all add: make_filesystem_def call_def scatch_def sraise_def s3_def)
  then obtain r where f: "make_filesystem E devpath s2 = (r, s3)" by (metis prod.collapse)
  have "do_mount E devpath mountpoint s = sbind (make_filesystem E devpath) (\<lambda>_. run_mount E devpath mountpoint) s2"
    using assms(1) m by (simp add: do_mount_def sbind_def [of "check_already_mounted _ _"] scatch_def)
  moreover have "RunMkfs (ve_fstype E) devpath \<in> set (vs_calls s3)" by (simp add: s3_def)
  ultimately show ?thesis using f tr by (cases r) (simp_all add: sbind_def)
qed

text \<open>Whatever error the deletion of a volume has, its caller sees a \<open>TypeError\<close>.\<close>

lemma delete_raises_type_error:
  "ve_delete E (vm_cinder_volume_id vm) (vs_calls s) = Inl e \<Longrightarrow> fst (workflow_delete_volume E vm s) = Inl VolTypeError"
  by (simp add: workflow_delete_volume_def api_delete_volume_def call_def st_defs)

text \<open>A refused reservation is released all the same, also when another user holds it.\<close>

lemma refused_reservation_released:
  assumes "cleanup_works E p" "ve_reserve E (vm_cinder_volume_id vm) (vs_calls s) = Inl e"
  shows "attach_volume E vm s = (Inl e, s\<lparr>vs_calls := vs_calls s @ [CReserve (vm_cinder_volume_id vm), CUnreserve (vm_cinder_volume_id vm)]\<rparr>)"
  using attach_reserving [OF assms] by (simp add: attach_result_def Let_def)

end
