(* ===== verification/Spec2Isabelle.thy ===== *)
theory Spec2Isabelle
  imports Prelude Provider_Tree Pci_Whitelist Compute_Tracker Placement_Request Report_Alloc Placement_Update Container_Life
    Quota Api_Requests Volume_Drivers
begin

text \<open>
  Verification of Zun, the container service of OpenStack (\<^verbatim>\<open>src/zun\<close>).

  \<^bold>\<open>The program.\<close> An API service accepts requests for containers, a scheduler picks a compute
  host, and the compute service of that host (\<^verbatim>\<open>compute/manager.py\<close>) claims resources from
  its tracker (\<^verbatim>\<open>compute/compute_node_tracker.py\<close>, \<^verbatim>\<open>compute/claims.py\<close>,
  \<^verbatim>\<open>pci/manager.py\<close>), and creates, runs and deletes the container through a driver
  (\<^verbatim>\<open>container/docker/driver.py\<close>) and a network driver (\<^verbatim>\<open>network/kuryr_network.py\<close>). The
  inventory of the host is kept as a tree of resource providers
  (\<^verbatim>\<open>compute/provider_tree.py\<close>), which the placement client
  (\<^verbatim>\<open>scheduler/client/report.py\<close>) keeps in step with the placement service.

  \<^bold>\<open>The theories.\<close>

  \<^item> \<open>Prelude\<close>: Python dictionaries, results with exceptions, stateful code that raises.
  \<^item> \<open>Provider_Tree\<close>: the tree of resource providers. The operations keep it well formed and
    do exactly what they say.
  \<^item> \<open>Pci_Device\<close>, \<open>Pci_Stats\<close>, \<open>Pci_Manager\<close>: the states of PCI devices and the rules for
    physical and virtual functions, the pools of equal devices, and the tracker that claims
    and frees devices for containers.
  \<^item> \<open>Py_Numbers\<close>: numbers as Python reads and writes them.
  \<^item> \<open>Pci_Whitelist\<close>: the devices that an administrator allows, by vendor, product and address
    pattern. Addresses match by their numbers, and the whitelist is the filter that the pools
    assume.
  \<^item> \<open>Numa_Topology\<close>: pinning of CPUs.
  \<^item> \<open>Compute_Tracker\<close>: claims with their limits, and the usage of a node as the sum over its
    containers.
  \<^item> \<open>Scheduler\<close>: the host filters, the filter scheduler and the random scheduler. The hosts
    left are exactly those that meet every filter, and a scheduled container is accepted by the
    claim of the compute service.
  \<^item> \<open>Placement_Request\<close>: the request for resources sent to the placement service, the extra
    specifications it is made from, and the scheduler client that calls placement and the
    scheduler.
  \<^item> \<open>Report_Client\<close>: the client of the placement service: the cache of providers, its refresh,
    the flushing of changes, allocations and usages.
  \<^item> \<open>Report_Sync\<close>: after a successful update the cache and the service hold the given tree;
    errors drop the tree concerned from the cache.
  \<^item> \<open>Report_Alloc\<close>: the requests that claims and removals of resources send.
  \<^item> \<open>Placement_Update\<close>: the inventory and the traits that a node reports, and that the service
    shows them after an update.
  \<^item> \<open>Container_State\<close>: statuses, actions, container objects with their changed fields, the
    database rows that \<open>save\<close> writes, and the world that the manager and the drivers act on.
  \<^item> \<open>Docker_Driver\<close>: the driver's operations, and the synchronisation with Docker's states.
  \<^item> \<open>Kuryr_Network\<close>: the default network driver, and the contract of a network driver.
  \<^item> \<open>Container_Manager\<close>: the manager's handlers, the work of its green threads, and its
    periodic tasks.
  \<^item> \<open>Container_Life\<close>: the theorems on the manager: refinement of the state machine of
    container states, release of resources, termination of the failure handling.

  \<^item> \<open>Quota\<close>: the limits of projects and classes, the quota drivers and their engine, the
    requests that set limits, and the check of a request for a container. The check keeps every
    limit up to the tolerance of its comparison, and the limits that were set are those used.
  \<^item> \<open>Container_Api\<close>: the handlers of the container controller, the compute API and the messages
    that it sends to the compute hosts.
  \<^item> \<open>Api_Requests\<close>: actions are passed on exactly when they are visible, allowed and valid; the
    creation of a container ends on a host that the scheduler may choose or in a stored error.
  \<^item> \<open>Image_Reference\<close>: the regular expressions of image names, the backtracking engine that
    matches them, digests, references and \<open>parse_image_name\<close>. The engine finds a match exactly if
    the text belongs to the language of the pattern, references are unambiguous, and parsing and
    printing are inverse; a digest has no effect.
  \<^item> \<open>Image_Drivers\<close>: the image drivers for Docker registries and Glance and their callers. The
    credentials of the default registry go to no other host.
  \<^item> \<open>Volume_Drivers\<close>: the volume drivers, the workflow that attaches and detaches Cinder volumes,
    and mounting. What an attachment did is undone when it fails, with one exception; a device is
    disconnected only with its last user on the host.

  \<^bold>\<open>Conventions.\<close> An exception is \<open>Inl\<close>; a method that changes a state returns the state also
  when it raises. A method that holds a lock for its whole body is one atomic function; the
  work of a green thread, which holds the lock of its container, is one task. Code outside
  the repository (Docker, Neutron, Cinder, placement, the clock) is a parameter: a record of
  functions on an environment. Drivers that are chosen at run time are records too, with the
  repository's Docker and Kuryr drivers as instances. Numbers are integers, CPU amounts are
  rationals. Lists and sets whose order Python leaves open are taken in the order of their
  source.

  \<^bold>\<open>Fuel and bounds.\<close> Only \<open>fail_fuel\<close> has fuel: failing a container detaches its volumes,
  which may fail the container again; two levels are enough, as \<open>fail_container_ends\<close> shows.
  The matching engine needs no fuel: a repetition goes on only after a non-empty match, as Python's
  does. The waits for volumes poll a given number of times, which stands for their timeout. Operations
  that the placement client retries have four attempts, as in the code.

  \<^bold>\<open>Not modelled.\<close> The web framework, the database mapper, message passing, generated code,
  configuration and process start-up; operations that only hand data through (logs, archives,
  statistics, the commit of a container to an image); the handlers of capsules and of listings; the
  CRI driver and the CNI daemon; the rounding of floating-point numbers; the text of log
  messages.
\<close>

end
